(* ===== verification/Prelude.thy ===== *)
theory Prelude
  imports Main "HOL-Library.Word"
begin

text \<open>
  Prelude of the Owmice development: the machine types, the flat byte-addressed
  memory the kernel runs on (no paging: \<open>paging_init\<close> returns at once, so every C
  pointer is a physical 32-bit address), little-endian loads and stores, address
  ranges counted modulo \<open>2 ^ 32\<close>, and C strings. The collections
  \<open>mem_simps\<close> (reading back what was stored) and \<open>frame_simps\<close> (what an
  operation leaves alone) carry the proofs of the components.
\<close>

unbundle bit_operations_syntax

named_theorems mem_simps "reading memory after a store"
named_theorems frame_simps "what an operation leaves unchanged"

type_synonym u8 = "8 word"
type_synonym u16 = "16 word"
type_synonym u32 = "32 word"
type_synonym u64 = "64 word"
type_synonym memory = "u32 \<Rightarrow> u8"

subsection \<open>Machine words\<close>

lemma unat_of_nat32 [simp]: "n < 4294967296 \<Longrightarrow> unat (of_nat n :: u32) = n"
  by (simp add: unat_of_nat)

lemma unat32_lt [simp]: "unat (x :: u32) < 4294967296"
  using unsigned_less [of x] by simp

lemma of_nat32_eq_iff:
  "m < 4294967296 \<Longrightarrow> n < 4294967296 \<Longrightarrow> ((of_nat m :: u32) = of_nat n) = (m = n)"
  by (metis unat_of_nat32)

lemma unat32_add:
  "unat (x + y :: u32) =
     (if unat x + unat y < 4294967296 then unat x + unat y else unat x + unat y - 4294967296)"
  by (simp add: unat_plus_if')

lemma unat32_sub:
  "unat (x - y :: u32) =
     (if unat y \<le> unat x then unat x - unat y else unat x + 4294967296 - unat y)"
  by (simp add: unat_sub_if')

lemma unat32_Suc: "unat (x :: u32) \<noteq> 4294967295 \<Longrightarrow> unat (x + 1) = Suc (unat x)"
  using unat32_lt [of x] by (simp add: unat32_add del: unat32_lt)

lemma unat_minus_1: "unat (- 1 :: u32) = 4294967295"
  by (simp add: unsigned_minus_1_eq_mask mask_eq_exp_minus_1)

lemma unat8_lt [simp]: "unat (x :: u8) < 256"
  using unsigned_less [of x] by simp

lemma unat16_lt [simp]: "unat (x :: u16) < 65536"
  using unsigned_less [of x] by simp

lemma unat_ucast8 [simp]: "unat (ucast (x :: u8) :: u32) = unat x"
  by (simp add: unsigned_ucast_eq take_bit_nat_eq_self_iff less_trans [OF unat8_lt])

lemma unat_ucast16 [simp]: "unat (ucast (x :: u16) :: u32) = unat x"
  by (simp add: unsigned_ucast_eq take_bit_nat_eq_self_iff less_trans [OF unat16_lt])

lemma ucast8_eq_iff: "(ucast (x :: u8) :: u32) = ucast y \<longleftrightarrow> x = y"
  by (metis unat_ucast8 word_unat_eq_iff)

lemma ucast8_eq_0 [simp]: "(ucast (x :: u8) :: u32) = 0 \<longleftrightarrow> x = 0"
  using ucast8_eq_iff [of x 0] by simp

lemma of_int32_eq_iff:
  "0 \<le> i \<Longrightarrow> i < 4294967296 \<Longrightarrow> 0 \<le> k \<Longrightarrow> k < 4294967296 \<Longrightarrow>
   ((of_int i :: u32) = of_int k) = (i = k)"
  by (simp add: word_of_int_eq_iff take_bit_int_eq_self)

lemma sint32_of_int:
  "- 2147483648 \<le> k \<Longrightarrow> k < 2147483648 \<Longrightarrow> sint (of_int k :: u32) = k"
  by (subst sint_sbintrunc') (simp add: signed_take_bit_int_eq_self)

lemma sint32_small: "unat (w :: u32) < 2147483648 \<Longrightarrow> sint w = int (unat w)"
proof -
  assume "unat w < 2147483648"
  then have "int (unat w) < 2147483648" by linarith
  then have "sint (of_int (int (unat w)) :: u32) = int (unat w)" by (intro sint32_of_int) (auto intro: order.trans [of _ 0])
  then show ?thesis by simp
qed

lemma scast8_of_int:
  "0 \<le> d \<Longrightarrow> d < 128 \<Longrightarrow> (scast (of_int d :: u8) :: u32) = of_int d"
  by (simp add: signed_of_int signed_take_bit_int_eq_self)

subsection \<open>Address ranges\<close>

text \<open>
  \<open>in_range a n x\<close>: the address \<open>x\<close> is one of the \<open>n\<close> bytes from \<open>a\<close> on, the addresses
  wrapping at \<open>2 ^ 32\<close> as pointer arithmetic does. \<open>separate\<close> is the computable form of
  "the two ranges share no address".
\<close>

definition in_range :: "u32 \<Rightarrow> nat \<Rightarrow> u32 \<Rightarrow> bool" where
  "in_range a n x \<longleftrightarrow> unat (x - a) < n"

definition separate :: "u32 \<Rightarrow> nat \<Rightarrow> u32 \<Rightarrow> nat \<Rightarrow> bool" where
  "separate a n b k \<longleftrightarrow> n = 0 \<or> k = 0 \<or> (n \<le> unat (b - a) \<and> k \<le> unat (a - b))"

definition same_outside :: "u32 \<Rightarrow> nat \<Rightarrow> memory \<Rightarrow> memory \<Rightarrow> bool" where
  "same_outside a n m m' \<longleftrightarrow> (\<forall>x. \<not> in_range a n x \<longrightarrow> m' x = m x)"

lemma separate_sym: "separate a n b k \<Longrightarrow> separate b k a n"
  by (auto simp: separate_def)

lemma separateD: "separate a n b k \<Longrightarrow> in_range a n x \<Longrightarrow> \<not> in_range b k x"
  using unat32_lt [of a] unat32_lt [of b] unat32_lt [of x]
  by (auto simp: separate_def in_range_def unat32_sub simp del: unat32_lt split: if_splits)

lemma separateD2: "separate a n b k \<Longrightarrow> in_range b k x \<Longrightarrow> \<not> in_range a n x"
  using separateD by blast

lemma in_range_offset [simp]: "i < n \<Longrightarrow> n \<le> 4294967296 \<Longrightarrow> in_range a n (a + of_nat i)"
  by (simp add: in_range_def)

lemma in_range_start [simp]: "0 < n \<Longrightarrow> in_range a n a"
  by (simp add: in_range_def)

lemma in_range_0 [simp]: "\<not> in_range a 0 x"
  by (simp add: in_range_def)

lemma in_range_ex: "in_range a n x \<longleftrightarrow> (\<exists>i < n. i < 4294967296 \<and> x = a + of_nat i)"
proof
  assume "in_range a n x"
  then show "\<exists>i < n. i < 4294967296 \<and> x = a + of_nat i"
    by (intro exI [of _ "unat (x - a)"]) (simp add: in_range_def)
qed (auto simp: in_range_def)

lemma in_range_mono: "in_range a n x \<Longrightarrow> n \<le> k \<Longrightarrow> in_range a k x"
  by (simp add: in_range_def)

lemma in_range_sub:
  "in_range (a + of_nat i) k x \<Longrightarrow> i + k \<le> n \<Longrightarrow> n \<le> 4294967296 \<Longrightarrow> in_range a n x"
  unfolding in_range_ex
proof -
  assume k: "\<exists>j < k. j < 4294967296 \<and> x = a + of_nat i + of_nat j" "i + k \<le> n" "n \<le> 4294967296"
  then obtain j where "j < k" "x = a + of_nat i + of_nat j" by blast
  with k show "\<exists>j < n. j < 4294967296 \<and> x = a + of_nat j"
    by (intro exI [of _ "i + j"]) (simp add: add.assoc)
qed

lemma separate_sub:
  assumes "separate a n b k" and "i + l \<le> n" and "n \<le> 4294967296"
  shows "separate (a + of_nat i) l b k"
proof (cases "l = 0 \<or> k = 0")
  case False
  then have "i < 4294967296" and "n \<noteq> 0" using assms by auto
  then show ?thesis using assms False unat32_lt [of a] unat32_lt [of b]
    by (auto simp: separate_def unat32_sub unat32_add simp del: unat32_lt split: if_splits)
qed (auto simp: separate_def)

lemma same_outside_refl [simp]: "same_outside a n m m"
  by (simp add: same_outside_def)

lemma same_outside_trans:
  "same_outside a n m m' \<Longrightarrow> same_outside a n m' m'' \<Longrightarrow> same_outside a n m m''"
  by (simp add: same_outside_def)

lemma same_outside_mono:
  "same_outside a n m m' \<Longrightarrow> (\<And>x. in_range a n x \<Longrightarrow> in_range b k x) \<Longrightarrow> same_outside b k m m'"
  by (auto simp: same_outside_def)

lemma same_outside_le: "same_outside a n m m' \<Longrightarrow> n \<le> k \<Longrightarrow> same_outside a k m m'"
  by (auto simp: same_outside_def in_range_def)

lemma separate_le: "separate a n b k \<Longrightarrow> i \<le> n \<Longrightarrow> j \<le> k \<Longrightarrow> separate a i b j"
  by (auto simp: separate_def)

lemma same_outside_upd: "in_range a n x \<Longrightarrow> same_outside a n m m' \<Longrightarrow>
  same_outside a n m (m'(x := v))"
  by (auto simp: same_outside_def)

lemma same_outsideD: "same_outside a n m m' \<Longrightarrow> \<not> in_range a n x \<Longrightarrow> m' x = m x"
  by (simp add: same_outside_def)

subsection \<open>Little-endian loads and stores\<close>

definition load16 :: "memory \<Rightarrow> u32 \<Rightarrow> u16" where
  "load16 m a = ucast (m a) OR push_bit 8 (ucast (m (a + 1)))"

definition store16 :: "u32 \<Rightarrow> u16 \<Rightarrow> memory \<Rightarrow> memory" where
  "store16 a v m = m(a := ucast v, a + 1 := ucast (drop_bit 8 v))"

definition load32 :: "memory \<Rightarrow> u32 \<Rightarrow> u32" where
  "load32 m a = ucast (m a) OR push_bit 8 (ucast (m (a + 1)))
     OR push_bit 16 (ucast (m (a + 2))) OR push_bit 24 (ucast (m (a + 3)))"

definition store32 :: "u32 \<Rightarrow> u32 \<Rightarrow> memory \<Rightarrow> memory" where
  "store32 a v m = m(a := ucast v, a + 1 := ucast (drop_bit 8 v),
     a + 2 := ucast (drop_bit 16 v), a + 3 := ucast (drop_bit 24 v))"

lemma load16_store16 [mem_simps]: "load16 (store16 a v m) a = v"
  unfolding load16_def store16_def
  by (rule bit_word_eqI) (auto simp: bit_simps)

lemma bytes_of_word32:
  "ucast (ucast v :: u8) OR push_bit 8 (ucast (ucast (drop_bit 8 v) :: u8))
     OR push_bit 16 (ucast (ucast (drop_bit 16 v) :: u8))
     OR push_bit 24 (ucast (ucast (drop_bit 24 v) :: u8)) = (v :: u32)"
proof (rule bit_word_eqI)
  fix n assume "n < LENGTH(32)"
  then consider "n < 8" | "8 \<le> n" "n < 16" | "16 \<le> n" "n < 24" | "24 \<le> n" "n < 32" by force
  then show "bit (ucast (ucast v :: u8) OR push_bit 8 (ucast (ucast (drop_bit 8 v) :: u8))
     OR push_bit 16 (ucast (ucast (drop_bit 16 v) :: u8))
     OR push_bit 24 (ucast (ucast (drop_bit 24 v) :: u8)) :: u32) n = bit v n"
    by cases (auto simp: bit_simps)
qed

lemma load32_store32 [mem_simps]: "load32 (store32 a v m) a = v"
  by (simp add: load32_def store32_def bytes_of_word32)

lemma in_range4: "in_range a 4 x \<longleftrightarrow> x = a \<or> x = a + 1 \<or> x = a + 2 \<or> x = a + 3"
proof -
  have "unat (x - a) < 4 \<longleftrightarrow> x - a = 0 \<or> x - a = 1 \<or> x - a = 2 \<or> x - a = 3"
    by (simp add: word_unat_eq_iff) arith
  then show ?thesis by (auto simp: in_range_def diff_eq_eq add.commute)
qed

lemma in_range2: "in_range a 2 x \<longleftrightarrow> x = a \<or> x = a + 1"
proof -
  have "unat (x - a) < 2 \<longleftrightarrow> x - a = 0 \<or> x - a = 1"
    by (simp add: word_unat_eq_iff) arith
  then show ?thesis by (auto simp: in_range_def diff_eq_eq add.commute)
qed

lemma store32_outside [mem_simps]: "\<not> in_range a 4 x \<Longrightarrow> store32 a v m x = m x"
  by (simp add: in_range4 store32_def)

lemma store16_outside [mem_simps]: "\<not> in_range a 2 x \<Longrightarrow> store16 a v m x = m x"
  by (simp add: in_range2 store16_def)

lemma same_outside_store32: "same_outside a 4 m (store32 a v m)"
  by (simp add: same_outside_def store32_outside)

lemma same_outside_store16: "same_outside a 2 m (store16 a v m)"
  by (simp add: same_outside_def store16_outside)

lemma load32_cong: "(\<And>x. in_range a 4 x \<Longrightarrow> m x = m' x) \<Longrightarrow> load32 m a = load32 m' a"
  by (simp add: load32_def in_range4)

lemma load16_cong: "(\<And>x. in_range a 2 x \<Longrightarrow> m x = m' x) \<Longrightarrow> load16 m a = load16 m' a"
  by (simp add: load16_def in_range2)

lemma load32_store32_other [mem_simps]: "separate a 4 b 4 \<Longrightarrow> load32 (store32 a v m) b = load32 m b"
  by (rule load32_cong) (metis separateD2 store32_outside)

lemma load16_store16_other [mem_simps]: "separate a 2 b 2 \<Longrightarrow> load16 (store16 a v m) b = load16 m b"
  by (rule load16_cong) (metis separateD2 store16_outside)

lemma load32_same_outside:
  "same_outside a n m m' \<Longrightarrow> separate a n b 4 \<Longrightarrow> load32 m' b = load32 m b"
  by (rule load32_cong) (metis separateD2 same_outsideD)

lemma load16_same_outside:
  "same_outside a n m m' \<Longrightarrow> separate a n b 2 \<Longrightarrow> load16 m' b = load16 m b"
  by (rule load16_cong) (metis separateD2 same_outsideD)

subsection \<open>Byte blocks and C strings\<close>

text \<open>
  \<open>bytes_at m a n\<close> reads \<open>n\<close> bytes from \<open>a\<close>. \<open>cstring m a s\<close>: the memory holds, from \<open>a\<close>
  on, the bytes \<open>s\<close> (none of them 0) and then a 0 byte, in fewer than \<open>2 ^ 32\<close> bytes.
\<close>

definition bytes_at :: "memory \<Rightarrow> u32 \<Rightarrow> nat \<Rightarrow> u8 list" where
  "bytes_at m a n = map (\<lambda>i. m (a + of_nat i)) [0..<n]"

definition cstring :: "memory \<Rightarrow> u32 \<Rightarrow> u8 list \<Rightarrow> bool" where
  "cstring m a s \<longleftrightarrow> length s < 4294967295 \<and> 0 \<notin> set s
     \<and> bytes_at m a (Suc (length s)) = s @ [0]"

fun write_bytes :: "u32 \<Rightarrow> u8 list \<Rightarrow> memory \<Rightarrow> memory" where
  "write_bytes a [] m = m"
| "write_bytes a (b # bs) m = write_bytes (a + 1) bs (m(a := b))"

lemma length_bytes_at [simp]: "length (bytes_at m a n) = n"
  by (simp add: bytes_at_def)

lemma nth_bytes_at [simp]: "i < n \<Longrightarrow> bytes_at m a n ! i = m (a + of_nat i)"
  by (simp add: bytes_at_def)

lemma bytes_at_0 [simp]: "bytes_at m a 0 = []"
  by (simp add: bytes_at_def)

lemma bytes_at_snoc: "bytes_at m a (Suc n) = bytes_at m a n @ [m (a + of_nat n)]"
  by (simp add: bytes_at_def)

lemma bytes_at_Suc: "bytes_at m a (Suc n) = m a # bytes_at m (a + 1) n"
  by (induction n) (simp_all add: bytes_at_snoc ac_simps)

lemma bytes_at_add: "bytes_at m a (n + k) = bytes_at m a n @ bytes_at m (a + of_nat n) k"
  by (induction k) (simp_all add: bytes_at_snoc ac_simps)

lemma bytes_at_cong:
  "(\<And>i. i < n \<Longrightarrow> m (a + of_nat i) = m' (a + of_nat i)) \<Longrightarrow> bytes_at m a n = bytes_at m' a n"
  by (simp add: bytes_at_def)

lemma bytes_at_same_outside:
  assumes "same_outside a n m m'" and "separate a n b k" and "k \<le> 4294967296"
  shows "bytes_at m' b k = bytes_at m b k"
proof (rule bytes_at_cong)
  fix i assume "i < k"
  then have "in_range b k (b + of_nat i)" using assms(3) by simp
  then show "m' (b + of_nat i) = m (b + of_nat i)"
    using assms(1,2) by (metis separateD2 same_outsideD)
qed

lemma take_bytes_at: "j \<le> n \<Longrightarrow> take j (bytes_at m a n) = bytes_at m a j"
  by (simp add: bytes_at_def take_map)

lemma drop_bytes_at: "j \<le> n \<Longrightarrow> drop j (bytes_at m a n) = bytes_at m (a + of_nat j) (n - j)"
  by (metis append_eq_conv_conj bytes_at_add length_bytes_at le_add_diff_inverse)

lemma cstring_nth: "cstring m a s \<Longrightarrow> i < length s \<Longrightarrow> m (a + of_nat i) = s ! i"
  unfolding cstring_def by (metis Suc_lessD Suc_mono nth_append nth_bytes_at)

lemma cstring_end: "cstring m a s \<Longrightarrow> m (a + of_nat (length s)) = 0"
  unfolding cstring_def by (metis lessI nth_append_length nth_bytes_at)

lemma cstring_nonzero: "cstring m a s \<Longrightarrow> i < length s \<Longrightarrow> m (a + of_nat i) \<noteq> 0"
  using cstring_nth by (metis cstring_def nth_mem)

lemma cstring_length: "cstring m a s \<Longrightarrow> length s < 4294967295"
  by (simp add: cstring_def)

lemma cstringI:
  assumes "length s < 4294967295" and "0 \<notin> set s"
    and "\<And>i. i < length s \<Longrightarrow> m (a + of_nat i) = s ! i" and "m (a + of_nat (length s)) = 0"
  shows "cstring m a s"
  using assms unfolding cstring_def
  by (auto intro!: nth_equalityI simp: nth_append less_Suc_eq)

lemma cstring_Nil [simp]: "cstring m a [] \<longleftrightarrow> m a = 0"
  by (simp add: cstring_def bytes_at_Suc)

lemma cstring_Cons:
  "cstring m a (c # s) \<longleftrightarrow>
     m a = c \<and> c \<noteq> 0 \<and> cstring m (a + 1) s \<and> length s < 4294967294"
  by (auto simp: cstring_def bytes_at_Suc)

lemma cstring_det: "cstring m a s \<Longrightarrow> cstring m a t \<Longrightarrow> s = t"
proof (induction s arbitrary: a t)
  case Nil
  then show ?case by (cases t) (auto simp: cstring_Cons)
next
  case (Cons c s)
  then show ?case by (cases t) (auto simp: cstring_Cons)
qed

lemma cstring_cong:
  "cstring m a s \<Longrightarrow> (\<And>x. in_range a (Suc (length s)) x \<Longrightarrow> m' x = m x) \<Longrightarrow> cstring m' a s"
  using bytes_at_cong [of "Suc (length s)" m' a m] by (simp add: cstring_def)

lemma cstring_same_outside:
  "cstring m b s \<Longrightarrow> same_outside a n m m' \<Longrightarrow> separate a n b (Suc (length s)) \<Longrightarrow> cstring m' b s"
  by (erule cstring_cong) (metis separateD2 same_outsideD)

lemma write_bytes_app: "write_bytes a (xs @ ys) m = write_bytes (a + of_nat (length xs)) ys (write_bytes a xs m)"
  by (induction xs arbitrary: a m) (simp_all add: ac_simps)

lemma write_bytes_outside:
  "\<not> in_range a (length bs) x \<Longrightarrow> length bs \<le> 4294967296 \<Longrightarrow> write_bytes a bs m x = m x"
proof (induction bs arbitrary: a m)
  case (Cons b bs)
  have ne: "x \<noteq> a" using Cons.prems by auto
  have "\<not> in_range (a + 1) (length bs) x"
    using Cons.prems in_range_sub [of a 1 "length bs" x "Suc (length bs)"] by auto
  with Cons ne show ?case by simp
qed simp

lemma same_outside_write_bytes:
  "length bs \<le> 4294967296 \<Longrightarrow> same_outside a (length bs) m (write_bytes a bs m)"
  by (simp add: same_outside_def write_bytes_outside)

lemma write_bytes_nth:
  "i < length bs \<Longrightarrow> length bs \<le> 4294967296 \<Longrightarrow> write_bytes a bs m (a + of_nat i) = bs ! i"
proof (induction bs arbitrary: a m i)
  case (Cons b bs)
  show ?case
  proof (cases i)
    case 0
    have "\<not> in_range (a + 1) (length bs) a"
      using Cons.prems by (auto simp: in_range_def unat_minus_1)
    with 0 Cons.prems show ?thesis by (simp add: write_bytes_outside)
  next
    case (Suc j)
    with Cons.prems Cons.IH [of j "a + 1"] show ?thesis by (simp add: ac_simps)
  qed
qed simp

lemma bytes_at_write_bytes [mem_simps]:
  "length bs \<le> 4294967296 \<Longrightarrow> bytes_at (write_bytes a bs m) a (length bs) = bs"
  by (rule nth_equalityI) (simp_all add: write_bytes_nth)

subsection \<open>Stores and older contents\<close>

text \<open>Ranges given by literals are compared by evaluation; a store inside a range, a load inside a range nothing was stored to.\<close>

lemmas separate_lits = separate_def [of "numeral i" _ "numeral k"] separate_def [of "0" _ "numeral k"] separate_def [of "numeral i" _ "0"] for i k

lemma store32_within:
  assumes "same_outside a n m m'" and "unat (b - a) + 4 \<le> n" and "n \<le> 4294967296"
  shows "same_outside a n m (store32 b v m')"
proof -
  have "in_range b 4 x \<Longrightarrow> in_range a n x" for x
    using in_range_sub [of a "unat (b - a)" 4 x n] assms(2,3) by simp
  then show ?thesis using same_outside_trans [OF assms(1) same_outside_mono [OF same_outside_store32]] by blast
qed

lemma load32_inside:
  assumes "same_outside a n m m'" and "separate a n b k" and "unat off + 4 \<le> k" and "k \<le> 4294967296"
  shows "load32 m' (b + off) = load32 m (b + off)"
proof (rule load32_same_outside [OF assms(1)])
  have "separate b k a n" using assms(2) by (rule separate_sym)
  then have "separate (b + of_nat (unat off)) 4 a n" by (rule separate_sub [OF _ assms(3,4)])
  then show "separate a n (b + off) 4" by (simp add: separate_sym)
qed

lemma cstring_store32: "cstring m p t \<Longrightarrow> separate a 4 p (Suc (length t)) \<Longrightarrow> cstring (store32 a v m) p t"
  by (rule cstring_same_outside [OF _ same_outside_store32])

lemma cstring_write_other:
  "cstring m p t \<Longrightarrow> separate a (length bs) p (Suc (length t)) \<Longrightarrow> length bs \<le> 4294967296 \<Longrightarrow> cstring (write_bytes a bs m) p t"
  by (rule cstring_same_outside [OF _ same_outside_write_bytes])

lemma bytes_at_store32: "separate a 4 p k \<Longrightarrow> k \<le> 4294967296 \<Longrightarrow> bytes_at (store32 a v m) p k = bytes_at m p k"
  by (rule bytes_at_same_outside [OF same_outside_store32])

lemma bytes_at_write_other:
  "separate a (length bs) p k \<Longrightarrow> length bs \<le> 4294967296 \<Longrightarrow> k \<le> 4294967296 \<Longrightarrow> bytes_at (write_bytes a bs m) p k = bytes_at m p k"
  by (rule bytes_at_same_outside [OF same_outside_write_bytes])

lemma separate_inside: "separate a n b k \<Longrightarrow> i + l \<le> k \<Longrightarrow> k \<le> 4294967296 \<Longrightarrow> separate a n (b + of_nat i) l"
  by (rule separate_sym, rule separate_sub, rule separate_sym)

lemma same_outside_inside: "same_outside (b + of_nat i) l m m' \<Longrightarrow> i + l \<le> k \<Longrightarrow> k \<le> 4294967296 \<Longrightarrow> same_outside b k m m'"
  by (erule same_outside_mono) (rule in_range_sub)

lemma load32_zero: "load32 (\<lambda>_. 0) a = 0"
  by (simp add: load32_def)

lemma bytes_at_blank: "bytes_at (\<lambda>_. 0) p n = replicate n 0"
  by (simp add: bytes_at_def map_replicate_const)

subsection \<open>Counted loops\<close>

text \<open>
  A C loop \<open>for (i = a; i < b; i++) body\<close> over a counter the body does not touch is
  \<open>fold body [a..<b]\<close>, and one that counts down is the fold over the reversed range.
\<close>

lemma fold_upt_inv:
  assumes "P a s" and "a \<le> b"
    and "\<And>i s. a \<le> i \<Longrightarrow> i < b \<Longrightarrow> P i s \<Longrightarrow> P (Suc i) (f i s)"
  shows "P b (fold f [a..<b] s)"
  using assms(2,3)
proof (induction b)
  case 0
  with assms(1) show ?case by simp
next
  case (Suc b)
  show ?case
  proof (cases "a \<le> b")
    case True
    with Suc have "P b (fold f [a..<b] s)" by simp
    with True Suc.prems(2) show ?thesis by simp
  next
    case False
    with Suc.prems assms(1) show ?thesis by (simp add: le_Suc_eq)
  qed
qed

lemma fold_rev_upt_inv:
  assumes "P n s" and "\<And>i s. i < n \<Longrightarrow> P (Suc i) s \<Longrightarrow> P i (f i s)"
  shows "P 0 (fold f (rev [0..<n]) s)"
  using assms by (induction n arbitrary: s) auto

end
