(* ===== verification/Ports.thy ===== *)
theory Ports
  imports Prelude
begin

text \<open>
  \<open>io/idt.h\<close> and the port routines of \<open>bootstrap.asm\<close>: the machine state every component
  extends (memory, the trace of the instructions that talk to devices, the devices themselves),
  port input and output, and the interrupt descriptor table.

  A device is a parameter of the state: \<open>dev8 s h p\<close> is the byte an \<open>in\<close> from port \<open>p\<close> delivers
  when \<open>h\<close> is what the processor has done so far (latest first). Nothing is assumed of it unless a theorem says so.
\<close>

subsection \<open>The machine\<close>

datatype io_event =
    Out8 u16 u8
  | Out16 u16 u16
  | In8 u16
  | In16 u16
  | Cli
  | Sti
  | Hlt
  | Lidt u32 u32

record machine =
  ram :: memory
  io :: "io_event list"
  dev8 :: "io_event list \<Rightarrow> u16 \<Rightarrow> u8"
  dev16 :: "io_event list \<Rightarrow> u16 \<Rightarrow> u16"

definition emit :: "io_event \<Rightarrow> 'a machine_scheme \<Rightarrow> 'a machine_scheme" where
  "emit e s = s\<lparr>io := e # io s\<rparr>"

definition write_port :: "u16 \<Rightarrow> u8 \<Rightarrow> 'a machine_scheme \<Rightarrow> 'a machine_scheme" where
  "write_port port data = emit (Out8 port data)"

definition read_port :: "u16 \<Rightarrow> 'a machine_scheme \<Rightarrow> u8 \<times> 'a machine_scheme" where
  "read_port port s = (dev8 s (io s) port, emit (In8 port) s)"

definition read_port16 :: "u16 \<Rightarrow> 'a machine_scheme \<Rightarrow> u16 \<times> 'a machine_scheme" where
  "read_port16 port s = (dev16 s (io s) port, emit (In16 port) s)"

definition port_write16 :: "u16 \<Rightarrow> u16 \<Rightarrow> 'a machine_scheme \<Rightarrow> 'a machine_scheme" where
  "port_write16 port data = emit (Out16 port data)"

definition cli :: "'a machine_scheme \<Rightarrow> 'a machine_scheme" where
  "cli = emit Cli"

definition sti :: "'a machine_scheme \<Rightarrow> 'a machine_scheme" where
  "sti = emit Sti"

definition wait_int :: "'a machine_scheme \<Rightarrow> 'a machine_scheme" where
  "wait_int = emit Hlt"

definition EOI :: "'a machine_scheme \<Rightarrow> 'a machine_scheme" where
  "EOI s = write_port 0xA0 0x20 (write_port 0x20 0x20 s)"

definition int_off :: "'a machine_scheme \<Rightarrow> 'a machine_scheme" where
  "int_off s = write_port 0x21 0xFF s"

text \<open>A machine with zeroed memory and silent devices, for evaluating the definitions.\<close>

definition blank_machine :: machine where
  "blank_machine = \<lparr>ram = \<lambda>_. 0, io = [], dev8 = \<lambda>_ _. 0, dev16 = \<lambda>_ _. 0\<rparr>"

subsection \<open>The interrupt descriptor table\<close>

record idt_entry =
  offset_lowerbits :: u16
  selector :: u16
  zero :: u8
  type_attr :: u8
  offset_higherbits :: u16

text \<open>The table has 256 entries and is indexed with a \<open>uint8_t\<close>, so a total function of \<open>u8\<close> is that array.\<close>

record idt = machine +
  IDT :: "u8 \<Rightarrow> idt_entry"

definition irq_map_handler :: "u8 \<Rightarrow> u32 \<Rightarrow> 'a idt_scheme \<Rightarrow> 'a idt_scheme" where
  "irq_map_handler num base s =
     s\<lparr>IDT := (IDT s)(num := \<lparr>offset_lowerbits = ucast (base AND 0xFFFF), selector = 0x08, zero = 0,
       type_attr = 0x8e, offset_higherbits = ucast (drop_bit 16 (base AND 0xffff0000))\<rparr>)\<rparr>"

definition ports_remap :: "'a machine_scheme \<Rightarrow> 'a machine_scheme" where
  "ports_remap s = fold (\<lambda>(p, d). write_port p d)
     [(0x20, 0x11), (0xA0, 0x11), (0x21, 0x20), (0xA1, 0x28), (0x21, 0x00), (0xA1, 0x00),
      (0x21, 0x01), (0xA1, 0x01), (0x21, 0xff), (0xA1, 0xff)] s"

text \<open>\<open>load_idt\<close> executes \<open>lidt [idt_ptr]; sti\<close>; the event keeps the two words of the pointer array.\<close>

definition load_idt :: "u32 \<times> u32 \<Rightarrow> 'a machine_scheme \<Rightarrow> 'a machine_scheme" where
  "load_idt p s = sti (emit (Lidt (fst p) (snd p)) s)"

definition idt_init :: "u32 \<Rightarrow> 'a machine_scheme \<Rightarrow> 'a machine_scheme" where
  "idt_init idt_addr s =
     load_idt (8 * 256 + push_bit 16 (idt_addr AND 0xffff), drop_bit 16 idt_addr) (ports_remap s)"

subsection \<open>Facts\<close>

lemmas port_defs = emit_def write_port_def read_port_def read_port16_def port_write16_def
  cli_def sti_def wait_int_def EOI_def int_off_def

lemma ram_ports [frame_simps, simp]:
  "ram (emit e s) = ram s" "ram (write_port p d s) = ram s" "ram (snd (read_port p s)) = ram s"
  "ram (snd (read_port16 p s)) = ram s" "ram (port_write16 p w s) = ram s" "ram (cli s) = ram s" "ram (sti s) = ram s"
  "ram (wait_int s) = ram s" "ram (EOI s) = ram s" "ram (int_off s) = ram s"
  by (simp_all add: port_defs)

text \<open>The processor reads the handler's address from the two halves of the entry.\<close>

definition handler_of :: "idt_entry \<Rightarrow> u32" where
  "handler_of e = ucast (offset_lowerbits e) OR push_bit 16 (ucast (offset_higherbits e))"

text \<open>The descriptor \<open>lidt\<close> loads from the six bytes at \<open>idt_ptr\<close>: a 16-bit limit and a 32-bit base.\<close>

definition lidt_limit :: "u32 \<times> u32 \<Rightarrow> u32" where
  "lidt_limit p = fst p AND 0xFFFF"

definition lidt_base :: "u32 \<times> u32 \<Rightarrow> u32" where
  "lidt_base p = drop_bit 16 (fst p) OR push_bit 16 (snd p)"

lemma mask_FFFF: "(0xFFFF :: 'a :: len word) = mask 16"
  by (simp add: mask_eq_exp_minus_1)

lemma halves_of_word:
  "ucast (ucast (b AND 0xFFFF) :: u16) OR push_bit 16 (ucast (ucast (drop_bit 16 (b AND 0xffff0000)) :: u16)) = (b :: u32)"
proof -
  have h: "(0xffff0000 :: u32) = push_bit 16 (mask 16)" by (simp add: mask_eq_exp_minus_1 push_bit_eq_mult)
  show ?thesis
    unfolding mask_FFFF h by (rule bit_word_eqI) (auto simp: bit_simps)
qed

text \<open>\<open>irq_map_handler\<close> installs the handler: the gate the processor reads for the vector leads to
  the given address with the kernel's code selector and the interrupt-gate type, and no other vector changes.\<close>

theorem irq_map_handler_installs:
  "handler_of (IDT (irq_map_handler num base s) num) = base
    \<and> selector (IDT (irq_map_handler num base s) num) = 0x08
    \<and> type_attr (IDT (irq_map_handler num base s) num) = 0x8e
    \<and> (\<forall>v. v = num \<or> IDT (irq_map_handler num base s) v = IDT s v)"
  using halves_of_word [of base] by (simp add: irq_map_handler_def handler_of_def)

lemma idt_frame [simp]: "ram (irq_map_handler n b s) = ram s"
  by (simp add: irq_map_handler_def)

lemma idt_init_io:
  "io (idt_init a s) = [Sti, Lidt (2048 + push_bit 16 (a AND 0xffff)) (drop_bit 16 a),
     Out8 0xA1 0xff, Out8 0x21 0xff, Out8 0xA1 0x01, Out8 0x21 0x01, Out8 0xA1 0, Out8 0x21 0,
     Out8 0xA1 0x28, Out8 0x21 0x20, Out8 0xA0 0x11, Out8 0x20 0x11] @ io s"
  by (simp add: idt_init_def load_idt_def ports_remap_def port_defs)

text \<open>The descriptor \<open>idt_init\<close> loads has the table's address as its base; its limit is the
  table's size 2048, where the last valid offset is 2047.\<close>

theorem idt_init_descriptor:
  "\<exists>p. io (idt_init a s) ! 0 = Sti \<and> io (idt_init a s) ! 1 = Lidt (fst p) (snd p)
    \<and> lidt_base p = a \<and> lidt_limit p = 2048"
proof -
  let ?p = "(2048 + push_bit 16 (a AND 0xffff), drop_bit 16 a)"
  have b: "bit (2048 :: int) n \<longleftrightarrow> n = 11" for n
    using bit_exp_iff [where 'a = int, of 11 n] by auto
  have "2048 AND push_bit 16 (a AND mask 16) = 0"
    by (rule bit_word_eqI) (auto simp: bit_simps b)
  then have add: "2048 + push_bit 16 (a AND 0xffff) = 2048 OR push_bit 16 (a AND mask 16)"
    unfolding mask_FFFF by (rule disjunctive_add_eq_or)
  have 1: "lidt_base ?p = a"
    unfolding lidt_base_def fst_conv snd_conv add
    by (rule bit_word_eqI) (rename_tac n, case_tac "n < 16", auto simp: bit_simps b)
  have 2: "lidt_limit ?p = 2048"
    unfolding lidt_limit_def fst_conv add unfolding mask_FFFF
    by (rule bit_word_eqI) (auto simp: bit_simps b)
  from 1 2 show ?thesis
    by (intro exI [of _ ?p]) (simp add: idt_init_io)
qed

end
