(* ===== verification/MemOps.thy ===== *)
theory MemOps
  imports Prelude
begin

text \<open>
  The memory routines of \<open>standard/stdio.h\<close>: \<open>memmove\<close>, \<open>memcmp\<close>, \<open>memset\<close>, \<open>memcpy\<close>,
  over the flat memory. \<open>size_t\<close> is 32 bits wide; each routine returns its destination
  pointer, which the callers ignore, so the model returns the new memory only.
\<close>

subsection \<open>Operations\<close>

definition memmove :: "u32 \<Rightarrow> u32 \<Rightarrow> u32 \<Rightarrow> memory \<Rightarrow> memory" where
  "memmove dst src sz m =
     (if dst < src
      then fold (\<lambda>i m. m(dst + of_nat i := m (src + of_nat i))) [0..<unat sz] m
      else fold (\<lambda>i m. m(dst + of_nat i := m (src + of_nat i))) (rev [0..<unat sz]) m)"

fun memcmp_loop :: "u32 \<Rightarrow> u32 \<Rightarrow> nat list \<Rightarrow> memory \<Rightarrow> int" where
  "memcmp_loop a b [] m = 0"
| "memcmp_loop a b (i # is) m =
     (if m (a + of_nat i) < m (b + of_nat i) then -1
      else if m (b + of_nat i) < m (a + of_nat i) then 1
      else memcmp_loop a b is m)"

definition memcmp :: "u32 \<Rightarrow> u32 \<Rightarrow> u32 \<Rightarrow> memory \<Rightarrow> int" where
  "memcmp a b sz m = memcmp_loop a b [0..<unat sz] m"

definition memset :: "u32 \<Rightarrow> u8 \<Rightarrow> u32 \<Rightarrow> memory \<Rightarrow> memory" where
  "memset buf v sz m = fold (\<lambda>i m. m(buf + of_nat i := v)) [0..<unat sz] m"

definition memcpy :: "u32 \<Rightarrow> u32 \<Rightarrow> u32 \<Rightarrow> memory \<Rightarrow> memory" where
  "memcpy dst src sz m =
     fold (\<lambda>i m. m(dst + of_nat i := m (src + of_nat i))) [0..<unat sz] m"

subsection \<open>memset\<close>

lemma memset_at: "memset buf v sz m x = (if in_range buf (unat sz) x then v else m x)"
proof -
  have "\<forall>x. fold (\<lambda>i m. m(buf + of_nat i := v)) [0..<n] m x =
      (if in_range buf n x then v else m x)" if "n \<le> unat sz" for n
    using that
  proof (induction n)
    case (Suc n)
    then have n: "n < 4294967296" using unat32_lt [of sz] by linarith
    have "in_range buf (Suc n) x \<longleftrightarrow> in_range buf n x \<or> x = buf + of_nat n" for x
      using n by (auto simp: in_range_ex less_Suc_eq)
    with Suc show ?case by auto
  qed simp
  then show ?thesis unfolding memset_def by blast
qed

lemma same_outside_memset [frame_simps]:
  "same_outside buf (unat sz) m (memset buf v sz m)"
  by (simp add: same_outside_def memset_at)

lemma bytes_at_memset [mem_simps]: "bytes_at (memset buf v sz m) buf (unat sz) = replicate (unat sz) v"
  by (rule nth_equalityI) (simp_all add: memset_at order.strict_implies_order)

subsection \<open>memcpy and memmove\<close>

text \<open>Copying upwards is right when no destination byte precedes the source byte that is still to be read.\<close>

definition no_wrap :: "u32 \<Rightarrow> nat \<Rightarrow> bool" where
  "no_wrap a n \<longleftrightarrow> unat a + n \<le> 4294967296"

lemma copy_up:
  fixes m :: memory
  assumes n: "n \<le> 4294967296"
    and ahead: "\<And>i j. j < i \<Longrightarrow> i < n \<Longrightarrow> src + of_nat i \<noteq> dst + of_nat j"
  shows "fold (\<lambda>i m. m(dst + of_nat i := m (src + of_nat i))) [0..<n] m x =
    (if in_range dst n x then m (src + (x - dst)) else m x)"
proof -
  let ?f = "\<lambda>i (m :: memory). m(dst + of_nat i := m (src + of_nat i))"
  have "\<forall>x. fold ?f [0..<k] m x = (if in_range dst k x then m (src + (x - dst)) else m x)"
    if "k \<le> n" for k using that
  proof (induction k)
    case (Suc k)
    then have k: "k < 4294967296" using n by simp
    have "\<not> in_range dst k (src + of_nat k)"
      using ahead Suc.prems by (auto simp: in_range_ex)
    moreover have "in_range dst (Suc k) x \<longleftrightarrow> in_range dst k x \<or> x = dst + of_nat k" for x
      using k by (auto simp: in_range_ex less_Suc_eq)
    ultimately show ?case using Suc k by auto
  qed simp
  then show ?thesis by blast
qed

lemma copy_down:
  fixes m :: memory
  assumes n: "n \<le> 4294967296"
    and behind: "\<And>i j. i < j \<Longrightarrow> j < n \<Longrightarrow> src + of_nat i \<noteq> dst + of_nat j"
  shows "fold (\<lambda>i m. m(dst + of_nat i := m (src + of_nat i))) (rev [0..<n]) m x =
    (if in_range dst n x then m (src + (x - dst)) else m x)"
proof -
  let ?f = "\<lambda>i (m :: memory). m(dst + of_nat i := m (src + of_nat i))"
  let ?P = "\<lambda>k m'. \<forall>x. m' x = (if (\<exists>j \<ge> k. j < n \<and> x = dst + of_nat j) then m (src + (x - dst)) else m x)"
  have "?P 0 (fold ?f (rev [0..<n]) m)"
  proof (rule fold_rev_upt_inv [where P = ?P])
    fix i m' assume i: "i < n" and P: "?P (Suc i) m'"
    have "m' (src + of_nat i) = m (src + of_nat i)"
      using P behind [of i] by (auto simp: Suc_le_eq)
    then show "?P i (?f i m')"
      using P i by (auto simp: Suc_le_eq le_less)
  qed auto
  moreover have "(\<exists>j. j < n \<and> x = dst + of_nat j) \<longleftrightarrow> in_range dst n x"
    using n by (auto simp: in_range_ex)
  ultimately show ?thesis by auto
qed

lemma memcpy_at:
  assumes "separate dst (unat sz) src (unat sz)"
  shows "memcpy dst src sz m x =
    (if in_range dst (unat sz) x then m (src + (x - dst)) else m x)"
  unfolding memcpy_def
proof (rule copy_up)
  fix i j :: nat assume "j < i" and "i < unat sz"
  then have "in_range src (unat sz) (src + of_nat i)" and "in_range dst (unat sz) (dst + of_nat j)"
    by (simp_all add: order.strict_implies_order)
  then show "src + of_nat i \<noteq> dst + of_nat j" using separateD [OF assms] by metis
qed (simp add: order.strict_implies_order)

lemma memcpy_frame:
  "same_outside dst (unat sz) m (memcpy dst src sz m)"
  unfolding memcpy_def
  by (rule fold_upt_inv [where P = "\<lambda>_ m'. same_outside dst (unat sz) m m'"])
    (auto intro!: same_outside_upd in_range_offset simp: order.strict_implies_order)

lemma same_outside_memcpy [frame_simps]:
  "separate dst (unat sz) src (unat sz) \<Longrightarrow>
   same_outside dst (unat sz) m (memcpy dst src sz m)"
  by (simp add: same_outside_def memcpy_at)

lemma bytes_at_memcpy [mem_simps]:
  "separate dst (unat sz) src (unat sz) \<Longrightarrow>
   bytes_at (memcpy dst src sz m) dst (unat sz) = bytes_at m src (unat sz)"
  by (rule nth_equalityI) (simp_all add: memcpy_at order.strict_implies_order)

lemma no_wrap_unat: "no_wrap a n \<Longrightarrow> i < n \<Longrightarrow> unat (a + of_nat i) = unat a + i"
  by (simp add: no_wrap_def unat32_add)

lemma memmove_at:
  assumes "no_wrap dst (unat sz)" and "no_wrap src (unat sz)"
  shows "memmove dst src sz m x =
    (if in_range dst (unat sz) x then m (src + (x - dst)) else m x)"
proof (cases "dst < src")
  case True
  have "src + of_nat i \<noteq> dst + of_nat j" if "j < i" "i < unat sz" for i j
    using True that no_wrap_unat [OF assms(1), of j] no_wrap_unat [OF assms(2), of i]
    by (auto simp: word_less_nat_alt)
  then show ?thesis
    using True by (simp add: memmove_def copy_up order.strict_implies_order)
next
  case False
  have "src + of_nat i \<noteq> dst + of_nat j" if "i < j" "j < unat sz" for i j
    using False that no_wrap_unat [OF assms(1), of j] no_wrap_unat [OF assms(2), of i]
    by (auto simp: word_less_nat_alt not_less)
  then show ?thesis
    using False by (simp add: memmove_def copy_down order.strict_implies_order)
qed

text \<open>C38. \<open>memmove\<close> copies the source block as it was before the call, however the two
  blocks overlap, and writes no byte outside the destination block.\<close>

theorem memmove_correct:
  assumes "no_wrap dst (unat sz)" and "no_wrap src (unat sz)"
  shows "bytes_at (memmove dst src sz m) dst (unat sz) = bytes_at m src (unat sz)
    \<and> same_outside dst (unat sz) m (memmove dst src sz m)"
proof
  show "bytes_at (memmove dst src sz m) dst (unat sz) = bytes_at m src (unat sz)"
    by (rule nth_equalityI) (simp_all add: memmove_at [OF assms] order.strict_implies_order)
  show "same_outside dst (unat sz) m (memmove dst src sz m)"
    by (simp add: same_outside_def memmove_at [OF assms])
qed

theorem memmove_correct_witness:
  "bytes_at (memmove 11 10 3 ((\<lambda>_. 0)(10 := 1, 11 := 2, 12 := 3))) 11 3 = [1, 2, 3]"
proof -
  let ?m = "(\<lambda>_. 0)(10 := 1, 11 := 2, 12 := 3) :: memory"
  have "bytes_at ?m 10 3 = [1, 2, 3]" by (simp add: eval_nat_numeral bytes_at_Suc)
  then show ?thesis using memmove_correct [of 11 3 10 ?m] by (simp add: no_wrap_def)
qed

subsection \<open>memcmp\<close>

lemma memcmp_loop_0: "memcmp_loop a b is m = 0 \<longleftrightarrow> (\<forall>i \<in> set is. m (a + of_nat i) = m (b + of_nat i))"
  by (induction "is") (auto simp: not_less)

lemma memcmp_eq_0: "memcmp a b sz m = 0 \<longleftrightarrow> bytes_at m a (unat sz) = bytes_at m b (unat sz)"
  by (auto simp: memcmp_def memcmp_loop_0 list_eq_iff_nth_eq)

end
