(* ===== verification/Vga.thy ===== *)
theory Vga
  imports Ports MemOps
begin

text \<open>
  \<open>screen/vga.h\<close>: colours and text-mode cells, and the register and font loader that switches the
  adapter to the 90x30 text mode. The register table and the font are arrays of the kernel image, passed
  as addresses; the adapter's answers come from the device of the machine state.
\<close>

subsection \<open>Colours and cells\<close>

datatype vga_color = VGA_COLOR_BLACK | VGA_COLOR_BLUE | VGA_COLOR_GREEN | VGA_COLOR_CYAN | VGA_COLOR_RED
  | VGA_COLOR_MAGENTA | VGA_COLOR_BROWN | VGA_COLOR_LIGHT_GREY | VGA_COLOR_DARK_GREY | VGA_COLOR_LIGHT_BLUE
  | VGA_COLOR_LIGHT_GREEN | VGA_COLOR_LIGHT_CYAN | VGA_COLOR_LIGHT_RED | VGA_COLOR_LIGHT_MAGENTA
  | VGA_COLOR_LIGHT_BROWN | VGA_COLOR_WHITE

primrec color_code :: "vga_color \<Rightarrow> u8" where
  "color_code VGA_COLOR_BLACK = 0" | "color_code VGA_COLOR_BLUE = 1"
| "color_code VGA_COLOR_GREEN = 2" | "color_code VGA_COLOR_CYAN = 3"
| "color_code VGA_COLOR_RED = 4" | "color_code VGA_COLOR_MAGENTA = 5"
| "color_code VGA_COLOR_BROWN = 6" | "color_code VGA_COLOR_LIGHT_GREY = 7"
| "color_code VGA_COLOR_DARK_GREY = 8" | "color_code VGA_COLOR_LIGHT_BLUE = 9"
| "color_code VGA_COLOR_LIGHT_GREEN = 10" | "color_code VGA_COLOR_LIGHT_CYAN = 11"
| "color_code VGA_COLOR_LIGHT_RED = 12" | "color_code VGA_COLOR_LIGHT_MAGENTA = 13"
| "color_code VGA_COLOR_LIGHT_BROWN = 14" | "color_code VGA_COLOR_WHITE = 15"

text \<open>The parameters of \<open>vga_entry_color\<close> are of the enumeration type, which \<open>draw\<close> fills with any byte.\<close>

definition vga_entry_color :: "u8 \<Rightarrow> u8 \<Rightarrow> u8" where
  "vga_entry_color fg bg = fg OR push_bit 4 bg"

definition vga_entry :: "u8 \<Rightarrow> u8 \<Rightarrow> u16" where
  "vga_entry uc color = ucast uc OR push_bit 8 (ucast color)"

subsection \<open>Register and font loading\<close>

definition set_plane :: "u32 \<Rightarrow> 'a machine_scheme \<Rightarrow> 'a machine_scheme" where
  "set_plane p s =
     (let p = p AND 3; pmask = push_bit (unat p) 1;
          s = write_port 0x3CE 4 s; s = write_port 0x3CF (ucast p) s;
          s = write_port 0x3C4 2 s
      in write_port 0x3C5 pmask s)"

definition get_fb_seg :: "'a machine_scheme \<Rightarrow> u32 \<times> 'a machine_scheme" where
  "get_fb_seg s =
     (let s = write_port 0x3CE 6 s; (v, s) = read_port 0x3CF s;
          seg = drop_bit 2 (scast v :: u32) AND 3
      in (if seg = 0 \<or> seg = 1 then 0xA000 else if seg = 2 then 0xB000 else 0xB800, s))"

definition vmemwr :: "u32 \<Rightarrow> u32 \<Rightarrow> u32 \<Rightarrow> 'a machine_scheme \<Rightarrow> 'a machine_scheme" where
  "vmemwr dst_off src count s =
     (let (seg, s) = get_fb_seg s
      in s\<lparr>ram := memcpy (seg * 16 + dst_off) src count (ram s)\<rparr>)"

definition reg_pair :: "u16 \<Rightarrow> u16 \<Rightarrow> nat \<Rightarrow> u32 \<times> 'a machine_scheme \<Rightarrow> u32 \<times> 'a machine_scheme" where
  "reg_pair index_port data_port i rs =
     (let (regs, s) = rs; s = write_port index_port (of_nat i) s;
          s = write_port data_port (ram s regs) s
      in (regs + 1, s))"

definition ac_pair :: "nat \<Rightarrow> u32 \<times> 'a machine_scheme \<Rightarrow> u32 \<times> 'a machine_scheme" where
  "ac_pair i rs = (let (regs, s) = rs in reg_pair 0x3C0 0x3C0 i (regs, snd (read_port 0x3DA s)))"

definition write_regs :: "u32 \<Rightarrow> 'a machine_scheme \<Rightarrow> 'a machine_scheme" where
  "write_regs regs s =
     (let s = write_port 0x3C2 (ram s regs) s;
          (regs, s) = fold (reg_pair 0x3C4 0x3C5) [0..<5] (regs + 1, s);
          s = write_port 0x3D4 0x03 s;
          (v, s) = read_port 0x3D5 s; s = write_port 0x3D5 (v OR 0x80) s;
          s = write_port 0x3D4 0x11 s;
          (v, s) = read_port 0x3D5 s; s = write_port 0x3D5 (v AND NOT 0x80) s;
          s = s\<lparr>ram := (ram s)(regs + 0x03 := ram s (regs + 0x03) OR 0x80)\<rparr>;
          s = s\<lparr>ram := (ram s)(regs + 0x11 := ram s (regs + 0x11) AND NOT 0x80)\<rparr>;
          (regs, s) = fold (reg_pair 0x3D4 0x3D5) [0..<25] (regs, s);
          (regs, s) = fold (reg_pair 0x3CE 0x3CF) [0..<9] (regs, s);
          (regs, s) = fold ac_pair [0..<21] (regs, s);
          (_, s) = read_port 0x3DA s
      in write_port 0x3C0 0x20 s)"

definition font_glyph :: "u32 \<Rightarrow> nat \<Rightarrow> u32 \<times> 'a machine_scheme \<Rightarrow> u32 \<times> 'a machine_scheme" where
  "font_glyph font_height i bs =
     (let (buf, s) = bs; s = vmemwr (of_nat i * 32) buf font_height s in (buf + font_height, s))"

definition write_font :: "u32 \<Rightarrow> u32 \<Rightarrow> 'a machine_scheme \<Rightarrow> 'a machine_scheme" where
  "write_font buf font_height s =
     (let s = write_port 0x3C4 2 s; (seq2, s) = read_port 0x3C5 s;
          s = write_port 0x3C4 4 s; (seq4, s) = read_port 0x3C5 s;
          s = write_port 0x3C5 (seq4 OR 0x04) s;
          s = write_port 0x3CE 4 s; (gc4, s) = read_port 0x3CF s;
          s = write_port 0x3CE 5 s; (gc5, s) = read_port 0x3CF s;
          s = write_port 0x3CF (gc5 AND NOT 0x10) s;
          s = write_port 0x3CE 6 s; (gc6, s) = read_port 0x3CF s;
          s = write_port 0x3CF (gc6 AND NOT 0x02) s;
          s = set_plane 2 s;
          (buf, s) = fold (font_glyph font_height) [0..<256] (buf, s);
          s = write_port 0x3C4 2 s; s = write_port 0x3C5 seq2 s;
          s = write_port 0x3C4 4 s; s = write_port 0x3C5 seq4 s;
          s = write_port 0x3CE 4 s; s = write_port 0x3CF gc4 s;
          s = write_port 0x3CE 5 s; s = write_port 0x3CF gc5 s;
          s = write_port 0x3CE 6 s
      in write_port 0x3CF gc6 s)"

subsection \<open>Facts\<close>

lemma vga_entry_inj: "vga_entry c a = vga_entry d b \<longleftrightarrow> c = d \<and> a = b"
proof
  assume e: "vga_entry c a = vga_entry d b"
  have "c = ucast (vga_entry c a)" "a = ucast (drop_bit 8 (vga_entry c a))" for c a
    unfolding vga_entry_def by (rule bit_word_eqI, auto simp: bit_simps dest: bit_imp_le_length)+
  with e show "c = d \<and> a = b" by metis
qed simp

lemma ram_set_plane [simp]: "ram (set_plane p s) = ram s"
  by (simp add: set_plane_def Let_def)

lemma ram_get_fb_seg [simp]: "ram (snd (get_fb_seg s)) = ram s"
  by (simp add: get_fb_seg_def Let_def split_beta)

lemma get_fb_seg_cases: "fst (get_fb_seg s) \<in> {0xA000, 0xB000, 0xB800}"
  by (auto simp: get_fb_seg_def Let_def split_beta)

text \<open>The window of the adapter: \<open>0xA0000\<close> to \<open>0xBFFFF\<close>.\<close>

lemma vmemwr_frame:
  assumes "unat off + unat count \<le> 32768"
  shows "same_outside 0xA0000 0x20000 (ram s) (ram (vmemwr off src count s))"
proof -
  define seg where "seg = fst (get_fb_seg s)"
  have seg: "seg \<in> {0xA000, 0xB000, 0xB800}" unfolding seg_def by (rule get_fb_seg_cases)
  have "same_outside (seg * 16 + off) (unat count) (ram s) (memcpy (seg * 16 + off) src count (ram s))"
    by (rule memcpy_frame)
  moreover have "in_range 0xA0000 0x20000 x" if "in_range (seg * 16 + off) (unat count) x" for x
  proof -
    have "seg * 16 + off = 0xA0000 + of_nat (unat (seg * 16 + off - 0xA0000))" by simp
    moreover have "unat (seg * 16 + off - 0xA0000) + unat count \<le> 0x20000"
      using seg assms by (auto simp: unat32_add unat32_sub)
    ultimately show ?thesis using that in_range_sub [of "0xA0000" "unat (seg * 16 + off - 0xA0000)"] by auto
  qed
  ultimately show ?thesis
    by (auto simp: vmemwr_def split_beta seg_def intro: same_outside_mono)
qed

lemma write_font_frame_upto:
  assumes h: "unat font_height \<le> 32" and n: "n \<le> 256" and m: "ram s = m"
  shows "same_outside 0xA0000 0x20000 m (ram (snd (fold (font_glyph font_height) [0..<n] (buf, s))))"
  using n
proof (induction n)
  case (Suc n)
  obtain b t where bt: "fold (font_glyph font_height) [0..<n] (buf, s) = (b, t)" by force
  have "unat (of_nat n * 32 :: u32) = n * 32"
    using Suc.prems by (simp add: unat_mult_lem [THEN iffD1])
  then have "same_outside 0xA0000 0x20000 (ram t) (ram (vmemwr (of_nat n * 32) b font_height t))"
    using h Suc.prems by (intro vmemwr_frame) simp
  moreover have "same_outside 0xA0000 0x20000 m (ram t)" using Suc m bt by simp
  ultimately have "same_outside 0xA0000 0x20000 m (ram (vmemwr (of_nat n * 32) b font_height t))"
    by (rule same_outside_trans [rotated])
  then show ?case by (simp add: bt) (simp add: font_glyph_def)
qed (simp add: m)

text \<open>Loading a font with glyphs of at most 32 rows writes to the adapter's window
  \<open>0xA0000\<close>..\<open>0xBFFFF\<close> only, whatever the adapter answers.\<close>

theorem write_font_in_window:
  assumes "unat font_height \<le> 32"
  shows "same_outside 0xA0000 0x20000 (ram s) (ram (write_font buf font_height s))"
  unfolding write_font_def Let_def split_beta
  by (simp only: ram_ports) (rule write_font_frame_upto [OF assms], simp_all)

theorem write_font_in_window_witness:
  "same_outside 0xA0000 0x20000 (\<lambda>_. 0) (ram (write_font 0x2000 16 blank_machine))"
  using write_font_in_window [of 16 "blank_machine" "0x2000"] by (simp add: blank_machine_def)

end
