(* ===== verification/Strings.thy ===== *)
theory Strings
  imports MemOps "HOL-Library.Signed_Division" "HOL-Library.Monad_Syntax"
begin

text \<open>
  \<open>standard/strings.h\<close> over the flat memory. A loop that scans for a NUL byte is
  \<open>partial_function (option)\<close>: \<open>None\<close> is the scan that wraps around the address space
  for ever because no NUL byte exists. A C \<open>char\<close> is a byte; where the code uses its
  (signed) value the model sign-extends. Signed \<open>int\<close> arithmetic wraps, as on i386.
\<close>

subsection \<open>Scanning\<close>

partial_function (option) strchr :: "memory \<Rightarrow> u32 \<Rightarrow> u32 \<Rightarrow> u32 option" where
  "strchr m s c =
     (if m s \<noteq> ucast c then (if m s = 0 then Some 0 else strchr m (s + 1) c) else Some s)"

partial_function (option) strlen_loop :: "memory \<Rightarrow> u32 \<Rightarrow> u32 \<Rightarrow> u32 option" where
  "strlen_loop m str len = (if m (str + len) \<noteq> 0 then strlen_loop m str (len + 1) else Some len)"

definition strlen :: "memory \<Rightarrow> u32 \<Rightarrow> u32 option" where
  "strlen m str = strlen_loop m str 0"

definition abs_c :: "u32 \<Rightarrow> u32" where
  "abs_c num = (if sint num < 0 then num * (- 1) else num)"

partial_function (option) atoi_loop :: "memory \<Rightarrow> u32 \<Rightarrow> u32 \<Rightarrow> u32 \<Rightarrow> u32 option" where
  "atoi_loop m str i res =
     (if m (str + i) \<noteq> 0 then atoi_loop m str (i + 1) (res * 10 + scast (m (str + i)) - 48)
      else Some res)"

definition atoi :: "memory \<Rightarrow> u32 \<Rightarrow> u32 option" where
  "atoi m str =
     (if m str = 45 then map_option (\<lambda>res. (- 1) * res) (atoi_loop m str 1 0)
      else map_option (\<lambda>res. 1 * res) (atoi_loop m str 0 0))"

partial_function (option) cmp_loop :: "memory \<Rightarrow> u32 \<Rightarrow> u32 \<Rightarrow> u32 option" where
  "cmp_loop m s1 s2 =
     (if m s1 \<noteq> 0 \<and> m s1 = m s2 then cmp_loop m (s1 + 1) (s2 + 1)
      else Some (ucast (m s1) - ucast (m s2)))"

definition cmp :: "memory \<Rightarrow> u32 \<Rightarrow> u32 \<Rightarrow> u32 option" where
  "cmp m s1 s2 = cmp_loop m s1 s2"

definition streq :: "memory \<Rightarrow> u32 \<Rightarrow> u32 \<Rightarrow> bool option" where
  "streq m s1 s2 = map_option (\<lambda>r. r = 0) (cmp m s1 s2)"

definition isspace :: "u8 \<Rightarrow> bool" where
  "isspace c \<longleftrightarrow> c = 32 \<or> c = 10 \<or> c = 9 \<or> c = 11 \<or> c = 12 \<or> c = 13"

subsection \<open>Reversing and number conversion\<close>

definition swap_chars :: "u32 \<Rightarrow> u32 \<Rightarrow> memory \<Rightarrow> memory" where
  "swap_chars x y m = (let t = m x; m = m(x := m y) in m(y := t))"

text \<open>\<open>reverse\<close>: the two \<open>int\<close> indices move towards each other, so they cannot overflow.\<close>

function reverse_c :: "u32 \<Rightarrow> int \<Rightarrow> int \<Rightarrow> memory \<Rightarrow> memory" where
  "reverse_c buffer i j m =
     (if i < j
      then reverse_c buffer (i + 1) (j - 1) (swap_chars (buffer + of_int i) (buffer + of_int j) m)
      else m)"
  by pat_completeness auto
termination
  by (relation "measure (\<lambda>(buffer, i, j, m). nat (j - i))") auto

declare reverse_c.simps [simp del]

text \<open>
  The digit loop of \<open>itoa\<close>; \<open>n\<close> may be negative (\<open>abs (INT_MIN) = INT_MIN\<close>), and C division
  truncates towards zero. Its only caller has returned already unless \<open>2 \<le> base\<close>, which the
  guard repeats for termination.
\<close>

function itoa_loop :: "u32 \<Rightarrow> int \<Rightarrow> int \<Rightarrow> int \<Rightarrow> memory \<Rightarrow> int \<times> memory" where
  "itoa_loop buffer base n i m =
     (if n \<noteq> 0 \<and> 2 \<le> base
      then (let r = n smod base;
                c = (if r \<ge> 10 then 65 + (r - 10) else 48 + r)
            in itoa_loop buffer base (n sdiv base) (i + 1) (m(buffer + of_int i := of_int c)))
      else (i, m))"
  by pat_completeness auto
termination
proof (relation "measure (\<lambda>(buffer, base, n, i, m). nat \<bar>n\<bar>)")
  fix buffer :: u32 and base n i r c :: int and m :: memory
  assume "n \<noteq> 0 \<and> 2 \<le> base"
  then have "\<bar>n sdiv base\<bar> < \<bar>n\<bar>"
    using int_div_less_self [of "\<bar>n\<bar>" base]
    by (simp add: signed_divide_int_def abs_mult abs_sgn_eq pos_imp_zdiv_nonneg_iff)
  then show "((buffer, base, n sdiv base, i + 1, m(buffer + of_int i := of_int c)), (buffer, base, n, i, m))
    \<in> measure (\<lambda>(buffer, base, n, i, m). nat \<bar>n\<bar>)" by simp
qed simp

declare itoa_loop.simps [simp del]

definition itoa :: "u32 \<Rightarrow> u32 \<Rightarrow> int \<Rightarrow> memory \<Rightarrow> memory" where
  "itoa v buffer base m =
     (if base < 2 \<or> base > 32 then m
      else let (i, m) = itoa_loop buffer base (sint (abs_c v)) 0 m;
               (i, m) = (if i = 0 then (i + 1, m(buffer + of_int i := 48)) else (i, m));
               (i, m) = (if sint v < 0 \<and> base = 10 then (i + 1, m(buffer + of_int i := 45)) else (i, m));
               m = m(buffer + of_int i := 0)
           in reverse_c buffer 0 (i - 1) m)"

subsection \<open>Copying\<close>

partial_function (option) strcat_copy :: "u32 \<Rightarrow> u32 \<Rightarrow> u32 \<Rightarrow> memory \<Rightarrow> memory option" where
  "strcat_copy d src j m =
     (if m (src + j) \<noteq> 0 then strcat_copy d src (j + 1) (m(d + j := m (src + j)))
      else Some (m(d + j := 0)))"

definition strcat :: "u32 \<Rightarrow> u32 \<Rightarrow> memory \<Rightarrow> memory option" where
  "strcat dest src m = do { i \<leftarrow> strlen_loop m dest 0; strcat_copy (dest + i) src 0 m }"

definition clearchar :: "u32 \<Rightarrow> memory \<Rightarrow> memory option" where
  "clearchar str m = do { n \<leftarrow> strlen m str; Some (memset str 0 n m) }"

text \<open>\<open>justincase\<close> appends the global \<open>char nullterm = 0\<close>, here at the address \<open>nullterm\<close>.\<close>

definition justincase :: "u32 \<Rightarrow> u32 \<Rightarrow> memory \<Rightarrow> memory option" where
  "justincase nullterm s m = strcat s nullterm m"

partial_function (option) strcpy_loop :: "u32 \<Rightarrow> u32 \<Rightarrow> memory \<Rightarrow> memory option" where
  "strcpy_loop destination source m =
     (if m source \<noteq> 0 then strcpy_loop (destination + 1) (source + 1) (m(destination := m source))
      else Some (m(destination := 0)))"

definition strcpy :: "u32 \<Rightarrow> u32 \<Rightarrow> memory \<Rightarrow> memory option" where
  "strcpy destination source m = (if destination = 0 then Some m else strcpy_loop destination source m)"

fun substr_loop :: "nat \<Rightarrow> u32 \<Rightarrow> u32 \<Rightarrow> u32 \<Rightarrow> memory \<Rightarrow> u32 \<times> memory" where
  "substr_loop 0 dest src position m = (dest, m(dest := 0))"
| "substr_loop (Suc len) dest src position m =
     substr_loop len (dest + 1) (src + 1) position (m(dest := m (src + position)))"

definition substr :: "u32 \<Rightarrow> u32 \<Rightarrow> u32 \<Rightarrow> u32 \<Rightarrow> memory \<Rightarrow> u32 \<times> memory" where
  "substr dest src position len m = substr_loop (nat (sint len)) dest src position m"

subsection \<open>Facts: scanning\<close>

lemma strlen_loop_cstring:
  "cstring m (a + of_nat k) s \<Longrightarrow> strlen_loop m a (of_nat k) = Some (of_nat (k + length s))"
proof (induction s arbitrary: k)
  case Nil
  then show ?case by (simp add: strlen_loop.simps [of m a "of_nat k"])
next
  case (Cons c s)
  then have "cstring m (a + of_nat (Suc k)) s" by (simp add: cstring_Cons ac_simps)
  from Cons.IH [OF this] Cons.prems show ?case
    by (simp add: strlen_loop.simps [of m a "of_nat k"] cstring_Cons ac_simps)
qed

lemma strlen_cstring [mem_simps]: "cstring m a s \<Longrightarrow> strlen m a = Some (of_nat (length s))"
  using strlen_loop_cstring [of m a 0 s] by (simp add: strlen_def)

lemma cmp_loop_cstring:
  "cstring m a s \<Longrightarrow> cstring m b t \<Longrightarrow> \<exists>r. cmp_loop m a b = Some r \<and> (r = 0 \<longleftrightarrow> s = t)"
proof (induction s arbitrary: a b t)
  case Nil
  then show ?case
    by (cases t) (auto simp: cmp_loop.simps [of m a b] cstring_Cons ucast8_eq_iff)
next
  case (Cons c s)
  show ?case
  proof (cases t)
    case Nil
    with Cons.prems show ?thesis
      by (auto simp: cmp_loop.simps [of m a b] cstring_Cons ucast8_eq_iff)
  next
    case (Cons d u)
    with \<open>cstring m a (c # s)\<close> \<open>cstring m b t\<close> \<open>\<And>a b t. cstring m a s \<Longrightarrow> cstring m b t \<Longrightarrow> _ a b t\<close> show ?thesis
      by (auto simp: cmp_loop.simps [of m a b] cstring_Cons ucast8_eq_iff)
  qed
qed

text \<open>\<open>streq\<close> decides equality of two C strings: it returns for every pair of
  terminated strings, and answers true exactly when they hold the same bytes.\<close>

theorem streq_correct:
  assumes "cstring m a s" and "cstring m b t"
  shows "streq m a b = Some (s = t)"
  using cmp_loop_cstring [OF assms] by (auto simp: streq_def cmp_def)

theorem streq_correct_witness:
  "streq ((\<lambda>_. 0)(16 := 97, 17 := 98, 32 := 97, 33 := 99)) 16 32 = Some False"
  using streq_correct [of "(\<lambda>_. 0)(16 := 97, 17 := 98, 32 := 97, 33 := 99)" 16 "[97, 98]" 32 "[97, 99]"]
  by (simp add: cstring_Cons)

lemma strchr_cstring:
  "cstring m a s \<Longrightarrow> ucast c \<noteq> (0 :: u8) \<Longrightarrow>
   strchr m a c = Some (if ucast c \<in> set s then a + of_nat (length (takeWhile (\<lambda>x. x \<noteq> ucast c) s)) else 0)"
proof (induction s arbitrary: a)
  case Nil
  then show ?case by (simp add: strchr.simps [of m a c])
next
  case (Cons x s)
  then have "strchr m (a + 1) c =
    Some (if ucast c \<in> set s then a + 1 + of_nat (length (takeWhile (\<lambda>x. x \<noteq> ucast c) s)) else 0)"
    by (simp add: cstring_Cons)
  with Cons.prems show ?case by (auto simp: strchr.simps [of m a c] cstring_Cons)
qed

subsection \<open>Facts: copying\<close>

lemma cstring_write_bytes [mem_simps]:
  assumes "0 \<notin> set s" and "length s < 4294967295"
  shows "cstring (write_bytes a (s @ [0]) m) a s"
  using assms bytes_at_write_bytes [of "s @ [0]" a m] by (simp add: cstring_def)

lemma cstring_write_bytes_app:
  assumes s: "cstring m a s" and t: "0 \<notin> set t" and len: "length s + length t < 4294967295"
  shows "cstring (write_bytes (a + of_nat (length s)) (t @ [0]) m) a (s @ t)"
proof (rule cstringI)
  let ?d = "a + of_nat (length s) :: u32" and ?m = "write_bytes (a + of_nat (length s)) (t @ [0]) m"
  show "length (s @ t) < 4294967295" using len by simp
  show "0 \<notin> set (s @ t)" using s t by (simp add: cstring_def)
  have hi: "?m (a + of_nat (length s + j)) = (t @ [0]) ! j" if "j \<le> length t" for j
    using that len write_bytes_nth [of j "t @ [0]" ?d m] by (simp add: ac_simps)
  have lo: "?m (a + of_nat i) = m (a + of_nat i)" if "i < length s" for i
    using that len
    by (intro write_bytes_outside) (auto simp: in_range_ex of_nat32_eq_iff simp flip: of_nat_add)
  show "?m (a + of_nat i) = (s @ t) ! i" if "i < length (s @ t)" for i
    using that lo [of i] hi [of "i - length s"] cstring_nth [OF s, of i]
    by (auto simp: nth_append)
  show "?m (a + of_nat (length (s @ t))) = 0"
    using hi [of "length t"] by (simp add: nth_append)
qed

lemma strcpy_loop_cstring:
  "cstring m b s \<Longrightarrow> separate a (Suc (length s)) b (Suc (length s)) \<Longrightarrow>
   strcpy_loop a b m = Some (write_bytes a (s @ [0]) m)"
proof (induction s arbitrary: a b m)
  case Nil
  then show ?case by (simp add: strcpy_loop.simps [of a b] fun_upd_def)
next
  case (Cons c s)
  have len: "Suc (Suc (length s)) \<le> 4294967296" using Cons.prems(1) by (simp add: cstring_Cons)
  have 1: "separate (a + 1) (Suc (length s)) (b + 1) (Suc (length s))"
    using Cons.prems(2) len unat32_lt [of a] unat32_lt [of b] by (auto simp: separate_def)
  have "\<not> in_range (b + 1) (Suc (length s)) a"
    using separateD [OF Cons.prems(2), of a] len in_range_sub [of b 1 "Suc (length s)" a "Suc (Suc (length s))"]
    by auto
  then have "cstring (m(a := c)) (b + 1) s"
    using Cons.prems(1) by (auto simp: cstring_Cons elim: cstring_cong)
  with Cons.IH [OF this 1] Cons.prems(1) show ?case
    by (simp add: strcpy_loop.simps [of a b] cstring_Cons fun_upd_def)
qed

lemma strcpy_cstring [mem_simps]:
  "cstring m b s \<Longrightarrow> separate a (Suc (length s)) b (Suc (length s)) \<Longrightarrow> a \<noteq> 0 \<Longrightarrow>
   strcpy a b m = Some (write_bytes a (s @ [0]) m)"
  by (simp add: strcpy_def strcpy_loop_cstring)

text \<open>\<open>strcat\<close> copies with the loop of \<open>strcpy\<close>, indexed instead of advancing.\<close>

lemma strcat_copy_cstring:
  "cstring m (b + of_nat j) s \<Longrightarrow> separate (a + of_nat j) (Suc (length s)) (b + of_nat j) (Suc (length s)) \<Longrightarrow>
   strcat_copy a b (of_nat j) m = Some (write_bytes (a + of_nat j) (s @ [0]) m)"
proof (induction s arbitrary: j m)
  case Nil
  then show ?case by (simp add: strcat_copy.simps [of a b "of_nat j"] fun_upd_def)
next
  case (Cons c s)
  let ?a = "a + of_nat j :: u32" and ?b = "b + of_nat j :: u32"
  have len: "Suc (Suc (length s)) \<le> 4294967296" using Cons.prems(1) by (simp add: cstring_Cons)
  have 1: "separate (a + of_nat (Suc j)) (Suc (length s)) (b + of_nat (Suc j)) (Suc (length s))"
    using Cons.prems(2) len by (auto simp: separate_def)
  have "\<not> in_range (?b + 1) (Suc (length s)) ?a"
    using separateD [OF Cons.prems(2), of ?a] len in_range_sub [of ?b 1 "Suc (length s)" ?a "Suc (Suc (length s))"]
    by auto
  then have "cstring (m(?a := c)) (b + of_nat (Suc j)) s"
    using Cons.prems(1) by (auto simp: cstring_Cons ac_simps elim: cstring_cong)
  with Cons.IH [OF this 1] Cons.prems(1) show ?case
    by (simp add: strcat_copy.simps [of a b "of_nat j"] cstring_Cons ac_simps fun_upd_def)
qed

lemma strcat_cstring:
  assumes s: "cstring m dest s" and t: "cstring m src t"
    and len: "length s + length t < 4294967295"
    and sep: "separate dest (Suc (length s + length t)) src (Suc (length t))"
  shows "\<exists>m'. strcat dest src m = Some m' \<and> cstring m' dest (s @ t)
    \<and> same_outside (dest + of_nat (length s)) (Suc (length t)) m m'"
proof -
  let ?d = "dest + of_nat (length s)" and ?m = "write_bytes (dest + of_nat (length s)) (t @ [0]) m"
  have "separate ?d (Suc (length t)) src (Suc (length t))"
    using sep len by (auto intro: separate_sub)
  then have "strcat_copy ?d src 0 m = Some ?m"
    using strcat_copy_cstring [of m src 0 t ?d] t by simp
  moreover have "strlen_loop m dest 0 = Some (of_nat (length s))"
    using strlen_cstring [OF s] by (simp add: strlen_def)
  ultimately have "strcat dest src m = Some ?m" by (simp add: strcat_def)
  moreover have "cstring ?m dest (s @ t)"
    using cstring_write_bytes_app [OF s _ len] t by (simp add: cstring_def)
  moreover have "same_outside ?d (Suc (length t)) m ?m"
    using same_outside_write_bytes [of "t @ [0]" ?d m] len by simp
  ultimately show ?thesis by blast
qed

text \<open>\<open>strcat\<close> appends: when the buffer holds \<open>s\<close> and has room for \<open>t\<close> and the NUL apart
  from the source string, it returns, the buffer holds \<open>s @ t\<close>, and only the bytes from the
  old NUL on were written.\<close>

theorem strcat_correct:
  assumes s: "cstring m dest s" and t: "cstring m src t"
    and len: "length s + length t < 4294967295"
    and sep: "separate dest (Suc (length s + length t)) src (Suc (length t))"
  shows "\<exists>m'. strcat dest src m = Some m' \<and> cstring m' dest (s @ t)
    \<and> same_outside (dest + of_nat (length s)) (Suc (length t)) m m'"
  by (rule strcat_cstring [OF assms])

theorem strcat_correct_witness:
  "\<exists>m'. strcat 16 32 ((\<lambda>_. 0)(16 := 97, 32 := 98)) = Some m' \<and> cstring m' 16 [97, 98]"
  using strcat_correct [of "(\<lambda>_. 0)(16 := 97, 32 := 98)" 16 "[97]" 32 "[98]"]
  by (auto simp: cstring_Cons separate_def)

lemma clearchar_cstring [mem_simps]:
  "cstring m a s \<Longrightarrow> clearchar a m = Some (memset a 0 (of_nat (length s)) m)"
  by (simp add: clearchar_def strlen_cstring)

subsection \<open>Facts: reversing and decimal conversion\<close>

lemma swap_chars_at:
  "swap_chars x y m z = (if z = x then m y else if z = y then m x else m z)"
  by (simp add: swap_chars_def Let_def)

lemma reverse_c_at:
  "0 \<le> i \<Longrightarrow> j < 4294967296 \<Longrightarrow> 0 \<le> k \<Longrightarrow> k < 4294967296 \<Longrightarrow>
   reverse_c buf i j m (buf + of_int k) =
     (if i \<le> k \<and> k \<le> j then m (buf + of_int (i + j - k)) else m (buf + of_int k))"
proof (induction buf i j m rule: reverse_c.induct)
  case (1 buf i j m)
  show ?case
  proof (cases "i < j")
    case True
    let ?m = "swap_chars (buf + of_int i) (buf + of_int j) m"
    have "reverse_c buf (i + 1) (j - 1) ?m (buf + of_int k) =
      (if i + 1 \<le> k \<and> k \<le> j - 1 then ?m (buf + of_int (i + 1 + (j - 1) - k)) else ?m (buf + of_int k))"
      using True "1.prems" by (intro "1.IH") auto
    moreover have "reverse_c buf i j m = reverse_c buf (i + 1) (j - 1) ?m"
      using True by (simp add: reverse_c.simps [of buf i])
    ultimately show ?thesis
      using True "1.prems" by (auto simp: swap_chars_at of_int32_eq_iff simp del: of_int_add of_int_diff)
  next
    case False
    then have "i + j - k = k" if "i \<le> k" "k \<le> j" using that by simp
    then have "i \<le> k \<Longrightarrow> k \<le> j \<Longrightarrow> m (buf + of_int (i + j - k)) = m (buf + of_int k)" by presburger
    with False show ?thesis by (simp add: reverse_c.simps [of buf i] del: of_int_add of_int_diff)
  qed
qed

text \<open>The digits \<open>itoa\<close> produces, least significant first, and the number a digit string denotes.\<close>

function digits_lsb :: "int \<Rightarrow> int list" where
  "digits_lsb n = (if n \<le> 0 then [] else (n mod 10) # digits_lsb (n div 10))"
  by pat_completeness auto
termination
  by (relation "measure nat") auto

declare digits_lsb.simps [simp del]

definition digit_char :: "int \<Rightarrow> u8" where
  "digit_char d = of_int (48 + d)"

lemma digits_lsb_0: "n \<le> 0 \<Longrightarrow> digits_lsb n = []"
  by (subst digits_lsb.simps) simp

lemma digits_lsb_pos: "0 < n \<Longrightarrow> digits_lsb n = (n mod 10) # digits_lsb (n div 10)"
  by (subst digits_lsb.simps) simp

lemma digits_lsb_range: "\<forall>d \<in> set (digits_lsb n). 0 \<le> d \<and> d < 10"
proof (induction n rule: digits_lsb.induct)
  case (1 n)
  show ?case
  proof (cases "n \<le> 0")
    case False
    then have "digits_lsb n = (n mod 10) # digits_lsb (n div 10)" by (intro digits_lsb_pos) simp
    moreover have "0 \<le> n mod 10" "n mod 10 < 10" by simp_all
    ultimately show ?thesis using "1.IH" [OF False] by (metis set_ConsD)
  qed (simp add: digits_lsb_0)
qed

lemma length_digits_lsb: "n < 10 ^ k \<Longrightarrow> length (digits_lsb n) \<le> k"
proof (induction k arbitrary: n)
  case 0
  then show ?case by (subst digits_lsb.simps) simp
next
  case (Suc k)
  then have "n div 10 < 10 ^ k" by (simp add: div_less_iff_less_mult)
  from Suc.IH [OF this] show ?case by (subst digits_lsb.simps) simp
qed

lemma itoa_loop_digits:
  "0 \<le> n \<Longrightarrow> itoa_loop buf 10 n i m =
     (i + int (length (digits_lsb n)), write_bytes (buf + of_int i) (map digit_char (digits_lsb n)) m)"
proof (induction n arbitrary: i m rule: digits_lsb.induct)
  case (1 n)
  show ?case
  proof (cases "n = 0")
    case False
    then have n: "0 < n" using "1.prems" by simp
    then have sd: "n smod 10 = n mod 10" "n sdiv 10 = n div 10"
      by (simp_all add: signed_modulo_int_def signed_divide_int_def)
    let ?m = "m(buf + of_int i := digit_char (n mod 10))"
    have dig: "\<not> 10 \<le> n mod 10" by simp
    have "itoa_loop buf 10 n i m = itoa_loop buf 10 (n div 10) (i + 1) ?m"
      using n by (simp add: itoa_loop.simps [of buf 10 n] Let_def digit_char_def sd dig)
    also have "\<dots> = (i + 1 + int (length (digits_lsb (n div 10))),
        write_bytes (buf + of_int (i + 1)) (map digit_char (digits_lsb (n div 10))) ?m)"
      using n by (intro "1.IH") auto
    finally show ?thesis
      using n by (simp add: digits_lsb_pos add.assoc)
  qed (simp add: itoa_loop.simps [of buf 10 0] digits_lsb_0)
qed

definition decimal :: "int \<Rightarrow> u8 list" where
  "decimal n = (if n < 0 then [45] else [])
     @ (if n = 0 then [48] else rev (map digit_char (digits_lsb \<bar>n\<bar>)))"

lemma uint_digit_char: "0 \<le> d \<Longrightarrow> d < 10 \<Longrightarrow> uint (digit_char d) = 48 + d"
  by (simp only: digit_char_def uint_word_of_int_eq) (simp add: take_bit_int_eq_self)

lemma digit_char_nonzero: "0 \<le> d \<Longrightarrow> d < 10 \<Longrightarrow> digit_char d \<noteq> 0"
  using uint_digit_char [of d] by auto

lemma decimal_nonzero: "0 \<notin> set (decimal n)"
  using digits_lsb_range [of "\<bar>n\<bar>"] digit_char_nonzero
  by (auto simp: decimal_def)

lemma digits_lsb_nonempty: "0 < n \<Longrightarrow> digits_lsb n \<noteq> []"
  by (simp add: digits_lsb_pos)

lemma sint_abs_c: "sint v \<noteq> - 2147483648 \<Longrightarrow> sint (abs_c v) = \<bar>sint v\<bar>"
proof -
  assume "sint v \<noteq> - 2147483648"
  moreover have "- 2147483648 \<le> sint v" "sint v < 2147483648"
    using sint_greater_eq [of v] sint_less [of v] by simp_all
  ultimately have "sint (of_int (- sint v) :: u32) = - sint v"
    by (subst sint_sbintrunc') (simp add: signed_take_bit_int_eq_self)
  then show ?thesis by (simp add: abs_c_def)
qed

lemma write_bytes_snoc:
  "write_bytes a (xs @ [y]) m = (write_bytes a xs m)(a + of_nat (length xs) := y)"
  by (simp add: write_bytes_app)

lemma itoa_decimal:
  assumes "sint v \<noteq> - 2147483648"
  shows "cstring (itoa v buf 10 m) buf (decimal (sint v))
    \<and> same_outside buf 12 m (itoa v buf 10 m)"
proof -
  define ds where "ds = digits_lsb \<bar>sint v\<bar>"
  have v: "- 2147483648 \<le> sint v" "sint v < 2147483648"
    using sint_greater_eq [of v] sint_less [of v] by simp_all
  define t where "t = (if sint v = 0 then [48] else map digit_char ds) @ (if sint v < 0 then [45] else [])"
  have rev_t: "rev t = decimal (sint v)" by (simp add: t_def ds_def decimal_def)
  have "length ds \<le> 10" unfolding ds_def using v by (intro length_digits_lsb) auto
  then have len: "length t \<le> 11" by (simp add: t_def)
  let ?m = "write_bytes buf (t @ [0]) m"
  have itoa: "itoa v buf 10 m = reverse_c buf 0 (int (length t) - 1) ?m"
    using assms digits_lsb_nonempty [of "\<bar>sint v\<bar>"]
    by (auto simp: itoa_def itoa_loop_digits sint_abs_c t_def ds_def [symmetric] write_bytes_app
        Let_def ac_simps) (auto simp: ds_def digits_lsb_0)
  have at: "itoa v buf 10 m (buf + of_nat k) =
      (if k < length t then t ! (length t - 1 - k) else ?m (buf + of_nat k))" if k: "k < 4294967296" for k
  proof (cases "k < length t")
    case True
    then have e: "0 + (int (length t) - 1) - int k = int (length t - 1 - k)" by simp
    have "itoa v buf 10 m (buf + of_nat k) = ?m (buf + of_nat (length t - 1 - k))"
      using reverse_c_at [of 0 "int (length t) - 1" "int k" buf ?m, unfolded e] True k len
      by (simp add: itoa del: of_nat_diff of_int_diff)
    also have "\<dots> = t ! (length t - 1 - k)"
      using True len by (subst write_bytes_nth) (auto simp: nth_append)
    finally show ?thesis using True by simp
  next
    case False
    then show ?thesis
      using reverse_c_at [of 0 "int (length t) - 1" "int k" buf ?m] k len by (simp add: itoa)
  qed
  have "cstring (itoa v buf 10 m) buf (rev t)"
  proof (rule cstringI)
    show "length (rev t) < 4294967295" using len by simp
    show "0 \<notin> set (rev t)" using decimal_nonzero by (simp only: rev_t not_False_eq_True)
    show "itoa v buf 10 m (buf + of_nat i) = rev t ! i" if "i < length (rev t)" for i
      using that len by (simp add: at rev_nth)
    show "itoa v buf 10 m (buf + of_nat (length (rev t))) = 0"
      using len write_bytes_nth [of "length t" "t @ [0]" buf m] by (simp add: at nth_append)
  qed
  moreover have "same_outside buf 12 m (itoa v buf 10 m)"
    unfolding same_outside_def
  proof (intro allI impI)
    fix x assume x: "\<not> in_range buf 12 x"
    then have 1: "\<not> in_range buf (length (t @ [0])) x" using len by (auto dest: in_range_mono)
    have "x = buf + of_nat (unat (x - buf))" by simp
    moreover have "\<not> unat (x - buf) < length t" using x len by (simp add: in_range_def)
    ultimately have "itoa v buf 10 m x = ?m x" using at [of "unat (x - buf)"] by simp
    then show "itoa v buf 10 m x = m x" using write_bytes_outside [OF 1, of m] len by simp
  qed
  ultimately show ?thesis by (simp only: rev_t)
qed

lemma atoi_loop_cstring:
  "cstring m (a + of_nat i) s \<Longrightarrow>
   atoi_loop m a (of_nat i) r = Some (foldl (\<lambda>r c. r * 10 + scast c - 48) r s)"
proof (induction s arbitrary: i r)
  case Nil
  then show ?case by (simp add: atoi_loop.simps [of m a "of_nat i"])
next
  case (Cons c s)
  then have "cstring m (a + of_nat (Suc i)) s" by (simp add: cstring_Cons ac_simps)
  from Cons.IH [OF this] Cons.prems show ?case
    by (simp add: atoi_loop.simps [of m a "of_nat i"] cstring_Cons ac_simps)
qed

lemma foldl_digits:
  "0 \<le> n \<Longrightarrow> foldl (\<lambda>r c. r * 10 + scast c - 48) (0 :: u32) (rev (map digit_char (digits_lsb n))) = of_int n"
proof (induction n rule: digits_lsb.induct)
  case (1 n)
  show ?case
  proof (cases "n \<le> 0")
    case False
    then have IH: "foldl (\<lambda>r c. r * 10 + scast c - 48) (0 :: u32)
        (rev (map digit_char (digits_lsb (n div 10)))) = of_int (n div 10)"
      using "1.IH" by simp
    have "(scast (digit_char (n mod 10)) :: u32) = of_int (48 + n mod 10)"
      unfolding digit_char_def by (rule scast8_of_int) (simp_all add: add_less_le_mono [of _ 10 48])
    moreover have "(of_int (n div 10) * 10 + of_int (n mod 10) :: u32) = of_int n"
      by (metis div_mult_mod_eq of_int_add of_int_mult of_int_numeral)
    ultimately show ?thesis
      using False IH by (simp add: digits_lsb_pos)
  qed (use 1 in \<open>simp add: digits_lsb_0\<close>)
qed

lemma atoi_decimal:
  assumes "cstring m a (decimal n)"
  shows "atoi m a = Some (of_int n)"
proof (cases "n < 0")
  case True
  then have "cstring m (a + of_nat 1) (rev (map digit_char (digits_lsb \<bar>n\<bar>)))" and "m a = 45"
    using assms by (simp_all add: decimal_def cstring_Cons)
  then have "atoi_loop m a (of_nat 1) 0 = Some (of_int \<bar>n\<bar>)"
    using atoi_loop_cstring [of m a 1 _ 0] by (simp only: foldl_digits abs_ge_zero)
  then show ?thesis using True \<open>m a = 45\<close> by (simp add: atoi_def)
next
  case False
  show ?thesis
  proof (cases "n = 0")
    case True
    then show ?thesis using assms atoi_loop_cstring [of m a 0 "[48]" 0]
      by (simp add: decimal_def atoi_def cstring_Cons)
  next
    case nz: False
    then obtain d ds where ds: "rev (digits_lsb n) = d # ds"
      using digits_lsb_nonempty [of n] False by (cases "rev (digits_lsb n)") auto
    then have "d \<in> set (digits_lsb n)" by (metis list.set_intros(1) set_rev)
    then have "0 \<le> d" "d < 10" using digits_lsb_range by auto
    then have "digit_char d \<noteq> 45" using uint_digit_char [of d] by auto
    moreover have c: "cstring m (a + of_nat 0) (rev (map digit_char (digits_lsb n)))"
      using assms False nz by (simp add: decimal_def)
    ultimately have "m a \<noteq> 45" using ds by (simp add: rev_map cstring_Cons)
    with atoi_loop_cstring [OF c, of 0] False show ?thesis
      by (simp add: atoi_def foldl_digits)
  qed
qed

text \<open>C33. Decimal round trip: \<open>atoi\<close> reads back the number \<open>itoa\<close> wrote in base 10, for every
  \<open>int\<close> but \<open>INT_MIN\<close>, and \<open>itoa\<close> writes at most the 12 bytes a sign, ten digits and NUL take.\<close>

theorem itoa_atoi_roundtrip:
  assumes "sint v \<noteq> - 2147483648"
  shows "atoi (itoa v buf 10 m) buf = Some v \<and> same_outside buf 12 m (itoa v buf 10 m)"
  using itoa_decimal [OF assms, of buf m] atoi_decimal [of "itoa v buf 10 m" buf "sint v"] by simp

theorem itoa_atoi_roundtrip_witness:
  "atoi (itoa (- 305) 64 10 (\<lambda>_. 7)) 64 = Some (- 305)"
  using itoa_atoi_roundtrip [of "- 305" 64 "\<lambda>_. 7"] by simp

end
