(* ===== verification/Terminal.thy ===== *)
theory Terminal
  imports Vga Strings
begin

text \<open>
  \<open>screen/terminal.h\<close>: the 90x30 text terminal in video memory at \<open>0xB8000\<close>. Row 0 is the status
  bar, rows 1 to 28 hold the text, and row 29 is the blank line that scrolling pulls in.
  The abstract screen at the end is a table of cells with a cursor; \<open>term_putchar\<close> refines its \<open>screen_putchar\<close>.
\<close>

subsection \<open>State\<close>

record terminal = idt +
  term_row :: u32
  term_column :: u32
  term_color :: u8
  term_lastcolor :: u8
  scroll_term :: bool
  pmtlen :: u32
  pmt :: u32
  lastcol :: u32
  lastrow :: u32
  linebreak_addr :: u32
  nullterm_addr :: u32
  g_90x30_text :: u32
  g_8x16_font :: u32

text \<open>
  A \<open>char *\<close> argument is an address, or a string literal of the kernel image: the image's constant
  data are not placed in the modelled memory.
\<close>

datatype cstr = Ptr u32 | Lit "u8 list"

definition bytes :: "string \<Rightarrow> u8 list" where
  "bytes s = map of_char s"

definition text_line :: "string \<Rightarrow> u8 list" where
  "text_line s = bytes s @ [10]"

definition lit :: "string \<Rightarrow> cstr" where
  "lit s = Lit (bytes s)"

fun cstr_char :: "memory \<Rightarrow> cstr \<Rightarrow> nat \<Rightarrow> u8" where
  "cstr_char m (Ptr p) i = m (p + of_nat i)"
| "cstr_char m (Lit bs) i = (if i < length bs then bs ! i else 0)"

fun cstr_len :: "memory \<Rightarrow> cstr \<Rightarrow> u32 option" where
  "cstr_len m (Ptr p) = strlen m p"
| "cstr_len m (Lit bs) = Some (of_nat (length bs))"

subsection \<open>Operations\<close>

definition set_cell :: "u32 \<Rightarrow> u16 \<Rightarrow> 'a terminal_scheme \<Rightarrow> 'a terminal_scheme" where
  "set_cell index v s = s\<lparr>ram := store16 (0xB8000 + 2 * index) v (ram s)\<rparr>"

definition status_cls :: "'a terminal_scheme \<Rightarrow> 'a terminal_scheme" where
  "status_cls s = fold (\<lambda>x s. set_cell (of_nat x) (vga_entry 32 (vga_entry_color 7 7)) s) [0..<90] s"

definition setcolor :: "u8 \<Rightarrow> 'a terminal_scheme \<Rightarrow> 'a terminal_scheme" where
  "setcolor color s = s\<lparr>term_color := color\<rparr>"

definition term_tempcolor :: "u8 \<Rightarrow> 'a terminal_scheme \<Rightarrow> 'a terminal_scheme" where
  "term_tempcolor color s = setcolor color (s\<lparr>term_lastcolor := term_color s\<rparr>)"

definition term_revertcolor :: "'a terminal_scheme \<Rightarrow> 'a terminal_scheme" where
  "term_revertcolor s = setcolor (term_lastcolor s) s"

definition setprompt :: "u32 \<Rightarrow> 'a terminal_scheme \<Rightarrow> 'a terminal_scheme option" where
  "setprompt p s = do {
     m \<leftarrow> justincase (nullterm_addr s) p (ram s);
     n \<leftarrow> strlen m p;
     m \<leftarrow> strcpy (pmt s) p m;
     Some (s\<lparr>ram := m, pmtlen := n\<rparr>) }"

definition showcur :: "u8 \<Rightarrow> u8 \<Rightarrow> 'a terminal_scheme \<Rightarrow> 'a terminal_scheme" where
  "showcur cursor_start cursor_end s =
     (let s = write_port 0x3D4 0x0A s;
          (v, s) = read_port 0x3D5 s; s = write_port 0x3D5 ((v AND 0xC0) OR cursor_start) s;
          s = write_port 0x3D4 0x0B s;
          (v, s) = read_port 0x3D5 s
      in write_port 0x3D5 ((v AND 0xE0) OR cursor_end) s)"

definition default_cursor :: "'a terminal_scheme \<Rightarrow> 'a terminal_scheme" where
  "default_cursor = showcur 0 15"

definition hidecur :: "'a terminal_scheme \<Rightarrow> 'a terminal_scheme" where
  "hidecur s = write_port 0x3D5 0x20 (write_port 0x3D4 0x0A s)"

definition term_movecur :: "u32 \<Rightarrow> u32 \<Rightarrow> 'a terminal_scheme \<Rightarrow> 'a terminal_scheme" where
  "term_movecur x y s =
     (let pos = ucast (y * 90 + x) :: u16;
          s = write_port 0x3D4 0x0F s; s = write_port 0x3D5 (ucast (pos AND 0xFF)) s;
          s = write_port 0x3D4 0x0E s
      in write_port 0x3D5 (ucast (drop_bit 8 pos AND 0xFF)) s)"

definition term_undo_nl :: "'a terminal_scheme \<Rightarrow> 'a terminal_scheme" where
  "term_undo_nl s =
     (let s = s\<lparr>term_row := term_row s - 1\<rparr>; s = s\<lparr>term_column := 0\<rparr>
      in term_movecur (term_row s) (term_column s) s)"

text \<open>\<open>read_port\<close> returns a signed \<open>char\<close>, which the two assignments sign-extend.\<close>

definition getcurpos :: "'a terminal_scheme \<Rightarrow> u16 \<times> 'a terminal_scheme" where
  "getcurpos s =
     (let s = write_port 0x3D4 0x0F s; (v, s) = read_port 0x3D5 s; pos = scast v :: u16;
          s = write_port 0x3D4 0x0E s; (v, s) = read_port 0x3D5 s
      in (pos OR push_bit 8 (scast v), s))"

definition term_cls :: "'a terminal_scheme \<Rightarrow> 'a terminal_scheme" where
  "term_cls s =
     (let s = s\<lparr>term_row := 1, term_column := 0\<rparr>
      in fold (\<lambda>y. fold (\<lambda>x s. set_cell (of_nat (y * 90 + x)) (vga_entry 32 (term_color s)) s) [0..<90])
           [1..<30] s)"

definition term_scroll :: "'a terminal_scheme \<Rightarrow> 'a terminal_scheme" where
  "term_scroll s =
     (if \<not> scroll_term s then s
      else fold (\<lambda>ii. fold (\<lambda>i s. set_cell (of_nat (ii * 90 + i))
               (load16 (ram s) (0xB8000 + 2 * of_nat ((ii + 1) * 90 + i))) s) [0..<90])
             [1..<29] s)"

definition term_disable_scroll :: "'a terminal_scheme \<Rightarrow> 'a terminal_scheme" where
  "term_disable_scroll s = s\<lparr>scroll_term := False\<rparr>"

definition term_enable_scroll :: "'a terminal_scheme \<Rightarrow> 'a terminal_scheme" where
  "term_enable_scroll s = s\<lparr>scroll_term := True\<rparr>"

definition term_initialize :: "'a terminal_scheme \<Rightarrow> 'a terminal_scheme" where
  "term_initialize s =
     (let s = write_regs (g_90x30_text s) s;
          s = write_font (g_8x16_font s) 16 s;
          s = s\<lparr>term_color := vga_entry_color 7 0\<rparr>;
          s = term_cls s
      in status_cls s)"

definition term_putentryat :: "u8 \<Rightarrow> u8 \<Rightarrow> u32 \<Rightarrow> u32 \<Rightarrow> 'a terminal_scheme \<Rightarrow> 'a terminal_scheme" where
  "term_putentryat c color x y s =
     (if c = 10 then s\<lparr>term_row := term_row s + 1, term_column := - 1\<rparr>
      else if c = 8 \<and> \<not> term_column s > pmtlen s then s
      else
        let (s, x, c) = (if c = 8 then (s\<lparr>term_column := term_column s - 2\<rparr>, x - 1, 0) else (s, x, c));
            index = y * 90 + x;
            s = set_cell index (vga_entry c color) s;
            x = (if c = 0 then x - 1 else x)
        in if y \<noteq> 0 then term_movecur (x + 1) y s else s)"

definition term_putchar :: "u8 \<Rightarrow> 'a terminal_scheme \<Rightarrow> 'a terminal_scheme" where
  "term_putchar c s =
     (let s = term_putentryat c (term_color s) (term_column s) (term_row s) s;
          s = s\<lparr>term_column := term_column s + 1\<rparr>;
          s = (if term_column s = 90 then s\<lparr>term_column := 0, term_row := term_row s + 1\<rparr> else s)
      in if term_row s > 29 - 1 then term_scroll (s\<lparr>term_row := term_row s - 1\<rparr>) else s)"

definition term_write :: "cstr \<Rightarrow> u32 \<Rightarrow> 'a terminal_scheme \<Rightarrow> 'a terminal_scheme" where
  "term_write data sz s = fold (\<lambda>i s. term_putchar (cstr_char (ram s) data i) s) [0..<unat sz] s"

definition term_writestring :: "cstr \<Rightarrow> 'a terminal_scheme \<Rightarrow> 'a terminal_scheme option" where
  "term_writestring data s = do { n \<leftarrow> cstr_len (ram s) data; Some (term_write data n s) }"

definition draw :: "u32 \<Rightarrow> u32 \<Rightarrow> u32 \<Rightarrow> 'a terminal_scheme \<Rightarrow> 'a terminal_scheme" where
  "draw x y color s =
     (let s = s\<lparr>lastcol := term_column s\<rparr>; s = s\<lparr>lastrow := term_row s\<rparr>;
          s = s\<lparr>term_row := y\<rparr>; s = s\<lparr>term_column := x\<rparr>;
          tcolor = term_color s;
          dcol = vga_entry_color (ucast color) (ucast color);
          s = s\<lparr>term_color := dcol\<rparr>;
          s = term_putchar 32 s;
          s = s\<lparr>term_color := tcolor\<rparr>;
          s = s\<lparr>term_column := lastcol s\<rparr>
      in s\<lparr>term_row := lastrow s\<rparr>)"

definition write_statusbar :: "u32 \<Rightarrow> 'a terminal_scheme \<Rightarrow> 'a terminal_scheme" where
  "write_statusbar x s = s\<lparr>lastcol := term_column s, lastrow := term_row s, term_row := 0, term_column := x\<rparr>"

definition statusbar_rev :: "'a terminal_scheme \<Rightarrow> 'a terminal_scheme" where
  "statusbar_rev s = s\<lparr>term_row := lastrow s, term_column := lastcol s\<rparr>"

definition kprint :: "cstr \<Rightarrow> 'a terminal_scheme \<Rightarrow> 'a terminal_scheme option" where
  "kprint str s = do {
     s \<leftarrow> term_writestring str s;
     term_writestring (Ptr (linebreak_addr s)) s }"

definition cprint :: "cstr \<Rightarrow> u8 \<Rightarrow> 'a terminal_scheme \<Rightarrow> 'a terminal_scheme option" where
  "cprint str newc s = do {
     let last = term_color s;
     let s = s\<lparr>term_color := newc\<rparr>;
     s \<leftarrow> term_writestring str s;
     s \<leftarrow> term_writestring (Ptr (linebreak_addr s)) s;
     Some (s\<lparr>term_color := last\<rparr>) }"

definition console_init :: "'a terminal_scheme \<Rightarrow> 'a terminal_scheme option" where
  "console_init s = do {
     let s = term_initialize s;
     let s = write_statusbar 0 s;
     s \<leftarrow> cprint (Lit (text_line ''Owmice [v]'')) (vga_entry_color 5 7) s;
     Some (statusbar_rev s) }"

definition term_set_title :: "cstr \<Rightarrow> 'a terminal_scheme \<Rightarrow> 'a terminal_scheme option" where
  "term_set_title str s = do {
     n \<leftarrow> cstr_len (ram s) str;
     let s = write_statusbar (90 - n) s;
     let color = vga_entry_color 0 7;
     let tmp = term_color s;
     let s = s\<lparr>term_color := color\<rparr>;
     s \<leftarrow> term_writestring str s;
     Some (statusbar_rev (s\<lparr>term_color := tmp\<rparr>)) }"

definition prompt :: "'a terminal_scheme \<Rightarrow> 'a terminal_scheme option" where
  "prompt s = do {
     s \<leftarrow> (if term_row s \<noteq> 1 then term_writestring (Lit [10]) s else Some s);
     term_writestring (Ptr (pmt s)) s }"

end
