(* ===== verification/Screen.thy ===== *)
theory Screen
  imports Terminal
begin

text \<open>
  What the terminal promises: an abstract screen, a table of cells with a cursor over natural
  numbers, which \<open>term_putchar\<close> refines; the cursor bounds every operation keeps; and the frame
  of the terminal, the 5400 bytes of video memory from \<open>0xB8000\<close>.
\<close>

subsection \<open>Cells of video memory\<close>

definition caddr :: "nat \<Rightarrow> u32" where
  "caddr k = 0xB8000 + 2 * of_nat k"

definition cell :: "memory \<Rightarrow> nat \<Rightarrow> u16" where
  "cell m k = load16 m (caddr k)"

lemma caddr_separate:
  assumes "k < 2700" and "j < 2700" and "k \<noteq> j"
  shows "separate (caddr k) 2 (caddr j) 2"
proof -
  have e: "caddr j - caddr k = of_nat (2 * j) - of_nat (2 * k)" for j k
    by (simp add: caddr_def)
  have u: "unat (of_nat (2 * i) :: u32) = 2 * i" if "i < 2700" for i
    using that by (intro unat_of_nat32) simp
  show ?thesis
    unfolding separate_def e unat32_sub u [OF assms(1)] u [OF assms(2)] using assms by auto
qed

lemma cell_store [mem_simps]:
  "k < 2700 \<Longrightarrow> j < 2700 \<Longrightarrow> cell (store16 (caddr k) v m) j = (if j = k then v else cell m j)"
  by (auto simp: cell_def load16_store16 load16_store16_other caddr_separate)

lemma store_in_video: "k < 2700 \<Longrightarrow> same_outside 0xB8000 5400 m (store16 (caddr k) v m)"
proof (rule same_outside_mono [OF same_outside_store16])
  fix x assume k: "k < 2700" and x: "in_range (caddr k) 2 x"
  then have "in_range (0xB8000 + of_nat (2 * k)) 2 x" by (simp add: caddr_def)
  then show "in_range 0xB8000 5400 x" by (rule in_range_sub) (use k in auto)
qed

lemma ram_set_cell: "ram (set_cell (of_nat k) v s) = store16 (caddr k) v (ram s)"
  by (simp add: set_cell_def caddr_def)

lemma pos_div: "x < 90 \<Longrightarrow> (y * 90 + x) div 90 = (y :: nat)"
  and pos_mod: "x < 90 \<Longrightarrow> (y * 90 + x) mod 90 = (x :: nat)"
  by simp_all

lemma row_of: "i * 90 \<le> k \<Longrightarrow> k < i * 90 + 90 \<Longrightarrow> k div 90 = (i :: nat)"
  by (metis add_diff_cancel_left' diff_add_inverse le_Suc_ex nat_add_left_cancel_less pos_div)

lemma pos_inj: "x < 90 \<Longrightarrow> x' < 90 \<Longrightarrow> y * 90 + x = y' * 90 + x' \<longleftrightarrow> y = y' \<and> x = (x' :: nat)"
  by (metis pos_div pos_mod)

lemma pos_bound: "y < 30 \<Longrightarrow> x < 90 \<Longrightarrow> y * 90 + x < (2700 :: nat)"
  by simp

subsection \<open>The abstract screen\<close>

record screen =
  cells :: "nat \<Rightarrow> nat \<Rightarrow> u16"
  row :: nat
  col :: nat
  attr :: u8
  scrolls :: bool
  promptlen :: nat

definition scr :: "'a terminal_scheme \<Rightarrow> screen" where
  "scr s = \<lparr>cells = \<lambda>y x. if y < 30 \<and> x < 90 then cell (ram s) (y * 90 + x) else 0,
     row = unat (term_row s), col = unat (term_column s), attr = term_color s,
     scrolls = scroll_term s, promptlen = unat (pmtlen s)\<rparr>"

definition put :: "nat \<Rightarrow> nat \<Rightarrow> u16 \<Rightarrow> screen \<Rightarrow> screen" where
  "put y x v t = t\<lparr>cells := (cells t)(y := (cells t y)(x := v))\<rparr>"

definition advance :: "screen \<Rightarrow> screen" where
  "advance t = (if col t + 1 = 90 then t\<lparr>col := 0, row := row t + 1\<rparr> else t\<lparr>col := col t + 1\<rparr>)"

definition scroll_up :: "screen \<Rightarrow> screen" where
  "scroll_up t = (if scrolls t
     then t\<lparr>cells := \<lambda>y. if 1 \<le> y \<and> y < 29 then cells t (y + 1) else cells t y\<rparr> else t)"

definition screen_putchar :: "u8 \<Rightarrow> screen \<Rightarrow> screen" where
  "screen_putchar c t =
     (let t = (if c = 10 then t\<lparr>row := row t + 1, col := 0\<rparr>
               else if c = 8 \<and> promptlen t < col t
               then (put (row t) (col t - 1) (vga_entry 0 (attr t)) t)\<lparr>col := col t - 1\<rparr>
               else if c = 8 then advance t
               else advance (put (row t) (col t) (vga_entry c (attr t)) t))
      in if 28 < row t then scroll_up (t\<lparr>row := 28\<rparr>) else t)"

definition term_ok :: "'a terminal_scheme \<Rightarrow> bool" where
  "term_ok s \<longleftrightarrow> unat (term_row s) \<le> 28 \<and> unat (term_column s) < 90"

subsection \<open>Loops over cells\<close>

text \<open>Filling or moving one row, then a block of rows. The loop body writes cell \<open>y * 90 + x\<close>.\<close>

definition fill_row :: "(nat \<Rightarrow> nat \<Rightarrow> 'a terminal_scheme \<Rightarrow> u16) \<Rightarrow> nat \<Rightarrow> 'a terminal_scheme \<Rightarrow> 'a terminal_scheme" where
  "fill_row f y = fold (\<lambda>x s. set_cell (of_nat (y * 90 + x)) (f y x s) s) [0..<90]"

text \<open>A value that depends on the state at most through cells below the row being filled.\<close>

definition from_below :: "(nat \<Rightarrow> nat \<Rightarrow> 'a terminal_scheme \<Rightarrow> u16) \<Rightarrow> 'a terminal_scheme \<Rightarrow> nat \<Rightarrow> bool" where
  "from_below f s b \<longleftrightarrow> (\<forall>y x m. y < b \<longrightarrow> x < 90 \<longrightarrow>
     (\<forall>j < 2700. y * 90 + 90 \<le> j \<longrightarrow> cell m j = cell (ram s) j) \<longrightarrow> f y x (s\<lparr>ram := m\<rparr>) = f y x s)"

lemma fill_row_at:
  assumes y: "y < b" "b \<le> 30" and f: "from_below f s b"
  shows "\<exists>m. fill_row f y s = s\<lparr>ram := m\<rparr> \<and> same_outside 0xB8000 5400 (ram s) m
    \<and> (\<forall>j < 2700. cell m j = (if y * 90 \<le> j \<and> j < y * 90 + 90 then f y (j - y * 90) s else cell (ram s) j))"
  unfolding fill_row_def
proof (rule fold_upt_inv [where P = "\<lambda>k t. \<exists>m. t = s\<lparr>ram := m\<rparr> \<and> same_outside 0xB8000 5400 (ram s) m
    \<and> (\<forall>j < 2700. cell m j = (if y * 90 \<le> j \<and> j < y * 90 + k then f y (j - y * 90) s else cell (ram s) j))"])
  show "\<exists>m. s = s\<lparr>ram := m\<rparr> \<and> same_outside 0xB8000 5400 (ram s) m
    \<and> (\<forall>j < 2700. cell m j = (if y * 90 \<le> j \<and> j < y * 90 + 0 then f y (j - y * 90) s else cell (ram s) j))"
    by (intro exI [of _ "ram s"]) auto
  fix x t assume x: "x < 90" and "\<exists>m. t = s\<lparr>ram := m\<rparr> \<and> same_outside 0xB8000 5400 (ram s) m
    \<and> (\<forall>j < 2700. cell m j = (if y * 90 \<le> j \<and> j < y * 90 + x then f y (j - y * 90) s else cell (ram s) j))"
  then obtain m where t: "t = s\<lparr>ram := m\<rparr>" and fr: "same_outside 0xB8000 5400 (ram s) m"
    and m: "\<And>j. j < 2700 \<Longrightarrow> cell m j = (if y * 90 \<le> j \<and> j < y * 90 + x then f y (j - y * 90) s else cell (ram s) j)"
    by blast
  have "\<forall>j < 2700. y * 90 + 90 \<le> j \<longrightarrow> cell m j = cell (ram s) j" using x by (simp add: m)
  then have ft: "f y x t = f y x s" using f x y(1) unfolding from_below_def t by blast
  let ?m = "store16 (caddr (y * 90 + x)) (f y x s) m"
  have k: "y * 90 + x < 2700" using y x by simp
  have "set_cell (of_nat (y * 90 + x)) (f y x t) t = s\<lparr>ram := ?m\<rparr>"
    unfolding ft by (simp add: set_cell_def t caddr_def)
  moreover have "same_outside 0xB8000 5400 (ram s) ?m"
    using fr store_in_video [OF k] by (rule same_outside_trans)
  moreover have "cell ?m j = (if y * 90 \<le> j \<and> j < y * 90 + Suc x then f y (j - y * 90) s else cell (ram s) j)"
    if "j < 2700" for j
    using k that by (auto simp: cell_store m)
  ultimately show "\<exists>m. set_cell (of_nat (y * 90 + x)) (f y x t) t = s\<lparr>ram := m\<rparr> \<and> same_outside 0xB8000 5400 (ram s) m
    \<and> (\<forall>j < 2700. cell m j = (if y * 90 \<le> j \<and> j < y * 90 + Suc x then f y (j - y * 90) s else cell (ram s) j))"
    by blast
qed simp

lemma fill_rows_at:
  assumes b: "a \<le> b" "b \<le> 30" and f: "from_below f s b"
  shows "\<exists>m. fold (fill_row f) [a..<b] s = s\<lparr>ram := m\<rparr> \<and> same_outside 0xB8000 5400 (ram s) m
    \<and> (\<forall>y < 30. \<forall>x < 90. cell m (y * 90 + x) = (if a \<le> y \<and> y < b then f y x s else cell (ram s) (y * 90 + x)))"
proof (rule fold_upt_inv [where P = "\<lambda>k t. \<exists>m. t = s\<lparr>ram := m\<rparr> \<and> same_outside 0xB8000 5400 (ram s) m
    \<and> (\<forall>y < 30. \<forall>x < 90. cell m (y * 90 + x) = (if a \<le> y \<and> y < k then f y x s else cell (ram s) (y * 90 + x)))"])
  show "\<exists>m. s = s\<lparr>ram := m\<rparr> \<and> same_outside 0xB8000 5400 (ram s) m
    \<and> (\<forall>y < 30. \<forall>x < 90. cell m (y * 90 + x) = (if a \<le> y \<and> y < a then f y x s else cell (ram s) (y * 90 + x)))"
    by (intro exI [of _ "ram s"]) auto
  fix i t assume i: "a \<le> i" "i < b" and "\<exists>m. t = s\<lparr>ram := m\<rparr> \<and> same_outside 0xB8000 5400 (ram s) m
    \<and> (\<forall>y < 30. \<forall>x < 90. cell m (y * 90 + x) = (if a \<le> y \<and> y < i then f y x s else cell (ram s) (y * 90 + x)))"
  then obtain m where t: "t = s\<lparr>ram := m\<rparr>" and fr: "same_outside 0xB8000 5400 (ram s) m"
    and m: "\<And>y x. y < 30 \<Longrightarrow> x < 90 \<Longrightarrow> cell m (y * 90 + x) = (if a \<le> y \<and> y < i then f y x s else cell (ram s) (y * 90 + x))"
    by blast
  have above: "cell m j = cell (ram s) j" if "j < 2700" "i * 90 + 90 \<le> j" for j
    using m [of "j div 90" "j mod 90"] that by auto
  have ff: "f i x (s\<lparr>ram := m'\<rparr>) = f i x s"
    if "x < 90" "\<forall>j < 2700. i * 90 + 90 \<le> j \<longrightarrow> cell m' j = cell m j" for x m'
    using f that above i unfolding from_below_def by simp
  have "from_below (\<lambda>y. if y = i then f i else (\<lambda>_ _. 0)) t b"
    unfolding from_below_def t using ff above by (auto simp: ff)
  from fill_row_at [OF i(2) b(2) this] obtain m2 where
    m2: "fill_row (\<lambda>y. if y = i then f i else (\<lambda>_ _. 0)) i t = t\<lparr>ram := m2\<rparr>" "same_outside 0xB8000 5400 (ram t) m2"
      "\<And>j. j < 2700 \<Longrightarrow> cell m2 j = (if i * 90 \<le> j \<and> j < i * 90 + 90 then f i (j - i * 90) t else cell (ram t) j)"
    by auto
  have "fill_row f i t = s\<lparr>ram := m2\<rparr>"
    using m2(1) by (simp add: fill_row_def t)
  moreover have "same_outside 0xB8000 5400 (ram s) m2"
    using fr m2(2) by (auto simp: t intro: same_outside_trans)
  moreover have "cell m2 (y * 90 + x) = (if a \<le> y \<and> y < Suc i then f y x s else cell (ram s) (y * 90 + x))"
    if "y < 30" "x < 90" for y x
  proof (cases "y = i")
    case True
    then show ?thesis using that i m2(3) [of "y * 90 + x"] ff [of x m] by (simp add: t)
  next
    case False
    then have "\<not> (i * 90 \<le> y * 90 + x \<and> y * 90 + x < i * 90 + 90)" 
      using row_of pos_div [OF that(2)] by metis
    then show ?thesis using False that m2(3) [of "y * 90 + x"] m [OF that] by (auto simp: t)
  qed
  ultimately show "\<exists>m. fill_row f i t = s\<lparr>ram := m\<rparr> \<and> same_outside 0xB8000 5400 (ram s) m
    \<and> (\<forall>y < 30. \<forall>x < 90. cell m (y * 90 + x) = (if a \<le> y \<and> y < Suc i then f y x s else cell (ram s) (y * 90 + x)))"
    by blast
qed (use b in auto)

subsection \<open>Clearing and scrolling\<close>

lemma from_below_const: "from_below (\<lambda>y x s. g (term_color s)) s b"
  by (simp add: from_below_def)

lemma term_scroll_at:
  "\<exists>m. term_scroll s = s\<lparr>ram := m\<rparr> \<and> same_outside 0xB8000 5400 (ram s) m
    \<and> (\<forall>y < 30. \<forall>x < 90. cell m (y * 90 + x) =
         (if scroll_term s \<and> 1 \<le> y \<and> y < 29 then cell (ram s) ((y + 1) * 90 + x) else cell (ram s) (y * 90 + x)))"
proof (cases "scroll_term s")
  case True
  let ?f = "\<lambda>y x (s :: 'a terminal_scheme). cell (ram s) ((y + 1) * 90 + x)"
  have "from_below ?f s 29" by (auto simp: from_below_def)
  then have "\<exists>m. fold (fill_row ?f) [1..<29] s = s\<lparr>ram := m\<rparr> \<and> same_outside 0xB8000 5400 (ram s) m
    \<and> (\<forall>y < 30. \<forall>x < 90. cell m (y * 90 + x) = (if 1 \<le> y \<and> y < 29 then ?f y x s else cell (ram s) (y * 90 + x)))"
    by (intro fill_rows_at) auto
  moreover have "term_scroll s = fold (fill_row ?f) [1..<29] s"
    using True by (simp only: term_scroll_def fill_row_def [abs_def] cell_def caddr_def not_True_eq_False if_False)
  ultimately show ?thesis using True by simp
next
  case False
  then show ?thesis by (intro exI [of _ "ram s"]) (simp add: term_scroll_def)
qed

lemma scr_scroll: "scr (term_scroll s) = scroll_up (scr s)"
proof -
  obtain m where m: "term_scroll s = s\<lparr>ram := m\<rparr>" "\<And>y x. y < 30 \<Longrightarrow> x < 90 \<Longrightarrow> cell m (y * 90 + x) =
     (if scroll_term s \<and> 1 \<le> y \<and> y < 29 then cell (ram s) ((y + 1) * 90 + x) else cell (ram s) (y * 90 + x))"
    using term_scroll_at [of s] by blast
  show ?thesis by (auto simp: scr_def scroll_up_def m fun_eq_iff)
qed

text \<open>The state an operation of the terminal may change: memory, port trace, cursor and colour; all the rest stays.\<close>

definition term_step :: "'a terminal_scheme \<Rightarrow> 'a terminal_scheme \<Rightarrow> bool" where
  "term_step s s' \<longleftrightarrow> (\<exists>m t r c. s' = s\<lparr>ram := m, io := t @ io s, term_row := r, term_column := c\<rparr>
     \<and> same_outside 0xB8000 5400 (ram s) m)"

lemma term_step_refl [simp]: "term_step s s"
  unfolding term_step_def
  by (intro exI [of _ "ram s"] exI [of _ "[]"] exI [of _ "term_row s"] exI [of _ "term_column s"]) simp

lemma term_step_trans: "term_step s s' \<Longrightarrow> term_step s' s'' \<Longrightarrow> term_step s s''"
  unfolding term_step_def
proof (elim exE conjE)
  fix m t r c m' t' r' c'
  assume "s' = s\<lparr>ram := m, io := t @ io s, term_row := r, term_column := c\<rparr>" "same_outside 0xB8000 5400 (ram s) m"
    "s'' = s'\<lparr>ram := m', io := t' @ io s', term_row := r', term_column := c'\<rparr>" "same_outside 0xB8000 5400 (ram s') m'"
  then show "\<exists>m t r c. s'' = s\<lparr>ram := m, io := t @ io s, term_row := r, term_column := c\<rparr>
     \<and> same_outside 0xB8000 5400 (ram s) m"
    by (intro exI [of _ m'] exI [of _ "t' @ t"] exI [of _ r'] exI [of _ c']) (auto intro: same_outside_trans)
qed

lemma term_step_cursor: "term_step s (s\<lparr>term_row := r, term_column := c\<rparr>)"
  unfolding term_step_def
  by (intro exI [of _ "ram s"] exI [of _ "[]"] exI [of _ r] exI [of _ c]) simp

lemma term_step_column: "term_step s (s\<lparr>term_column := c\<rparr>)"
  unfolding term_step_def
  by (intro exI [of _ "ram s"] exI [of _ "[]"] exI [of _ "term_row s"] exI [of _ c]) simp

lemma term_step_movecur: "\<exists>t. term_movecur x y s = s\<lparr>io := t @ io s\<rparr>"
  unfolding term_movecur_def Let_def write_port_def emit_def
  by (intro exI [of _ "[_, _, _, _]"]) simp

lemma term_step_ram: "same_outside 0xB8000 5400 (ram s) m \<Longrightarrow> term_step s (s\<lparr>ram := m\<rparr>)"
  unfolding term_step_def
  by (intro exI [of _ m] exI [of _ "[]"] exI [of _ "term_row s"] exI [of _ "term_column s"]) simp

lemma term_step_scroll: "term_step s (term_scroll s)"
  using term_scroll_at [of s] term_step_ram by metis

lemma term_step_io: "term_step s (s\<lparr>io := t @ io s\<rparr>)"
  unfolding term_step_def
  by (intro exI [of _ "ram s"] exI [of _ t] exI [of _ "term_row s"] exI [of _ "term_column s"]) simp

lemma term_step_frame: "term_step s s' \<Longrightarrow> same_outside 0xB8000 5400 (ram s) (ram s')"
  by (auto simp: term_step_def)

subsection \<open>Printing one character\<close>

lemma word_pos: "(y * 90 + x :: u32) = of_nat (unat y * 90 + unat x)"
  by simp

lemma scr_store:
  assumes "y < 30" and "x < 90"
  shows "scr (s\<lparr>ram := store16 (caddr (y * 90 + x)) v (ram s)\<rparr>) = put y x v (scr s)"
  using assms by (auto simp: scr_def put_def cell_store pos_bound pos_inj fun_eq_iff)

lemma scr_io [simp]: "scr (s\<lparr>io := t\<rparr>) = scr s"
  by (simp add: scr_def cong: if_cong)

lemma scr_movecur [simp]: "scr (term_movecur x y s) = scr s"
  using term_step_movecur [of x y s] by (metis scr_io)

text \<open>Writing a cell and moving the hardware cursor.\<close>

lemma put_step:
  fixes s :: "'a terminal_scheme" and v :: u16 and z :: u32
  assumes "unat y \<le> 28" and "unat x < 90"
  defines "s' \<equiv> set_cell (y * 90 + x) v s"
  defines "t \<equiv> (if y \<noteq> 0 then term_movecur z y s' else s')"
  shows "scr t = put (unat y) (unat x) v (scr s)" and "term_step s t"
    and "term_row t = term_row s" and "term_column t = term_column s"
proof -
  have s': "s' = s\<lparr>ram := store16 (caddr (unat y * 90 + unat x)) v (ram s)\<rparr>"
    unfolding s'_def word_pos by (simp add: set_cell_def caddr_def)
  have pb: "unat y * 90 + unat x < 2700" using assms by simp
  have "scr t = scr s'" by (simp add: t_def)
  also have "\<dots> = put (unat y) (unat x) v (scr s)"
    unfolding s' by (rule scr_store) (use assms in auto)
  finally show "scr t = put (unat y) (unat x) v (scr s)" .
  obtain e where e: "t = s'\<lparr>io := e @ io s'\<rparr>"
  proof (cases "y = 0")
    case True
    then show ?thesis using that [of "[]"] by (simp add: t_def)
  next
    case False
    then show ?thesis using term_step_movecur [of z y s'] that by (auto simp: t_def)
  qed
  show "term_step s t"
    unfolding e by (rule term_step_trans [OF _ term_step_io]) (simp add: s' term_step_ram store_in_video pb)
  show "term_row t = term_row s" "term_column t = term_column s" by (simp_all add: e s')
qed

lemma putentry_other:
  assumes "c \<noteq> 10" "c \<noteq> 8" "unat y \<le> 28" "unat x < 90"
  shows "scr (term_putentryat c a x y s) = put (unat y) (unat x) (vga_entry c a) (scr s)"
    and "term_step s (term_putentryat c a x y s)"
    and "term_row (term_putentryat c a x y s) = term_row s"
    and "term_column (term_putentryat c a x y s) = term_column s"
  using put_step [OF assms(3,4), where v = "vga_entry c a" and s = s] assms(1,2)
  by (simp_all add: term_putentryat_def Let_def)

text \<open>What \<open>term_putchar\<close> does after the cell is written: count the column, wrap, scroll.\<close>

definition finish :: "'a terminal_scheme \<Rightarrow> 'a terminal_scheme" where
  "finish s =
     (let s = s\<lparr>term_column := term_column s + 1\<rparr>;
          s = (if term_column s = 90 then s\<lparr>term_column := 0, term_row := term_row s + 1\<rparr> else s)
      in if term_row s > 29 - 1 then term_scroll (s\<lparr>term_row := term_row s - 1\<rparr>) else s)"

lemma term_putchar_finish:
  "term_putchar c s = finish (term_putentryat c (term_color s) (term_column s) (term_row s) s)"
  by (simp only: term_putchar_def finish_def Let_def)

definition spec_finish :: "screen \<Rightarrow> screen" where
  "spec_finish t = (if 28 < row t then scroll_up (t\<lparr>row := 28\<rparr>) else t)"

lemma scr_cursor: "scr (s\<lparr>term_row := r, term_column := c\<rparr>) = (scr s)\<lparr>row := unat r, col := unat c\<rparr>"
  by (simp add: scr_def cong: if_cong)

lemma unat_Suc_bound: "unat (x :: u32) < 4294967295 \<Longrightarrow> unat (x + 1) = unat x + 1"
  by (simp add: unat32_Suc)

lemma eq_89: "x = (89 :: u32) \<longleftrightarrow> unat x = 89"
  by (simp add: word_unat_eq_iff)

lemma cursor_comm: "s\<lparr>term_column := c, term_row := r\<rparr> = s\<lparr>term_row := r, term_column := c\<rparr>"
  by simp

lemma screen_comm: "t\<lparr>col := c, row := r\<rparr> = t\<lparr>row := r, col := c\<rparr>"
  by simp

text \<open>
  The tail of \<open>term_putchar\<close>, whether the column counts up from a column of the screen or from
  the \<open>-1\<close> that a newline leaves.
\<close>

lemma finish_step:
  assumes "unat (term_row s) + (if unat (term_column s + 1) = 90 then 1 else 0) \<le> 29"
    and "unat (term_column s + 1) \<le> 90"
  shows "scr (finish s) = spec_finish (if unat (term_column s + 1) = 90
      then (scr s)\<lparr>row := unat (term_row s) + 1, col := 0\<rparr>
      else (scr s)\<lparr>row := unat (term_row s), col := unat (term_column s + 1)\<rparr>)" (is ?scr)
    and "term_step s (finish s)" (is ?step) and "term_ok (finish s)" (is ?ok)
proof -
  define r where "r = (if unat (term_column s + 1) = 90 then term_row s + 1 else term_row s)"
  define c where "c = (if unat (term_column s + 1) = 90 then 0 else term_column s + 1)"
  have e: "term_column s + 1 = 90 \<longleftrightarrow> unat (term_column s + 1) = 90"
    by (simp add: word_unat_eq_iff del: One_nat_def)
  have f: "finish s = (if r > 28 then term_scroll (s\<lparr>term_row := r - 1, term_column := c\<rparr>)
      else s\<lparr>term_row := r, term_column := c\<rparr>)"
    unfolding finish_def Let_def r_def c_def using e by (simp add: cursor_comm split: if_split)
  have ru: "unat r = (if unat (term_column s + 1) = 90 then unat (term_row s) + 1 else unat (term_row s))"
    using assms by (auto simp: r_def unat32_Suc)
  have cu: "unat c < 90" using assms by (auto simp: c_def)
  have gt: "r > 28 \<longleftrightarrow> unat r > 28" by (simp add: word_less_nat_alt)
  have r29: "unat r \<le> 29" using assms by (simp add: ru split: if_splits)
  have r1: "unat (r - 1) = 28" if "unat r > 28"
    using that r29 by (simp add: unat32_sub)
  have "scr (finish s) = spec_finish ((scr s)\<lparr>row := unat r, col := unat c\<rparr>)"
    using r1 r29 by (simp add: f gt spec_finish_def scr_scroll scr_cursor screen_comm)
  then show ?scr by (simp add: ru c_def)
  show ?step unfolding f
    by (auto intro: term_step_cursor term_step_trans [OF term_step_cursor term_step_scroll])
  have tr: "term_row (term_scroll t) = term_row t" "term_column (term_scroll t) = term_column t" for t :: "'a terminal_scheme"
    using term_scroll_at [of t] by auto
  show ?ok using r1 r29 cu by (auto simp: f gt term_ok_def tr)
qed

subsection \<open>The terminal refines the screen\<close>

lemma putchar_cases:
  assumes ok: "term_ok s"
  shows "scr (term_putchar c s) = screen_putchar c (scr s)" and "term_step s (term_putchar c s)"
    and "term_ok (term_putchar c s)"
proof -
  let ?e = "term_putentryat c (term_color s) (term_column s) (term_row s) s"
  have b: "unat (term_row s) \<le> 28" "unat (term_column s) < 90" using ok by (simp_all add: term_ok_def)
  have c1: "unat (term_column s + 1) = unat (term_column s) + 1" using b by (simp add: unat32_Suc)
  have proj: "row (scr s) = unat (term_row s)" "col (scr s) = unat (term_column s)" "attr (scr s) = term_color s"
    "promptlen (scr s) = unat (pmtlen s)" for s :: "'a terminal_scheme"
    by (simp_all add: scr_def)
  have "scr (finish ?e) = screen_putchar c (scr s) \<and> term_step s (finish ?e) \<and> term_ok (finish ?e)"
  proof (cases "c = 10")
    case True
    let ?n = "s\<lparr>term_row := term_row s + 1, term_column := - 1\<rparr>"
    have n: "?e = ?n" by (simp add: True term_putentryat_def)
    have "unat (term_row ?n) = unat (term_row s) + 1" using b by (simp add: unat32_Suc)
    then show ?thesis
      using finish_step [of ?n] b term_step_trans [OF term_step_cursor]
      unfolding n by (simp add: True screen_putchar_def spec_finish_def scr_cursor proj)
  next
    case c10: False
    show ?thesis
    proof (cases "c = 8")
      case True
      show ?thesis
      proof (cases "pmtlen s < term_column s")
        case False
        then have n: "?e = s" by (simp add: True term_putentryat_def)
        have "\<not> unat (pmtlen s) < unat (term_column s)" using False by (simp add: word_less_nat_alt)
        then show ?thesis
          using finish_step [of s] b c1 unfolding n
          by (simp add: True screen_putchar_def spec_finish_def advance_def proj Let_def)
      next
        case bs: True
        let ?s = "s\<lparr>term_column := term_column s - 2\<rparr>"
        let ?t = "if term_row s \<noteq> 0 then term_movecur (term_column s - 1 - 1 + 1) (term_row s)
           (set_cell (term_row s * 90 + (term_column s - 1)) (vga_entry 0 (term_color s)) ?s)
           else set_cell (term_row s * 90 + (term_column s - 1)) (vga_entry 0 (term_color s)) ?s"
        have pl: "unat (pmtlen s) < unat (term_column s)" using bs by (simp add: word_less_nat_alt)
        then have cm: "unat (term_column s - 1) = unat (term_column s) - 1" by (simp add: unat32_sub)
        have n: "?e = ?t" using bs by (simp add: True term_putentryat_def Let_def)
        have t: "scr ?t = put (unat (term_row s)) (unat (term_column s) - 1) (vga_entry 0 (term_color s)) (scr ?s)"
          "term_step ?s ?t" "term_row ?t = term_row s" "term_column ?t = term_column s - 2"
          using put_step [where y = "term_row s" and x = "term_column s - 1" and s = ?s] b cm by simp_all
        have u: "unat (term_column ?t + 1) = unat (term_column s) - 1"
          using cm by (simp only: t(4)) (simp add: algebra_simps)
        have fin: "scr (finish ?t) = spec_finish ((scr ?t)\<lparr>row := unat (term_row s), col := unat (term_column s) - 1\<rparr>)"
          "term_step ?t (finish ?t)" "term_ok (finish ?t)"
          using finish_step [of ?t] b unfolding u t(3) by auto
        have "(scr ?t)\<lparr>row := unat (term_row s), col := unat (term_column s) - 1\<rparr> =
          (put (unat (term_row s)) (unat (term_column s) - 1) (vga_entry 0 (term_color s)) (scr s))\<lparr>col := unat (term_column s) - 1\<rparr>"
          unfolding t(1) by (simp add: scr_def put_def cong: if_cong)
        moreover have "term_step s ?s" by (rule term_step_column)
        ultimately show ?thesis
          using fin t(2) pl unfolding n
          by (auto simp: True screen_putchar_def spec_finish_def proj intro: term_step_trans)
      qed
    next
      case c8: False
      note pe = putentry_other [OF c10 c8 b, where a = "term_color s" and s = s]
      show ?thesis
        using finish_step [of ?e] pe b c1 term_step_trans [OF pe(2)]
        by (auto simp: c10 c8 screen_putchar_def spec_finish_def advance_def proj put_def Let_def)
    qed
  qed
  then show "scr (term_putchar c s) = screen_putchar c (scr s)" "term_step s (term_putchar c s)"
    "term_ok (term_putchar c s)" by (simp_all add: term_putchar_finish)
qed

text \<open>Wherever the cursor is, printing changes memory, port trace and cursor only.\<close>

definition term_writes :: "'a terminal_scheme \<Rightarrow> 'a terminal_scheme \<Rightarrow> bool" where
  "term_writes s s' \<longleftrightarrow> (\<exists>m t r c. s' = s\<lparr>ram := m, io := t, term_row := r, term_column := c\<rparr>)"

lemma term_writesI: "s' = s\<lparr>ram := m, io := t, term_row := r, term_column := c\<rparr> \<Longrightarrow> term_writes s s'"
  by (auto simp: term_writes_def)

lemma term_writes_trans: "term_writes s s' \<Longrightarrow> term_writes s' s'' \<Longrightarrow> term_writes s s''"
  unfolding term_writes_def by (elim exE) (rule exI, rule exI, rule exI, rule exI, simp)

lemma term_writes_putchar: "term_writes s (term_putchar c s)"
proof -
  have mv: "term_writes s (term_movecur x y s)" for x y and s :: "'a terminal_scheme"
    using term_step_movecur [of x y s] by (auto intro: term_writesI [where m = "ram s" and r = "term_row s" and c = "term_column s"])
  have sc: "term_writes s (term_scroll s)" for s :: "'a terminal_scheme"
    using term_scroll_at [of s] by (auto intro: term_writesI [where t = "io s" and r = "term_row s" and c = "term_column s"])
  have st: "term_writes s (set_cell i v s)" for i v and s :: "'a terminal_scheme"
    by (rule term_writesI [where t = "io s" and r = "term_row s" and c = "term_column s"]) (simp add: set_cell_def)
  have cr: "term_writes s (s\<lparr>term_row := r, term_column := k\<rparr>)" for r k and s :: "'a terminal_scheme"
    by (rule term_writesI [where m = "ram s" and t = "io s"]) simp
  have ck: "term_writes s (s\<lparr>term_column := k\<rparr>)" for k and s :: "'a terminal_scheme"
    by (rule term_writesI [where m = "ram s" and t = "io s" and r = "term_row s"]) simp
  have rf: "term_writes s s" for s :: "'a terminal_scheme"
    by (rule term_writesI [where m = "ram s" and t = "io s" and r = "term_row s" and c = "term_column s"]) simp
  have pe: "term_writes s (term_putentryat b a x y s)" for b a x y and s :: "'a terminal_scheme"
    unfolding term_putentryat_def Let_def split_beta
    by (auto intro: rf cr term_writes_trans [OF st mv] term_writes_trans [OF ck] st
        term_writes_trans [OF ck term_writes_trans [OF st mv]] term_writes_trans [OF ck st])
  have fi: "term_writes s (finish s)" for s :: "'a terminal_scheme"
    unfolding finish_def Let_def
    by (auto simp: cursor_comm intro: cr ck sc term_writes_trans [OF cr sc] term_writes_trans [OF ck sc])
  show ?thesis unfolding term_putchar_finish by (rule term_writes_trans [OF pe fi])
qed

text \<open>C10. The terminal refines the abstract screen: with the cursor in its bounds, printing any character
  has on the cells, the cursor and the scrolling exactly the effect of \<open>screen_putchar\<close>.\<close>

theorem putchar_refines_screen:
  assumes "term_ok s"
  shows "scr (term_putchar c s) = screen_putchar c (scr s)"
  using putchar_cases(1) [OF assms] .

definition blank_terminal :: terminal where
  "blank_terminal = \<lparr>ram = \<lambda>_. 0, io = [], dev8 = \<lambda>_ _. 0, dev16 = \<lambda>_ _. 0, IDT = \<lambda>_. \<lparr>offset_lowerbits = 0,
     selector = 0, zero = 0, type_attr = 0, offset_higherbits = 0\<rparr>, term_row = 1, term_column = 0, term_color = 7,
     term_lastcolor = 0, scroll_term = True, pmtlen = 1, pmt = 0x5000, lastcol = 0, lastrow = 0,
     linebreak_addr = 0x5010, nullterm_addr = 0x5014, g_90x30_text = 0x5020, g_8x16_font = 0x5100\<rparr>"

theorem putchar_refines_screen_witness:
  "scr (term_putchar 65 blank_terminal) = screen_putchar 65 (scr blank_terminal)"
  by (rule putchar_refines_screen) (simp add: term_ok_def blank_terminal_def)

text \<open>Printing keeps the cursor on the screen, and memory is written in the 5400 bytes of the
  text buffer only: no character sequence can make the terminal write elsewhere.\<close>

theorem putchar_bounds:
  assumes "term_ok s"
  shows "term_ok (fold term_putchar cs s)
    \<and> same_outside 0xB8000 5400 (ram s) (ram (fold term_putchar cs s))"
proof -
  have "term_ok (fold term_putchar cs s) \<and> term_step s (fold term_putchar cs s)"
    using assms
  proof (induction cs arbitrary: s)
    case (Cons c cs)
    then show ?case using putchar_cases(2,3) [of s c] term_step_trans by auto
  qed simp
  then show ?thesis using term_step_frame by blast
qed

theorem putchar_bounds_witness:
  "term_ok (fold term_putchar [65, 10, 8] blank_terminal)"
  using putchar_bounds [of blank_terminal "[65, 10, 8]"] by (simp add: term_ok_def blank_terminal_def)

lemma puts_steps:
  "term_ok s \<Longrightarrow> term_ok (fold term_putchar cs s) \<and> term_step s (fold term_putchar cs s)
    \<and> scr (fold term_putchar cs s) = fold screen_putchar cs (scr s)"
proof (induction cs arbitrary: s)
  case (Cons c cs)
  then show ?case using putchar_cases [of s c] term_step_trans by auto
qed simp

subsection \<open>Printing strings\<close>

lemma term_write_lit:
  assumes "length bs < 4294967296"
  shows "term_writestring (Lit bs) s = Some (fold term_putchar bs s)"
proof -
  have "fold (\<lambda>i s. term_putchar (cstr_char (ram s) (Lit bs) i) s) [0..<k] s = fold term_putchar (take k bs) s"
    if "k \<le> length bs" for k using that
    by (induction k) (simp_all add: take_Suc_conv_app_nth)
  from this [of "length bs"] show ?thesis using assms by (simp add: term_writestring_def term_write_def)
qed

text \<open>A string in memory, away from the screen, is printed as it stood before the first character.\<close>

lemma term_write_ptr:
  assumes ok: "term_ok s" and str: "cstring (ram s) p bs"
    and sep: "separate 0xB8000 5400 p (Suc (length bs))"
  shows "term_writestring (Ptr p) s = Some (fold term_putchar bs s)"
proof -
  have len: "length bs < 4294967295" using str by (rule cstring_length)
  have "fold (\<lambda>i s. term_putchar (cstr_char (ram s) (Ptr p) i) s) [0..<k] s = fold term_putchar (take k bs) s"
    if "k \<le> length bs" for k using that
  proof (induction k)
    case (Suc k)
    let ?t = "fold term_putchar (take k bs) s"
    have "same_outside 0xB8000 5400 (ram s) (ram ?t)"
      using puts_steps [OF ok, of "take k bs"] term_step_frame by blast
    then have "cstring (ram ?t) p bs" using cstring_same_outside [OF str _ sep] by blast
    then have "ram ?t (p + of_nat k) = bs ! k" using Suc.prems by (simp add: cstring_nth)
    with Suc show ?case by (simp add: take_Suc_conv_app_nth)
  qed simp
  from this [of "length bs"] show ?thesis
    using len strlen_cstring [OF str] by (simp add: term_writestring_def term_write_def)
qed

lemma screen_row0:
  "0 < row t \<Longrightarrow> 0 < row (screen_putchar c t) \<and> cells (screen_putchar c t) 0 = cells t 0"
  by (simp add: screen_putchar_def put_def advance_def scroll_up_def Let_def)

lemma screen_row0_fold:
  "0 < row t \<Longrightarrow> cells (fold screen_putchar cs t) 0 = cells t 0"
  by (induction cs arbitrary: t) (simp_all add: screen_row0)



lemma term_cls_at:
  "\<exists>m. term_cls s = s\<lparr>term_row := 1, term_column := 0, ram := m\<rparr> \<and> same_outside 0xB8000 5400 (ram s) m
    \<and> (\<forall>y < 30. \<forall>x < 90. cell m (y * 90 + x) =
         (if 1 \<le> y then vga_entry 32 (term_color s) else cell (ram s) (y * 90 + x)))"
proof -
  let ?s = "s\<lparr>term_row := 1, term_column := 0\<rparr>"
  let ?f = "\<lambda>y x (s :: 'a terminal_scheme). vga_entry 32 (term_color s)"
  have "from_below ?f ?s 30" by (rule from_below_const)
  then have "\<exists>m. fold (fill_row ?f) [1..<30] ?s = ?s\<lparr>ram := m\<rparr> \<and> same_outside 0xB8000 5400 (ram ?s) m
    \<and> (\<forall>y < 30. \<forall>x < 90. cell m (y * 90 + x) = (if 1 \<le> y \<and> y < 30 then ?f y x ?s else cell (ram ?s) (y * 90 + x)))"
    by (intro fill_rows_at) auto
  moreover have "term_cls s = fold (fill_row ?f) [1..<30] ?s"
    by (simp only: term_cls_def fill_row_def [abs_def] Let_def)
  ultimately show ?thesis by auto
qed

text \<open>\<open>term_cls\<close> blanks every text row, the spare row 29 included, in the current colour, keeps the
  status bar, and puts the cursor at the start of row 1.\<close>

theorem term_cls_blanks:
  "scr (term_cls s) = (scr s)\<lparr>cells := \<lambda>y x. if 1 \<le> y \<and> y < 30 \<and> x < 90 then vga_entry 32 (term_color s) else cells (scr s) y x,
     row := 1, col := 0\<rparr>"
proof -
  obtain m where m: "term_cls s = s\<lparr>term_row := 1, term_column := 0, ram := m\<rparr>"
    "\<And>y x. y < 30 \<Longrightarrow> x < 90 \<Longrightarrow> cell m (y * 90 + x) =
         (if 1 \<le> y then vga_entry 32 (term_color s) else cell (ram s) (y * 90 + x))"
    using term_cls_at [of s] by blast
  show ?thesis unfolding m(1) by (auto simp: scr_def m(2) fun_eq_iff)
qed

subsection \<open>The title in the status bar\<close>

lemma print_in_row:
  assumes "\<And>c. c \<in> set bs \<Longrightarrow> c \<noteq> 10 \<and> c \<noteq> 8" and "row t < 28" and "col t + length bs \<le> 90"
  shows "cells (fold screen_putchar bs t) =
    (cells t)(row t := \<lambda>x. if col t \<le> x \<and> x < col t + length bs then vga_entry (bs ! (x - col t)) (attr t) else cells t (row t) x)"
  using assms
proof (induction bs arbitrary: t)
  case (Cons b bs)
  let ?t = "screen_putchar b t"
  have t: "cells ?t = (cells t)(row t := (cells t (row t))(col t := vga_entry b (attr t)))" "attr ?t = attr t"
    "bs \<noteq> [] \<Longrightarrow> row ?t = row t \<and> col ?t = col t + 1"
    using Cons.prems by (auto simp: screen_putchar_def put_def advance_def Let_def)
  show ?case
  proof (cases "bs = []")
    case True
    then show ?thesis by (auto simp: t(1) fun_eq_iff)
  next
    case False
    have "cells (fold screen_putchar bs ?t) = (cells ?t)(row ?t := \<lambda>x. if col ?t \<le> x \<and> x < col ?t + length bs
        then vga_entry (bs ! (x - col ?t)) (attr ?t) else cells ?t (row ?t) x)"
      using Cons.prems t(3) [OF False] by (intro Cons.IH) auto
    then show ?thesis using t(3) [OF False] by (auto simp: t(1,2) fun_eq_iff nth_Cons' less_Suc_eq_le)
  qed
qed (auto simp: fun_eq_iff)

text \<open>\<open>term_set_title\<close> right-aligns a title of 1 to 90 ordinary characters in the status bar, black on
  grey, and leaves the text rows, the cursor and the colour as they were.\<close>

theorem set_title_right_aligned:
  assumes ok: "term_ok s" and len: "bs \<noteq> []" "length bs \<le> 90"
    and bs: "\<And>c. c \<in> set bs \<Longrightarrow> c \<noteq> 10 \<and> c \<noteq> 8"
  shows "\<exists>s'. term_set_title (Lit bs) s = Some s' \<and> scr s' = (scr s)\<lparr>cells := \<lambda>y x. if y = 0 \<and> x < 90 \<and> 90 - length bs \<le> x
      then vga_entry (bs ! (x - (90 - length bs))) (vga_entry_color 0 7) else cells (scr s) y x\<rparr>"
proof -
  let ?c = "vga_entry_color 0 7"
  define t where "t = (write_statusbar (90 - of_nat (length bs)) s)\<lparr>term_color := ?c\<rparr>"
  define u where "u = fold term_putchar bs t"
  define s' where "s' = statusbar_rev (u\<lparr>term_color := term_color s\<rparr>)"
  have n: "unat (90 - of_nat (length bs) :: u32) = 90 - length bs" using len by (simp add: unat32_sub)
  have tok: "term_ok t" using len n by (cases bs) (simp_all add: t_def term_ok_def write_statusbar_def)
  have st: "scr t = (scr s)\<lparr>row := 0, col := 90 - length bs, attr := ?c\<rparr>"
    by (simp add: t_def scr_def write_statusbar_def n cong: if_cong)
  have cu: "cells (scr u) = (cells (scr t))(0 := \<lambda>x. if 90 - length bs \<le> x \<and> x < 90
      then vga_entry (bs ! (x - (90 - length bs))) ?c else cells (scr t) 0 x)"
    using puts_steps [OF tok, of bs] print_in_row [OF bs, where t = "scr t" and bs = bs] len
    unfolding u_def st by (simp cong: if_cong)
  have step: "term_step t u" using puts_steps [OF tok, of bs] by (simp add: u_def)
  have "term_set_title (Lit bs) s = Some s'"
    using term_write_lit [of bs t] len
    by (simp add: term_set_title_def t_def u_def s'_def write_statusbar_def)
  moreover have "scr s' = (scr s)\<lparr>cells := cells (scr u)\<rparr>"
    using step by (auto simp: s'_def scr_def statusbar_rev_def term_step_def t_def write_statusbar_def cong: if_cong)
  moreover have "cells (scr u) = (\<lambda>y x. if y = 0 \<and> x < 90 \<and> 90 - length bs \<le> x
      then vga_entry (bs ! (x - (90 - length bs))) ?c else cells (scr s) y x)"
    by (auto simp: cu st fun_eq_iff)
  ultimately show ?thesis by simp
qed

theorem set_title_right_aligned_witness:
  "\<exists>s'. term_set_title (Lit [79, 75]) blank_terminal = Some s' \<and> cells (scr s') 0 88 = vga_entry 79 (vga_entry_color 0 7)"
proof -
  have "\<exists>s'. term_set_title (Lit [79, 75]) blank_terminal = Some s'
      \<and> scr s' = (scr blank_terminal)\<lparr>cells := \<lambda>y x. if y = 0 \<and> x < 90 \<and> 90 - length [79, 75 :: u8] \<le> x
      then vga_entry ([79, 75] ! (x - (90 - length [79, 75 :: u8]))) (vga_entry_color 0 7) else cells (scr blank_terminal) y x\<rparr>"
    by (rule set_title_right_aligned) (auto simp: term_ok_def blank_terminal_def)
  then show ?thesis by auto
qed

subsection \<open>Deviations\<close>

text \<open>\<open>draw\<close> does not check its coordinates: with \<open>y = 0\<close> it stores at any even address a program names.\<close>

theorem draw_writes_anywhere:
  "ram (draw x 0 color s) (0xB8000 + 2 * x) = 32"
proof -
  have "ucast (vga_entry 32 a) = (32 :: u8)" for a
    unfolding vga_entry_def by (rule bit_word_eqI) (auto simp: bit_simps dest: bit_imp_le_length)
  then show ?thesis
    by (simp add: draw_def term_putchar_def term_putentryat_def set_cell_def store16_def Let_def)
qed

text \<open>A backspace with the cursor at or left of the prompt's end moves the cursor to the right:
  \<open>term_putentryat\<close> returns without erasing, and \<open>term_putchar\<close> counts the column all the same.\<close>

theorem backspace_at_prompt_advances:
  assumes "term_ok s" and "term_column s \<le> pmtlen s" and "term_column s < 89"
  shows "term_column (term_putchar 8 s) = term_column s + 1 \<and> term_row (term_putchar 8 s) = term_row s"
  using assms
  by (auto simp: term_putchar_def term_putentryat_def Let_def term_ok_def word_less_nat_alt word_le_nat_alt)

theorem backspace_at_prompt_advances_witness:
  "term_column (term_putchar 8 blank_terminal) = 1"
  using backspace_at_prompt_advances [of blank_terminal] by (simp add: term_ok_def blank_terminal_def)

end
