(* ===== verification/Printf.thy ===== *)
theory Printf
  imports Screen "HOL-Library.Signed_Division"
begin

text \<open>
  The formatted output of \<open>standard/stdio.h\<close> and its random numbers. The routines print through
  \<open>owmice_putchar\<close>, that is system call 1, whose handler is \<open>term_putchar\<close>; here the sink is a
  parameter \<open>putc\<close>, and the locale \<open>char_sink\<close> states what printing relies on. The terminal is such a sink.

  A format is the list of its bytes up to the terminating NUL. The variable arguments are a list;
  taking one that is missing or of the other kind is undefined in C and is \<open>None\<close> here, as is a recursion or
  loop that never ends.
\<close>

subsection \<open>Operations\<close>

datatype va = VaWord u32 | VaLit "u8 list"

type_synonym 's conversion = "va list \<Rightarrow> u32 \<Rightarrow> 's \<Rightarrow> (va list \<times> u32 \<times> 's) option"

text \<open>
  Each conversion ends in the tail call \<open>return ft_printf_aux(fmt, ap, len)\<close>; the model returns the
  arguments left, the count and the state to \<open>ft_printf_aux\<close>, which goes on with the format.
\<close>

definition ft_print_c :: "(u8 \<Rightarrow> 's \<Rightarrow> 's) \<Rightarrow> 's conversion" where
  "ft_print_c putc ap len s =
     (case ap of VaWord c # ap \<Rightarrow> Some (ap, len + 1, putc (ucast c) s) | _ \<Rightarrow> None)"

partial_function (option) ft_putnum ::
    "(u8 \<Rightarrow> 's \<Rightarrow> 's) \<Rightarrow> u32 \<Rightarrow> u32 \<Rightarrow> u8 list \<Rightarrow> 's \<Rightarrow> (u32 \<times> 's) option" where
  "ft_putnum putc n base digits s = do {
     (res, s) \<leftarrow> (if n \<ge> base
        then do { (r, s) \<leftarrow> ft_putnum putc (n div base) base digits s; Some (1 + r, s) }
        else Some (1, s));
     Some (res, putc (digits ! unat (n mod base)) s) }"

definition nums_decimal :: "u8 list" where "nums_decimal = bytes ''0123456789''"
definition nums_octal :: "u8 list" where "nums_octal = bytes ''01234567''"
definition nums_hexs :: "u8 list" where "nums_hexs = bytes ''0123456789abcdef''"
definition nums_hexl :: "u8 list" where "nums_hexl = bytes ''0123456789ABCDEF''"

definition ft_print_d :: "(u8 \<Rightarrow> 's \<Rightarrow> 's) \<Rightarrow> 's conversion" where
  "ft_print_d putc ap len s =
     (case ap of VaWord n # ap \<Rightarrow> do {
        let (len, u, s) = (if sint n < 0 then (len + 1, - n, putc 45 s) else (len, n, s));
        (k, s) \<leftarrow> ft_putnum putc u 10 nums_decimal s;
        Some (ap, len + k, s) }
      | _ \<Rightarrow> None)"

definition ft_print_unsigned :: "u32 \<Rightarrow> u8 list \<Rightarrow> (u8 \<Rightarrow> 's \<Rightarrow> 's) \<Rightarrow> 's conversion" where
  "ft_print_unsigned base digits putc ap len s =
     (case ap of VaWord n # ap \<Rightarrow> do {
        (k, s) \<leftarrow> ft_putnum putc n base digits s;
        Some (ap, len + k, s) }
      | _ \<Rightarrow> None)"

definition ft_print_o :: "(u8 \<Rightarrow> 's \<Rightarrow> 's) \<Rightarrow> 's conversion" where
  "ft_print_o = ft_print_unsigned 8 nums_octal"

definition ft_print_u :: "(u8 \<Rightarrow> 's \<Rightarrow> 's) \<Rightarrow> 's conversion" where
  "ft_print_u = ft_print_unsigned 10 nums_decimal"

definition ft_print_x :: "(u8 \<Rightarrow> 's \<Rightarrow> 's) \<Rightarrow> 's conversion" where
  "ft_print_x = ft_print_unsigned 16 nums_hexs"

definition ft_print_X :: "(u8 \<Rightarrow> 's \<Rightarrow> 's) \<Rightarrow> 's conversion" where
  "ft_print_X = ft_print_unsigned 16 nums_hexl"

partial_function (option) ft_puts_loop ::
    "(u8 \<Rightarrow> 'a machine_scheme \<Rightarrow> 'a machine_scheme) \<Rightarrow> u32 \<Rightarrow> u32 \<Rightarrow> 'a machine_scheme \<Rightarrow> (u32 \<times> 'a machine_scheme) option" where
  "ft_puts_loop putc p len s =
     (if ram s p \<noteq> 0 then ft_puts_loop putc (p + 1) (len + 1) (putc (ram s p) s) else Some (len, s))"

definition ft_print_s :: "(u8 \<Rightarrow> 'a machine_scheme \<Rightarrow> 'a machine_scheme) \<Rightarrow> 'a machine_scheme conversion" where
  "ft_print_s putc ap len s =
     (case ap of
        VaWord p # ap \<Rightarrow>
          (if p = 0 then Some (ap, len + 6, fold putc (bytes ''(null)'') s)
           else do { (len, s) \<leftarrow> ft_puts_loop putc p len s; Some (ap, len, s) })
      | VaLit bs # ap \<Rightarrow> Some (ap, len + of_nat (length bs), fold putc bs s)
      | _ \<Rightarrow> None)"

definition ft_print_dispatch ::
    "u8 \<Rightarrow> ((u8 \<Rightarrow> 'a machine_scheme \<Rightarrow> 'a machine_scheme) \<Rightarrow> 'a machine_scheme conversion) option" where
  "ft_print_dispatch c =
     (if c = 99 then Some ft_print_c
      else if c = 100 then Some ft_print_d
      else if c = 105 then Some ft_print_d
      else if c = 111 then Some ft_print_o
      else if c = 117 then Some ft_print_u
      else if c = 120 then Some ft_print_x
      else if c = 88 then Some ft_print_X
      else if c = 115 then Some ft_print_s
      else None)"

fun ft_printf_aux ::
    "(u8 \<Rightarrow> 'a machine_scheme \<Rightarrow> 'a machine_scheme) \<Rightarrow> u8 list \<Rightarrow> va list \<Rightarrow> u32 \<Rightarrow> 'a machine_scheme
     \<Rightarrow> (u32 \<times> 'a machine_scheme) option" where
  "ft_printf_aux putc [] ap len s = Some (len, s)"
| "ft_printf_aux putc (c # fmt) ap len s =
     (if c \<noteq> 37 then ft_printf_aux putc fmt ap (len + 1) (putc c s)
      else case fmt of
        [] \<Rightarrow> Some (len, s)
      | c # fmt \<Rightarrow>
          (case ft_print_dispatch c of
             None \<Rightarrow> ft_printf_aux putc fmt ap (len + 1) (putc c s)
           | Some f \<Rightarrow> (case f putc ap len s of
                None \<Rightarrow> None
              | Some (ap, len, s) \<Rightarrow> ft_printf_aux putc fmt ap len s)))"

definition printf :: "(u8 \<Rightarrow> 'a machine_scheme \<Rightarrow> 'a machine_scheme) \<Rightarrow> u8 list \<Rightarrow> va list \<Rightarrow> 'a machine_scheme
     \<Rightarrow> (u32 \<times> 'a machine_scheme) option" where
  "printf putc fmt args s = ft_printf_aux putc fmt args 0 s"

definition printhex :: "(u8 \<Rightarrow> 'a machine_scheme \<Rightarrow> 'a machine_scheme) \<Rightarrow> u32 \<Rightarrow> 'a machine_scheme
     \<Rightarrow> (u32 \<times> 'a machine_scheme) option" where
  "printhex putc val = printf putc (text_line ''0x%X'') [VaWord val]"

subsection \<open>Random numbers\<close>

definition rand :: "u32 \<Rightarrow> u32 \<times> u32" where
  "rand next = (let next = next * 1103515245 + 12345 in ((next div 65536) mod 32768, next))"

definition srand :: "u32 \<Rightarrow> u32 \<Rightarrow> u32" where
  "srand seed next = seed"

text \<open>\<open>%\<close> on \<open>int\<close> truncates towards zero; a range of size 0 is a division fault.\<close>

definition rand_range :: "u32 \<Rightarrow> u32 \<Rightarrow> u32 \<Rightarrow> (u32 \<times> u32) option" where
  "rand_range mn mx next =
     (let (r, next) = rand next; d = mx - mn + 1
      in if d = 0 then None else Some (of_int (sint r smod sint d) + mn, next))"

subsection \<open>What a format and its arguments mean\<close>

datatype meaning = Num u32 | Str "u8 list"

function num_chars :: "nat \<Rightarrow> u8 list \<Rightarrow> nat \<Rightarrow> u8 list" where
  "num_chars base digits n =
     (if base < 2 \<or> n < base then [digits ! n] else num_chars base digits (n div base) @ [digits ! (n mod base)])"
  by auto
termination by (relation "measure (\<lambda>(_, _, n). n)") auto

declare num_chars.simps [simp del]

fun render_one :: "u8 \<Rightarrow> meaning \<Rightarrow> u8 list option" where
  "render_one c (Num w) =
     (if c = 99 then Some [ucast w]
      else if c = 100 \<or> c = 105
      then Some ((if sint w < 0 then [45] else []) @ num_chars 10 nums_decimal (nat \<bar>sint w\<bar>))
      else if c = 111 then Some (num_chars 8 nums_octal (unat w))
      else if c = 117 then Some (num_chars 10 nums_decimal (unat w))
      else if c = 120 then Some (num_chars 16 nums_hexs (unat w))
      else if c = 88 then Some (num_chars 16 nums_hexl (unat w))
      else None)"
| "render_one c (Str bs) = (if c = 115 then Some bs else None)"

fun render :: "u8 list \<Rightarrow> meaning list \<Rightarrow> u8 list option" where
  "render [] ms = Some []"
| "render (c # fmt) ms =
     (if c \<noteq> 37 then map_option ((#) c) (render fmt ms)
      else case fmt of
        [] \<Rightarrow> Some []
      | d # fmt \<Rightarrow>
          if d \<notin> {99, 100, 105, 111, 117, 120, 88, 115} then map_option ((#) d) (render fmt ms)
          else (case ms of
            [] \<Rightarrow> None
          | x # ms \<Rightarrow> (case render_one d x of None \<Rightarrow> None | Some out \<Rightarrow> map_option ((@) out) (render fmt ms))))"

text \<open>An argument denotes a value: for a string pointer, the string in memory, apart from the area the sink writes to.\<close>

fun denotes :: "memory \<Rightarrow> u32 \<Rightarrow> nat \<Rightarrow> va \<Rightarrow> meaning \<Rightarrow> bool" where
  "denotes m b n (VaWord w) (Num v) \<longleftrightarrow> w = v"
| "denotes m b n (VaWord p) (Str bs) \<longleftrightarrow>
     (if p = 0 then bs = bytes ''(null)'' else cstring m p bs \<and> separate b n p (Suc (length bs)))"
| "denotes m b n (VaLit xs) (Str bs) \<longleftrightarrow> xs = bs"
| "denotes m b n (VaLit xs) (Num v) \<longleftrightarrow> False"

lemma denotes_same_outside:
  "denotes m b n a x \<Longrightarrow> same_outside b n m m' \<Longrightarrow> denotes m' b n a x"
  by (cases a; cases x) (auto split: if_splits intro: cstring_same_outside)

lemma ft_putnum_chars:
  assumes "2 \<le> unat base"
  shows "ft_putnum putc n base digits s =
    Some (of_nat (length (num_chars (unat base) digits (unat n))), fold putc (num_chars (unat base) digits (unat n)) s)"
proof (induction "unat n" arbitrary: n rule: less_induct)
  case less
  show ?case
  proof (cases "base \<le> n")
    case True
    then have le: "unat base \<le> unat n" by (simp add: word_le_nat_alt)
    then have "unat n div unat base < unat n" using assms by simp
    then have "unat (n div base) < unat n" by (simp add: unat_div)
    from less [OF this] show ?thesis using True le assms
      by (simp add: ft_putnum.simps [of putc n base] num_chars.simps [of "unat base" digits "unat n"] unat_div unat_mod)
  next
    case False
    then have "unat n < unat base" by (simp add: word_le_nat_alt)
    then show ?thesis using False assms
      by (simp add: ft_putnum.simps [of putc n base] num_chars.simps [of "unat base" digits "unat n"] unat_mod)
  qed
qed

lemma ft_print_unsigned_out:
  "2 \<le> unat base \<Longrightarrow> ft_print_unsigned base digits putc (VaWord n # ap) len s =
    (let out = num_chars (unat base) digits (unat n) in Some (ap, len + of_nat (length out), fold putc out s))"
  by (simp add: ft_print_unsigned_def ft_putnum_chars Let_def)

lemma unat_of_int32: "0 \<le> k \<Longrightarrow> k < 4294967296 \<Longrightarrow> unat (of_int k :: u32) = nat k"
  by (simp add: unsigned_of_int take_bit_int_eq_self)

lemma sint32_bounds: "- 2147483648 \<le> sint (w :: u32)" "sint (w :: u32) < 2147483648"
  using sint_greater_eq [of w] sint_less [of w] by simp_all

lemma unat_abs_sint: "unat (if sint w < 0 then - w else w) = nat \<bar>sint (w :: u32)\<bar>"
proof -
  have "(if sint w < 0 then - w else w) = of_int \<bar>sint w\<bar>" by simp
  moreover have "unat (of_int \<bar>sint w\<bar> :: u32) = nat \<bar>sint w\<bar>"
    using sint32_bounds [of w] by (intro unat_of_int32) auto
  ultimately show ?thesis by simp
qed

lemma ft_print_d_out:
  "ft_print_d putc (VaWord n # ap) len s =
    (let out = (if sint n < 0 then [45] else []) @ num_chars 10 nums_decimal (nat \<bar>sint n\<bar>)
     in Some (ap, len + of_nat (length out), fold putc out s))"
  using ft_putnum_chars [of 10 putc "if sint n < 0 then - n else n" nums_decimal] unat_abs_sint [of n]
  by (cases "sint n < 0") (simp_all add: ft_print_d_def Let_def)

subsection \<open>The sink\<close>

text \<open>
  What printing relies on: a sink that stays in its good states and writes memory in one area only.
\<close>

locale char_sink =
  fixes putc :: "u8 \<Rightarrow> 'a machine_scheme \<Rightarrow> 'a machine_scheme"
    and ok :: "'a machine_scheme \<Rightarrow> bool"
    and area :: u32 and area_size :: nat
  assumes ok_putc: "ok s \<Longrightarrow> ok (putc c s)"
    and putc_frame: "ok s \<Longrightarrow> same_outside area area_size (ram s) (ram (putc c s))"
begin

lemma ok_puts: "ok s \<Longrightarrow> ok (fold putc cs s)"
  by (induction cs arbitrary: s) (simp_all add: ok_putc)

lemma puts_frame: "ok s \<Longrightarrow> same_outside area area_size (ram s) (ram (fold putc cs s))"
proof (induction cs arbitrary: s)
  case (Cons c cs)
  then show ?case using ok_putc [of s c] putc_frame [of s c] by (auto intro: same_outside_trans)
qed simp

lemma puts_loop:
  "ok s \<Longrightarrow> cstring (ram s) p bs \<Longrightarrow> separate area area_size p (Suc (length bs)) \<Longrightarrow>
   ft_puts_loop putc p len s = Some (len + of_nat (length bs), fold putc bs s)"
proof (induction bs arbitrary: p len s)
  case Nil
  then show ?case by (simp add: ft_puts_loop.simps [of putc p])
next
  case (Cons b bs)
  have sep: "separate area area_size (p + 1) (Suc (length bs))"
    using separate_sub [OF separate_sym [OF Cons.prems(3)], of 1 "Suc (length bs)"] cstring_length [OF Cons.prems(2)]
    by (simp add: separate_sym)
  have str: "cstring (ram s) (p + 1) bs" and b: "ram s p = b" "b \<noteq> 0"
    using Cons.prems(2) by (simp_all add: cstring_Cons)
  have "cstring (ram (putc b s)) (p + 1) bs"
    by (rule cstring_same_outside [OF str putc_frame [OF Cons.prems(1)] sep])
  then show ?case
    using Cons.IH [OF ok_putc [OF Cons.prems(1)] _ sep] b
    by (simp add: ft_puts_loop.simps [of putc p len] ac_simps)
qed

lemma conversion_out:
  assumes ok: "ok s" and d: "denotes (ram s) area area_size a x" and r: "render_one c x = Some out"
  shows "\<exists>f. ft_print_dispatch c = Some f \<and> f putc (a # ap) len s = Some (ap, len + of_nat (length out), fold putc out s)"
proof (cases x)
  case (Num w)
  then have a: "a = VaWord w" using d by (cases a) simp_all
  show ?thesis
    using r unfolding Num a
    by (auto simp: ft_print_dispatch_def ft_print_c_def ft_print_d_out ft_print_o_def ft_print_u_def ft_print_x_def
        ft_print_X_def ft_print_unsigned_out Let_def split: if_splits)
next
  case (Str bs)
  then have c: "c = 115" "out = bs" using r by (simp_all split: if_splits)
  show ?thesis
    using d ok unfolding Str c by (cases a) (auto simp: ft_print_dispatch_def ft_print_s_def bytes_def puts_loop split: if_splits)
qed

lemma aux_out:
  "ok s \<Longrightarrow> list_all2 (denotes (ram s) area area_size) args ms \<Longrightarrow> render fmt ms = Some out \<Longrightarrow>
   ft_printf_aux putc fmt args len s = Some (len + of_nat (length out), fold putc out s)"
proof (induction fmt ms arbitrary: args len s out rule: render.induct)
  case (2 c fmt ms)
  note ok = 2(4) and args = 2(5) and out = 2(6)
  have keep: "list_all2 (denotes (ram (fold putc cs s)) area area_size) as xs"
    if "list_all2 (denotes (ram s) area area_size) as xs" for cs as xs
    using that puts_frame [OF ok, of cs] by (auto elim!: list_all2_mono denotes_same_outside)
  have okp: "ok (fold putc cs s)" for cs by (rule ok_puts [OF ok])
  show ?case
  proof (cases "c = 37")
    case False
    then obtain o' where o': "render fmt ms = Some o'" "out = c # o'" using out by auto
    show ?thesis using 2(1) [OF False okp [of "[c]"] keep [OF args] o'(1)] False o'(2) by (simp add: ac_simps)
  next
    case pc: True
    show ?thesis
    proof (cases fmt)
      case Nil
      then show ?thesis using pc out by simp
    next
      case (Cons d f)
      show ?thesis
      proof (cases "d \<in> {99, 100, 105, 111, 117, 120, 88, 115}")
        case False
        then obtain o' where o': "render f ms = Some o'" "out = d # o'" using out pc Cons by auto
        have "ft_print_dispatch d = (None :: ((u8 \<Rightarrow> 'a machine_scheme \<Rightarrow> 'a machine_scheme) \<Rightarrow> 'a machine_scheme conversion) option)"
          using False by (simp add: ft_print_dispatch_def)
        then show ?thesis
          using 2(2) [OF _ Cons False okp [of "[d]"] keep [OF args] o'(1)] pc Cons o'(2) by (simp add: ac_simps)
      next
        case conv: True
        then obtain x ms' o1 o2 where ms: "ms = x # ms'" "render_one d x = Some o1" "render f ms' = Some o2" "out = o1 @ o2"
          using out pc Cons by (auto split: list.splits option.splits)
        obtain a args' where a: "args = a # args'" "denotes (ram s) area area_size a x"
          "list_all2 (denotes (ram s) area area_size) args' ms'"
          using args ms(1) by (auto simp: list_all2_Cons2)
        obtain g where g: "ft_print_dispatch d = Some g"
          "g putc (a # args') len s = Some (args', len + of_nat (length o1), fold putc o1 s)"
          using conversion_out [OF ok a(2) ms(2)] by blast
        have "ft_printf_aux putc f args' (len + of_nat (length o1)) (fold putc o1 s) =
            Some (len + of_nat (length o1) + of_nat (length o2), fold putc o2 (fold putc o1 s))"
          using 2(3) [OF _ Cons _ ms(1,2) okp keep [OF a(3)] ms(3)] pc conv by simp
        then show ?thesis using pc Cons a(1) g ms(4) by (simp add: ac_simps)
      qed
    qed
  qed
qed simp

lemma printf_out:
  "ok s \<Longrightarrow> list_all2 (denotes (ram s) area area_size) args ms \<Longrightarrow> render fmt ms = Some out \<Longrightarrow>
   printf putc fmt args s = Some (of_nat (length out), fold putc out s)"
  using aux_out [of s args ms fmt out 0] by (simp add: printf_def)

end

interpretation term_sink: char_sink term_putchar term_ok "0xB8000" "5400"
  by unfold_locales (simp_all add: putchar_cases(3) putchar_cases(2) [THEN term_step_frame])

text \<open>C12. \<open>printf\<close> on the terminal prints exactly the text the format and its arguments denote, and returns its
  length: decimal, octal and hexadecimal numbers, the sign of negative ones, strings up to their NUL, \<open>(null)\<close> for a
  null pointer, and a percent sign before any other character prints that character.\<close>

theorem printf_prints_rendering:
  assumes "term_ok s" and "list_all2 (denotes (ram s) 0xB8000 5400) args ms" and "render fmt ms = Some out"
  shows "printf term_putchar fmt args s = Some (of_nat (length out), fold term_putchar out s)"
  using term_sink.printf_out [OF assms] .

theorem printf_prints_rendering_witness:
  "printf term_putchar (bytes ''%d'') [VaWord (- 12)] blank_terminal = Some (3, fold term_putchar [45, 49, 50] blank_terminal)"
  using printf_prints_rendering [of blank_terminal "[VaWord (- 12)]" "[Num (- 12)]" "bytes ''%d''" "[45, 49, 50]"]
  by (simp add: term_ok_def blank_terminal_def num_chars.simps nums_decimal_def bytes_def)

text \<open>The numbers are printed in place-value notation: reading the digits back gives the number.\<close>

definition place_value :: "nat \<Rightarrow> nat list \<Rightarrow> nat" where
  "place_value base ds = foldl (\<lambda>v d. v * base + d) 0 ds"

lemma num_chars_digits:
  assumes "2 \<le> base" and "base \<le> length digits"
  shows "\<exists>ds. num_chars base digits n = map ((!) digits) ds \<and> (\<forall>d \<in> set ds. d < base) \<and> place_value base ds = n
    \<and> (n \<noteq> 0 \<longrightarrow> hd ds \<noteq> 0) \<and> ds \<noteq> []"
proof (induction n rule: less_induct)
  case (less n)
  show ?case
  proof (cases "n < base")
    case True
    then show ?thesis by (intro exI [of _ "[n]"]) (simp add: num_chars.simps [of base] place_value_def)
  next
    case False
    then have lt: "n div base < n" "n div base \<noteq> 0" using assms by (auto simp: div_eq_0_iff)
    then obtain ds where ds: "num_chars base digits (n div base) = map ((!) digits) ds" "\<forall>d \<in> set ds. d < base"
      "place_value base ds = n div base" "hd ds \<noteq> 0" "ds \<noteq> []" using less by blast
    then show ?thesis using False assms
      by (intro exI [of _ "ds @ [n mod base]"]) (simp add: num_chars.simps [of base _ n] place_value_def)
  qed
qed

text \<open>Every number \<open>printf\<close> shows in base 8, 10 or 16 is right: the digits printed are those of a place-value
  numeral of the value, without a leading zero.\<close>

theorem putnum_place_value:
  assumes "base \<in> {8, 10, 16}"
  shows "\<exists>ds. ft_putnum putc n base nums_hexl s = Some (of_nat (length ds), fold putc (map ((!) nums_hexl) ds) s)
    \<and> (\<forall>d \<in> set ds. d < unat base) \<and> place_value (unat base) ds = unat n \<and> (n \<noteq> 0 \<longrightarrow> hd ds \<noteq> 0)"
proof -
  have b: "2 \<le> unat base" "unat base \<le> length nums_hexl" using assms by (auto simp: nums_hexl_def bytes_def)
  obtain ds where "num_chars (unat base) nums_hexl (unat n) = map ((!) nums_hexl) ds" "\<forall>d \<in> set ds. d < unat base"
    "place_value (unat base) ds = unat n" "unat n \<noteq> 0 \<longrightarrow> hd ds \<noteq> 0"
    using num_chars_digits [OF b, of "unat n"] by blast
  then show ?thesis using ft_putnum_chars [OF b(1), of putc n nums_hexl s]
    by (intro exI [of _ ds]) (auto simp: unat_eq_0)
qed

theorem putnum_place_value_witness:
  "\<exists>ds. ft_putnum (\<lambda>c s. s @ [c]) 255 16 nums_hexl [] = Some (of_nat (length ds), fold (\<lambda>c s. s @ [c]) (map ((!) nums_hexl) ds) [])
    \<and> place_value 16 ds = 255"
  using putnum_place_value [of 16 "\<lambda>c s. s @ [c]" 255 "[]"] by auto

subsection \<open>Random numbers in range\<close>

text \<open>\<open>rand_range(min, max)\<close> answers a number of the closed interval, for intervals shorter than \<open>2 ^ 31 - 1\<close>.\<close>

theorem rand_range_in_range:
  assumes le: "sint mn \<le> sint mx" and short: "sint mx - sint mn < 2147483647"
  shows "\<exists>v next'. rand_range mn mx next = Some (v, next') \<and> sint mn \<le> sint v \<and> sint v \<le> sint mx"
proof -
  define d where "d = sint mx - sint mn + 1"
  have d: "0 < d" "d < 2147483648" using le short by (simp_all add: d_def)
  have dw: "mx - mn + 1 = of_int d" by (simp add: d_def)
  have si: "sint (of_int k :: u32) = k" if "- 2147483648 \<le> k" "k < 2147483648" for k
    using that by (subst sint_sbintrunc') (simp add: signed_take_bit_int_eq_self)
  obtain r nx where r: "rand next = (r, nx)" by force
  have "fst (rand next) = ((next * 1103515245 + 12345) div 65536) mod 32768" by (simp only: rand_def Let_def fst_conv)
  then have "r = ((next * 1103515245 + 12345) div 65536) mod 32768" by (simp only: r fst_conv)
  then have "unat r < 32768" by (simp only: unat_mod) simp
  then have "int (unat r) < 32768" by linarith
  then have rs: "0 \<le> sint r" using si [of "int (unat r)"] by (simp add: order.trans [of _ 0])
  have m: "0 \<le> sint r smod d" "sint r smod d < d"
    using rs d by (simp_all add: signed_modulo_int_def sgn_if)
  have "sint (of_int (sint r smod d) + mn) = sint r smod d + sint mn"
    using m sint32_bounds [of mn] sint32_bounds [of mx] si [of "sint r smod d + sint mn"] by (simp add: d_def)
  moreover have "of_int d \<noteq> (0 :: u32)" using d si [of d] by auto
  ultimately have v: "sint mn \<le> sint (of_int (sint r smod d) + mn)" "sint (of_int (sint r smod d) + mn) \<le> sint mx"
    and nz: "mx - mn + 1 \<noteq> 0"
    using m unfolding dw by (simp_all add: d_def)
  have "sint (mx - mn + 1) = d" unfolding dw using si [of d] d by simp
  then have "rand_range mn mx next = Some (of_int (sint r smod d) + mn, nx)"
    using nz by (simp only: rand_range_def r Let_def prod.case if_False)
  with v show ?thesis by blast
qed

theorem rand_range_in_range_witness:
  "\<exists>v next'. rand_range 0 15 1 = Some (v, next') \<and> 0 \<le> sint v \<and> sint v \<le> 15"
  using rand_range_in_range [of 0 15 1] by simp

end
