(* ===== verification/System.thy ===== *)
theory System
  imports Printf
begin

text \<open>
  \<open>system/system.h\<close> (the register dump and the death of the kernel) and \<open>io/timer.h\<close> (the tick
  counter and the global sleep). The processor's registers are an argument of the operations that read them.
\<close>

subsection \<open>Registers and dying\<close>

record registers =
  ds_reg :: u32  edi :: u32  esi :: u32  ebp :: u32  esp :: u32  ebx :: u32  edx :: u32  ecx :: u32  eax :: u32
  int_no :: u32  err_code :: u32
  eip :: u32  cs_reg :: u32  eflags :: u32  useresp :: u32  ss_reg :: u32

record system = terminal +
  regdump :: registers

definition get_regs :: "registers \<Rightarrow> 'a system_scheme \<Rightarrow> 'a system_scheme" where
  "get_regs cpu s = s\<lparr>regdump := (regdump s)\<lparr>eax := eax cpu, edi := edi cpu, esi := esi cpu, ebx := ebx cpu,
     ecx := ecx cpu, edx := edx cpu, esp := esp cpu, eip := eip cpu, ebp := ebp cpu\<rparr>\<rparr>"

definition kprintf :: "u8 list \<Rightarrow> va list \<Rightarrow> 'a terminal_scheme \<Rightarrow> 'a terminal_scheme option" where
  "kprintf fmt args s = map_option snd (printf term_putchar fmt args s)"

definition dump_registers :: "registers \<Rightarrow> u32 \<Rightarrow> 'a system_scheme \<Rightarrow> 'a system_scheme option" where
  "dump_registers cpu cr3 s = do {
     let s = get_regs cpu s;
     let s = setcolor 4 s;
     s \<leftarrow> kprintf (text_line ''CR3: 0x%X EIP: 0x%X'') [VaWord cr3, VaWord (eip (regdump s))] s;
     s \<leftarrow> kprintf (text_line ''EAX: 0x%X EBX: 0x%X ECX: 0x%X EDX: 0x%X'')
       [VaWord (eax (regdump s)), VaWord (ebx (regdump s)), VaWord (ecx (regdump s)), VaWord (edx (regdump s))] s;
     s \<leftarrow> kprintf (text_line ''ESI: 0x%X EDI: 0x%X'') [VaWord (esi (regdump s)), VaWord (edi (regdump s))] s;
     s \<leftarrow> kprintf (text_line ''ESP: 0x%X'') [VaWord (esp (regdump s))] s;
     Some (setcolor 7 s) }"

definition STATUS_BAD_MULTIBOOT :: u32 where "STATUS_BAD_MULTIBOOT = 0x0BADB007"
definition STATUS_NOMEM :: u32 where "STATUS_NOMEM = 0xBADB00B5"
definition STATUS_PAGEFAULT :: u32 where "STATUS_PAGEFAULT = 0x546EDEAD"
definition STATUS_BREAKPOINT :: u32 where "STATUS_BREAKPOINT = 0xDB6"

definition die :: "registers \<Rightarrow> u32 \<Rightarrow> u32 \<Rightarrow> 'a system_scheme \<Rightarrow> 'a system_scheme option" where
  "die cpu cr3 stat s = do {
     let s = int_off s;
     let s = hidecur s;
     let s = setcolor 4 s;
     s \<leftarrow> kprint (Lit (10 # bytes ''Owmice died.'')) s;
     s \<leftarrow> (if \<not> stat = STATUS_BREAKPOINT then kprintf (text_line ''Status: 0x%X'') [VaWord stat] s else Some s);
     s \<leftarrow> dump_registers cpu cr3 s;
     Some (wait_int s) }"

definition die_assertion :: "registers \<Rightarrow> u32 \<Rightarrow> u32 \<Rightarrow> u8 list \<Rightarrow> u32 \<Rightarrow> 'a system_scheme \<Rightarrow> 'a system_scheme option" where
  "die_assertion cpu cr3 stat file line s = do {
     s \<leftarrow> kprintf (text_line ''Assertion at %s:%u failed.'') [VaLit file, VaWord line] s;
     die cpu cr3 stat s }"

definition stop :: "registers \<Rightarrow> u32 \<Rightarrow> u8 list \<Rightarrow> u32 \<Rightarrow> 'a system_scheme \<Rightarrow> 'a system_scheme option" where
  "stop cpu cr3 file line s = do {
     let s = setcolor 4 s;
     s \<leftarrow> kprintf (text_line ''Breakpoint at %s:%u reached. Bye.'') [VaLit file, VaWord line] s;
     die cpu cr3 STATUS_BREAKPOINT s }"

subsection \<open>The timer\<close>

record timer = system +
  kticks :: u64
  sleep_amt :: u32

definition blank_timer :: timer where
  "blank_timer = terminal.extend blank_terminal \<lparr>regdump = \<lparr>ds_reg = 0, edi = 0, esi = 0, ebp = 0, esp = 0, ebx = 0, edx = 0, ecx = 0,
     eax = 0, int_no = 0, err_code = 0, eip = 0, cs_reg = 0, eflags = 0, useresp = 0, ss_reg = 0\<rparr>, kticks = 0, sleep_amt = 0\<rparr>"

definition get_ticks :: "'a timer_scheme \<Rightarrow> u64" where
  "get_ticks s = kticks s"

definition pit_handler_main :: "'a timer_scheme \<Rightarrow> 'a timer_scheme" where
  "pit_handler_main s =
     (let s = s\<lparr>kticks := kticks s + 1\<rparr>;
          s = (if sint (sleep_amt s) > 0 then s\<lparr>sleep_amt := sleep_amt s - 10\<rparr> else s)
      in EOI s)"

text \<open>A frequency of 0 is a division fault.\<close>

definition timer_init :: "u32 \<Rightarrow> u32 \<Rightarrow> 'a timer_scheme \<Rightarrow> 'a timer_scheme option" where
  "timer_init pit_handler frequency s =
     (let s = irq_map_handler 0x20 pit_handler s
      in if frequency = 0 then None
         else
           let divisor = 1193180 div frequency;
               s = write_port 0x43 0x36 s;
               l = ucast (divisor AND 0xFF); h = ucast (drop_bit 8 divisor AND 0xFF);
               s = write_port 0x40 l s; s = write_port 0x40 h s
           in Some (write_port 0x21 0xFC s))"

text \<open>
  Waiting: each \<open>hlt\<close> ends with the handler of one interrupt. The list holds the interrupts still to
  come; \<open>None\<close> is a wait that has not ended when they are used up, or a handler that does not return.
\<close>

fun sleep_loop :: "('i \<Rightarrow> 'a timer_scheme \<Rightarrow> 'a timer_scheme option) \<Rightarrow> 'i list \<Rightarrow> 'a timer_scheme
    \<Rightarrow> ('i list \<times> 'a timer_scheme) option" where
  "sleep_loop irq [] s = (if sint (sleep_amt s) > 0 then None else Some ([], s))"
| "sleep_loop irq (i # is) s =
     (if sint (sleep_amt s) > 0
      then (case irq i (wait_int s) of None \<Rightarrow> None | Some s \<Rightarrow> sleep_loop irq is s)
      else Some (i # is, s))"

definition sleep :: "('i \<Rightarrow> 'a timer_scheme \<Rightarrow> 'a timer_scheme option) \<Rightarrow> u32 \<Rightarrow> 'i list \<Rightarrow> 'a timer_scheme
    \<Rightarrow> ('i list \<times> 'a timer_scheme) option" where
  "sleep irq msec is s = sleep_loop irq is (s\<lparr>sleep_amt := msec\<rparr>)"

subsection \<open>Facts: the timer\<close>

text \<open>The interval timer's reload value is written low byte first; command \<open>0x36\<close> selects that order.\<close>

lemma timer_init_io:
  "frequency \<noteq> 0 \<Longrightarrow> \<exists>s'. timer_init h frequency s = Some s'
    \<and> io s' = [Out8 0x21 0xFC, Out8 0x40 (ucast (drop_bit 8 (1193180 div frequency) AND 0xFF)),
        Out8 0x40 (ucast ((1193180 div frequency) AND 0xFF)), Out8 0x43 0x36] @ io s
    \<and> IDT s' = IDT (irq_map_handler 0x20 h s)"
  by (simp add: timer_init_def Let_def write_port_def emit_def irq_map_handler_def)

text \<open>\<open>timer_init(100)\<close>, as \<open>kmain\<close> calls it, programs the interval timer with the reload value 11931
  (a tick every 10 ms), unmasks the timer and keyboard lines, and routes vector \<open>0x20\<close> to the handler.\<close>

theorem timer_init_100Hz:
  "\<exists>s'. timer_init h 100 s = Some s'
    \<and> io s' = [Out8 0x21 0xFC, Out8 0x40 46, Out8 0x40 155, Out8 0x43 0x36] @ io s
    \<and> 46 * 256 + 155 = (1193180 div 100 :: nat) \<and> handler_of (IDT s' 0x20) = h"
proof -
  have "handler_of (IDT (irq_map_handler 0x20 h s) 0x20) = h"
    using halves_of_word [of h] by (simp add: irq_map_handler_def handler_of_def)
  moreover have "(1193180 :: u32) div 100 = 11931" "drop_bit 8 (11931 :: u32) = 46" "(11931 :: u32) AND 0xFF = 155"
    by (simp_all add: drop_bit_eq_div)
  ultimately show ?thesis using timer_init_io [of 100 h s] by auto
qed

text \<open>
  What sleeping relies on: an interrupt is a timer tick or not, a tick does to the two counters what
  the timer handler does, and other interrupts leave them alone.
\<close>

locale interrupts =
  fixes irq :: "'i \<Rightarrow> 'a timer_scheme \<Rightarrow> 'a timer_scheme option"
    and is_tick :: "'i \<Rightarrow> bool"
  assumes tick: "is_tick i \<Longrightarrow> irq i s = Some s' \<Longrightarrow>
      sleep_amt s' = sleep_amt (pit_handler_main s) \<and> kticks s' = kticks (pit_handler_main s)"
    and no_tick: "\<not> is_tick i \<Longrightarrow> irq i s = Some s' \<Longrightarrow> sleep_amt s' = sleep_amt s \<and> kticks s' = kticks s"
begin

text \<open>The number of ticks a remaining amount takes.\<close>

definition ticks_for :: "u32 \<Rightarrow> nat" where
  "ticks_for amt = nat ((sint amt + 9) div 10)"

lemma ticks_for_sub: "0 < sint amt \<Longrightarrow> ticks_for amt = Suc (ticks_for (amt - 10))"
proof -
  assume pos: "0 < sint amt"
  have "amt - 10 = of_int (sint amt - 10)" by simp
  moreover have "sint (of_int (sint amt - 10) :: u32) = sint amt - 10"
    using pos sint32_bounds [of amt] by (intro sint32_of_int) auto
  ultimately have "sint (amt - 10) = sint amt - 10" by simp
  then show ?thesis using pos unfolding ticks_for_def by arith
qed

lemma after_hlt: "sleep_amt (wait_int s) = sleep_amt s" "kticks (wait_int s) = kticks s"
  by (simp_all add: port_defs)

lemma tick_step:
  assumes "is_tick i" and "irq i (wait_int s) = Some t" and "0 < sint (sleep_amt s)"
  shows "sleep_amt t = sleep_amt s - 10" and "kticks t = kticks s + 1"
  using tick [OF assms(1,2)] assms(3) after_hlt [of s] by (simp_all add: pit_handler_main_def Let_def port_defs)

lemma sleep_loop_exact:
  "sleep_loop irq is s = Some (rest, s') \<Longrightarrow> kticks s' = kticks s + of_nat (ticks_for (sleep_amt s))
     \<and> length (filter is_tick is) = ticks_for (sleep_amt s) + length (filter is_tick rest)"
proof (induction "is" arbitrary: s)
  case Nil
  then show ?case by (auto simp: ticks_for_def split: if_splits)
next
  case (Cons i "is")
  show ?case
  proof (cases "0 < sint (sleep_amt s)")
    case True
    then obtain t where t: "irq i (wait_int s) = Some t" "sleep_loop irq is t = Some (rest, s')"
      using Cons.prems by (auto split: option.splits)
    show ?thesis
    proof (cases "is_tick i")
      case tk: True
      show ?thesis using Cons.IH [OF t(2)] tick_step [OF tk t(1) True] ticks_for_sub [OF True] tk by simp
    next
      case False
      then show ?thesis using Cons.IH [OF t(2)] no_tick [OF False t(1)] after_hlt [of s] by simp
    qed
  next
    case False
    then show ?thesis using Cons.prems by (simp add: ticks_for_def)
  qed
qed

lemma sleep_loop_returns:
  "(\<And>i s. i \<in> set is \<Longrightarrow> irq i s \<noteq> None) \<Longrightarrow> ticks_for (sleep_amt s) \<le> length (filter is_tick is) \<Longrightarrow>
   \<exists>r. sleep_loop irq is s = Some r"
proof (induction "is" arbitrary: s)
  case Nil
  then show ?case by (auto simp: ticks_for_def)
next
  case (Cons i "is")
  show ?case
  proof (cases "0 < sint (sleep_amt s)")
    case True
    obtain t where t: "irq i (wait_int s) = Some t" using Cons.prems(1) [of i "wait_int s"] by auto
    have "ticks_for (sleep_amt t) \<le> length (filter is_tick is)"
    proof (cases "is_tick i")
      case tk: True
      show ?thesis using tick_step [OF tk t True] ticks_for_sub [OF True] Cons.prems(2) tk by simp
    next
      case False
      then show ?thesis using no_tick [OF False t] after_hlt [of s] Cons.prems(2) by simp
    qed
    then show ?thesis using Cons.IH [of t] Cons.prems(1) True t by simp
  qed simp
qed

end

text \<open>A sleep of \<open>2 ^ 31\<close> milliseconds or more does not sleep: the amount is kept in a signed variable.\<close>

theorem sleep_long_returns_at_once:
  assumes "2147483648 \<le> unat msec"
  shows "\<exists>s'. sleep irq msec is s = Some (is, s')"
proof -
  have "sint msec < 0"
  proof (rule ccontr)
    assume "\<not> sint msec < 0"
    then have "unat (of_int (sint msec) :: u32) = nat (sint msec)"
      using sint32_bounds [of msec] by (intro unat_of_int32) auto
    then show False using assms sint32_bounds [of msec] by simp
  qed
  then show ?thesis by (cases "is") (simp_all add: sleep_def)
qed

theorem sleep_long_returns_at_once_witness:
  "\<exists>s'. sleep (\<lambda>_. Some) 3000000000 [()] blank_timer = Some ([()], s')"
  by (rule sleep_long_returns_at_once) simp

end
