(* ===== verification/Cmos.thy ===== *)
theory Cmos
  imports System
begin

text \<open>
  \<open>io/cmos.h\<close>: the real-time clock. The clock chip is the device behind ports \<open>0x70\<close> (register select) and
  \<open>0x71\<close> (data); theorems about dates name its documented behaviour as a hypothesis \<open>rtc s r\<close>. The reference
  calendar against which the kernel's arithmetic is checked stands after the operations.
\<close>

subsection \<open>Operations\<close>

definition timezone :: u16 where "timezone = 2"
definition century :: u16 where "century = 2"

record timeval =
  tv_sec :: u32
  tv_usec :: u32

record date_t =
  d_h :: u16  d_m :: u16  d_s :: u16  d_d :: u16  d_mo :: u16  d_y :: u16

record cmos = timer +
  ttime :: date_t

text \<open>The macro is evaluated on a \<open>uint16_t\<close> promoted to \<open>int\<close>.\<close>

definition from_bcd :: "u16 \<Rightarrow> int" where
  "from_bcd val = (uint val div 16) * 10 + uint (val AND 0xf)"

text \<open>\<open>read_port\<close> returns a signed \<open>char\<close>, so storing it in a \<open>uint16_t\<close> sign-extends it.\<close>

definition cmos_dump :: "'a machine_scheme \<Rightarrow> u16 list \<times> 'a machine_scheme" where
  "cmos_dump s = fold (\<lambda>index (values, s).
     let s = write_port 0x70 (of_nat index) s; (v, s) = read_port 0x71 s
     in (values @ [scast v], s)) [0..<128] ([], s)"

definition get_date :: "'a machine_scheme \<Rightarrow> u16 \<times> u16 \<times> u16 \<times> 'a machine_scheme" where
  "get_date s =
     (let (values, s) = cmos_dump s
      in (of_int (from_bcd (values ! 8)), of_int (from_bcd (values ! 7)),
          of_int (uint century * 1000 + from_bcd (values ! 9)), s))"

definition get_time :: "'a machine_scheme \<Rightarrow> bool \<times> u16 \<times> u16 \<times> u16 \<times> 'a machine_scheme" where
  "get_time s =
     (let (values, s) = cmos_dump s;
          hours = of_int (from_bcd (values ! 4)) + timezone;
          (hours, ovf) = (if hours \<ge> 24 then (hours - 24, True) else (hours, False))
      in (ovf, hours, of_int (from_bcd (values ! 2)), of_int (from_bcd (values ! 0)), s))"

function soy_loop :: "int \<Rightarrow> u32 \<Rightarrow> u32" where
  "soy_loop years days =
     (if years > 1969
      then let days = days + 365;
               days = (if years mod 4 = 0
                       then if years mod 100 = 0 then if years mod 400 = 0 then days + 1 else days else days + 1
                       else days)
           in soy_loop (years - 1) days
      else days)"
  by auto
termination by (relation "measure (\<lambda>(years, _). nat (years - 1969))") auto

declare soy_loop.simps [simp del]

definition secs_of_years :: "int \<Rightarrow> u32" where
  "secs_of_years years = soy_loop (years + 2000) 0 * 86400"

definition is_leap_year :: "u16 \<Rightarrow> bool" where
  "is_leap_year year =
     (if year mod 4 = 0
      then if year mod 100 = 0 then if year mod 400 = 0 then True else False else True
      else False)"

text \<open>The cases of the \<open>switch\<close> fall through: a month adds its days and those of all earlier ones.\<close>

definition secs_of_month :: "int \<Rightarrow> int \<Rightarrow> u32" where
  "secs_of_month months year =
     (let year = year + 2000;
          add = (\<lambda>c n days. if c \<le> months \<and> months \<le> 11 then days + n else days);
          days = add 11 30 0; days = add 10 31 days; days = add 9 30 days; days = add 8 31 days;
          days = add 7 31 days; days = add 6 30 days; days = add 5 31 days; days = add 4 30 days;
          days = add 3 31 days; days = add 2 28 days;
          days = (if 2 \<le> months \<and> months \<le> 11 \<and> (year mod 4 = 0 \<and> (year mod 100 \<noteq> 0 \<or> year mod 400 = 0))
                  then days + 1 else days);
          days = add 1 31 days
      in days * 86400)"

definition gettimeofday :: "'a machine_scheme \<Rightarrow> timeval \<times> 'a machine_scheme" where
  "gettimeofday s =
     (let (values, s) = cmos_dump s;
          time = secs_of_years (from_bcd (values ! 9) - 1)
            + secs_of_month (from_bcd (values ! 8) - 1) (from_bcd (values ! 9))
            + of_int ((from_bcd (values ! 7) - 1) * 86400)
            + of_int (from_bcd (values ! 4) * 3600)
            + of_int (from_bcd (values ! 2) * 60)
            + of_int (from_bcd (values ! 0)) + 0
      in (\<lparr>tv_sec = time, tv_usec = 0\<rparr>, s))"

definition now :: "'a machine_scheme \<Rightarrow> u32 \<times> 'a machine_scheme" where
  "now s = (let (t, s) = gettimeofday s in (tv_sec t, s))"

text \<open>The corrections of \<open>get_today\<close> after the date and the shifted time are read.\<close>

definition fix_date :: "date_t \<Rightarrow> date_t" where
  "fix_date dt =
     (let dt = (if d_d dt > 31 \<and> d_mo dt mod 2 \<noteq> 0 \<and> d_mo dt \<noteq> 9
                then dt\<lparr>d_d := 1, d_mo := d_mo dt + 1\<rparr> else dt);
          dt = (if d_d dt > 30 \<and> d_mo dt mod 2 = 0 \<and> d_mo dt \<noteq> 2
                then dt\<lparr>d_d := 1, d_mo := d_mo dt + 1\<rparr> else dt);
          dt = (if d_mo dt = 2
                then let leap = is_leap_year (d_y dt);
                         dt = (if leap \<and> d_d dt > 29 then dt\<lparr>d_mo := d_mo dt + 1, d_d := 1\<rparr> else dt)
                     in (if \<not> leap \<and> d_d dt > 28 then dt\<lparr>d_mo := d_mo dt + 1, d_d := 1\<rparr> else dt)
                else dt)
      in if d_mo dt > 12 then dt\<lparr>d_y := d_y dt + 1\<rparr> else dt)"

definition get_today :: "'a machine_scheme \<Rightarrow> date_t \<times> 'a machine_scheme" where
  "get_today s =
     (let (mo, d, y, s) = get_date s;
          (ovf, h, m, sec, s) = get_time s;
          dt = \<lparr>d_h = h, d_m = m, d_s = sec, d_d = (if ovf then d + 1 else d), d_mo = mo, d_y = y\<rparr>
      in (fix_date dt, s))"

definition today :: "'a cmos_scheme \<Rightarrow> (u32 \<times> 'a cmos_scheme) option" where
  "today s = do {
     let (dt, s) = get_today s;
     let s = s\<lparr>ttime := dt\<rparr>;
     s \<leftarrow> kprintf (bytes ''[%u/%u/%u] [%u:%u:%u]'')
       [VaWord (ucast (d_d dt)), VaWord (ucast (d_mo dt)), VaWord (ucast (d_y dt)),
        VaWord (ucast (d_h dt)), VaWord (ucast (d_m dt)), VaWord (ucast (d_s dt))] s;
     Some (0, s) }"

subsection \<open>The clock chip\<close>

text \<open>
  Documented behaviour of the clock: port \<open>0x71\<close> delivers the register last selected through \<open>0x70\<close>. The
  hypothesis says it of the reads of one dump, and that the clock does not tick in between.
\<close>

definition rtc :: "'a machine_scheme \<Rightarrow> (nat \<Rightarrow> u8) \<Rightarrow> bool" where
  "rtc s r \<longleftrightarrow> (\<forall>i < 128. \<forall>h. dev8 s (Out8 0x70 (of_nat i) # h) 0x71 = r i)"

definition bcd :: "nat \<Rightarrow> u8" where
  "bcd n = of_nat (n div 10 * 16 + n mod 10)"

lemma cmos_dump_values:
  assumes "rtc s r"
  shows "fst (cmos_dump s) = map (\<lambda>i. scast (r i)) [0..<128]" and "rtc (snd (cmos_dump s)) r"
proof -
  let ?f = "\<lambda>index (values, s). let s = write_port 0x70 (of_nat index) s; (v, s) = read_port 0x71 s
     in (values @ [scast v :: u16], s)"
  have "fst (fold ?f [0..<n] ([], s)) = map (\<lambda>i. scast (r i)) [0..<n] \<and> dev8 (snd (fold ?f [0..<n] ([], s))) = dev8 s"
    if "n \<le> 128" for n
    using that
  proof (induction n)
    case (Suc n)
    obtain vs t where t: "fold ?f [0..<n] ([], s) = (vs, t)" by force
    have "dev8 t (Out8 0x70 (of_nat n) # h) 0x71 = r n" for h
      using Suc t assms by (simp add: rtc_def)
    then show ?case using Suc t by (simp add: Let_def port_defs)
  qed simp
  from this [of 128] show "fst (cmos_dump s) = map (\<lambda>i. scast (r i)) [0..<128]" "rtc (snd (cmos_dump s)) r"
    using assms by (simp_all add: cmos_dump_def rtc_def)
qed

lemma from_bcd_bcd:
  assumes "n < 80"
  shows "from_bcd (scast (bcd n)) = int n"
proof -
  have all: "\<forall>n \<in> set [0..<80]. from_bcd (scast (bcd n)) = int n"
    unfolding from_bcd_def bcd_def by code_simp
  then show ?thesis using assms by simp
qed

subsection \<open>The reference calendar\<close>

definition leap :: "nat \<Rightarrow> bool" where
  "leap y \<longleftrightarrow> y mod 4 = 0 \<and> (y mod 100 \<noteq> 0 \<or> y mod 400 = 0)"

definition month_len :: "nat \<Rightarrow> nat \<Rightarrow> nat" where
  "month_len y m = (if m = 2 then (if leap y then 29 else 28) else if m \<in> {4, 6, 9, 11} then 30 else 31)"

definition year_len :: "nat \<Rightarrow> nat" where
  "year_len y = (if leap y then 366 else 365)"

text \<open>Days since 1 January 1970 of day \<open>d\<close> (from 1) of month \<open>m\<close> of year \<open>y\<close>, and the Unix time.\<close>

definition day_number :: "nat \<Rightarrow> nat \<Rightarrow> nat \<Rightarrow> nat" where
  "day_number y m d = sum_list (map year_len [1970..<y]) + sum_list (map (month_len y) [1..<m]) + (d - 1)"

definition unix_time :: "nat \<Rightarrow> nat \<Rightarrow> nat \<Rightarrow> nat \<Rightarrow> nat \<Rightarrow> nat \<Rightarrow> nat" where
  "unix_time y m d h mi sec = day_number y m d * 86400 + h * 3600 + mi * 60 + sec"

lemma leap_int:
  "(int y mod 4 = 0 \<and> (int y mod 100 \<noteq> 0 \<or> int y mod 400 = 0)) = leap y"
proof -
  have m: "int y mod n = int (y mod nat n)" if "0 \<le> n" for n using that by (simp add: zmod_int)
  show ?thesis by (simp add: m leap_def)
qed

lemma soy_loop_step:
  "1970 \<le> y \<Longrightarrow> soy_loop (int y) days = soy_loop (int y - 1) (days + of_nat (year_len y))"
  using leap_int [of y]
  by (auto simp: soy_loop.simps [of "int y"] year_len_def Let_def add.assoc split: if_splits)

lemma soy_loop_sum:
  "soy_loop (int (1970 + k) - 1) days = days + of_nat (sum_list (map year_len [1970..<1970 + k]))"
proof (induction k arbitrary: days)
  case 0
  then show ?case by (simp add: soy_loop.simps)
next
  case (Suc k)
  have "soy_loop (int (1970 + Suc k) - 1) days = soy_loop (int (1970 + k)) days" by simp
  also have "\<dots> = soy_loop (int (1970 + k) - 1) (days + of_nat (year_len (1970 + k)))"
    by (rule soy_loop_step) simp
  finally show ?case
    using Suc.IH upt_Suc_append [of 1970 "k + 1970"] by (simp add: ac_simps)
qed

lemma secs_of_month_sum:
  assumes "1 \<le> mo" and "mo \<le> 12"
  shows "secs_of_month (int mo - 1) (int y) = of_nat (sum_list (map (month_len (2000 + y)) [1..<mo])) * 86400"
proof -
  have l: "((int y + 2000) mod 4 = 0 \<and> ((int y + 2000) mod 100 \<noteq> 0 \<or> (int y + 2000) mod 400 = 0)) = leap (2000 + y)"
    using leap_int [of "2000 + y"] by (simp add: add.commute)
  have "mo \<in> {1, 2, 3, 4, 5, 6, 7, 8, 9, 10, 11, 12}" using assms by simp arith
  then show ?thesis
    unfolding secs_of_month_def Let_def l
    by (elim insertE emptyE) (simp_all add: month_len_def upt_rec)
qed

lemma day_number_bound:
  assumes "y < 80" and "mo \<le> 12" and "d \<le> 31"
  shows "day_number (2000 + y) mo d \<le> 41000"
proof -
  have "sum_list (map year_len [1970..<2000 + y]) \<le> sum_list (map (\<lambda>_. 366) [1970..<2000 + y])"
    by (rule sum_list_mono) (simp add: year_len_def)
  moreover have "sum_list (map (month_len (2000 + y)) [1..<mo]) \<le> sum_list (map (\<lambda>_. 31) [1..<mo])"
    by (rule sum_list_mono) (simp add: month_len_def)
  ultimately show ?thesis using assms by (simp add: day_number_def sum_list_triv)
qed

text \<open>C34. \<open>now\<close> is the Unix time of what the clock chip shows, for every date from 2000 to 2079.\<close>

theorem now_is_unix_time:
  assumes clock: "rtc s r" and date: "r 9 = bcd y" "r 8 = bcd mo" "r 7 = bcd d"
    and time: "r 4 = bcd h" "r 2 = bcd mi" "r 0 = bcd sec"
    and range: "y < 80" "1 \<le> mo" "mo \<le> 12" "1 \<le> d" "d \<le> 31" "h < 24" "mi < 60" "sec < 60"
  shows "unat (fst (now s)) = unix_time (2000 + y) mo d h mi sec"
proof -
  obtain vs s' where dump: "cmos_dump s = (vs, s')" by force
  have vs: "vs ! i = scast (r i)" if "i < 128" for i
    using cmos_dump_values(1) [OF clock] dump that by simp
  have val: "from_bcd (vs ! 9) = int y" "from_bcd (vs ! 8) = int mo" "from_bcd (vs ! 7) = int d"
    "from_bcd (vs ! 4) = int h" "from_bcd (vs ! 2) = int mi" "from_bcd (vs ! 0) = int sec"
    using range by (simp_all add: vs date time from_bcd_bcd)
  have "secs_of_years (int y - 1) = of_nat (sum_list (map year_len [1970..<2000 + y])) * 86400"
    using soy_loop_sum [of "30 + y" 0] by (simp add: secs_of_years_def algebra_simps)
  then have "fst (now s) = of_nat (unix_time (2000 + y) mo d h mi sec)"
    using range by (simp add: now_def gettimeofday_def dump val secs_of_month_sum unix_time_def day_number_def
        algebra_simps of_nat_diff)
  moreover have "unix_time (2000 + y) mo d h mi sec < 4294967296"
    using day_number_bound [of y mo d] range by (simp add: unix_time_def)
  ultimately show ?thesis by simp
qed

text \<open>A machine whose clock chip holds the registers \<open>r\<close>, for the witnesses.\<close>

definition clock_machine :: "(u8 \<Rightarrow> u8) \<Rightarrow> machine" where
  "clock_machine r = blank_machine\<lparr>dev8 := \<lambda>h p. case h of Out8 q i # _ \<Rightarrow> r i | _ \<Rightarrow> 0\<rparr>"

lemma rtc_clock_machine: "rtc (clock_machine r) (\<lambda>i. r (of_nat i))"
  by (simp add: rtc_def clock_machine_def)

definition date_regs :: "u8 \<Rightarrow> u8 \<Rightarrow> u8 \<Rightarrow> u8 \<Rightarrow> u8 \<Rightarrow> u8" where
  "date_regs y mo d h i = (if i = 9 then y else if i = 8 then mo else if i = 7 then d else if i = 4 then h else 0)"

theorem now_is_unix_time_witness:
  "unat (fst (now (clock_machine (date_regs 0x24 0x02 0x29 0x12)))) = unix_time 2024 2 29 12 0 0"
  using now_is_unix_time [OF rtc_clock_machine [of "date_regs 0x24 0x02 0x29 0x12"], of 24 2 29 12 0 0]
  by (simp add: bcd_def date_regs_def)

subsection \<open>The date shown\<close>

text \<open>The day after a date, and the date and time two hours later, the kernel's time zone.\<close>

definition next_day :: "nat \<Rightarrow> nat \<Rightarrow> nat \<Rightarrow> nat \<times> nat \<times> nat" where
  "next_day y m d = (if d < month_len y m then (y, m, d + 1) else if m < 12 then (y, m + 1, 1) else (y + 1, 1, 1))"

lemma is_leap_year_leap: "y < 65536 \<Longrightarrow> is_leap_year (of_nat y) = leap y"
proof -
  assume y: "y < 65536"
  have "(of_nat y :: u16) mod n = 0 \<longleftrightarrow> y mod unat n = 0" for n
    using y by (simp add: word_unat_eq_iff unat_mod unat_of_nat)
  then show ?thesis by (simp add: is_leap_year_def leap_def)
qed

definition shown :: "date_t \<Rightarrow> nat \<times> nat \<times> nat" where
  "shown dt = (unat (d_y dt), unat (d_mo dt), unat (d_d dt))"

lemma get_today_fix:
  assumes clock: "rtc s r" and date: "r 9 = bcd y" "r 8 = bcd mo" "r 7 = bcd d"
    and time: "r 4 = bcd h" "r 2 = bcd mi" "r 0 = bcd sec"
    and range: "y < 80" "1 \<le> mo" "mo \<le> 12" "1 \<le> d" "d \<le> 31" "h < 24" "mi < 60" "sec < 60"
  shows "fst (get_today s) = fix_date \<lparr>d_h = of_nat (if h + 2 \<ge> 24 then h + 2 - 24 else h + 2), d_m = of_nat mi, d_s = of_nat sec,
    d_d = of_nat (if h + 2 \<ge> 24 then d + 1 else d), d_mo = of_nat mo, d_y = of_nat (2000 + y)\<rparr>"
proof -
  obtain vs s' where dump: "cmos_dump s = (vs, s')" by force
  have vs: "vs ! i = scast (r i)" if "i < 128" for i
    using cmos_dump_values(1) [OF clock] dump that by simp
  have clock': "rtc s' r" using cmos_dump_values(2) [OF clock] dump by simp
  obtain vs' s'' where dump': "cmos_dump s' = (vs', s'')" by force
  have vs': "vs' ! i = scast (r i)" if "i < 128" for i
    using cmos_dump_values(1) [OF clock'] dump' that by simp
  have val: "from_bcd (vs ! 9) = int y" "from_bcd (vs ! 8) = int mo" "from_bcd (vs ! 7) = int d"
    "from_bcd (vs' ! 4) = int h" "from_bcd (vs' ! 2) = int mi" "from_bcd (vs' ! 0) = int sec"
    using range by (simp_all add: vs vs' date time from_bcd_bcd)
  have h2: "of_nat h + timezone = (of_nat (h + 2) :: u16)" by (simp add: timezone_def)
  have u: "unat (of_nat (h + 2) :: u16) = h + 2" using range by (subst unat_of_nat) simp
  have ge: "(24 :: u16) \<le> of_nat (h + 2) \<longleftrightarrow> 24 \<le> h + 2" by (simp only: word_le_nat_alt u) simp
  have sub: "of_nat (h + 2) - 24 = (of_nat (h + 2 - 24) :: u16)" if "24 \<le> h + 2"
    using that by (simp only: of_nat_diff) simp
  show ?thesis
    using ge sub by (simp add: get_today_def get_date_def get_time_def dump dump' val century_def timezone_def Let_def ac_simps)
qed

lemma fix_date_first_half:
  assumes mo: "1 \<le> mo" "mo \<le> 7" and d: "1 \<le> d" "d \<le> month_len y mo + 1" and y: "y < 65535"
  shows "shown (fix_date \<lparr>d_h = h, d_m = m, d_s = sec, d_d = of_nat d, d_mo = of_nat mo, d_y = of_nat y\<rparr>) =
    (if d \<le> month_len y mo then (y, mo, d) else (y, mo + 1, 1))"
proof -
  have d32: "d \<le> 32" using d by (auto simp: month_len_def split: if_splits)
  have u: "unat (of_nat d :: u16) = d" "unat (of_nat y :: u16) = y" using d32 y by (simp_all add: unat_of_nat)
  have gt: "(31 :: u16) < of_nat d \<longleftrightarrow> 31 < d" "(30 :: u16) < of_nat d \<longleftrightarrow> 30 < d"
    "(29 :: u16) < of_nat d \<longleftrightarrow> 29 < d" "(28 :: u16) < of_nat d \<longleftrightarrow> 28 < d"
    by (simp_all add: word_less_nat_alt u)
  have "mo \<in> {1, 2, 3, 4, 5, 6, 7}" using mo by simp arith
  then show ?thesis
    using d is_leap_year_leap [of y] y
    by (elim insertE emptyE)
      (auto simp: fix_date_def Let_def gt u shown_def month_len_def word_mod_no split: if_splits)
qed

text \<open>From January to July the date shown is right: it is the clock's date, or the day after it when the two hours
  of the time zone carry over midnight.\<close>

theorem get_today_first_half:
  assumes clock: "rtc s r" and date: "r 9 = bcd y" "r 8 = bcd mo" "r 7 = bcd d"
    and time: "r 4 = bcd h" "r 2 = bcd mi" "r 0 = bcd sec"
    and range: "y < 80" "1 \<le> mo" "mo \<le> 7" "1 \<le> d" "d \<le> month_len (2000 + y) mo" "h < 24" "mi < 60" "sec < 60"
  shows "shown (fst (get_today s)) = (if h + 2 \<ge> 24 then next_day (2000 + y) mo d else (2000 + y, mo, d))"
proof -
  have "d \<le> 31" using range by (auto simp: month_len_def split: if_splits)
  then show ?thesis
    using get_today_fix [OF clock date time, of] fix_date_first_half [of mo "if h + 2 \<ge> 24 then d + 1 else d" "2000 + y"] range
    by (auto simp: next_day_def)
qed

theorem get_today_first_half_witness:
  "shown (fst (get_today (clock_machine (date_regs 0x24 0x02 0x29 0x23)))) = (2024, 3, 1)"
  using get_today_first_half [OF rtc_clock_machine [of "date_regs 0x24 0x02 0x29 0x23"], of 24 2 29 23 0 0]
  by (simp add: bcd_def date_regs_def next_day_def month_len_def leap_def)

text \<open>On the 31st of August, October and December the date shown is the first of a next month, at any hour:
  \<open>get_today\<close> takes every even month but February to have 30 days.\<close>

theorem get_today_skips_31st:
  assumes clock: "rtc s r" and date: "r 9 = bcd y" "r 8 = bcd mo" "r 7 = bcd 31"
    and time: "r 4 = bcd h" "r 2 = bcd mi" "r 0 = bcd sec"
    and range: "y < 80" "mo \<in> {8, 10, 12}" "h < 22" "mi < 60" "sec < 60"
  shows "shown (fst (get_today s)) = (if mo = 12 then (2001 + y, 13, 1) else (2000 + y, mo + 1, 1))"
proof -
  have "fst (get_today s) = fix_date \<lparr>d_h = of_nat (if h + 2 \<ge> 24 then h + 2 - 24 else h + 2), d_m = of_nat mi, d_s = of_nat sec,
    d_d = of_nat (if h + 2 \<ge> 24 then 31 + 1 else 31), d_mo = of_nat mo, d_y = of_nat (2000 + y)\<rparr>"
    by (rule get_today_fix [OF clock date time]) (use range in auto)
  moreover have "unat (2000 + of_nat y :: u16) = 2000 + y" "unat (2001 + of_nat y :: u16) = 2001 + y"
    using range unat_of_nat [of "2000 + y", where 'a = 16] unat_of_nat [of "2001 + y", where 'a = 16] by simp_all
  ultimately show ?thesis
    using range by (auto simp: fix_date_def Let_def shown_def)
qed

theorem get_today_skips_31st_witness:
  "shown (fst (get_today (clock_machine (date_regs 0x24 0x12 0x31 0x12)))) = (2025, 13, 1)"
  using get_today_skips_31st [OF rtc_clock_machine [of "date_regs 0x24 0x12 0x31 0x12"], of 24 12 12 0 0]
  by (simp add: bcd_def date_regs_def)

end
