(* ===== verification/Keyboard.thy ===== *)
theory Keyboard
  imports Cmos
begin

text \<open>
  \<open>io/kbdmap.h\<close> and \<open>io/keyboard.h\<close>: the keyboard interrupt handler, which edits the line in the input
  buffer and echoes it, and the two blocking reads. The line editor at the end is the abstract machine
  the handler implements.
\<close>

subsection \<open>Key tables\<close>

text \<open>\<open>KEY_UP\<close> 11, \<open>KEY_LEFT\<close> 12, \<open>KEY_RIGHT\<close> 13, \<open>KEY_DOWN\<close> 14, \<open>KEY_SHIFT\<close> 15.\<close>

definition keyboard_specialchars :: "u8 list" where
  "keyboard_specialchars = [0, 27] @ map of_char ''!@#$%^&*()_+''"

definition keyboard_map_table :: "u8 list" where
  "keyboard_map_table =
     [0, 27] @ map of_char ''1234567890-='' @ [8, 9] @ map of_char ''qwertyuiop[]'' @ [10, 0]
     @ map of_char ''asdfghjkl;'' @ [39] @ [96] @ [15, 92] @ map of_char ''zxcvbnm,./'' @ [15, 42, 0, 32, 0, 0]
     @ replicate 8 0 @ [0, 0, 0, 0, 11, 0, 45, 12, 0, 13, 43, 0, 14, 0, 0, 0, 0, 0, 0, 0, 0, 0] @ replicate 38 0"

subsection \<open>State\<close>

record keyboard = cmos +
  con_input :: u32
  bufpos :: u32
  request :: u8
  charbuffer :: u32
  keychar :: u8
  keycode :: u8
  shift_down :: bool
  keyboard_map :: u32

subsection \<open>Operations\<close>

definition kbd_init :: "u32 \<Rightarrow> 'a keyboard_scheme \<Rightarrow> 'a keyboard_scheme option" where
  "kbd_init keyboard_handler s = do {
     s \<leftarrow> kprintf (bytes ''Setting up keyboard driver... '') [] s;
     let s = irq_map_handler 0x21 keyboard_handler s;
     let s = write_port 0x21 0xFD s;
     let s = write_port 0xA1 0xFF s;
     kprintf (text_line ''Done!'') [] s }"

text \<open>
  The handler in pieces: the backspace, the printable character, the key-down branch, and the whole
  after the scan code is read. \<open>keyboard_map\<close> is an array of 128 characters in memory, which the code indexes with the
  whole scan code; \<open>strcat\<close> returns its first argument, so \<open>con_input\<close> stays as it is.
\<close>

definition kbd_backspace :: "'a keyboard_scheme \<Rightarrow> 'a keyboard_scheme option" where
  "kbd_backspace s = do {
     comlen \<leftarrow> strlen (ram s) (con_input s);
     if comlen > 0 then
       let s = s\<lparr>ram := (ram s)(con_input s + (comlen - 1) := 0)\<rparr>;
           s = s\<lparr>bufpos := bufpos s + 1\<rparr>
       in Some (term_putchar (keychar s) s)
     else Some s }"

definition kbd_append :: "'a keyboard_scheme \<Rightarrow> 'a keyboard_scheme option" where
  "kbd_append s = do {
     let s = s\<lparr>ram := (ram s)(charbuffer s := keychar s)\<rparr>;
     m \<leftarrow> strcat (con_input s) (charbuffer s) (ram s);
     Some (term_putchar (keychar s) (s\<lparr>ram := m\<rparr>)) }"

definition kbd_insert :: "'a keyboard_scheme \<Rightarrow> 'a keyboard_scheme option" where
  "kbd_insert s =
     (if keychar s = 0 then Some s
      else if sint (bufpos s) \<ge> 128 then Some s
      else
        let s = s\<lparr>bufpos := bufpos s + 1\<rparr>
        in if request s = 2 then Some (s\<lparr>request := 0, bufpos := 0\<rparr>)
           else kbd_append s)"

definition kbd_key_down :: "'a keyboard_scheme \<Rightarrow> 'a keyboard_scheme option" where
  "kbd_key_down s =
     (if keychar s = 11 \<or> keychar s = 14 \<or> keychar s = 12 \<or> keychar s = 13 then Some s
      else if keycode s = 0x1C then
        let s = term_putchar 10 s; s = s\<lparr>request := 0\<rparr> in Some (s\<lparr>bufpos := 0\<rparr>)
      else kbd_insert s)"

definition kbd_dispatch :: "'a keyboard_scheme \<Rightarrow> 'a keyboard_scheme option" where
  "kbd_dispatch s =
     (if keychar s = 8 then kbd_backspace s
      else if keycode s AND 0x80 \<noteq> 0 then
        let s = (if keycode s = 170 then s\<lparr>shift_down := False\<rparr> else s)
        in Some (s\<lparr>keychar := 0\<rparr>)
      else if keychar s = 15 then Some (s\<lparr>shift_down := True\<rparr>)
      else kbd_key_down
        (if shift_down s \<and> keycode s \<ge> 2 \<and> keycode s \<le> 13
         then s\<lparr>keychar := keyboard_specialchars ! unat (keycode s)\<rparr> else s))"

definition kbd_scancode :: "u8 \<Rightarrow> 'a keyboard_scheme \<Rightarrow> 'a keyboard_scheme option" where
  "kbd_scancode code s =
     (let s = s\<lparr>keycode := code\<rparr>
      in kbd_dispatch (s\<lparr>keychar := ram s (keyboard_map s + ucast (keycode s))\<rparr>))"

definition keyboard_handler_main :: "'a keyboard_scheme \<Rightarrow> 'a keyboard_scheme option" where
  "keyboard_handler_main s =
     (let (status, s) = read_port 0x64 s; s = EOI s
      in if status AND 0x01 \<noteq> 0 then let (code, s) = read_port 0x60 s in kbd_scancode code s
         else Some s)"

definition kbd_current_char :: "'a keyboard_scheme \<Rightarrow> u8" where
  "kbd_current_char s = keychar s"

text \<open>
  The two blocking reads wait for an interrupt to clear \<open>request\<close>. As in \<open>sleep_loop\<close>, each \<open>hlt\<close> ends with the handler
  of one interrupt of a list of interrupts to come.
\<close>

fun wait_request :: "('i \<Rightarrow> 'a keyboard_scheme \<Rightarrow> 'a keyboard_scheme option) \<Rightarrow> 'i list \<Rightarrow> 'a keyboard_scheme
    \<Rightarrow> ('i list \<times> 'a keyboard_scheme) option" where
  "wait_request irq [] s = (if request s \<noteq> 0 then None else Some ([], s))"
| "wait_request irq (i # is) s =
     (if request s \<noteq> 0
      then (case irq i (wait_int s) of None \<Rightarrow> None | Some s \<Rightarrow> wait_request irq is s)
      else Some (i # is, s))"

definition kbd_get_string :: "('i \<Rightarrow> 'a keyboard_scheme \<Rightarrow> 'a keyboard_scheme option) \<Rightarrow> u32 \<Rightarrow> 'i list \<Rightarrow> 'a keyboard_scheme
    \<Rightarrow> (u32 \<times> 'i list \<times> 'a keyboard_scheme) option" where
  "kbd_get_string irq buf is s =
     (if request s \<noteq> 0 then Some (0, is, s)
      else do {
        let s = default_cursor s;
        let s = s\<lparr>request := 1\<rparr>;
        (is, s) \<leftarrow> wait_request irq is s;
        m \<leftarrow> strcpy buf (con_input s) (ram s);
        m \<leftarrow> clearchar (con_input s) m;
        Some (buf, is, hidecur (s\<lparr>ram := m\<rparr>)) })"

definition kbd_get_char :: "('i \<Rightarrow> 'a keyboard_scheme \<Rightarrow> 'a keyboard_scheme option) \<Rightarrow> 'i list \<Rightarrow> 'a keyboard_scheme
    \<Rightarrow> (u8 \<times> 'i list \<times> 'a keyboard_scheme) option" where
  "kbd_get_char irq is s =
     (if request s \<noteq> 0 then Some (0, is, s)
      else do {
        let s = hidecur s;
        let s = s\<lparr>request := 2\<rparr>;
        (is, s) \<leftarrow> wait_request irq is s;
        Some (keychar s, is, s) })"

subsection \<open>The line editor\<close>

datatype key = Char u8 | Backspace | Enter | Shift_down | Shift_up | Release | Ignored

definition decode :: "bool \<Rightarrow> u8 \<Rightarrow> key" where
  "decode shift code =
     (if 128 \<le> code then (if code = 170 then Shift_up else Release)
      else let c = keyboard_map_table ! unat code in
        if c = 8 then Backspace else if c = 15 then Shift_down
        else let c = (if shift \<and> 2 \<le> code \<and> code \<le> 13 then keyboard_specialchars ! unat code else c) in
          if c \<in> {11, 12, 13, 14} then Ignored else if code = 0x1C then Enter
          else if c = 0 then Ignored else Char c)"

record editor =
  ed_line :: "u8 list"
  ed_pos :: nat
  ed_shift :: bool
  ed_req :: u8

fun editor_step :: "key \<Rightarrow> editor \<Rightarrow> editor" where
  "editor_step (Char c) e =
     (if 128 \<le> ed_pos e then e
      else if ed_req e = 2 then e\<lparr>ed_req := 0, ed_pos := 0\<rparr>
      else e\<lparr>ed_line := ed_line e @ [c], ed_pos := ed_pos e + 1\<rparr>)"
| "editor_step Backspace e = (if ed_line e = [] then e else e\<lparr>ed_line := butlast (ed_line e), ed_pos := ed_pos e + 1\<rparr>)"
| "editor_step Enter e = e\<lparr>ed_req := 0, ed_pos := 0\<rparr>"
| "editor_step Shift_down e = e\<lparr>ed_shift := True\<rparr>"
| "editor_step Shift_up e = e\<lparr>ed_shift := False\<rparr>"
| "editor_step Release e = e"
| "editor_step Ignored e = e"

text \<open>
  \<open>edits n s e\<close>: the keyboard state \<open>s\<close> is at the editor state \<open>e\<close>, the \<open>n\<close> bytes from \<open>con_input\<close> being apart from
  the screen, from the key table and from the one-character buffer.
\<close>

definition edits :: "nat \<Rightarrow> 'a keyboard_scheme \<Rightarrow> editor \<Rightarrow> bool" where
  "edits n s e \<longleftrightarrow>
     cstring (ram s) (con_input s) (ed_line e) \<and> unat (bufpos s) = ed_pos e \<and> shift_down s = ed_shift e \<and> request s = ed_req e
     \<and> bytes_at (ram s) (keyboard_map s) 128 = keyboard_map_table \<and> ram s (charbuffer s + 1) = 0
     \<and> n \<le> 65536
     \<and> separate (con_input s) n (keyboard_map s) 128 \<and> separate (con_input s) n (charbuffer s) 2
     \<and> separate 0xB8000 5400 (con_input s) n \<and> separate 0xB8000 5400 (keyboard_map s) 128
     \<and> separate 0xB8000 5400 (charbuffer s) 2 \<and> separate (charbuffer s) 2 (keyboard_map s) 128"

subsection \<open>The handler implements the line editor\<close>

lemma edits_term_step:
  assumes e: "edits n s e" and st: "term_step s s'" and len: "length (ed_line e) < n"
  shows "edits n s' e"
proof -
  obtain m t r c where s': "s' = s\<lparr>ram := m, io := t @ io s, term_row := r, term_column := c\<rparr>"
    and m: "same_outside 0xB8000 5400 (ram s) m" using st by (auto simp: term_step_def)
  have "cstring m (con_input s) (ed_line e)"
    using e len by (intro cstring_same_outside [OF _ m]) (auto simp: edits_def intro: separate_le)
  moreover have "bytes_at m (keyboard_map s) 128 = keyboard_map_table"
    using e bytes_at_same_outside [OF m] by (simp add: edits_def)
  moreover have "m (charbuffer s + 1) = 0"
  proof -
    have "in_range (charbuffer s) 2 (charbuffer s + 1)" by (simp add: in_range2)
    then have "\<not> in_range 0xB8000 5400 (charbuffer s + 1)" using e separateD2 unfolding edits_def by blast
    then show ?thesis using m e by (simp add: same_outside_def edits_def)
  qed
  ultimately show ?thesis using e by (simp add: edits_def s')
qed

lemma cstring_butlast:
  assumes "cstring m a s" and "s \<noteq> []"
  shows "cstring (m(a + of_nat (length s - 1) := 0)) a (butlast s)"
proof (rule cstringI)
  have "length s < 4294967295" by (rule cstring_length [OF assms(1)])
  then show "length (butlast s) < 4294967295" by simp
  show "0 \<notin> set (butlast s)" using assms(1) by (auto simp: cstring_def dest: in_set_butlastD)
  show "(m(a + of_nat (length s - 1) := 0)) (a + of_nat i) = butlast s ! i" if i: "i < length (butlast s)" for i
  proof -
    have "a + of_nat i \<noteq> a + of_nat (length s - 1)"
      using i \<open>length s < 4294967295\<close> of_nat32_eq_iff [of i "length s - 1"] by simp
    then show ?thesis using i cstring_nth [OF assms(1), of i] by (simp add: nth_butlast)
  qed
qed simp

lemma table_char:
  assumes "edits n s e" and "code < (128 :: u8)"
  shows "ram s (keyboard_map s + ucast code) = keyboard_map_table ! unat code"
proof -
  have c: "unat code < 128" using assms(2) by (simp add: word_less_nat_alt)
  have "keyboard_map_table ! unat code = bytes_at (ram s) (keyboard_map s) 128 ! unat code"
    using assms(1) by (simp add: edits_def)
  also have "\<dots> = ram s (keyboard_map s + of_nat (unat code))" using c by (rule nth_bytes_at)
  also have "(of_nat (unat code) :: u32) = ucast code" by (simp add: word_unat_eq_iff c less_trans [OF c])
  finally show ?thesis by simp
qed

lemma high_code: "(code AND 0x80 \<noteq> 0) = (128 \<le> (code :: u8))"
proof -
  have "\<forall>c \<in> set (map word_of_nat [0..<256]). (c AND 0x80 \<noteq> 0) = (128 \<le> (c :: u8))" by code_simp
  moreover have "code \<in> set (map word_of_nat [0..<256])"
    using unat8_lt [of code] by (auto simp: image_iff intro!: bexI [of _ "unat code"])
  ultimately show ?thesis by blast
qed

lemma edits_key [simp]:
  "edits n (s\<lparr>keycode := a\<rparr>) e = edits n s e" "edits n (s\<lparr>keychar := b\<rparr>) e = edits n s e"
  "term_ok (s\<lparr>keycode := a\<rparr>) = term_ok s" "term_ok (s\<lparr>keychar := b\<rparr>) = term_ok s"
  by (simp_all add: edits_def term_ok_def)

text \<open>A store of the line's own area keeps the rest of \<open>edits\<close>.\<close>

lemma edits_ram:
  assumes e: "edits n s e" and m: "same_outside (con_input s) n (ram s) m" and l: "cstring m (con_input s) l"
    and p: "unat b = p"
  shows "edits n (s\<lparr>ram := m, bufpos := b\<rparr>) (e\<lparr>ed_line := l, ed_pos := p\<rparr>)"
proof -
  have "bytes_at m (keyboard_map s) 128 = keyboard_map_table"
    using e bytes_at_same_outside [OF m] by (simp add: edits_def)
  moreover have "m (charbuffer s + 1) = 0"
  proof -
    have "in_range (charbuffer s) 2 (charbuffer s + 1)" by (simp add: in_range2)
    then have "\<not> in_range (con_input s) n (charbuffer s + 1)" using e separateD2 unfolding edits_def by blast
    then show ?thesis using m e by (simp add: same_outside_def edits_def)
  qed
  ultimately show ?thesis using e l p by (simp add: edits_def)
qed

lemma erase_step:
  assumes e: "edits n s e" and ok: "term_ok s" and room: "length (ed_line e) + 2 \<le> n" and pos: "ed_pos e < 2147483647"
  shows "\<exists>s'. kbd_backspace s = Some s' \<and> edits n s' (editor_step Backspace e) \<and> term_ok s'"
proof -
  have str: "cstring (ram s) (con_input s) (ed_line e)" and n: "n \<le> 65536" and bp: "unat (bufpos s) = ed_pos e"
    using e by (simp_all add: edits_def)
  have len: "strlen (ram s) (con_input s) = Some (of_nat (length (ed_line e)))" by (rule strlen_cstring [OF str])
  show ?thesis
  proof (cases "ed_line e = []")
    case True
    then show ?thesis using e ok by (simp add: kbd_backspace_def len)
  next
    case False
    let ?a = "con_input s + of_nat (length (ed_line e) - 1)"
    let ?s = "s\<lparr>ram := (ram s)(?a := 0), bufpos := bufpos s + 1\<rparr>"
    have w: "of_nat (length (ed_line e)) - 1 = (of_nat (length (ed_line e) - 1) :: u32)" "of_nat (length (ed_line e)) > (0 :: u32)"
      using False room n by (simp_all add: of_nat_diff Suc_le_eq word_less_nat_alt)
    have "same_outside (con_input s) n (ram s) ((ram s)(?a := 0))"
      using room n by (intro same_outside_upd in_range_offset) auto
    then have e': "edits n ?s (e\<lparr>ed_line := butlast (ed_line e), ed_pos := ed_pos e + 1\<rparr>)"
      using cstring_butlast [OF str False] bp pos by (intro edits_ram [OF e]) (simp_all add: unat32_Suc)
    have "term_ok ?s" using ok by (simp add: term_ok_def)
    from putchar_cases(2,3) [OF this, of "keychar s"]
    have "edits n (term_putchar (keychar s) ?s) (e\<lparr>ed_line := butlast (ed_line e), ed_pos := ed_pos e + 1\<rparr>)"
      "term_ok (term_putchar (keychar s) ?s)"
      using edits_term_step [OF e'] room by simp_all
    then show ?thesis using False by (simp add: kbd_backspace_def len w)
  qed
qed

lemma append_step:
  assumes e: "edits n s e" and ok: "term_ok s" and room: "length (ed_line e) + 2 \<le> n" and c: "keychar s \<noteq> 0"
  shows "\<exists>s'. kbd_append s = Some s' \<and> edits n s' (e\<lparr>ed_line := ed_line e @ [keychar s]\<rparr>) \<and> term_ok s'"
proof -
  let ?m = "(ram s)(charbuffer s := keychar s)"
  have n: "n \<le> 65536" using e by (simp add: edits_def)
  have cb: "same_outside (charbuffer s) 2 (ram s) ?m" by (simp add: same_outside_def in_range2)
  have sep: "separate (con_input s) n (charbuffer s) 2" using e by (simp add: edits_def)
  have line: "cstring ?m (con_input s) (ed_line e)"
    using e room by (intro cstring_same_outside [OF _ cb]) (auto simp: edits_def intro: separate_le [OF separate_sym])
  have buf: "cstring ?m (charbuffer s) [keychar s]" using e c by (simp add: cstring_Cons edits_def)
  obtain m' where m': "strcat (con_input s) (charbuffer s) ?m = Some m'" "cstring m' (con_input s) (ed_line e @ [keychar s])"
    "same_outside (con_input s + of_nat (length (ed_line e))) (Suc (length [keychar s])) ?m m'"
    using strcat_cstring [OF line buf] separate_le [OF sep, of "Suc (length (ed_line e) + 1)" 2] room n by (auto simp: numeral_2_eq_2)
  have m'n: "same_outside (con_input s) n ?m m'"
    by (rule same_outside_mono [OF m'(3)], erule in_range_sub) (use room n in auto)
  have e1: "edits n (s\<lparr>ram := ?m\<rparr>) e"
  proof -
    have "bytes_at ?m (keyboard_map s) 128 = keyboard_map_table"
      using e bytes_at_same_outside [OF cb] by (simp add: edits_def)
    then show ?thesis using e line by (auto simp: edits_def)
  qed
  have "edits n ((s\<lparr>ram := ?m\<rparr>)\<lparr>ram := m', bufpos := bufpos s\<rparr>) (e\<lparr>ed_line := ed_line e @ [keychar s], ed_pos := ed_pos e\<rparr>)"
    using m'n m'(2) e by (intro edits_ram [OF e1]) (simp_all add: edits_def)
  then have e2: "edits n (s\<lparr>ram := m'\<rparr>) (e\<lparr>ed_line := ed_line e @ [keychar s]\<rparr>)" by simp
  have "term_ok (s\<lparr>ram := m'\<rparr>)" using ok by (simp add: term_ok_def)
  from putchar_cases(2,3) [OF this, of "keychar s"]
  have "edits n (term_putchar (keychar s) (s\<lparr>ram := m'\<rparr>)) (e\<lparr>ed_line := ed_line e @ [keychar s]\<rparr>)"
    "term_ok (term_putchar (keychar s) (s\<lparr>ram := m'\<rparr>))"
    using edits_term_step [OF e2] room by simp_all
  then show ?thesis using m'(1) by (simp add: kbd_append_def)
qed

lemma editor_comm: "e\<lparr>ed_pos := p, ed_line := l\<rparr> = e\<lparr>ed_line := l, ed_pos := p\<rparr>"
  by simp

lemma insert_step:
  assumes e: "edits n s e" and ok: "term_ok s" and room: "length (ed_line e) + 2 \<le> n" and pos: "ed_pos e < 2147483647"
  shows "\<exists>s'. kbd_insert s = Some s' \<and> edits n s' (if keychar s = 0 then e else editor_step (Char (keychar s)) e) \<and> term_ok s'"
proof -
  have f: "unat (bufpos s) = ed_pos e" "request s = ed_req e" using e by (simp_all add: edits_def)
  have sb: "sint (bufpos s) = int (ed_pos e)" using pos f(1) sint32_small [of "bufpos s"] by simp
  let ?s = "s\<lparr>bufpos := bufpos s + 1\<rparr>"
  have e1: "edits n ?s (e\<lparr>ed_pos := ed_pos e + 1\<rparr>)" using e f pos by (simp add: edits_def unat32_Suc)
  consider "keychar s = 0 \<or> 128 \<le> ed_pos e" | "keychar s \<noteq> 0" "ed_pos e < 128" "ed_req e = 2"
    | "keychar s \<noteq> 0" "ed_pos e < 128" "ed_req e \<noteq> 2" by linarith
  then show ?thesis
  proof cases
    case 1
    then show ?thesis using e ok by (auto simp: kbd_insert_def sb)
  next
    case 2
    have "edits n (s\<lparr>request := 0, bufpos := 0\<rparr>) (e\<lparr>ed_req := 0, ed_pos := 0\<rparr>)" using e by (simp add: edits_def)
    moreover have "term_ok (s\<lparr>request := 0, bufpos := 0\<rparr>)" using ok by (simp add: term_ok_def)
    moreover have "?s\<lparr>request := 0, bufpos := 0\<rparr> = s\<lparr>request := 0, bufpos := 0\<rparr>" by simp
    ultimately show ?thesis using 2 by (simp add: kbd_insert_def sb f Let_def)
  next
    case 3
    have "term_ok ?s" using ok by (simp add: term_ok_def)
    from append_step [OF e1 this] room 3
    obtain s' where "kbd_append ?s = Some s'" "edits n s' (e\<lparr>ed_line := ed_line e @ [keychar s], ed_pos := ed_pos e + 1\<rparr>)" "term_ok s'"
      by (auto simp: editor_comm)
    then show ?thesis using 3 by (simp add: kbd_insert_def sb f Let_def)
  qed
qed

lemma key_down_step:
  assumes e: "edits n s e" and ok: "term_ok s" and room: "length (ed_line e) + 2 \<le> n" and pos: "ed_pos e < 2147483647"
  shows "\<exists>s'. kbd_key_down s = Some s' \<and> edits n s' (editor_step
     (if keychar s \<in> {11, 12, 13, 14} then Ignored else if keycode s = 0x1C then Enter
      else if keychar s = 0 then Ignored else Char (keychar s)) e) \<and> term_ok s'"
proof -
  consider "keychar s \<in> {11, 12, 13, 14}" | "keychar s \<notin> {11, 12, 13, 14}" "keycode s = 0x1C"
    | "keychar s \<notin> {11, 12, 13, 14}" "keycode s \<noteq> 0x1C" by blast
  then show ?thesis
  proof cases
    case 1
    then show ?thesis using e ok by (auto simp: kbd_key_down_def)
  next
    case 2
    let ?t = "term_putchar 10 s"
    have t: "edits n ?t e" "term_ok ?t"
      using edits_term_step [OF e putchar_cases(2) [OF ok]] putchar_cases(3) [OF ok] room by simp_all
    have "edits n (?t\<lparr>request := 0, bufpos := 0\<rparr>) (e\<lparr>ed_req := 0, ed_pos := 0\<rparr>)" using t(1) by (simp add: edits_def)
    moreover have "term_ok (?t\<lparr>request := 0, bufpos := 0\<rparr>)" using t(2) by (simp add: term_ok_def)
    ultimately show ?thesis using 2 by (simp add: kbd_key_down_def Let_def)
  next
    case 3
    then show ?thesis using insert_step [OF assms] by (auto simp: kbd_key_down_def split: if_splits)
  qed
qed

lemma step_edits:
  assumes e: "edits n s e" and ok: "term_ok s" and room: "length (ed_line e) + 2 \<le> n" and pos: "ed_pos e < 2147483647"
    and oob: "128 \<le> code \<Longrightarrow> ram s (keyboard_map s + ucast code) \<noteq> 8"
  shows "\<exists>s'. kbd_scancode code s = Some s' \<and> edits n s' (editor_step (decode (ed_shift e) code) e) \<and> term_ok s'"
proof (cases "128 \<le> code")
  case True
  then have "code AND 0x80 \<noteq> 0" by (simp add: high_code)
  then show ?thesis
    using True oob e ok by (auto simp: kbd_scancode_def kbd_dispatch_def Let_def decode_def edits_def term_ok_def)
next
  case False
  have tab: "ram s (keyboard_map s + ucast code) = keyboard_map_table ! unat code"
    using table_char [OF e] False by simp
  define c where "c = keyboard_map_table ! unat code"
  have low: "code AND 0x80 = 0" using False high_code [of code] by simp
  define s1 where "s1 = s\<lparr>keycode := code, keychar := c\<rparr>"
  have s1: "edits n s1 e" "term_ok s1" "keychar s1 = c" "keycode s1 = code" using e ok by (simp_all add: s1_def)
  have start: "kbd_scancode code s = kbd_dispatch s1"
    by (simp add: kbd_scancode_def s1_def c_def tab)
  have sh: "shift_down s1 = ed_shift e" using s1(1) by (simp add: edits_def)
  consider "c = 8" | "c = 15" | "c \<noteq> 8" "c \<noteq> 15" by blast
  then show ?thesis
  proof cases
    case 1
    then show ?thesis using erase_step [OF s1(1,2) room pos] False
      by (simp add: start kbd_dispatch_def s1(3) decode_def c_def [symmetric])
  next
    case 2
    have "edits n (s1\<lparr>shift_down := True\<rparr>) (e\<lparr>ed_shift := True\<rparr>)" using s1(1) by (simp add: edits_def)
    then show ?thesis using s1 2 False
      by (simp add: start kbd_dispatch_def low decode_def c_def [symmetric] term_ok_def)
  next
    case 3
    define c' where "c' = (if ed_shift e \<and> 2 \<le> code \<and> code \<le> 13 then keyboard_specialchars ! unat code else c)"
    define s2 where "s2 = s1\<lparr>keychar := c'\<rparr>"
    have s2: "edits n s2 e" "term_ok s2" "keychar s2 = c'" "keycode s2 = code" using s1 by (simp_all add: s2_def)
    have pick: "(if shift_down s1 \<and> keycode s1 \<ge> 2 \<and> keycode s1 \<le> 13
         then s1\<lparr>keychar := keyboard_specialchars ! unat (keycode s1)\<rparr> else s1) = s2"
    proof (cases "ed_shift e \<and> 2 \<le> code \<and> code \<le> 13")
      case True
      then show ?thesis unfolding s2_def c'_def sh s1(4) by (simp only: if_True simp_thms)
    next
      case no: False
      have "s1\<lparr>keychar := c\<rparr> = s1" by (simp add: s1_def)
      then show ?thesis using no unfolding s2_def c'_def sh s1(4) by (simp only: if_False)
    qed
    have kd: "kbd_dispatch s1 = kbd_key_down s2"
      unfolding kbd_dispatch_def pick using 3 s1 low by simp
    have dk: "decode (ed_shift e) code = (if c' \<in> {11, 12, 13, 14} then Ignored else if code = 0x1C then Enter
      else if c' = 0 then Ignored else Char c')"
      unfolding decode_def c_def [symmetric] Let_def c'_def [symmetric] using 3 False by (simp only: if_False)
    show ?thesis using key_down_step [OF s2(1,2) room pos] unfolding s2(3,4) start kd dk .
  qed
qed

text \<open>C11. The keyboard handler implements the line editor: on any scan code it leaves the buffer, the position,
  the shift state and the pending request as \<open>editor_step\<close> says, provided the line has room for one more character
  and the byte the out-of-bounds table lookup of a release code finds is not a backspace.\<close>

theorem handler_implements_editor:
  assumes e: "edits n s e" and ok: "term_ok s" and room: "length (ed_line e) + 2 \<le> n" and pos: "ed_pos e < 2147483647"
    and oob: "128 \<le> code \<Longrightarrow> ram s (keyboard_map s + ucast code) \<noteq> 8"
  shows "\<exists>s'. kbd_scancode code s = Some s' \<and> edits n s' (editor_step (decode (ed_shift e) code) e) \<and> term_ok s'"
  by (rule step_edits [OF e ok room pos oob])

subsection \<open>Sequences of keys\<close>

fun kbd_run :: "u8 list \<Rightarrow> 'a keyboard_scheme \<Rightarrow> 'a keyboard_scheme option" where
  "kbd_run [] s = Some s"
| "kbd_run (c # cs) s = do { s \<leftarrow> kbd_scancode c s; kbd_run cs s }"

fun edit_run :: "u8 list \<Rightarrow> editor \<Rightarrow> editor" where
  "edit_run [] e = e"
| "edit_run (c # cs) e = edit_run cs (editor_step (decode (ed_shift e) c) e)"

lemma editor_step_pos: "ed_pos (editor_step k e) \<le> ed_pos e + 1"
  by (cases k) auto

lemma run_edits:
  assumes inv: "\<And>e c. P e \<Longrightarrow> c \<in> set codes \<Longrightarrow> P (editor_step (decode (ed_shift e) c) e)"
    and room: "\<And>e. P e \<Longrightarrow> length (ed_line e) + 2 \<le> n"
    and low: "\<And>c. c \<in> set codes \<Longrightarrow> c < 128"
  shows "edits n s e \<Longrightarrow> term_ok s \<Longrightarrow> P e \<Longrightarrow> ed_pos e + length codes < 2147483648 \<Longrightarrow>
    \<exists>s'. kbd_run codes s = Some s' \<and> edits n s' (edit_run codes e) \<and> term_ok s' \<and> P (edit_run codes e)"
  using inv low
proof (induction codes arbitrary: s e)
  case (Cons c cs)
  let ?e = "editor_step (decode (ed_shift e) c) e"
  have "\<not> 128 \<le> c" using Cons.prems(6) [of c] by simp
  then obtain t where t: "kbd_scancode c s = Some t" "edits n t ?e" "term_ok t"
    using step_edits [OF Cons.prems(1,2) room [OF Cons.prems(3)], of c] Cons.prems(4) by auto
  have "\<exists>s'. kbd_run cs t = Some s' \<and> edits n s' (edit_run cs ?e) \<and> term_ok s' \<and> P (edit_run cs ?e)"
  proof (rule Cons.IH [OF t(2,3)])
    show "P ?e" using Cons.prems(3,5) by simp
    show "ed_pos ?e + length cs < 2147483648" using Cons.prems(4) editor_step_pos [of "decode (ed_shift e) c" e] by simp
  qed (use Cons.prems(5,6) in auto)
  then show ?case using t(1) by simp
qed simp


text \<open>A state whose memory holds the key table at \<open>0x7000\<close>, for the witnesses.\<close>

definition demo_keyboard :: keyboard where
  "demo_keyboard = timer.extend (blank_timer\<lparr>ram := write_bytes 0x7000 keyboard_map_table (\<lambda>_. 0)\<rparr>)
     \<lparr>ttime = \<lparr>d_h = 0, d_m = 0, d_s = 0, d_d = 0, d_mo = 0, d_y = 0\<rparr>,
      con_input = 0x5000, bufpos = 0, request = 0, charbuffer = 0x6000, keychar = 0, keycode = 0, shift_down = False,
      keyboard_map = 0x7000\<rparr>"

definition empty_line :: editor where
  "empty_line = \<lparr>ed_line = [], ed_pos = 0, ed_shift = False, ed_req = 0\<rparr>"

lemma demo_keyboard_edits: "n \<le> 4096 \<Longrightarrow> edits n demo_keyboard empty_line" "term_ok demo_keyboard"
proof -
  have len: "length keyboard_map_table = 128" by (simp add: keyboard_map_table_def)
  have sel: "ram demo_keyboard = write_bytes 0x7000 keyboard_map_table (\<lambda>_. 0)" "con_input demo_keyboard = 0x5000"
    "bufpos demo_keyboard = 0" "request demo_keyboard = 0" "charbuffer demo_keyboard = 0x6000" "shift_down demo_keyboard = False"
    "keyboard_map demo_keyboard = 0x7000" "term_row demo_keyboard = 1" "term_column demo_keyboard = 0"
    by (simp_all add: demo_keyboard_def timer.extend_def blank_timer_def terminal.extend_def blank_terminal_def)
  have z: "write_bytes 0x7000 keyboard_map_table (\<lambda>_. 0) a = 0" if "\<not> in_range 0x7000 128 a" for a
    using that len by (simp add: write_bytes_outside)
  have "bytes_at (write_bytes 0x7000 keyboard_map_table (\<lambda>_. 0)) 0x7000 128 = keyboard_map_table"
    using bytes_at_write_bytes [of keyboard_map_table "0x7000" "\<lambda>_. 0"] len by simp
  then show "edits n demo_keyboard empty_line" if "n \<le> 4096"
    using that by (simp add: edits_def sel empty_line_def z in_range_def separate_def)
  show "term_ok demo_keyboard" by (simp add: term_ok_def sel)
qed


theorem handler_implements_editor_witness:
  "\<exists>s'. kbd_scancode 0x1E demo_keyboard = Some s' \<and> edits 130 s' \<lparr>ed_line = [97], ed_pos = 1, ed_shift = False, ed_req = 0\<rparr>"
  using handler_implements_editor [OF demo_keyboard_edits(1) demo_keyboard_edits(2), of 130 "0x1E"]
  by (auto simp: empty_line_def decode_def keyboard_map_table_def Let_def)

lemma kbd_run_append: "kbd_run (xs @ ys) s = (case kbd_run xs s of None \<Rightarrow> None | Some t \<Rightarrow> kbd_run ys t)"
proof (induction xs arbitrary: s)
  case (Cons x xs)
  then show ?case by (cases "kbd_scancode x s") simp_all
qed simp

lemma type_run:
  "edits n s e \<Longrightarrow> term_ok s \<Longrightarrow> length (ed_line e) + k + 1 \<le> n \<Longrightarrow> ed_pos e + k \<le> 128 \<Longrightarrow> ed_req e \<noteq> 2 \<Longrightarrow> \<not> ed_shift e \<Longrightarrow>
   \<exists>s'. kbd_run (replicate k 0x1E) s = Some s' \<and> edits n s' (e\<lparr>ed_line := ed_line e @ replicate k 97, ed_pos := ed_pos e + k\<rparr>) \<and> term_ok s'"
proof (induction k arbitrary: s e)
  case (Suc k)
  let ?e = "e\<lparr>ed_line := ed_line e @ [97], ed_pos := ed_pos e + 1\<rparr>"
  have "decode False 0x1E = Char 97" by (simp add: decode_def keyboard_map_table_def Let_def)
  then have "editor_step (decode (ed_shift e) 0x1E) e = ?e" using Suc.prems by simp
  then obtain t where t: "kbd_scancode 0x1E s = Some t" "edits n t ?e" "term_ok t"
    using step_edits [OF Suc.prems(1,2), of "0x1E"] Suc.prems by auto
  have "\<exists>s'. kbd_run (replicate k 0x1E) t = Some s' \<and> edits n s' (?e\<lparr>ed_line := ed_line ?e @ replicate k 97, ed_pos := ed_pos ?e + k\<rparr>) \<and> term_ok s'"
    using Suc.prems by (intro Suc.IH [OF t(2,3)]) auto
  then show ?case using t(1) by (simp add: replicate_app_Cons_same)
qed auto

text \<open>C40. Across an Enter key with nobody reading, it does not: Enter resets the position but not the line, and a
  second line of 128 characters is appended to the first, 127 bytes past the end of the buffer.\<close>

theorem input_buffer_overflow:
  assumes e: "edits 512 s empty_line" "term_ok s"
  shows "\<exists>s'. kbd_run (replicate 128 0x1E @ 0x1C # replicate 128 0x1E) s = Some s'
    \<and> cstring (ram s') (con_input s') (replicate 256 97)"
proof -
  have "length (ed_line empty_line) + 128 + 1 \<le> 512" "ed_pos empty_line + 128 \<le> 128" "ed_req empty_line \<noteq> 2" "\<not> ed_shift empty_line"
    by (simp_all add: empty_line_def)
  from type_run [OF e this] obtain t where
    t: "kbd_run (replicate 128 0x1E) s = Some t" "edits 512 t (\<lparr>ed_line = replicate 128 97, ed_pos = 128, ed_shift = False, ed_req = 0\<rparr>)" "term_ok t"
    by (auto simp: empty_line_def)
  have "decode False 0x1C = Enter" by (simp add: decode_def keyboard_map_table_def Let_def)
  then obtain u where u: "kbd_scancode 0x1C t = Some u" "edits 512 u (\<lparr>ed_line = replicate 128 97, ed_pos = 0, ed_shift = False, ed_req = 0\<rparr>)" "term_ok u"
    using step_edits [OF t(2,3), of "0x1C"] by auto
  obtain v where v: "kbd_run (replicate 128 0x1E) u = Some v" "edits 512 v (\<lparr>ed_line = replicate 128 97 @ replicate 128 97, ed_pos = 128, ed_shift = False, ed_req = 0\<rparr>)"
    using type_run [OF u(2,3), of 128] by auto
  have "kbd_run (replicate 128 0x1E @ 0x1C # replicate 128 0x1E) s = Some v"
    by (simp only: kbd_run_append t(1) option.case kbd_run.simps u(1) bind.bind_lunit v(1))
  moreover have "cstring (ram v) (con_input v) (replicate 256 97)"
    using v(2) by (simp add: edits_def flip: replicate_add)
  ultimately show ?thesis by blast
qed

theorem input_buffer_overflow_witness:
  "\<exists>s'. kbd_run (replicate 128 0x1E @ 0x1C # replicate 128 0x1E) demo_keyboard = Some s'"
  using input_buffer_overflow [OF demo_keyboard_edits(1) demo_keyboard_edits(2)] by auto

end
