(* ===== verification/Interrupts.thy ===== *)
theory Interrupts
  imports Keyboard
begin

text \<open>
  The interrupts of the running kernel: the timer and the keyboard line are the two the PIC lets
  through (\<open>timer_init\<close> unmasks exactly these), and their handlers are the two C functions the assembler
  stubs call. Waiting operations of the timer and the keyboard are composed with them here.
\<close>

datatype irq = Irq_timer | Irq_keyboard

fun run_irq :: "irq \<Rightarrow> 'a keyboard_scheme \<Rightarrow> 'a keyboard_scheme option" where
  "run_irq Irq_timer s = Some (pit_handler_main s)"
| "run_irq Irq_keyboard s = keyboard_handler_main s"

lemma kbd_keeps_timer:
  assumes "keyboard_handler_main s = Some s'"
  shows "sleep_amt s' = sleep_amt s" and "kticks s' = kticks s"
proof -
  have w: "sleep_amt (term_putchar c t) = sleep_amt t \<and> kticks (term_putchar c t) = kticks t"
    for c and t :: "'a keyboard_scheme"
    using term_writes_putchar [of t c] by (auto simp: term_writes_def)
  have a: "sleep_amt t' = sleep_amt t \<and> kticks t' = kticks t" if "kbd_append t = Some t'" for t t' :: "'a keyboard_scheme"
    using that by (auto simp: kbd_append_def Let_def w bind_eq_Some_conv)
  have b: "sleep_amt t' = sleep_amt t \<and> kticks t' = kticks t" if "kbd_backspace t = Some t'" for t t' :: "'a keyboard_scheme"
    using that by (auto simp: kbd_backspace_def Let_def w bind_eq_Some_conv split: if_splits)
  have i: "sleep_amt t' = sleep_amt t \<and> kticks t' = kticks t" if "kbd_insert t = Some t'" for t t' :: "'a keyboard_scheme"
    using that by (auto simp: kbd_insert_def Let_def dest!: a split: if_splits)
  have k: "sleep_amt t' = sleep_amt t \<and> kticks t' = kticks t" if "kbd_key_down t = Some t'" for t t' :: "'a keyboard_scheme"
    using that by (auto simp: kbd_key_down_def Let_def w dest!: i split: if_splits)
  have d: "sleep_amt t' = sleep_amt t \<and> kticks t' = kticks t" if "kbd_dispatch t = Some t'" for t t' :: "'a keyboard_scheme"
    using that by (auto simp: kbd_dispatch_def Let_def dest!: b k split: if_splits)
  show "sleep_amt s' = sleep_amt s" "kticks s' = kticks s"
    using assms by (auto simp: keyboard_handler_main_def kbd_scancode_def Let_def port_defs dest!: d split: if_splits)
qed

interpretation kernel_irqs: interrupts run_irq "\<lambda>i. i = Irq_timer"
proof
  fix i s s'
  show "i = Irq_timer \<Longrightarrow> run_irq i s = Some s' \<Longrightarrow>
      sleep_amt s' = sleep_amt (pit_handler_main s) \<and> kticks s' = kticks (pit_handler_main s)" for s s' :: "'a keyboard_scheme"
    by auto
  show "i \<noteq> Irq_timer \<Longrightarrow> run_irq i s = Some s' \<Longrightarrow> sleep_amt s' = sleep_amt s \<and> kticks s' = kticks s"
    for s s' :: "'a keyboard_scheme"
    using kbd_keeps_timer by (cases i) auto
qed

text \<open>When \<open>sleep\<close> returns, exactly the number of timer ticks that covers the time has passed, a tick being 10 ms,
  whatever keyboard interrupts came in between.\<close>

theorem sleep_duration:
  assumes "sleep run_irq msec is s = Some (rest, s')" and "0 < sint msec"
  shows "kticks s' = kticks s + of_nat (nat ((sint msec + 9) div 10))
    \<and> length (filter (\<lambda>i. i = Irq_timer) is) = nat ((sint msec + 9) div 10) + length (filter (\<lambda>i. i = Irq_timer) rest)"
  using kernel_irqs.sleep_loop_exact [of "is" "s\<lparr>sleep_amt := msec\<rparr>" rest s'] assms
  by (simp add: sleep_def kernel_irqs.ticks_for_def)



theorem sleep_duration_witness:
  "\<exists>s'. sleep run_irq 15 [Irq_timer, Irq_timer, Irq_timer] demo_keyboard = Some ([Irq_timer], s') \<and> kticks s' = kticks demo_keyboard + 2"
proof -
  have w: "sleep_amt (wait_int t) = sleep_amt t" for t :: keyboard by (simp add: port_defs)
  have p: "sleep_amt (pit_handler_main t) = (if sint (sleep_amt t) > 0 then sleep_amt t - 10 else sleep_amt t)" for t :: keyboard
    by (simp add: pit_handler_main_def Let_def port_defs)
  obtain s' where s': "sleep run_irq 15 [Irq_timer, Irq_timer, Irq_timer] demo_keyboard = Some ([Irq_timer], s')"
    by (simp add: sleep_def w p)
  then show ?thesis using sleep_duration [OF s'] by auto
qed

end
