(* ===== verification/Heap.thy ===== *)
theory Heap
  imports Interrupts
begin

text \<open>
  \<open>mem/heap.h\<close>: the kernel heap, a list of blocks in memory, each a block header of 20 bytes followed by a
  chain of chunks. A chunk is an 8-byte header (the previous chunk's size, and this chunk's size with the used
  flag in bit 31) followed by its bytes. The abstract view is the list of chunks of a block.
\<close>

subsection \<open>Layout\<close>

text \<open>\<open>KHEAPBLOCKLCAB\<close>: \<open>size\<close> at 0, \<open>used\<close> at 4, \<open>next\<close> at 8, \<open>lastdsize\<close> at 12, \<open>lastdhdr\<close> at 16; \<open>KHEAPHDRLCAB\<close>:
  \<open>prevsize\<close> at 0, \<open>flagsize\<close> at 4.\<close>

abbreviation hb_size :: "memory \<Rightarrow> u32 \<Rightarrow> u32" where "hb_size m hb \<equiv> load32 m hb"
abbreviation hb_used :: "memory \<Rightarrow> u32 \<Rightarrow> u32" where "hb_used m hb \<equiv> load32 m (hb + 4)"
abbreviation hb_next :: "memory \<Rightarrow> u32 \<Rightarrow> u32" where "hb_next m hb \<equiv> load32 m (hb + 8)"
abbreviation hb_lastdsize :: "memory \<Rightarrow> u32 \<Rightarrow> u32" where "hb_lastdsize m hb \<equiv> load32 m (hb + 12)"
abbreviation prevsize :: "memory \<Rightarrow> u32 \<Rightarrow> u32" where "prevsize m hdr \<equiv> load32 m hdr"
abbreviation flagsize :: "memory \<Rightarrow> u32 \<Rightarrow> u32" where "flagsize m hdr \<equiv> load32 m (hdr + 4)"

record KHEAPLCAB =
  fblock :: u32
  bcnt :: u32
  mem_in_use :: u32
  heap_size :: u32

subsection \<open>Operations\<close>

definition k_heapLCABInit :: "KHEAPLCAB \<Rightarrow> KHEAPLCAB" where
  "k_heapLCABInit h = h\<lparr>fblock := 0, bcnt := 0, mem_in_use := 0\<rparr>"

definition k_heapLCABAddBlock :: "u32 \<Rightarrow> u32 \<Rightarrow> KHEAPLCAB \<times> memory \<Rightarrow> KHEAPLCAB \<times> memory" where
  "k_heapLCABAddBlock addr size' hm =
     (let (h, m) = hm;
          h = h\<lparr>heap_size := heap_size h + size'\<rparr>;
          hb = addr;
          m = store32 hb size' m;
          m = store32 (hb + 4) 0 m;
          m = store32 (hb + 8) (fblock h) m;
          h = h\<lparr>fblock := hb\<rparr>;
          hdr = hb + 20;
          m = store32 (hdr + 4) (hb_size m hb - (20 + 32)) m;
          h = h\<lparr>bcnt := bcnt h + 1\<rparr>;
          m = store32 (hb + 12) 0 m;
          m = store32 (hb + 16) 0 m
      in (h, m))"

text \<open>
  The inner loop of the allocator: the first free chunk of at least \<open>size\<close> bytes, \<open>Some None\<close> when the block
  has none. A chain of wrapping sizes may loop for ever, which is \<open>None\<close>.
\<close>

partial_function (option) heap_find :: "memory \<Rightarrow> u32 \<Rightarrow> u32 \<Rightarrow> u32 \<Rightarrow> u32 option option" where
  "heap_find m lim size' hdr =
     (if hdr < lim
      then let fg = drop_bit 31 (flagsize m hdr); sz = flagsize m hdr AND 0x7fffffff
           in if fg = 0 \<and> sz \<ge> size' then Some (Some hdr)
              else heap_find m lim size' (hdr + 8 + sz)
      else Some None)"

text \<open>Taking the chunk found: splitting it when enough is left over.\<close>

definition heap_take :: "u32 \<Rightarrow> u32 \<Rightarrow> u32 \<Rightarrow> KHEAPLCAB \<times> memory \<Rightarrow> u32 \<times> KHEAPLCAB \<times> memory" where
  "heap_take hb hdr size' hm =
     (let (h, m) = hm;
          sz = flagsize m hdr AND 0x7fffffff;
          (h, m) =
            (if sz > size' + 8 + 16
             then let hdr2 = hdr + 8 + size';
                      m = store32 (hdr2 + 4) (sz - (size' + 8)) m;
                      m = store32 hdr2 size' m;
                      m = store32 (hdr + 4) (0x80000000 OR size') m;
                      m = store32 (hb + 4) (hb_used m hb + 8) m
                  in (h\<lparr>mem_in_use := mem_in_use h + 8\<rparr>, m)
             else (h, store32 (hdr + 4) (flagsize m hdr OR 0x80000000) m));
          m = store32 (hb + 4) (hb_used m hb + size') m;
          h = h\<lparr>mem_in_use := mem_in_use h + size'\<rparr>
      in (hdr + 8, h, m))"

partial_function (option) heap_alloc_loop :: "u32 \<Rightarrow> u32 \<Rightarrow> KHEAPLCAB \<times> memory \<Rightarrow> (u32 \<times> KHEAPLCAB \<times> memory) option" where
  "heap_alloc_loop hb size' hm =
     (if hb \<noteq> 0
      then let m = snd hm
           in if hb_size m hb - hb_used m hb \<ge> size' + 8
              then Option.bind (heap_find m (hb + hb_size m hb) size' (hb + 20))
                     (\<lambda>found. case found of Some hdr \<Rightarrow> Some (heap_take hb hdr size' hm)
                              | None \<Rightarrow> heap_alloc_loop (hb_next m hb) size' hm)
              else heap_alloc_loop (hb_next m hb) size' hm
      else Some (0, hm))"

definition k_heapLCABAlloc :: "u32 \<Rightarrow> KHEAPLCAB \<times> memory \<Rightarrow> (u32 \<times> KHEAPLCAB \<times> memory) option" where
  "k_heapLCABAlloc size' hm = heap_alloc_loop (fblock (fst hm)) size' hm"

text \<open>
  Freeing. The previous header is computed from the address of the local variable \<open>hdr\<close>, not from its
  value: that stack address is the argument \<open>stk\<close>. A pointer in no block ends in a loop that never ends.
\<close>

definition heap_merge_next :: "u32 \<Rightarrow> u32 \<Rightarrow> KHEAPLCAB \<times> memory \<Rightarrow> KHEAPLCAB \<times> memory" where
  "heap_merge_next hb hdr hm =
     (let (h, m) = hm;
          nhdr = hdr + 8 + flagsize m hdr;
          nhdr = (if nhdr \<ge> hb + hb_size m hb then 0 else nhdr)
      in if nhdr \<noteq> 0 \<and> flagsize m nhdr AND 0x80000000 = 0
         then let m = store32 (hdr + 4) (flagsize m hdr + (8 + flagsize m nhdr)) m;
                  m = store32 (hb + 4) (hb_used m hb - 8) m;
                  nhdr = hdr + 8 + flagsize m hdr;
                  m = store32 nhdr (flagsize m hdr) m
              in (h\<lparr>mem_in_use := mem_in_use h - 8\<rparr>, m)
         else (h, m))"

definition heap_merge_prev :: "u32 \<Rightarrow> u32 \<Rightarrow> u32 \<Rightarrow> KHEAPLCAB \<times> memory \<Rightarrow> u32 \<times> KHEAPLCAB \<times> memory" where
  "heap_merge_prev hb hdr phdr hm =
     (let (h, m) = hm
      in if phdr \<noteq> 0 \<and> flagsize m phdr AND 0x80000000 = 0
         then let m = store32 (phdr + 4) (flagsize m phdr + (8 + flagsize m hdr)) m;
                  m = store32 (hb + 4) (hb_used m hb - 8) m;
                  hdr = phdr;
                  nhdr = hdr + 8 + flagsize m hdr;
                  m = (if nhdr < hb + 20 + hb_size m hb then store32 nhdr (flagsize m hdr) m else m)
              in (hdr, h\<lparr>mem_in_use := mem_in_use h - 8\<rparr>, m)
         else (hdr, h, m))"

definition heap_remember :: "u32 \<Rightarrow> u32 \<Rightarrow> memory \<Rightarrow> memory" where
  "heap_remember hb hdr m =
     (if flagsize m hdr > hb_lastdsize m hb
      then store32 (hb + 16) hdr (store32 (hb + 12) (flagsize m hdr) m) else m)"

definition heap_release :: "u32 \<Rightarrow> u32 \<Rightarrow> u32 \<Rightarrow> KHEAPLCAB \<times> memory \<Rightarrow> KHEAPLCAB \<times> memory" where
  "heap_release stk hb ptr hm =
     (let (h, m) = hm;
          hdr = ptr - 8;
          m = store32 (hdr + 4) (flagsize m hdr AND NOT 0x80000000) m;
          h = h\<lparr>mem_in_use := mem_in_use h - flagsize m hdr\<rparr>;
          m = store32 (hb + 4) (hb_used m hb - flagsize m hdr) m;
          phdr = (if prevsize m hdr \<noteq> 0 then stk - (8 + prevsize m hdr) else 0);
          (h, m) = heap_merge_next hb hdr (h, m);
          (hdr, h, m) = heap_merge_prev hb hdr phdr (h, m)
      in (h, heap_remember hb hdr m))"

partial_function (option) heap_free_loop :: "u32 \<Rightarrow> u32 \<Rightarrow> u32 \<Rightarrow> KHEAPLCAB \<times> memory \<Rightarrow> (KHEAPLCAB \<times> memory) option" where
  "heap_free_loop stk hb ptr hm =
     (if hb \<noteq> 0
      then if ptr > hb \<and> ptr < hb + hb_size (snd hm) hb
           then Some (heap_release stk hb ptr hm)
           else heap_free_loop stk (hb_next (snd hm) hb) ptr hm
      else None)"

definition k_heapLCABFree :: "u32 \<Rightarrow> u32 \<Rightarrow> KHEAPLCAB \<times> memory \<Rightarrow> (KHEAPLCAB \<times> memory) option" where
  "k_heapLCABFree stk ptr hm =
     (let (h, m) = hm; m = store32 (ptr - 8 + 4) (flagsize m (ptr - 8) AND NOT 0x80000000) m
      in heap_free_loop stk (fblock h) ptr (h, m))"

subsection \<open>The chunks of a block\<close>

text \<open>
  A chunk is abstracted to its used flag and its size. \<open>chain m a cs e\<close>: from address \<open>a\<close> on the memory holds
  the headers of the chunks \<open>cs\<close>, each followed by its bytes, and the last one ends at \<open>e\<close>. Addresses of the
  abstract view are natural numbers, so that a chain never wraps.
\<close>

type_synonym chunk = "bool \<times> nat"

definition flag_word :: "bool \<Rightarrow> nat \<Rightarrow> u32" where
  "flag_word u s = of_nat (s + (if u then 2147483648 else 0))"

fun chain :: "memory \<Rightarrow> nat \<Rightarrow> chunk list \<Rightarrow> nat \<Rightarrow> bool" where
  "chain m a [] e \<longleftrightarrow> a = e"
| "chain m a ((u, s) # cs) e \<longleftrightarrow> s < 2147483648 \<and> a + 8 + s \<le> e \<and>
     flagsize m (of_nat a) = flag_word u s \<and> chain m (a + 8 + s) cs e"

text \<open>What the used chunks hold: the address and the bytes of each.\<close>

fun contents :: "memory \<Rightarrow> nat \<Rightarrow> chunk list \<Rightarrow> (nat \<times> u8 list) list" where
  "contents m a [] = []"
| "contents m a ((u, s) # cs) =
     (if u then [(a + 8, bytes_at m (of_nat (a + 8)) s)] else []) @ contents m (a + 8 + s) cs"

fun total :: "chunk list \<Rightarrow> nat" where
  "total [] = 0"
| "total ((u, s) # cs) = 8 + s + total cs"

definition heap_block :: "memory \<Rightarrow> u32 \<Rightarrow> chunk list \<Rightarrow> bool" where
  "heap_block m hb cs \<longleftrightarrow> hb \<noteq> 0 \<and> unat hb + unat (hb_size m hb) < 4294967296 \<and>
     chain m (unat hb + 20) cs (unat hb + unat (hb_size m hb))"

text \<open>The specification of allocation on chunk lists: offset of the bytes handed out and the new list.\<close>

definition taken :: "nat \<Rightarrow> nat \<Rightarrow> chunk list" where
  "taken n s = (if n + 24 < s then [(True, n), (False, s - n - 8)] else [(True, s)])"

fun first_fit :: "nat \<Rightarrow> chunk list \<Rightarrow> (nat \<times> chunk list) option" where
  "first_fit n [] = None"
| "first_fit n ((u, s) # cs) =
     (if \<not> u \<and> n \<le> s
      then Some (8, taken n s @ cs)
      else map_option (\<lambda>(off, cs'). (8 + s + off, (u, s) # cs')) (first_fit n cs))"

text \<open>The specification of freeing a chunk between two lists: it merges with a free successor.\<close>

fun merge_next :: "nat \<Rightarrow> chunk list \<Rightarrow> chunk list" where
  "merge_next s ((False, t) # cs) = (False, s + 8 + t) # cs"
| "merge_next s cs = (False, s) # cs"

lemma chain_total: "chain m a cs e \<Longrightarrow> e = a + total cs"
  by (induction cs arbitrary: a) fastforce+

lemma chain_append: "chain m a (cs @ ds) e \<longleftrightarrow> chain m a cs (a + total cs) \<and> chain m (a + total cs) ds e \<and> a + total cs \<le> e"
proof -
  have le: "chain m a cs e \<Longrightarrow> e = a + total cs" for a cs e
    by (rule chain_total)
  have le2: "chain m a cs e \<Longrightarrow> a \<le> e" for a cs e
    using le by fastforce
  show ?thesis
    by (induction cs arbitrary: a) (auto dest: le2 simp: add.assoc)
qed

lemma contents_append: "contents m a (cs @ ds) = contents m a cs @ contents m (a + total cs) ds"
  by (induction cs arbitrary: a) (auto simp: add.assoc)

text \<open>Memories that agree on the addresses from \<open>a\<close> to \<open>e\<close> hold the same chain and contents there.\<close>

definition agree :: "memory \<Rightarrow> memory \<Rightarrow> nat \<Rightarrow> nat \<Rightarrow> bool" where
  "agree m m' a e \<longleftrightarrow> (\<forall>k. a \<le> k \<and> k < e \<longrightarrow> m' (of_nat k) = m (of_nat k))"

lemma agree_refl [simp]: "agree m m a e"
  by (simp add: agree_def)

lemma agree_trans: "agree m m' a e \<Longrightarrow> agree m' m'' a e \<Longrightarrow> agree m m'' a e"
  by (simp add: agree_def)

lemma agree_sub: "agree m m' a e \<Longrightarrow> a \<le> b \<Longrightarrow> d \<le> e \<Longrightarrow> agree m m' b d"
  by (auto simp: agree_def)

lemma in_range_nat:
  "b + n \<le> 4294967296 \<Longrightarrow> k < 4294967296 \<Longrightarrow> n > 0 \<Longrightarrow> in_range (of_nat b) n (of_nat k) \<longleftrightarrow> b \<le> k \<and> k < b + n"
  by (auto simp: in_range_def unat32_sub)

lemma separate_nat:
  assumes "a + n \<le> b \<or> b + k \<le> a" and "b + k \<le> 4294967296" and "a + n \<le> 4294967296"
  shows "separate (of_nat a) n (of_nat b :: u32) k"
proof (cases "n = 0 \<or> k = 0")
  case False
  then have u: "unat (of_nat a :: u32) = a" "unat (of_nat b :: u32) = b" using assms by simp_all
  show ?thesis unfolding separate_def unat32_sub u using assms False by auto
qed (auto simp: separate_def)

lemma agree_store32:
  "b + 4 \<le> 4294967296 \<Longrightarrow> e \<le> 4294967296 \<Longrightarrow> b + 4 \<le> a \<or> e \<le> b \<Longrightarrow> agree m (store32 (of_nat b) v m) a e"
  unfolding agree_def by (auto simp: store32_outside in_range_nat)

lemma agree_load32: "agree m m' a e \<Longrightarrow> a \<le> b \<Longrightarrow> b + 4 \<le> e \<Longrightarrow> load32 m' (of_nat b) = load32 m (of_nat b)"
proof -
  assume g: "agree m m' a e" and b: "a \<le> b" "b + 4 \<le> e"
  have "m' (of_nat (b + i)) = m (of_nat (b + i))" if "i < 4" for i
    using g b that unfolding agree_def by (auto simp del: of_nat_add)
  from this [of 0] this [of 1] this [of 2] this [of 3]
  show ?thesis by (simp add: load32_def ac_simps)
qed

lemma load32_agree_store32 [mem_simps]:
  "a + 4 \<le> b \<or> b + 4 \<le> a \<Longrightarrow> a + 4 \<le> 4294967296 \<Longrightarrow> b + 4 \<le> 4294967296 \<Longrightarrow>
   load32 (store32 (of_nat a) v m) (of_nat b) = load32 m (of_nat b)"
  by (rule agree_load32 [OF agree_store32, of a "b + 4" b]) auto

lemma agree_bytes_at: "agree m m' a e \<Longrightarrow> a \<le> b \<Longrightarrow> b + n \<le> e \<Longrightarrow> bytes_at m' (of_nat b) n = bytes_at m (of_nat b) n"
  by (rule bytes_at_cong) (simp add: agree_def flip: of_nat_add)

lemma agree_chain: "chain m a cs e \<Longrightarrow> agree m m' a e \<Longrightarrow> chain m' a cs e"
proof (induction m a cs e rule: chain.induct)
  case (2 m a u s cs e)
  then have "load32 m' (of_nat (a + 4)) = load32 m (of_nat (a + 4))"
    by (intro agree_load32 [of m m' a e]) auto
  with 2 show ?case by (auto simp: agree_sub add.commute)
qed simp

lemma agree_contents: "chain m a cs e \<Longrightarrow> agree m m' a e \<Longrightarrow> contents m' a cs = contents m a cs"
proof (induction m a cs e rule: chain.induct)
  case (2 m a u s cs e)
  then have "bytes_at m' (of_nat (a + 8)) s = bytes_at m (of_nat (a + 8)) s"
    by (intro agree_bytes_at [of m m' a e]) auto
  with 2 show ?case by (auto simp: agree_sub)
qed simp

subsection \<open>Flag words\<close>

lemma unat_flag_word: "s < 2147483648 \<Longrightarrow> unat (flag_word u s) = s + (if u then 2147483648 else 0)"
  by (simp add: flag_word_def del: of_nat_add)

lemma drop_bit_flag_word: "s < 2147483648 \<Longrightarrow> drop_bit 31 (flag_word u s) = (if u then 1 else 0)"
  by (rule word_unat_eq_iff [THEN iffD2]) (auto simp: drop_bit_eq_div unat_div unat_flag_word)

lemma flag_word_size: "s < 2147483648 \<Longrightarrow> flag_word u s AND 0x7fffffff = of_nat s"
proof -
  assume s: "s < 2147483648"
  have "flag_word u s AND mask 31 = take_bit 31 (flag_word u s)" by (simp add: take_bit_eq_mask)
  also have "\<dots> = of_nat s"
    using s by (intro word_unat_eq_iff [THEN iffD2]) (auto simp: take_bit_eq_mod unat_mod unat_flag_word)
  finally show ?thesis by (simp add: mask_eq_exp_minus_1)
qed

lemma and_single_bit: "(w :: u32) AND push_bit n 1 = (if bit w n then push_bit n 1 else 0)"
  by (rule bit_word_eqI) (auto simp: bit_simps)

lemma flag_word_used: "s < 2147483648 \<Longrightarrow> flag_word u s AND 0x80000000 = (if u then 0x80000000 else 0)"
proof -
  assume s: "s < 2147483648"
  have "bit (flag_word u s) 31 = odd (drop_bit 31 (flag_word u s))" by (simp add: bit_iff_odd_drop_bit)
  then have b: "bit (flag_word u s) 31 = u" using s by (simp add: drop_bit_flag_word)
  then show ?thesis using and_single_bit [of "flag_word u s" 31] by simp
qed

lemma flag_word_free: "flag_word False s = of_nat s"
  by (simp add: flag_word_def)

lemma flag_word_or: "s < 2147483648 \<Longrightarrow> 0x80000000 OR of_nat s = flag_word True s"
proof -
  assume s: "s < 2147483648"
  have "(0x80000000 :: u32) AND of_nat s = 0"
    using flag_word_used [OF s, of False] by (simp add: flag_word_free ac_simps)
  then have "(0x80000000 :: u32) OR of_nat s = 0x80000000 + of_nat s"
    by (simp add: disjunctive_add bit_eq_iff bit_simps)
  then show ?thesis by (simp add: flag_word_def)
qed

lemma flag_word_clear: "s < 2147483648 \<Longrightarrow> flag_word u s AND NOT 0x80000000 = of_nat s"
proof -
  have "(NOT 0x80000000 :: u32) = 0x7fffffff" by simp
  then show "s < 2147483648 \<Longrightarrow> ?thesis" by (simp only: flag_word_size)
qed

subsection \<open>Allocation\<close>

lemma addr_numeral: "(of_nat a :: u32) + numeral k = of_nat (a + numeral k)"
  by simp

lemma addr_numeral': "numeral k + (of_nat a :: u32) = of_nat (numeral k + a)"
  by simp

lemmas addr_simps = addr_numeral addr_numeral' of_nat_add [symmetric]

lemma of_nat32_less: "a < 4294967296 \<Longrightarrow> b < 4294967296 \<Longrightarrow> (of_nat a :: u32) < of_nat b \<longleftrightarrow> a < b"
  by (simp add: word_less_nat_alt)

lemma of_nat32_le: "a < 4294967296 \<Longrightarrow> b < 4294967296 \<Longrightarrow> (of_nat a :: u32) \<le> of_nat b \<longleftrightarrow> a \<le> b"
  by (simp add: word_le_nat_alt)

lemma first_fit_split:
  "first_fit n cs = Some (off, cs') \<Longrightarrow>
   \<exists>pre s post. cs = pre @ (False, s) # post \<and> n \<le> s \<and> off = total pre + 8 \<and> cs' = pre @ taken n s @ post
     \<and> first_fit n pre = None"
proof (induction n cs arbitrary: off cs' rule: first_fit.induct)
  case (2 n u s cs)
  show ?case
  proof (cases "\<not> u \<and> n \<le> s")
    case True
    with 2 show ?thesis by (intro exI [of _ "[]"] exI [of _ s] exI [of _ cs]) auto
  next
    case False
    with 2 obtain o' d' where f: "first_fit n cs = Some (o', d')" "off = 8 + s + o'" "cs' = (u, s) # d'"
      by (auto split: if_splits)
    from 2(1) [OF False f(1)] obtain pre t post where
      "cs = pre @ (False, t) # post" "n \<le> t" "o' = total pre + 8" "d' = pre @ taken n t @ post" "first_fit n pre = None"
      by blast
    with f False show ?thesis
      by (intro exI [of _ "(u, s) # pre"] exI [of _ t] exI [of _ post]) auto
  qed
qed simp

lemma heap_find_step:
  assumes "chain m a ((u, s) # cs) e" and "e < 4294967296" and "n < 4294967296"
  shows "heap_find m (of_nat e) (of_nat n) (of_nat a) =
    (if \<not> u \<and> n \<le> s then Some (Some (of_nat a)) else heap_find m (of_nat e) (of_nat n) (of_nat (a + 8 + s)))"
  using assms
  by (subst heap_find.simps)
     (simp add: Let_def drop_bit_flag_word flag_word_size of_nat32_less of_nat32_le)

lemma heap_find_chain:
  assumes "chain m a (pre @ cs) e" and "e < 4294967296" and "n < 4294967296" and "first_fit n pre = None"
  shows "heap_find m (of_nat e) (of_nat n) (of_nat a) = heap_find m (of_nat e) (of_nat n) (of_nat (a + total pre))"
  using assms
proof (induction pre arbitrary: a)
  case (Cons c pre)
  obtain u s where c: "c = (u, s)" by (cases c)
  have "\<not> (\<not> u \<and> n \<le> s)" and f: "first_fit n pre = None"
    using Cons.prems(4) by (auto simp: c split: if_splits)
  then have "heap_find m (of_nat e) (of_nat n) (of_nat a) = heap_find m (of_nat e) (of_nat n) (of_nat (a + 8 + s))"
    using heap_find_step [of m a u s "pre @ cs" e n] Cons.prems(1-3) unfolding c by (auto simp del: of_nat_add)
  also have "\<dots> = heap_find m (of_nat e) (of_nat n) (of_nat (a + 8 + s + total pre))"
    using Cons.prems(1-3) f unfolding c by (intro Cons.IH) simp_all
  finally show ?case by (simp add: c add.assoc)
qed simp

lemma heap_find_first_fit:
  assumes "chain m a cs e" and "e < 4294967296" and "n < 4294967296"
  shows "heap_find m (of_nat e) (of_nat n) (of_nat a) =
    Some (map_option (\<lambda>(off, _). of_nat (a + off - 8)) (first_fit n cs))"
proof (cases "first_fit n cs")
  case None
  then have "heap_find m (of_nat e) (of_nat n) (of_nat a) = heap_find m (of_nat e) (of_nat n) (of_nat (a + total cs))"
    using heap_find_chain [of m a cs "[]" e n] assms by simp
  also have "\<dots> = Some None"
    using chain_total [OF assms(1)] by (subst heap_find.simps) (simp del: of_nat_add)
  finally show ?thesis using None by simp
next
  case (Some r)
  obtain off cs' where r: "r = (off, cs')" by (cases r)
  from first_fit_split [OF Some [unfolded r]] obtain pre s post where
    p: "cs = pre @ (False, s) # post" "n \<le> s" "off = total pre + 8" "first_fit n pre = None" by blast
  have "chain m (a + total pre) ((False, s) # post) e" using assms(1) unfolding p chain_append by blast
  then have "heap_find m (of_nat e) (of_nat n) (of_nat (a + total pre)) = Some (Some (of_nat (a + total pre)))"
    using heap_find_step [of m "a + total pre" False s post e n] assms p(2) by simp
  then show ?thesis
    using heap_find_chain [of m a pre "(False, s) # post" e n] assms p Some r by simp
qed

text \<open>What the block and the heap add to their counts: the size asked for, not that of the chunk taken.\<close>

definition granted :: "nat \<Rightarrow> nat \<Rightarrow> nat" where
  "granted n s = (if n + 24 < s then n + 8 else n)"

text \<open>Taking the chunk changes the chunk list as the specification says and keeps what the used chunks hold.\<close>

lemma agree_chain_tail: "chain m a cs e \<Longrightarrow> agree m m' (a + 4) e \<Longrightarrow> chain m' a cs e \<and> contents m' a cs = contents m a cs"
proof (cases cs)
  case (Cons c ds)
  obtain u s where c: "c = (u, s)" by (cases c)
  assume ch: "chain m a cs e" and ag: "agree m m' (a + 4) e"
  then have d: "chain m (a + 8 + s) ds e" and e: "a + 8 + s \<le> e" by (simp_all add: Cons c)
  have "load32 m' (of_nat (a + 4)) = load32 m (of_nat (a + 4))" by (rule agree_load32 [OF ag]) (use e in simp_all)
  then have "flagsize m' (of_nat a) = flagsize m (of_nat a)" by simp
  moreover have "bytes_at m' (of_nat (a + 8)) s = bytes_at m (of_nat (a + 8)) s"
    by (rule agree_bytes_at [OF ag]) (use e in simp_all)
  moreover have "agree m m' (a + 8 + s) e" by (rule agree_sub [OF ag]) simp_all
  ultimately have "flagsize m' (of_nat a) = flagsize m (of_nat a)" "bytes_at m' (of_nat (a + 8)) s = bytes_at m (of_nat (a + 8)) s"
    "chain m' (a + 8 + s) ds e" "contents m' (a + 8 + s) ds = contents m (a + 8 + s) ds"
    using agree_chain [OF d] agree_contents [OF d] by blast+
  then show ?thesis using ch by (simp add: Cons c del: of_nat_add)
qed simp

lemma chain_replace:
  assumes "chain m b (pre @ old @ post) e" and "d = b + total pre" and "t = d + total old"
    and "agree m m' b d" and "agree m m' (t + 4) e" and "chain m' d mid t"
  shows "chain m' b (pre @ mid @ post) e"
    and "contents m' b (pre @ mid @ post) = contents m b pre @ contents m' d mid @ contents m t post"
proof -
  have d: "b + total pre = d" and o: "d + total old = t" and t: "d + total mid = t"
    by (rule assms(2,3) [symmetric] chain_total [OF assms(6), symmetric])+
  from assms(1) have c: "chain m b pre d" "chain m t post e" "t \<le> e" "d \<le> e"
    unfolding chain_append d o by simp_all
  show "chain m' b (pre @ mid @ post) e"
    using agree_chain [OF c(1) assms(4)] agree_chain_tail [OF c(2) assms(5)] c(3,4) assms(6)
    unfolding chain_append d t by simp
  show "contents m' b (pre @ mid @ post) = contents m b pre @ contents m' d mid @ contents m t post"
    using agree_contents [OF c(1) assms(4)] agree_chain_tail [OF c(2) assms(5)]
    unfolding contents_append d t by simp
qed

lemma heap_take_splits:
  assumes "chain m (B + 20) (pre @ (False, s) # post) e" and "n + 24 < s" and "e < 4294967296"
    and "d = B + 20 + total pre" and "heap_take (of_nat B) (of_nat d) (of_nat n) (h, m) = (p, h', m')"
  shows "p = of_nat (d + 8)" "agree m m' (B + 20) (d + 4)" "agree m m' (d + 8) (d + 8 + n)" "agree m m' (d + 8 + s) e"
    "chain m' d (taken n s) (d + 8 + s)"
    "hb_size m' (of_nat B) = hb_size m (of_nat B)" "hb_next m' (of_nat B) = hb_next m (of_nat B)"
    "h' = h\<lparr>mem_in_use := mem_in_use h + of_nat n + 8\<rparr>" "hb_used m' (of_nat B) = hb_used m (of_nat B) + of_nat n + 8"
proof -
  have c: "d + 8 + s \<le> e" "s < 2147483648" "flagsize m (of_nat d) = flag_word False s"
    using assms(1,4) by (auto simp: chain_append)
  define m1 where "m1 = store32 (of_nat d + 8 + of_nat n + 4) (of_nat s - (of_nat n + 8)) m"
  define m2 where "m2 = store32 (of_nat d + 8 + of_nat n) (of_nat n) m1"
  define m3 where "m3 = store32 (of_nat d + 4) (0x80000000 OR of_nat n) m2"
  define m4 where "m4 = store32 (of_nat B + 4) (hb_used m3 (of_nat B) + 8) m3"
  have gt: "(of_nat n + 8 + 16 :: u32) < of_nat s" and sub: "(of_nat s - of_nat (n + 8) :: u32) = of_nat (s - n - 8)"
    using assms(2) c by (simp_all add: addr_simps of_nat32_less del: of_nat_add flip: of_nat_diff)
  from gt have gt': "(24 + of_nat n :: u32) < of_nat s" by (simp add: add.commute)
  have sz: "flagsize m (of_nat d) AND 0x7fffffff = of_nat s" and fw: "(0x80000000 :: u32) OR of_nat n = flag_word True n"
    using c assms(2) by (simp_all add: flag_word_size flag_word_or)
  have r: "(p, h', m') = (of_nat d + 8, h\<lparr>mem_in_use := mem_in_use h + 8 + of_nat n\<rparr>,
      store32 (of_nat B + 4) (hb_used m4 (of_nat B) + of_nat n) m4)"
    unfolding assms(5) [symmetric] m4_def m3_def m2_def m1_def by (simp add: heap_take_def sz gt' Let_def cong: if_cong)
  then have m': "m' = store32 (of_nat B + 4) (hb_used m4 (of_nat B) + of_nat n) m4" and "p = of_nat (d + 8)"
    and "h' = h\<lparr>mem_in_use := mem_in_use h + of_nat n + 8\<rparr>"
    by (simp_all add: ac_simps)
  then show "p = of_nat (d + 8)" "h' = h\<lparr>mem_in_use := mem_in_use h + of_nat n + 8\<rparr>" by simp_all
  obtain v w where m'': "m' = store32 (of_nat (B + 4)) v (store32 (of_nat (B + 4)) w
      (store32 (of_nat (d + 4)) (flag_word True n) (store32 (of_nat (d + 8 + n)) (of_nat n)
        (store32 (of_nat (d + 8 + n + 4)) (of_nat (s - n - 8)) m))))"
    unfolding m' m4_def m3_def m2_def m1_def fw addr_simps sub by blast
  have b: "B + 24 \<le> d + 4" "d + 8 + n + 8 \<le> e" using c assms(2,4) by linarith+
  show "agree m m' (B + 20) (d + 4)" "agree m m' (d + 8) (d + 8 + n)" "agree m m' (d + 8 + s) e"
    unfolding m'' using c assms(2,3) b
    by (intro agree_trans [OF _ agree_store32] agree_refl; linarith)+
  have "load32 m' (of_nat (d + 4)) = flag_word True n"
    unfolding m'' using assms(3) b by (simp add: mem_simps del: of_nat_add)
  moreover have "load32 m' (of_nat (d + 8 + n + 4)) = of_nat (s - n - 8)"
    unfolding m'' using assms(3) b by (simp add: mem_simps del: of_nat_add)
  ultimately show "chain m' d (taken n s) (d + 8 + s)"
    using assms(2) c by (simp add: taken_def flag_word_free addr_simps del: of_nat_add)
  have "hb_used m3 (of_nat B) = hb_used m (of_nat B)"
    unfolding m3_def m2_def m1_def addr_simps using assms(3) b by (simp add: mem_simps del: of_nat_add)
  then show "hb_used m' (of_nat B) = hb_used m (of_nat B) + of_nat n + 8"
    unfolding m' by (simp add: m4_def mem_simps)
  show "hb_size m' (of_nat B) = hb_size m (of_nat B)" "hb_next m' (of_nat B) = hb_next m (of_nat B)"
    unfolding m'' addr_simps using assms(3) b by (simp_all add: mem_simps del: of_nat_add)
qed

lemma heap_take_whole:
  assumes "chain m (B + 20) (pre @ (False, s) # post) e" and "n \<le> s" and "\<not> n + 24 < s" and "e < 4294967296"
    and "d = B + 20 + total pre" and "heap_take (of_nat B) (of_nat d) (of_nat n) (h, m) = (p, h', m')"
  shows "p = of_nat (d + 8)" "agree m m' (B + 20) (d + 4)" "agree m m' (d + 8) (d + 8 + n)" "agree m m' (d + 8 + s) e"
    "chain m' d (taken n s) (d + 8 + s)"
    "hb_size m' (of_nat B) = hb_size m (of_nat B)" "hb_next m' (of_nat B) = hb_next m (of_nat B)"
    "h' = h\<lparr>mem_in_use := mem_in_use h + of_nat n\<rparr>" "hb_used m' (of_nat B) = hb_used m (of_nat B) + of_nat n"
proof -
  have c: "d + 8 + s \<le> e" "s < 2147483648" "flagsize m (of_nat d) = flag_word False s"
    using assms(1,5) by (auto simp: chain_append)
  define m1 where "m1 = store32 (of_nat d + 4) (flagsize m (of_nat d) OR 0x80000000) m"
  have gt: "\<not> (of_nat n + 8 + 16 :: u32) < of_nat s"
    using assms(2,3) c by (simp add: addr_simps of_nat32_less del: of_nat_add)
  then have gt': "\<not> (24 + of_nat n :: u32) < of_nat s" by (simp add: add.commute)
  have sz: "flagsize m (of_nat d) AND 0x7fffffff = of_nat s" and fw: "flagsize m (of_nat d) OR 0x80000000 = flag_word True s"
    using c by (simp add: flag_word_size) (use c in \<open>simp add: flag_word_free flag_word_or or.commute [of _ "0x80000000"]\<close>)
  then have fw': "flag_word False s OR 0x80000000 = flag_word True s" using c by simp
  have r: "(p, h', m') = (of_nat d + 8, h\<lparr>mem_in_use := mem_in_use h + of_nat n\<rparr>,
      store32 (of_nat B + 4) (hb_used m1 (of_nat B) + of_nat n) m1)"
    unfolding assms(6) [symmetric] m1_def by (simp add: heap_take_def sz gt' Let_def cong: if_cong)
  then have m': "m' = store32 (of_nat B + 4) (hb_used m1 (of_nat B) + of_nat n) m1" and "p = of_nat (d + 8)"
    and "h' = h\<lparr>mem_in_use := mem_in_use h + of_nat n\<rparr>"
    by (simp_all add: ac_simps)
  then show "p = of_nat (d + 8)" "h' = h\<lparr>mem_in_use := mem_in_use h + of_nat n\<rparr>" by simp_all
  note mdefs = m' m1_def fw addr_simps
  show "agree m m' (B + 20) (d + 4)" "agree m m' (d + 8) (d + 8 + n)" "agree m m' (d + 8 + s) e"
    unfolding mdefs using c assms(2-5)
    by (intro agree_trans [OF _ agree_store32] agree_refl; linarith)+
  have "flagsize m' (of_nat d) = flag_word True s"
    unfolding mdefs using c assms(2-5) by (simp add: mem_simps addr_simps fw' del: of_nat_add)
  then show "chain m' d (taken n s) (d + 8 + s)"
    using assms(3) c by (simp add: taken_def)
  have "hb_used m1 (of_nat B) = hb_used m (of_nat B)"
    unfolding m1_def using c assms(2-5) by (simp add: mem_simps addr_simps del: of_nat_add)
  then show "hb_used m' (of_nat B) = hb_used m (of_nat B) + of_nat n"
    unfolding m' by (simp add: mem_simps)
  show "hb_size m' (of_nat B) = hb_size m (of_nat B)" "hb_next m' (of_nat B) = hb_next m (of_nat B)"
    unfolding mdefs using c assms(2-5) by (simp_all add: mem_simps addr_simps fw' del: of_nat_add)
qed

lemma heap_take_correct:
  assumes "heap_block m hb (pre @ (False, s) # post)" and "n \<le> s"
    and "d = unat hb + 20 + total pre" and "heap_take hb (of_nat d) (of_nat n) (h, m) = (p, h', m')"
  shows "p = of_nat (d + 8)" and "heap_block m' hb (pre @ taken n s @ post)"
    and "contents m' (unat hb + 20) (pre @ taken n s @ post) =
      contents m (unat hb + 20) pre @ contents m' d (taken n s) @ contents m (d + 8 + s) post"
    and "bytes_at m' (of_nat (d + 8)) n = bytes_at m (of_nat (d + 8)) n"
    and "fblock h' = fblock h" and "hb_next m' hb = hb_next m hb" and "prevsize m' (of_nat d) = prevsize m (of_nat d)"
    and "hb_size m' hb = hb_size m hb" and "hb_used m' hb = hb_used m hb + of_nat (granted n s)"
    and "mem_in_use h' = mem_in_use h + of_nat (granted n s)"
proof -
  define B where "B = unat hb"
  have hb: "hb = of_nat B" by (simp add: B_def)
  let ?e = "B + unat (hb_size m hb)"
  from assms(1) have c: "chain m (B + 20) (pre @ (False, s) # post) ?e" "?e < 4294967296" "hb \<noteq> 0"
    by (simp_all add: heap_block_def B_def)
  have all: "p = of_nat (d + 8) \<and> agree m m' (B + 20) (d + 4) \<and> agree m m' (d + 8) (d + 8 + n) \<and> agree m m' (d + 8 + s) ?e \<and>
    chain m' d (taken n s) (d + 8 + s) \<and> hb_size m' (of_nat B) = hb_size m (of_nat B) \<and>
    hb_next m' (of_nat B) = hb_next m (of_nat B) \<and> fblock h' = fblock h \<and>
    hb_used m' (of_nat B) = hb_used m (of_nat B) + of_nat (granted n s) \<and>
    mem_in_use h' = mem_in_use h + of_nat (granted n s)"
  proof (cases "n + 24 < s")
    case True
    have d: "d = B + 20 + total pre" by (simp add: assms(3) B_def)
    show ?thesis
      using heap_take_splits [OF c(1) True c(2) d, of h p h' m'] assms(4) True unfolding hb by (simp add: granted_def ac_simps)
  next
    case False
    have d: "d = B + 20 + total pre" by (simp add: assms(3) B_def)
    show ?thesis
      using heap_take_whole [OF c(1) assms(2) False c(2) d, of h p h' m'] assms(4) False unfolding hb by (simp add: granted_def)
  qed
  then show "p = of_nat (d + 8)" "fblock h' = fblock h" "hb_next m' hb = hb_next m hb"
    "hb_size m' hb = hb_size m hb" "hb_used m' hb = hb_used m hb + of_nat (granted n s)"
    "mem_in_use h' = mem_in_use h + of_nat (granted n s)" by (simp_all add: hb)
  from all have "agree m m' (B + 20) (d + 4)" by simp
  then show "prevsize m' (of_nat d) = prevsize m (of_nat d)"
    by (rule agree_load32) (simp_all add: assms(3) B_def)
  from all have "agree m m' (d + 8) (d + 8 + n)" by simp
  then show "bytes_at m' (of_nat (d + 8)) n = bytes_at m (of_nat (d + 8)) n"
    by (rule agree_bytes_at) auto
  from all have r: "agree m m' (B + 20) (d + 4)" "agree m m' (d + 8 + s) ?e" "chain m' d (taken n s) (d + 8 + s)"
    "hb_size m' hb = hb_size m hb" by (simp_all add: hb)
  have d: "d = B + 20 + total pre" by (simp add: assms(3) B_def)
  have c': "chain m (B + 20) (pre @ [(False, s)] @ post) ?e" and t: "d + 8 + s = d + total [(False, s)]"
    using c(1) by simp_all
  have r2: "agree m m' (d + 8 + s + 4) ?e" by (rule agree_sub [OF r(2)]) simp_all
  note rep = chain_replace [OF c' d t agree_sub [OF r(1) order_refl le_add1] r2 r(3)]
  show "heap_block m' hb (pre @ taken n s @ post)"
    using rep(1) c(2,3) r(4) by (simp add: heap_block_def B_def)
  show "contents m' (unat hb + 20) (pre @ taken n s @ post) =
      contents m (unat hb + 20) pre @ contents m' d (taken n s) @ contents m (d + 8 + s) post"
    using rep(2) by (simp add: B_def)
qed

text \<open>The block has room by its own accounting, as the outer loop of the allocator checks it.\<close>

definition has_room :: "u32 \<Rightarrow> u32 \<Rightarrow> memory \<Rightarrow> bool" where
  "has_room hb n m \<longleftrightarrow> hb_size m hb - hb_used m hb \<ge> n + 8"

lemma alloc_take:
  assumes "heap_block m hb (pre @ (False, s) # post)" and "fblock h = hb" and "has_room hb (of_nat n) m" and "n < 4294967296"
    and "first_fit n pre = None" and "n \<le> s" and "d = unat hb + 20 + total pre"
  shows "k_heapLCABAlloc (of_nat n) (h, m) = Some (heap_take hb (of_nat d) (of_nat n) (h, m))"
proof -
  define B where "B = unat hb"
  have hb: "hb = of_nat B" by (simp add: B_def)
  let ?e = "B + unat (hb_size m hb)"
  from assms(1) have c: "chain m (B + 20) (pre @ (False, s) # post) ?e" "?e < 4294967296" "hb \<noteq> 0"
    by (simp_all add: heap_block_def B_def)
  have e: "hb + hb_size m hb = of_nat ?e" by (simp add: hb [symmetric] B_def)
  have d: "B + 20 + total pre = d" using assms(7) by (simp add: B_def)
  have "chain m d ((False, s) # post) ?e" using c(1) unfolding chain_append d by blast
  then have "heap_find m (of_nat ?e) (of_nat n) (of_nat d) = Some (Some (of_nat d))"
    using heap_find_step [of m d False s post ?e n] c(2) assms(4,6) by simp
  then have "heap_find m (hb + hb_size m hb) (of_nat n) (hb + 20) = Some (Some (of_nat d))"
    using heap_find_chain [OF c(1,2) assms(4,5)] unfolding e d by (simp add: B_def)
  then show ?thesis
    using assms(2,3) c(3) unfolding k_heapLCABAlloc_def
    by (subst heap_alloc_loop.simps) (simp add: has_room_def)
qed

text \<open>The memory the caller got, and what every older owner of a chunk still finds in it.\<close>

lemma alloc_first_fit:
  assumes "heap_block m hb cs" and "fblock h = hb" and "has_room hb (of_nat n) m" and "n < 4294967296"
    and "first_fit n cs = Some (off, cs')"
  shows "\<exists>h' m'. k_heapLCABAlloc (of_nat n) (h, m) = Some (of_nat (unat hb + 20 + off), h', m') \<and>
    heap_block m' hb cs' \<and> fblock h' = hb \<and> hb_next m' hb = hb_next m hb \<and>
    prevsize m' (hb + 20 + of_nat (off - 8)) = prevsize m (hb + 20 + of_nat (off - 8)) \<and>
    (\<exists>k \<ge> n. (unat hb + 20 + off, bytes_at m' (of_nat (unat hb + 20 + off)) k) \<in> set (contents m' (unat hb + 20) cs')) \<and>
    set (contents m (unat hb + 20) cs) \<subseteq> set (contents m' (unat hb + 20) cs')"
proof -
  from first_fit_split [OF assms(5)] obtain pre s post where
    p: "cs = pre @ (False, s) # post" "n \<le> s" "off = total pre + 8" "cs' = pre @ taken n s @ post" "first_fit n pre = None"
    by blast
  define d where "d = unat hb + 20 + total pre"
  obtain q h' m' where t: "heap_take hb (of_nat d) (of_nat n) (h, m) = (q, h', m')"
    by (metis prod_cases3)
  have a: "k_heapLCABAlloc (of_nat n) (h, m) = Some (q, h', m')"
    using alloc_take [OF assms(1) [unfolded p(1)] assms(2-4) p(5,2) d_def] t by simp
  note r = heap_take_correct [OF assms(1) [unfolded p(1)] p(2) d_def t]
  have d8: "d + 8 = unat hb + 20 + off" by (simp add: d_def p(3))
  obtain k where "k \<ge> n" and k: "(d + 8, bytes_at m' (of_nat (d + 8)) k) \<in> set (contents m' d (taken n s))"
    using p(2) by (cases "n + 24 < s") (auto simp: taken_def)
  have "set (contents m (unat hb + 20) cs) \<subseteq> set (contents m' (unat hb + 20) cs')"
    using r(3) by (auto simp: p(1,4) contents_append d_def add.assoc)
  moreover have "(d + 8, bytes_at m' (of_nat (d + 8)) k) \<in> set (contents m' (unat hb + 20) cs')"
    using k r(3) by (simp add: p(4))
  moreover have "hb + 20 + of_nat (off - 8) = of_nat d" by (simp add: d_def p(3))
  ultimately show ?thesis
    using a r(1,2,5-7) p(4) assms(2) \<open>k \<ge> n\<close> unfolding d8 by metis
qed

lemma alloc_none:
  assumes "heap_block m hb cs" and "fblock h = hb" and "hb_next m hb = 0" and "n < 4294967296" and "first_fit n cs = None"
  shows "k_heapLCABAlloc (of_nat n) (h, m) = Some (0, h, m)"
proof -
  define B where "B = unat hb"
  have hb: "hb = of_nat B" by (simp add: B_def)
  let ?e = "B + unat (hb_size m hb)"
  from assms(1) have c: "chain m (B + 20) cs ?e" "?e < 4294967296" "hb \<noteq> 0"
    by (simp_all add: heap_block_def B_def)
  have e: "hb + hb_size m hb = of_nat ?e" by (simp add: hb [symmetric] B_def)
  have f: "heap_find m (hb + hb_size m hb) (of_nat n) (hb + 20) = Some None"
    using heap_find_first_fit [OF c(1,2) assms(4)] assms(5)
    unfolding e by (simp add: B_def add.commute)
  have "heap_alloc_loop 0 (of_nat n) (h, m) = Some (0, h, m)"
    by (subst heap_alloc_loop.simps) simp
  then show ?thesis
    using assms(2,3) c(3) f unfolding k_heapLCABAlloc_def
    by (subst heap_alloc_loop.simps) simp
qed

end
