(* ===== verification/HeapFree.thy ===== *)
theory HeapFree
  imports Heap
begin

text \<open>
  Freeing in the kernel heap: the chunk is marked free and merged with a free successor; the chunks around it
  and what they hold stay.
\<close>

subsection \<open>Freeing\<close>

text \<open>
  What \<open>heap_release\<close> takes for the header of the previous chunk, at \<open>stk\<close> minus an offset, must not look like
  a free chunk: the first chunk has no predecessor, and otherwise the word read there has bit 31 set and lies
  outside the block.
\<close>

definition stack_quiet :: "u32 \<Rightarrow> u32 \<Rightarrow> u32 \<Rightarrow> memory \<Rightarrow> bool" where
  "stack_quiet stk hb hdr m \<longleftrightarrow> prevsize m hdr = 0 \<or>
     (let q = unat (stk - (8 + prevsize m hdr)) in
        (q + 8 \<le> unat hb \<or> unat hb + unat (hb_size m hb) + 4 \<le> q) \<and> q + 8 \<le> 4294967296 \<and>
        flagsize m (of_nat q) AND 0x80000000 \<noteq> 0)"

lemma used_word_free:
  "s < 2147483648 \<Longrightarrow> (of_nat s AND (0x80000000 :: u32)) = 0"
  using flag_word_used [of s False] by (simp add: flag_word_free)

lemma clear_free_word: "s < 2147483648 \<Longrightarrow> (of_nat s :: u32) AND NOT 0x80000000 = of_nat s"
  using flag_word_clear [of s False] by (simp add: flag_word_free)

text \<open>The last step records the chunk freed as the largest one, in the header of the block only.\<close>

lemma agree_remember:
  "B + 20 \<le> 4294967296 \<Longrightarrow> e \<le> 4294967296 \<Longrightarrow> agree m (heap_remember (of_nat B) hdr m) (B + 20) e"
  unfolding addr_simps heap_remember_def
  by (auto intro: agree_trans [OF agree_store32 [of "B + 12" e "B + 20" m "flagsize m hdr"] agree_store32 [of "B + 16" e "B + 20" _ hdr]]
      simp del: of_nat_add)

lemma hb_size_remember:
  "B + 20 \<le> 4294967296 \<Longrightarrow> hb_size (heap_remember (of_nat B) hdr m) (of_nat B) = hb_size m (of_nat B)"
  unfolding addr_simps heap_remember_def by (simp add: mem_simps del: of_nat_add)

lemma merge_next_used:
  assumes "flagsize m (of_nat d) = of_nat s" and "chain m (d + 8 + s) cs (B + S)" and "hb_size m (of_nat B) = of_nat S"
    and "B + S < 4294967296" and "\<not> (\<exists>t ds. cs = (False, t) # ds)"
  shows "heap_merge_next (of_nat B) (of_nat d) (h, m) = (h, m)"
proof (cases cs)
  case Nil
  then have "d + 8 + s = B + S" using assms(2) by simp
  then show ?thesis
    using assms(1,3,4) unfolding heap_merge_next_def
    by (simp add: Let_def addr_simps del: of_nat_add)
next
  case (Cons c ds)
  then obtain t where c: "c = (True, t)" using assms(5) by (cases c) auto
  have "flagsize m (of_nat d + 8 + of_nat s) AND 0x80000000 \<noteq> 0"
    using assms(2) flag_word_used [of t True] unfolding Cons c by simp
  then show ?thesis
    using assms(1) unfolding heap_merge_next_def by (simp add: Let_def del: of_nat_add)
qed

lemma merge_next_free:
  assumes "flagsize m (of_nat d) = of_nat s" and "chain m (d + 8 + s) ((False, t) # ds) (B + S)" and "hb_size m (of_nat B) = of_nat S"
    and "B + S < 4294967296" and "B + 20 \<le> d"
  shows "\<exists>v h'. heap_merge_next (of_nat B) (of_nat d) (h, m) =
     (h', store32 (of_nat (d + 16 + s + t)) (of_nat (s + 8 + t))
        (store32 (of_nat (B + 4)) v (store32 (of_nat (d + 4)) (of_nat (s + 8 + t)) m))) \<and> fblock h' = fblock h \<and>
     mem_in_use h' = mem_in_use h - 8"
proof -
  have c: "d + 16 + s + t \<le> B + S" "flagsize m (of_nat (d + 8 + s)) = of_nat t" "t < 2147483648"
    using assms(2) by (simp_all add: flag_word_free)
  have n: "\<not> (of_nat (B + S) :: u32) \<le> of_nat (d + 8 + s)" "of_nat (d + 8 + s) \<noteq> (0 :: u32)"
    using c(1) assms(4) of_nat32_eq_iff [of "d + 8 + s" 0] by (simp_all add: of_nat32_le del: of_nat_add)
  define m2 where "m2 = store32 (of_nat B + 4) (hb_used (store32 (of_nat d + 4) (of_nat s + (8 + of_nat t)) m) (of_nat B) - 8)
      (store32 (of_nat d + 4) (of_nat s + (8 + of_nat t)) m)"
  have f: "flagsize m2 (of_nat d) = of_nat s + (8 + of_nat t)"
    unfolding m2_def addr_simps using assms(5) c(1) assms(4) by (simp add: mem_simps del: of_nat_add)
  have a: "of_nat d + 8 + (of_nat s + (8 + of_nat t)) = (of_nat (d + 16 + s + t) :: u32)"
    "(of_nat s + (8 + of_nat t) :: u32) = of_nat (s + 8 + t)" by simp_all
  have u: "of_nat t AND (0x80000000 :: u32) = 0" by (rule used_word_free [OF c(3)])
  have n': "\<not> (of_nat B + of_nat S :: u32) \<le> of_nat d + 8 + of_nat s" "of_nat d + 8 + of_nat s \<noteq> (0 :: u32)"
    "flagsize m (of_nat d + 8 + of_nat s) = of_nat t"
    using n c(2) by (simp_all only: of_nat_add of_nat_numeral not_False_eq_True)
  have "heap_merge_next (of_nat B) (of_nat d) (h, m) =
    (h\<lparr>mem_in_use := mem_in_use h - 8\<rparr>, store32 (of_nat d + 8 + (of_nat s + (8 + of_nat t))) (of_nat s + (8 + of_nat t)) m2)"
    unfolding heap_merge_next_def using f
    by (simp only: Let_def split_conv assms(1,3) n' u m2_def [symmetric] if_True if_False simp_thms)
  note r = this [unfolded a(1), unfolded m2_def a(2), unfolded addr_simps]
  show ?thesis by (intro exI conjI, rule r) simp_all
qed

text \<open>The freed chunk and its successor become the chunks \<open>merge_next\<close> says; nothing else in the block changes.\<close>

lemma merge_next_correct:
  assumes "flagsize m (of_nat d) = of_nat s" and "chain m (d + 8 + s) post (B + S)" and "hb_size m (of_nat B) = of_nat S"
    and "B + S + 4 \<le> 4294967296" and "B + 20 \<le> d" and "S \<le> 2147483648" and "d + 8 + s \<le> B + S"
  shows "\<exists>h' m' mid old rest t. heap_merge_next (of_nat B) (of_nat d) (h, m) = (h', m') \<and> fblock h' = fblock h \<and>
     mem_in_use h' = mem_in_use h - (if \<exists>t ds. post = (False, t) # ds then 8 else 0) \<and>
     merge_next s post = mid @ rest \<and> (True, s) # post = old @ rest \<and> t = d + total old \<and> old = (True, s) # tl old \<and> contents m' d mid = [] \<and>
     (\<forall>m a. contents m a ((False, s) # tl old) = []) \<and>
     chain m' d mid t \<and> agree m m' (B + 20) d \<and> agree m m' (t + 4) (B + S) \<and> t \<le> B + S \<and>
     (\<forall>q. q + 8 \<le> B \<or> B + S + 4 \<le> q \<longrightarrow> q + 8 \<le> 4294967296 \<longrightarrow> flagsize m' (of_nat q) = flagsize m (of_nat q)) \<and>
     hb_size m' (of_nat B) = hb_size m (of_nat B)"
proof (cases "\<exists>t ds. post = (False, t) # ds")
  case True
  then obtain t ds where p: "post = (False, t) # ds" by blast
  have c: "d + 16 + s + t \<le> B + S" using assms(2) by (simp add: p)
  from merge_next_free [OF assms(1) assms(2) [unfolded p] assms(3) _ assms(5), of h] assms(4)
  obtain v h' where r: "heap_merge_next (of_nat B) (of_nat d) (h, m) =
     (h', store32 (of_nat (d + 16 + s + t)) (of_nat (s + 8 + t))
        (store32 (of_nat (B + 4)) v (store32 (of_nat (d + 4)) (of_nat (s + 8 + t)) m)))" "fblock h' = fblock h"
    "mem_in_use h' = mem_in_use h - (if \<exists>t ds. post = (False, t) # ds then 8 else 0)"
    by (auto simp: p)
  let ?m = "store32 (of_nat (d + 16 + s + t)) (of_nat (s + 8 + t))
        (store32 (of_nat (B + 4)) v (store32 (of_nat (d + 4)) (of_nat (s + 8 + t)) m))"
  have f: "load32 ?m (of_nat (d + 4)) = of_nat (s + 8 + t)"
    using c assms(4,5) by (simp add: mem_simps del: of_nat_add)
  have ch: "chain ?m d [(False, s + 8 + t)] (d + 16 + s + t)"
    using f c assms(5,6) by (simp add: flag_word_free addr_simps del: of_nat_add)
  have ag: "agree m ?m (B + 20) d" "agree m ?m (d + 16 + s + t + 4) (B + S)"
    using c assms(4,5) by (intro agree_trans [OF _ agree_store32] agree_refl; linarith)+
  have q: "flagsize ?m (of_nat q) = flagsize m (of_nat q)"
    if "q + 8 \<le> B \<or> B + S + 4 \<le> q" "q + 8 \<le> 4294967296" for q
    unfolding addr_simps using that(1)
  proof
    assume "q + 8 \<le> B"
    then show "load32 ?m (of_nat (q + 4)) = load32 m (of_nat (q + 4))"
      using that(2) c assms(4,5) by (simp add: mem_simps del: of_nat_add)
  next
    assume "B + S + 4 \<le> q"
    then show "load32 ?m (of_nat (q + 4)) = load32 m (of_nat (q + 4))"
      using that(2) c assms(4,5) by (simp add: mem_simps del: of_nat_add)
  qed
  have z: "hb_size ?m (of_nat B) = hb_size m (of_nat B)"
    using c assms(4,5) by (simp add: mem_simps del: of_nat_add)
  have e: "merge_next s post = [(False, s + 8 + t)] @ ds" "(True, s) # post = [(True, s), (False, t)] @ ds"
    "d + 16 + s + t = d + total [(True, s), (False, t)]" "contents ?m d [(False, s + 8 + t)] = []"
    "\<forall>m a. contents m a ((False, s) # tl [(True, s), (False, t)]) = []"
    "[(True, s), (False, t)] = (True, s) # tl [(True, s), (False, t)]"
    by (simp_all add: p)
  show ?thesis using r e ch ag q z c by blast
next
  case False
  have r: "heap_merge_next (of_nat B) (of_nat d) (h, m) = (h, m)"
    using assms(1-4) False by (intro merge_next_used [of m d s post B S]) auto
  have ch: "chain m d [(False, s)] (d + 8 + s)"
    using assms(1,5-7) by (simp add: flag_word_free)
  have e: "merge_next s post = [(False, s)] @ post" "(True, s) # post = [(True, s)] @ post" "d + 8 + s = d + total [(True, s)]"
    "contents m d [(False, s)] = []" "\<forall>m a. contents m a ((False, s) # tl [(True, s)]) = []"
    "[(True, s)] = (True, s) # tl [(True, s)]"
    "mem_in_use h = mem_in_use h - (if \<exists>t ds. post = (False, t) # ds then 8 else 0)"
    using False by (cases post rule: list.exhaust; auto simp: neq_Nil_conv)+
  show ?thesis using r e ch assms(7) by (intro exI conjI) (assumption | rule refl | simp)+
qed



lemma release_prelude:
  assumes "chain m (B + 20) (pre @ (True, s) # post) (B + S)" and "d = B + 20 + total pre" and "B + S + 4 \<le> 4294967296"
    and "m1 = store32 (of_nat d + 4) (flagsize m (of_nat d) AND NOT 0x80000000) m"
    and "m2 = store32 (of_nat B + 4) v (store32 (of_nat d + 4) (of_nat s) m1)"
  shows "flagsize m1 (of_nat d) AND NOT 0x80000000 = of_nat s" and "flagsize m2 (of_nat d) = of_nat s"
    and "prevsize m2 (of_nat d) = prevsize m (of_nat d)" and "hb_size m2 (of_nat B) = hb_size m (of_nat B)"
    and "hb_size m1 (of_nat B) = hb_size m (of_nat B)"
    and "agree m m2 (B + 20) d" and "agree m m2 (d + 8) (B + S)"
    and "\<And>q. q + 8 \<le> B \<or> B + S + 4 \<le> q \<Longrightarrow> q + 8 \<le> 4294967296 \<Longrightarrow> flagsize m2 (of_nat q) = flagsize m (of_nat q)"
proof -
  have c: "d + 8 + s \<le> B + S" "s < 2147483648" "flagsize m (of_nat d) = flag_word True s"
    using assms(1,2) by (auto simp: chain_append)
  have "flagsize m (of_nat d) AND NOT 0x80000000 = of_nat s"
    unfolding c(3) by (rule flag_word_clear [OF c(2)])
  then have m1: "m1 = store32 (of_nat (d + 4)) (of_nat s) m"
    unfolding assms(4) by (simp only: addr_simps)
  have m2: "m2 = store32 (of_nat (B + 4)) v (store32 (of_nat (d + 4)) (of_nat s) m1)"
    using assms(5) by simp
  have b: "B + 20 \<le> d" using assms(2) by simp
  show "flagsize m1 (of_nat d) AND NOT 0x80000000 = of_nat s"
    unfolding m1 addr_simps using clear_free_word [OF c(2)] by (simp add: mem_simps del: of_nat_add)
  show "flagsize m2 (of_nat d) = of_nat s" "prevsize m2 (of_nat d) = prevsize m (of_nat d)"
    "hb_size m2 (of_nat B) = hb_size m (of_nat B)" "hb_size m1 (of_nat B) = hb_size m (of_nat B)"
    unfolding m1 m2 addr_simps using b c(1) assms(3) by (simp_all add: mem_simps del: of_nat_add)
  show "agree m m2 (B + 20) d" "agree m m2 (d + 8) (B + S)"
    unfolding m1 m2 using b c(1) assms(3) by (intro agree_trans [OF _ agree_store32] agree_refl; linarith)+
  show "flagsize m2 (of_nat q) = flagsize m (of_nat q)"
    if "q + 8 \<le> B \<or> B + S + 4 \<le> q" "q + 8 \<le> 4294967296" for q
    unfolding addr_simps using that(1)
  proof
    assume "q + 8 \<le> B"
    then show "load32 m2 (of_nat (q + 4)) = load32 m (of_nat (q + 4))"
      unfolding m1 m2 using that(2) b c(1) assms(3) by (simp add: mem_simps del: of_nat_add)
  next
    assume "B + S + 4 \<le> q"
    then show "load32 m2 (of_nat (q + 4)) = load32 m (of_nat (q + 4))"
      unfolding m1 m2 using that(2) b c(1) assms(3) by (simp add: mem_simps del: of_nat_add)
  qed
qed

lemma merge_prev_skip:
  "phdr = 0 \<or> flagsize m phdr AND 0x80000000 \<noteq> 0 \<Longrightarrow> heap_merge_prev hb hdr phdr (h, m) = (hdr, h, m)"
  by (auto simp: heap_merge_prev_def)

lemma release_correct:
  assumes blk: "heap_block m (of_nat B) (pre @ (True, s) # post)" and d: "d = B + 20 + total pre" and B: "B < 4294967296"
    and S: "unat (hb_size m (of_nat B)) = S" and lim: "S \<le> 2147483648" "B + S + 4 \<le> 4294967296"
    and quiet: "stack_quiet stk (of_nat B) (of_nat d) m"
    and m1: "m1 = store32 (of_nat d + 4) (flagsize m (of_nat d) AND NOT 0x80000000) m"
  shows "\<exists>h' m'. heap_release stk (of_nat B) (of_nat (d + 8)) (h, m1) = (h', m') \<and> fblock h' = fblock h \<and>
     mem_in_use h' = mem_in_use h - of_nat s - (if \<exists>t ds. post = (False, t) # ds then 8 else 0) \<and>
     heap_block m' (of_nat B) (pre @ merge_next s post) \<and>
     contents m' (B + 20) (pre @ merge_next s post) = contents m (B + 20) (pre @ (False, s) # post)"
proof -
  have c: "chain m (B + 20) (pre @ (True, s) # post) (B + S)" and nz: "of_nat B \<noteq> (0 :: u32)"
    using blk B by (simp_all add: heap_block_def S)
  have hs: "hb_size m (of_nat B) = of_nat S" using S by auto
  define v where "v = hb_used (store32 (of_nat d + 4) (of_nat s) m1) (of_nat B) - of_nat s"
  define m2 where "m2 = store32 (of_nat B + 4) v (store32 (of_nat d + 4) (of_nat s) m1)"
  define h2 where "h2 = h\<lparr>mem_in_use := mem_in_use h - of_nat s\<rparr>"
  note pl = release_prelude [OF c d lim(2) m1 m2_def]
  have pc: "chain m (d + 8 + s) post (B + S)" "d + 8 + s \<le> B + S" "B + 20 \<le> d"
    using c d by (auto simp: chain_append)
  have pc2: "chain m2 (d + 8 + s) post (B + S)"
    by (rule agree_chain [OF pc(1) agree_sub [OF pl(7)]]) simp_all
  have hs2: "hb_size m2 (of_nat B) = of_nat S" using pl(4) hs by simp
  from merge_next_correct [OF pl(2) pc2 hs2 lim(2) pc(3) lim(1) pc(2), of h2]
  obtain h3 m3 mid old rest t where mn: "heap_merge_next (of_nat B) (of_nat d) (h2, m2) = (h3, m3)" "fblock h3 = fblock h2"
      "mem_in_use h3 = mem_in_use h2 - (if \<exists>t ds. post = (False, t) # ds then 8 else 0)"
    and ml: "merge_next s post = mid @ rest" "(True, s) # post = old @ rest" "t = d + total old" "contents m3 d mid = []"
      "\<And>m a. contents m a ((False, s) # tl old) = []" "chain m3 d mid t" "agree m2 m3 (B + 20) d" "agree m2 m3 (t + 4) (B + S)" "t \<le> B + S" "old = (True, s) # tl old"
    and q3: "\<And>q. q + 8 \<le> B \<or> B + S + 4 \<le> q \<Longrightarrow> q + 8 \<le> 4294967296 \<Longrightarrow> flagsize m3 (of_nat q) = flagsize m2 (of_nat q)"
    and hs3: "hb_size m3 (of_nat B) = hb_size m2 (of_nat B)"
    by blast
  define phdr where "phdr = (if prevsize m2 (of_nat d) \<noteq> 0 then stk - (8 + prevsize m2 (of_nat d)) else 0)"
  have "phdr = 0 \<or> flagsize m3 phdr AND 0x80000000 \<noteq> 0"
  proof (cases "prevsize m (of_nat d) = 0")
    case False
    let ?q = "unat (stk - (8 + prevsize m (of_nat d)))"
    from quiet False have q: "?q + 8 \<le> B \<or> B + S + 4 \<le> ?q" "?q + 8 \<le> 4294967296" "flagsize m (of_nat ?q) AND 0x80000000 \<noteq> 0"
      using B S by (simp_all add: stack_quiet_def Let_def)
    then have "flagsize m3 (of_nat ?q) AND 0x80000000 \<noteq> 0" using q3 [OF q(1,2)] pl(8) [OF q(1,2)] by simp
    then show ?thesis using False pl(3) by (simp add: phdr_def)
  qed (simp add: phdr_def pl(3))
  then have mp: "heap_merge_prev (of_nat B) (of_nat d) phdr (h3, m3) = (of_nat d, h3, m3)"
    by (rule merge_prev_skip)
  define m4 where "m4 = heap_remember (of_nat B) (of_nat d) m3"
  have fr: "flagsize (store32 (of_nat d + 4) (of_nat s) m1) (of_nat d) = of_nat s" by (simp add: mem_simps)
  have p8: "of_nat (d + 8) - 8 = (of_nat d :: u32)" by simp
  have rel: "heap_release stk (of_nat B) (of_nat (d + 8)) (h, m1) = (h3, m4)"
    unfolding heap_release_def m4_def
    by (simp only: Let_def split_conv p8 pl(1) fr v_def [symmetric] m2_def [symmetric] h2_def [symmetric]
        phdr_def [symmetric] mn(1) mp)
  have b: "B + 20 \<le> 4294967296" "B + S \<le> 4294967296" using pc(2,3) lim(2) by linarith+
  note g4 = agree_remember [OF b, of m3 "of_nat d", folded m4_def]
  have le: "d \<le> t" "t \<le> B + S" "d \<le> B + S" "d + 8 \<le> t + 4" "B + 20 \<le> d"
    using ml(3,9) pc ml(10) [THEN arg_cong, of total] by simp_all
  have g: "agree m m4 (B + 20) d" "agree m m4 (t + 4) (B + S)"
    using agree_trans [OF agree_trans [OF pl(6) ml(7)] agree_sub [OF g4]]
      agree_trans [OF agree_trans [OF agree_sub [OF pl(7)] ml(8)] agree_sub [OF g4]] le by simp_all
  have m: "chain m4 d mid t" "contents m4 d mid = []"
    using agree_chain [OF ml(6) agree_sub [OF g4]] agree_contents [OF ml(6) agree_sub [OF g4]] ml(4) le by simp_all
  note rep = chain_replace [OF c [unfolded ml(2)] d ml(3) g m(1)]
  have hs4: "hb_size m4 (of_nat B) = hb_size m (of_nat B)"
    unfolding m4_def using hb_size_remember [OF b(1)] hs3 pl(4) by simp
  have "heap_block m4 (of_nat B) (pre @ merge_next s post)"
    using rep(1) nz hs4 S B lim(2) by (simp add: heap_block_def ml(1))
  moreover have "contents m4 (B + 20) (pre @ merge_next s post) = contents m (B + 20) (pre @ (False, s) # post)"
  proof -
    obtain ol where o: "old = (True, s) # ol" using ml(10) by blast
    have f: "(False, s) # post = ((False, s) # tl old) @ rest" "contents m d ((False, s) # tl old) = []"
      and x: "d + total ((False, s) # tl old) = t"
      using ml(2,3,5) by (simp_all add: o)
    show ?thesis unfolding ml(1) rep(2) m(2) unfolding f(1) contents_append d [symmetric] x f(2) ..
  qed
  ultimately show ?thesis using rel mn(2,3) by (auto simp: h2_def)
qed

lemma free_correct:
  assumes "heap_block m hb (pre @ (True, s) # post)" and "fblock h = hb" and "0 < s"
    and "d = unat hb + 20 + total pre" and "unat (hb_size m hb) \<le> 2147483648"
    and "unat hb + unat (hb_size m hb) + 4 \<le> 4294967296" and "stack_quiet stk hb (of_nat d) m"
  shows "\<exists>h' m'. k_heapLCABFree stk (of_nat (d + 8)) (h, m) = Some (h', m') \<and> fblock h' = hb \<and>
     mem_in_use h' = mem_in_use h - of_nat s - (if \<exists>t ds. post = (False, t) # ds then 8 else 0) \<and>
     heap_block m' hb (pre @ merge_next s post) \<and>
     contents m' (unat hb + 20) (pre @ merge_next s post) = contents m (unat hb + 20) (pre @ (False, s) # post)"
proof -
  define B S where "B = unat hb" and "S = unat (hb_size m hb)"
  have hb: "hb = of_nat B" and B: "B < 4294967296" by (simp_all add: B_def)
  define m1 where "m1 = store32 (of_nat d + 4) (flagsize m (of_nat d) AND NOT 0x80000000) m"
  have d: "d = B + 20 + total pre" using assms(4) by (simp add: B_def)
  have S: "unat (hb_size m (of_nat B)) = S" by (simp add: S_def hb)
  have lim: "S \<le> 2147483648" "B + S + 4 \<le> 4294967296" using assms(5,6) by (simp_all add: S_def B_def)
  have c: "chain m (B + 20) (pre @ (True, s) # post) (B + S)"
    using assms(1) by (simp add: heap_block_def B_def S_def)
  have s1: "hb_size m1 (of_nat B) = of_nat S"
    using release_prelude(5) [OF c d lim(2) m1_def refl] S by auto
  have "d + 8 + s \<le> B + S" using c d by (auto simp: chain_append)
  then have pos: "hb < of_nat (d + 8)" "of_nat (d + 8) < hb + of_nat S"
    using d lim(2) assms(3) unfolding hb by (simp_all add: addr_simps of_nat32_less del: of_nat_add)
  have "heap_free_loop stk hb (of_nat (d + 8)) (h, m1) = Some (heap_release stk hb (of_nat (d + 8)) (h, m1))"
    using pos assms(1) s1 unfolding heap_block_def hb by (subst heap_free_loop.simps) simp
  then have "k_heapLCABFree stk (of_nat (d + 8)) (h, m) = Some (heap_release stk hb (of_nat (d + 8)) (h, m1))"
    unfolding k_heapLCABFree_def using assms(2) by (simp add: m1_def)
  moreover from release_correct [OF assms(1) [unfolded hb] d B S lim assms(7) [unfolded hb] m1_def, of h]
  obtain h' m' where "heap_release stk hb (of_nat (d + 8)) (h, m1) = (h', m')" "fblock h' = hb"
     "mem_in_use h' = mem_in_use h - of_nat s - (if \<exists>t ds. post = (False, t) # ds then 8 else 0)"
     "heap_block m' hb (pre @ merge_next s post)"
     "contents m' (B + 20) (pre @ merge_next s post) = contents m (B + 20) (pre @ (False, s) # post)"
    using assms(2) unfolding hb by auto
  ultimately show ?thesis by (auto simp: B_def)
qed

end
