(* ===== verification/KernelHeap.thy ===== *)
theory KernelHeap
  imports HeapFree
begin

text \<open>
  The kernel heap as an allocator: what callers of \<open>malloc\<close> rely on, the formatting of a block, and the properties
  of \<open>k_heapLCABAlloc\<close> and \<open>k_heapLCABFree\<close> on the chunks of a block.
\<close>

subsection \<open>The heap as an allocator\<close>

text \<open>
  What a caller of \<open>malloc\<close> relies on: in a state that is \<open>ok\<close>, a request that is granted leaves an \<open>ok\<close> state,
  hands out at least the bytes asked for, and keeps every block in use with its bytes.
\<close>

text \<open>\<open>gets\<close> makes a sequence of requests, all of them granted.\<close>

fun gets :: "(nat \<Rightarrow> 's \<Rightarrow> (nat \<times> 's) option) \<Rightarrow> nat list \<Rightarrow> 's \<Rightarrow> (nat list \<times> 's) option" where
  "gets get [] s = Some ([], s)"
| "gets get (n # ns) s =
     Option.bind (get n s) (\<lambda>(p, s). Option.bind (gets get ns s) (\<lambda>(ps, s). Some (p # ps, s)))"

locale allocator =
  fixes ok :: "'s \<Rightarrow> bool" and live :: "'s \<Rightarrow> (nat \<times> u8 list) set"
    and get :: "nat \<Rightarrow> 's \<Rightarrow> (nat \<times> 's) option"
  assumes get_ok: "ok s \<Longrightarrow> get n s = Some (p, s') \<Longrightarrow> ok s'"
    and get_live: "ok s \<Longrightarrow> get n s = Some (p, s') \<Longrightarrow> \<exists>bs. (p, bs) \<in> live s' \<and> n \<le> length bs"
    and get_fresh: "ok s \<Longrightarrow> get n s = Some (p, s') \<Longrightarrow> (p, bs) \<notin> live s"
    and get_keeps: "ok s \<Longrightarrow> get n s = Some (p, s') \<Longrightarrow> live s \<subseteq> live s'"
    and live_apart: "ok s \<Longrightarrow> (p, bs) \<in> live s \<Longrightarrow> (q, cs) \<in> live s \<Longrightarrow> (p, bs) \<noteq> (q, cs) \<Longrightarrow>
      p + length bs \<le> q \<or> q + length cs \<le> p"
begin

lemma gets_correct:
  "gets get ns s = Some (ps, s') \<Longrightarrow> ok s \<Longrightarrow>
   ok s' \<and> live s \<subseteq> live s' \<and> length ps = length ns \<and> distinct ps \<and> (\<forall>p \<in> set ps. \<forall>bs. (p, bs) \<notin> live s) \<and>
   (\<forall>i < length ns. \<exists>bs. (ps ! i, bs) \<in> live s' \<and> ns ! i \<le> length bs)"
proof (induction ns arbitrary: s ps)
  case (Cons n ns)
  from Cons.prems(1) obtain p s1 qs where g: "get n s = Some (p, s1)" "gets get ns s1 = Some (qs, s')" "ps = p # qs"
    by (auto simp: Option.bind_eq_Some_conv)
  note k = get_ok [OF Cons.prems(2) g(1)] get_live [OF Cons.prems(2) g(1)] get_keeps [OF Cons.prems(2) g(1)]
    get_fresh [OF Cons.prems(2) g(1)]
  note IH = Cons.IH [OF g(2) k(1)]
  have "p \<notin> set qs" using IH k(2) by blast
  moreover have "\<exists>bs. (ps ! i, bs) \<in> live s' \<and> (n # ns) ! i \<le> length bs" if "i < length (n # ns)" for i
    using IH k(2) that by (cases i) (auto simp: g(3))
  ultimately show ?case using IH k(3,4) by (auto simp: g(3))
qed auto

lemma gets_apart:
  assumes "gets get ns s = Some (ps, s')" and "ok s" and "i < length ns" and "j < length ns" and "i \<noteq> j"
  shows "\<exists>bs cs. (ps ! i, bs) \<in> live s' \<and> ns ! i \<le> length bs \<and> (ps ! j, cs) \<in> live s' \<and> ns ! j \<le> length cs \<and>
    (ps ! i + length bs \<le> ps ! j \<or> ps ! j + length cs \<le> ps ! i)"
proof -
  note g = gets_correct [OF assms(1,2)]
  from g assms(3) obtain bs where b: "(ps ! i, bs) \<in> live s'" "ns ! i \<le> length bs" by blast
  from g assms(4) obtain cs where c: "(ps ! j, cs) \<in> live s'" "ns ! j \<le> length cs" by blast
  from g have "distinct ps" and ok: "ok s'" and l: "length ps = length ns" by simp_all
  then have "ps ! i \<noteq> ps ! j" using assms(3-5) by (simp add: nth_eq_iff_index_eq)
  then have "ps ! i + length bs \<le> ps ! j \<or> ps ! j + length cs \<le> ps ! i"
    using live_apart [OF ok b(1) c(1)] by simp
  then show ?thesis using b c by (intro exI conjI)
qed

end

lemma contents_bounds:
  "chain m a cs e \<Longrightarrow> (p, bs) \<in> set (contents m a cs) \<Longrightarrow> a + 8 \<le> p \<and> p + length bs \<le> e"
proof (induction m a cs arbitrary: e rule: contents.induct)
  case (2 m a u s cs)
  from 2(2) have "a + 8 + s \<le> e" "chain m (a + 8 + s) cs e" by simp_all
  with 2 show ?case by (fastforce split: if_splits)
qed simp

lemma contents_apart:
  "chain m a cs e \<Longrightarrow> (p, bs) \<in> set (contents m a cs) \<Longrightarrow> (q, ds) \<in> set (contents m a cs) \<Longrightarrow> (p, bs) \<noteq> (q, ds) \<Longrightarrow>
   p + length bs \<le> q \<or> q + length ds \<le> p"
proof (induction m a cs arbitrary: e rule: contents.induct)
  case (2 m a u s cs)
  from 2(2) have c: "chain m (a + 8 + s) cs e" by simp
  note b = contents_bounds [OF c]
  from 2(3-5) consider "p = a + 8" "length bs = s" "(q, ds) \<in> set (contents m (a + 8 + s) cs)"
    | "q = a + 8" "length ds = s" "(p, bs) \<in> set (contents m (a + 8 + s) cs)"
    | "(p, bs) \<in> set (contents m (a + 8 + s) cs)" "(q, ds) \<in> set (contents m (a + 8 + s) cs)"
    by (auto split: if_splits)
  then show ?case
  proof cases
    case 1 then show ?thesis using b [of q ds] by simp
  next
    case 2 then show ?thesis using b [of p bs] by simp
  next
    case 3 then show ?thesis using "2.IH" [OF c] 2(5) by blast
  qed
qed simp

text \<open>
  The kernel heap as \<open>pmem_init\<close> leaves it has one block. A request is granted when the allocator returns a
  pointer other than 0; requests of \<open>2 ^ 32\<close> bytes or more cannot be made.
\<close>

definition heap_ok :: "KHEAPLCAB \<times> memory \<Rightarrow> bool" where
  "heap_ok hm \<longleftrightarrow> (\<exists>cs. heap_block (snd hm) (fblock (fst hm)) cs) \<and> hb_next (snd hm) (fblock (fst hm)) = 0"

definition heap_live :: "KHEAPLCAB \<times> memory \<Rightarrow> (nat \<times> u8 list) set" where
  "heap_live hm = {b. \<exists>cs. heap_block (snd hm) (fblock (fst hm)) cs \<and>
     b \<in> set (contents (snd hm) (unat (fblock (fst hm)) + 20) cs)}"

definition heap_get :: "nat \<Rightarrow> KHEAPLCAB \<times> memory \<Rightarrow> (nat \<times> KHEAPLCAB \<times> memory) option" where
  "heap_get n hm =
     (if n < 4294967296
      then case k_heapLCABAlloc (of_nat n) hm of Some (p, hm') \<Rightarrow> if p = 0 then None else Some (unat p, hm') | None \<Rightarrow> None
      else None)"

text \<open>The chunk list of a block is determined by the memory.\<close>

lemma flag_word_inj: "s < 2147483648 \<Longrightarrow> t < 2147483648 \<Longrightarrow> flag_word u s = flag_word v t \<Longrightarrow> u = v \<and> s = t"
  by (drule arg_cong [of _ _ unat]) (auto simp: unat_flag_word split: if_splits)

lemma chain_det: "chain m a cs e \<Longrightarrow> chain m a ds e \<Longrightarrow> cs = ds"
proof (induction m a cs e arbitrary: ds rule: chain.induct)
  case (1 m a e)
  then show ?case by (cases ds) auto
next
  case (2 m a u s cs e)
  then obtain v t es where "ds = (v, t) # es" by (cases ds) auto
  with 2 show ?case using flag_word_inj [of s t u v] by auto
qed

lemma heap_block_det: "heap_block m hb cs \<Longrightarrow> heap_block m hb ds \<Longrightarrow> cs = ds"
  using chain_det by (auto simp: heap_block_def)

lemma heap_get_cases:
  assumes "heap_block m (fblock h) cs" and "hb_next m (fblock h) = 0" and "heap_get n (h, m) = Some (p, h', m')"
  shows "\<exists>off cs'. first_fit n cs = Some (off, cs') \<and> p = unat (fblock h) + 20 + off \<and> has_room (fblock h) (of_nat n) m \<and>
    n < 4294967296 \<and> k_heapLCABAlloc (of_nat n) (h, m) = Some (of_nat p, h', m')"
proof -
  from assms(3) obtain a where a: "n < 4294967296" "k_heapLCABAlloc (of_nat n) (h, m) = Some (a, h', m')" "a \<noteq> 0" "p = unat a"
    unfolding heap_get_def by (auto split: if_splits option.splits)
  have room: "has_room (fblock h) (of_nat n) m"
  proof (rule ccontr)
    assume "\<not> has_room (fblock h) (of_nat n) m"
    then have "k_heapLCABAlloc (of_nat n) (h, m) = heap_alloc_loop 0 (of_nat n) (h, m)"
      using assms(1,2) unfolding k_heapLCABAlloc_def heap_block_def has_room_def
      by (subst heap_alloc_loop.simps) simp
    also have "\<dots> = Some (0, h, m)" by (subst heap_alloc_loop.simps) simp
    finally show False using a by simp
  qed
  obtain off cs' where f: "first_fit n cs = Some (off, cs')"
    using alloc_none [OF assms(1) refl assms(2) a(1)] a(2,3) by fastforce
  have "a = of_nat (unat (fblock h) + 20 + off)"
    using alloc_first_fit [OF assms(1) refl room a(1) f] a(2) by auto
  moreover have "unat (fblock h) + 20 + off < 4294967296"
  proof -
    from first_fit_split [OF f] obtain pre s post where p: "cs = pre @ (False, s) # post" "off = total pre + 8" by blast
    have "chain m (unat (fblock h) + 20) cs (unat (fblock h) + unat (hb_size m (fblock h)))"
      "unat (fblock h) + unat (hb_size m (fblock h)) < 4294967296"
      using assms(1) by (simp_all add: heap_block_def)
    then show ?thesis by (auto simp: p chain_append)
  qed
  ultimately show ?thesis using a f room by (auto simp del: of_nat_add)
qed

interpretation kernel_heap: allocator heap_ok heap_live heap_get
proof
  fix s s' n p assume ok: "heap_ok s" and g: "heap_get n s = Some (p, s')"
  obtain h m h' m' where s: "s = (h, m)" "s' = (h', m')" by (cases s, cases s')
  from ok obtain cs where c: "heap_block m (fblock h) cs" "hb_next m (fblock h) = 0" by (auto simp: heap_ok_def s)
  from heap_get_cases [OF c g [unfolded s]] obtain off cs' where
    f: "first_fit n cs = Some (off, cs')" "p = unat (fblock h) + 20 + off" "has_room (fblock h) (of_nat n) m" "n < 4294967296"
      "k_heapLCABAlloc (of_nat n) (h, m) = Some (of_nat p, h', m')" by blast
  from alloc_first_fit [OF c(1) refl f(3,4,1)] f(5) obtain k where
    r: "heap_block m' (fblock h) cs'" "fblock h' = fblock h" "hb_next m' (fblock h) = 0" "k \<ge> n"
      "(p, bytes_at m' (of_nat p) k) \<in> set (contents m' (unat (fblock h) + 20) cs')"
      "set (contents m (unat (fblock h) + 20) cs) \<subseteq> set (contents m' (unat (fblock h) + 20) cs')"
    by (auto simp: c(2) f(2) simp del: of_nat_add)
  show "heap_ok s'" using r(1-3) by (auto simp: heap_ok_def s)
  show "\<exists>bs. (p, bs) \<in> heap_live s' \<and> n \<le> length bs"
    using r(1,2,4,5) unfolding heap_live_def s by (intro exI [of _ "bytes_at m' (of_nat p) k"]) auto
  show "(p, bs) \<notin> heap_live s" for bs
  proof
    assume "(p, bs) \<in> heap_live s"
    then have l: "(p, bs) \<in> set (contents m (unat (fblock h) + 20) cs)"
      using heap_block_det [OF c(1)] by (auto simp: heap_live_def s)
    from first_fit_split [OF f(1)] obtain pre t post where q: "cs = pre @ (False, t) # post" "off = total pre + 8" by blast
    have "chain m (unat (fblock h) + 20) pre (unat (fblock h) + 20 + total pre)"
      "\<exists>e. chain m (unat (fblock h) + 20 + total pre + 8 + t) post e"
      using c(1) by (auto simp: heap_block_def q chain_append)
    then show False using l contents_bounds [of m _ pre] contents_bounds [of m _ post] f(2)
      by (fastforce simp: q contents_append)
  qed
  show "heap_live s \<subseteq> heap_live s'"
    using r(1,2,6) heap_block_det [OF c(1)] by (auto simp: heap_live_def s)
next
  fix s p bs q ds assume "heap_ok s" "(p, bs) \<in> heap_live s" "(q, ds) \<in> heap_live s" "(p, bs) \<noteq> (q, ds)"
  then obtain cs where "heap_block (snd s) (fblock (fst s)) cs"
      "(p, bs) \<in> set (contents (snd s) (unat (fblock (fst s)) + 20) cs)"
      "(q, ds) \<in> set (contents (snd s) (unat (fblock (fst s)) + 20) cs)"
    by (auto simp: heap_live_def dest: heap_block_det)
  with \<open>(p, bs) \<noteq> (q, ds)\<close> show "p + length bs \<le> q \<or> q + length ds \<le> p"
    unfolding heap_block_def using contents_apart by blast
qed

subsection \<open>Formatting a block\<close>

lemma add_block_stores:
  assumes "unat addr = B" and "unat size' = S" and "52 \<le> S" and "B + S < 4294967296"
    and "k_heapLCABAddBlock addr size' (h, m) = (h', m')"
  shows "hb_size m' addr = size'" and "hb_used m' addr = 0" and "hb_next m' addr = fblock h"
    and "flagsize m' (of_nat (B + 20)) = of_nat (S - 52)" and "fblock h' = addr" and "bcnt h' = bcnt h + 1"
    and "agree m m' (B + 28) (B + S)"
proof -
  have a: "addr = of_nat B" and sz: "size' = of_nat S" using assms(1,2) by auto
  have sub: "(of_nat S - 52 :: u32) = of_nat (S - 52)" using assms(3) by simp
  have r: "hb_size (store32 (addr + 8) x (store32 (addr + 4) y (store32 addr size' m))) addr = size'" for x y
    unfolding a addr_simps using assms(3,4) by (simp add: mem_simps del: of_nat_add)
  have "(h', m') = (h\<lparr>heap_size := heap_size h + size', fblock := addr, bcnt := bcnt h + 1\<rparr>,
    store32 (addr + 16) 0 (store32 (addr + 12) 0 (store32 (addr + 20 + 4) (size' - 52)
      (store32 (addr + 8) (fblock h) (store32 (addr + 4) 0 (store32 addr size' m))))))"
    unfolding assms(5) [symmetric] k_heapLCABAddBlock_def Let_def split_conv by (simp add: r)
  then have "(h', m') = (h\<lparr>heap_size := heap_size h + size', fblock := addr, bcnt := bcnt h + 1\<rparr>,
    store32 (of_nat (B + 16)) 0 (store32 (of_nat (B + 12)) 0 (store32 (of_nat (B + 24)) (of_nat (S - 52))
      (store32 (of_nat (B + 8)) (fblock h) (store32 (of_nat (B + 4)) 0 (store32 (of_nat B) (of_nat S) m))))))"
    by (simp add: a sz sub [simplified] ac_simps)
  then have m': "m' = store32 (of_nat (B + 16)) 0 (store32 (of_nat (B + 12)) 0 (store32 (of_nat (B + 24)) (of_nat (S - 52))
      (store32 (of_nat (B + 8)) (fblock h) (store32 (of_nat (B + 4)) 0 (store32 (of_nat B) (of_nat S) m)))))"
    and h': "h' = h\<lparr>heap_size := heap_size h + size', fblock := addr, bcnt := bcnt h + 1\<rparr>" by simp_all
  have "load32 m' (of_nat (B + 24)) = of_nat (S - 52)"
    unfolding m' using assms(3,4) by (simp add: mem_simps del: of_nat_add)
  then show "flagsize m' (of_nat (B + 20)) = of_nat (S - 52)" by (simp add: ac_simps)
  show "hb_size m' addr = size'" "hb_used m' addr = 0" "hb_next m' addr = fblock h"
    unfolding m' a sz addr_simps using assms(3,4) by (simp_all add: mem_simps del: of_nat_add)
  show "fblock h' = addr" "bcnt h' = bcnt h + 1" by (simp_all add: h')
  show "agree m m' (B + 28) (B + S)"
    unfolding m' using assms(3,4) by (intro agree_trans [OF _ agree_store32] agree_refl; linarith)+
qed

text \<open>
  The chunk made for a block of \<open>S\<close> bytes ends 24 bytes before the block does. The allocator and \<open>free\<close> walk
  on to the end of the block: they read those bytes as headers, whatever they hold. Where they are 0 the walk
  finds three empty free chunks.
\<close>

lemma add_block_chain:
  assumes "52 \<le> unat size'" and "unat addr + unat size' < 4294967296" and "unat size' \<le> 2147483648"
    and "k_heapLCABAddBlock addr size' (h, m) = (h', m')"
  shows "chain m' (unat addr + 20) [(False, unat size' - 52)] (unat addr + unat size' - 24)"
  using add_block_stores(4) [OF refl refl assms(1,2,4)] assms(1-3)
  by (simp add: flag_word_free)

lemma add_block_zero:
  assumes "52 \<le> unat size'" and "unat addr + unat size' < 4294967296" and "unat size' \<le> 2147483648" and "addr \<noteq> 0"
    and "k_heapLCABAddBlock addr size' (h, m) = (h', m')"
    and "\<forall>k < 24. m (addr + size' - 24 + of_nat k) = 0"
  shows "heap_block m' addr [(False, unat size' - 52), (False, 0), (False, 0), (False, 0)]"
proof -
  define B S where "B = unat addr" and "S = unat size'"
  have l: "52 \<le> S" "B + S < 4294967296" "S \<le> 2147483648" using assms(1-3) by (simp_all add: B_def S_def)
  note st = add_block_stores [OF B_def [symmetric] S_def [symmetric] l(1,2) assms(5)]
  have w: "addr + size' - 24 = of_nat (B + S - 24)"
    using l by (simp add: B_def S_def)
  have z: "load32 m (of_nat (B + S - 24 + k)) = 0" if "k \<le> 20" for k
  proof -
    have "m (of_nat (B + S - 24 + k + i)) = 0" if "i < 4" for i
      using assms(6) [rule_format, of "k + i"] \<open>k \<le> 20\<close> that unfolding w by (simp add: add.assoc)
    from this [of 0] this [of 1] this [of 2] this [of 3] show ?thesis
      by (simp add: load32_def ac_simps)
  qed
  have z': "load32 m' (of_nat (B + S - 24 + k)) = 0" if "k \<le> 20" for k
    using z [OF that] agree_load32 [OF st(7), of "B + S - 24 + k"] that l by simp
  have e: "B + S - 24 + 4 = B + S - 20" "B + S - 24 + 12 = B + S - 12" "B + S - 24 + 20 = B + S - 4" using l by simp_all
  have f: "flagsize m' (of_nat (B + S - 24)) = 0" "flagsize m' (of_nat (B + S - 16)) = 0" "flagsize m' (of_nat (B + S - 8)) = 0"
    using z' [of 4] z' [of 12] z' [of 20] l unfolding addr_simps e by (simp_all del: of_nat_add)
  have c: "chain m' (B + 20) [(False, S - 52), (False, 0), (False, 0), (False, 0)] (B + S)"
  proof -
    have "B + 20 + 8 + (S - 52) = B + S - 24" "B + S - 24 + 8 + 0 = B + S - 16" "B + S - 16 + 8 + 0 = B + S - 8"
      "B + S - 8 + 8 + 0 = B + S" using l by simp_all
    then show ?thesis using st(4) f l by (simp only: chain.simps flag_word_free of_nat_0) simp
  qed
  have u: "unat (hb_size m' addr) = S" by (simp add: st(1) S_def)
  show ?thesis unfolding heap_block_def u B_def [symmetric] S_def [symmetric] using c assms(4) l(2) by blast
qed

subsection \<open>Properties\<close>

text \<open>A freshly added block in zeroed memory, and a block with one chunk in use.\<close>

definition demo_block :: "KHEAPLCAB \<times> memory" where
  "demo_block = k_heapLCABAddBlock 0x200000 0x1000 (\<lparr>fblock = 0, bcnt = 0, mem_in_use = 0, heap_size = 0\<rparr>, \<lambda>_. 0)"

definition demo_used :: memory where
  "demo_used = store32 0x1018 0x80000064 (store32 0x1000 128 (\<lambda>_. 0))"

lemma demo_block_facts:
  "heap_block (snd demo_block) 0x200000 [(False, 4044), (False, 0), (False, 0), (False, 0)]"
  "fblock (fst demo_block) = 0x200000" "hb_next (snd demo_block) 0x200000 = 0"
  "has_room 0x200000 100 (snd demo_block)" "hb_size (snd demo_block) 0x200000 = 0x1000" "hb_used (snd demo_block) 0x200000 = 0"
  "prevsize (snd demo_block) 0x200014 = 0"
proof -
  obtain h m where d: "demo_block = (h, m)" by (cases demo_block)
  note d' = d [unfolded demo_block_def]
  show "heap_block (snd demo_block) 0x200000 [(False, 4044), (False, 0), (False, 0), (False, 0)]"
    using add_block_zero [OF _ _ _ _ d'] by (simp add: d)
  note st = add_block_stores [OF refl refl _ _ d']
  show "fblock (fst demo_block) = 0x200000" "hb_next (snd demo_block) 0x200000 = 0"
    "has_room 0x200000 100 (snd demo_block)" "hb_size (snd demo_block) 0x200000 = 0x1000" "hb_used (snd demo_block) 0x200000 = 0"
    using st by (simp_all add: d has_room_def)
  show "prevsize (snd demo_block) 0x200014 = 0"
    by (simp add: demo_block_def k_heapLCABAddBlock_def Let_def load32_def store32_def)
qed

lemma demo_used_block: "heap_block demo_used 0x1000 [(True, 100)]"
  "hb_size demo_used 0x1000 = 128" "prevsize demo_used 0x1014 = 0"
  by (simp_all add: heap_block_def demo_used_def load32_def store32_def flag_word_def)

lemma length_contents: "length (contents m a cs) = length (filter fst cs)"
  by (induction m a cs rule: contents.induct) auto

lemma alloc_free_cycle:
  assumes "heap_block m hb (pre @ (False, s) # post)" and "fblock h = hb" and "has_room hb (of_nat n) m"
    and "first_fit n pre = None" and "n + 24 < s" and "0 < n"
    and "unat (hb_size m hb) \<le> 2147483648" and "unat hb + unat (hb_size m hb) + 4 \<le> 4294967296"
    and "k_heapLCABAlloc (of_nat n) (h, m) = Some (p, h1, m1)" and "stack_quiet stk hb (p - 8) m1"
  shows "\<exists>h2 m2. k_heapLCABFree stk p (h1, m1) = Some (h2, m2) \<and> heap_block m2 hb (pre @ (False, s) # post) \<and>
    contents m2 (unat hb + 20) (pre @ (False, s) # post) = contents m (unat hb + 20) (pre @ (False, s) # post)"
proof -
  define d where "d = unat hb + 20 + total pre"
  have n: "n < 4294967296" using assms(1,5) by (auto simp: heap_block_def chain_append)
  have ns: "n \<le> s" using assms(5) by simp
  have t: "heap_take hb (of_nat d) (of_nat n) (h, m) = (p, h1, m1)"
    using alloc_take [OF assms(1-3) n assms(4) ns d_def] assms(9) by simp
  note r = heap_take_correct [OF assms(1) ns d_def t]
  have b1: "heap_block m1 hb (pre @ (True, n) # (False, s - n - 8) # post)"
    using r(2) assms(5) by (simp add: taken_def)
  have z: "unat hb + unat (hb_size m1 hb) = unat hb + unat (hb_size m hb)"
  proof -
    have t: "total (pre @ (True, n) # (False, s - n - 8) # post) = total (pre @ (False, s) # post)"
      using assms(5) by (induction pre rule: total.induct) auto
    from b1 assms(1) show ?thesis
      unfolding heap_block_def using chain_total t by metis
  qed
  have q: "stack_quiet stk hb (of_nat d) m1" using assms(10) r(1) by simp
  from free_correct [OF b1 _ assms(6) d_def _ _ q, of h1] z assms(7,8) r(5) assms(2)
  obtain h2 m2 where fr: "k_heapLCABFree stk (of_nat (d + 8)) (h1, m1) = Some (h2, m2)"
    "heap_block m2 hb (pre @ merge_next n ((False, s - n - 8) # post))"
    "contents m2 (unat hb + 20) (pre @ merge_next n ((False, s - n - 8) # post)) =
       contents m1 (unat hb + 20) (pre @ (False, n) # (False, s - n - 8) # post)"
    by auto
  have mg: "merge_next n ((False, s - n - 8) # post) = (False, s) # post" using assms(5) by simp
  have k: "unat hb + 20 + total pre = d" "d + total (taken n s) = d + 8 + s" "d + total [(False, n), (False, s - n - 8)] = d + 8 + s"
    "taken n s = [(True, n), (False, s - n - 8)]"
    using assms(5) by (simp_all add: d_def taken_def)
  have "contents m1 (unat hb + 20) pre = contents m (unat hb + 20) pre \<and> contents m1 (d + 8 + s) post = contents m (d + 8 + s) post"
    using r(3) unfolding contents_append k(1,2) by (simp add: length_contents append_eq_append_conv)
  then have "contents m1 (unat hb + 20) (pre @ [(False, n), (False, s - n - 8)] @ post) =
      contents m (unat hb + 20) (pre @ [(False, s)] @ post)"
    unfolding contents_append k(1,3) by (simp add: ac_simps)
  then show ?thesis using fr r(1) unfolding mg by simp
qed

text \<open>C3. The heap allocator is first fit: on a well-formed block that its accounting says has room, it returns the
  bytes of the first free chunk that is large enough, the chunks of the block become what the specification
  \<open>first_fit\<close> says (the rest of the chunk is split off when it is worth it), the caller owns a used chunk of at
  least the size asked for, and every chunk in use keeps its address and its bytes.\<close>

theorem alloc_refines_first_fit:
  assumes "heap_block m hb cs" and "fblock h = hb" and "has_room hb (of_nat n) m" and "n < 4294967296"
    and "first_fit n cs = Some (off, cs')"
  shows "\<exists>h' m'. k_heapLCABAlloc (of_nat n) (h, m) = Some (of_nat (unat hb + 20 + off), h', m') \<and>
    heap_block m' hb cs' \<and> fblock h' = hb \<and>
    (\<exists>k \<ge> n. (unat hb + 20 + off, bytes_at m' (of_nat (unat hb + 20 + off)) k) \<in> set (contents m' (unat hb + 20) cs')) \<and>
    set (contents m (unat hb + 20) cs) \<subseteq> set (contents m' (unat hb + 20) cs')"
  using alloc_first_fit [OF assms] by blast

lemma alloc_refines_first_fit_witness:
  "\<exists>h' m'. k_heapLCABAlloc 100 demo_block = Some (0x20001C, h', m') \<and>
     heap_block m' 0x200000 [(True, 100), (False, 3936), (False, 0), (False, 0), (False, 0)]"
  using alloc_refines_first_fit [of "snd demo_block" "0x200000" _ "fst demo_block" 100 8
      "[(True, 100), (False, 3936), (False, 0), (False, 0), (False, 0)]", OF demo_block_facts(1,2)] demo_block_facts(4)
  by (auto simp: taken_def)

text \<open>When no free chunk of the only block is large enough the allocator returns 0 and changes nothing.\<close>

theorem alloc_out_of_memory:
  assumes "heap_block m hb cs" and "fblock h = hb" and "hb_next m hb = 0" and "n < 4294967296" and "first_fit n cs = None"
  shows "k_heapLCABAlloc (of_nat n) (h, m) = Some (0, h, m)"
  by (rule alloc_none [OF assms])

lemma alloc_out_of_memory_witness: "k_heapLCABAlloc 5000 demo_block = Some (0, demo_block)"
  using alloc_out_of_memory [OF demo_block_facts(1-3), of 5000] by simp

text \<open>C4. Freeing a chunk in use, when the stack word that \<open>free\<close> mistakes for the previous header looks used: the
  chunk becomes free and merges with a free successor, the block stays well formed, and exactly the freed bytes
  disappear from the contents of the heap.\<close>

theorem free_merges:
  assumes "heap_block m hb (pre @ (True, s) # post)" and "fblock h = hb" and "0 < s"
    and "d = unat hb + 20 + total pre" and "unat (hb_size m hb) \<le> 2147483648"
    and "unat hb + unat (hb_size m hb) + 4 \<le> 4294967296" and "stack_quiet stk hb (of_nat d) m"
  shows "\<exists>h' m'. k_heapLCABFree stk (of_nat (d + 8)) (h, m) = Some (h', m') \<and> fblock h' = hb \<and>
     heap_block m' hb (pre @ merge_next s post) \<and>
     contents m' (unat hb + 20) (pre @ merge_next s post) = contents m (unat hb + 20) (pre @ (False, s) # post)"
  using free_correct [OF assms] by blast

lemma free_merges_witness:
  "\<exists>h' m'. k_heapLCABFree 0x9000 0x101C (\<lparr>fblock = 0x1000, bcnt = 1, mem_in_use = 100, heap_size = 128\<rparr>, demo_used) = Some (h', m') \<and>
     heap_block m' 0x1000 [(False, 100)]"
  using free_merges [of demo_used "0x1000" "[]" 100 "[]" "\<lparr>fblock = 0x1000, bcnt = 1, mem_in_use = 100, heap_size = 128\<rparr>" 4116 "0x9000"]
    demo_used_block
  by (auto simp: stack_quiet_def)

text \<open>C27. Allocating and freeing again is the identity on the heap when the chunk was split: the block has the same
  chunks with the same contents as before.\<close>

theorem alloc_free_roundtrip:
  assumes "heap_block m hb (pre @ (False, s) # post)" and "fblock h = hb" and "has_room hb (of_nat n) m"
    and "first_fit n pre = None" and "n + 24 < s" and "0 < n"
    and "unat (hb_size m hb) \<le> 2147483648" and "unat hb + unat (hb_size m hb) + 4 \<le> 4294967296"
    and "k_heapLCABAlloc (of_nat n) (h, m) = Some (p, h1, m1)" and "stack_quiet stk hb (p - 8) m1"
  shows "\<exists>h2 m2. k_heapLCABFree stk p (h1, m1) = Some (h2, m2) \<and> heap_block m2 hb (pre @ (False, s) # post) \<and>
    contents m2 (unat hb + 20) (pre @ (False, s) # post) = contents m (unat hb + 20) (pre @ (False, s) # post)"
  by (rule alloc_free_cycle [OF assms])

lemma heap_get_take:
  assumes "heap_block m hb (pre @ (False, s) # post)" and "fblock h = hb" and "has_room hb (of_nat n) m" and "n < 4294967296"
    and "first_fit n pre = None" and "n \<le> s"
  shows "\<exists>h' m'. heap_get n (h, m) = Some (unat hb + 28 + total pre, h', m') \<and>
    heap_block m' hb (pre @ taken n s @ post) \<and> fblock h' = hb \<and> hb_size m' hb = hb_size m hb \<and>
    hb_used m' hb = hb_used m hb + of_nat (granted n s)"
proof -
  obtain p h' m' where t: "heap_take hb (of_nat (unat hb + 20 + total pre)) (of_nat n) (h, m) = (p, h', m')"
    by (metis prod_cases3)
  note r = heap_take_correct [OF assms(1,6) refl t]
  have "unat hb + 28 + total pre < 4294967296"
    using assms(1) by (auto simp: heap_block_def chain_append)
  moreover have "p = of_nat (unat hb + 28 + total pre)" using r(1) by (simp add: ac_simps)
  ultimately have "unat p = unat hb + 28 + total pre" by (simp del: of_nat_add)
  moreover have "p \<noteq> 0" using calculation by (metis add_is_0 numeral_neq_zero unat_eq_zero)
  ultimately show ?thesis
    using alloc_take [OF assms refl] t r(2,5,8,9) assms(2,4) by (auto simp: heap_get_def)
qed

lemma demo_two:
  "\<exists>s'. gets heap_get [100, 200] demo_block = Some ([0x20001C, 0x200088], s')"
proof -
  obtain h m where d: "demo_block = (h, m)" by (cases demo_block)
  have b: "heap_block m 0x200000 ([] @ (False, 4044) # [(False, 0), (False, 0), (False, 0)])" "fblock h = 0x200000"
    "has_room 0x200000 (of_nat 100) m" "hb_size m 0x200000 = 0x1000" "hb_used m 0x200000 = 0"
    using demo_block_facts [unfolded d] by simp_all
  from heap_get_take [OF b(1-3)] obtain h1 m1 where
    g1: "heap_get 100 (h, m) = Some (0x20001C, h1, m1)" "fblock h1 = 0x200000" "hb_size m1 0x200000 = 0x1000" "hb_used m1 0x200000 = 108"
      "heap_block m1 0x200000 ([(True, 100)] @ (False, 3936) # [(False, 0), (False, 0), (False, 0)])"
    using b(4,5) by (auto simp: taken_def granted_def)
  have "has_room 0x200000 (of_nat 200) m1" using g1(3,4) by (simp add: has_room_def)
  from heap_get_take [OF g1(5,2) this] obtain h2 m2 where "heap_get 200 (h1, m1) = Some (0x200088, h2, m2)" by auto
  then show ?thesis by (simp add: d g1(1))
qed

text \<open>C16. A sequence of requests the kernel heap grants hands out regions of at least the sizes asked for that do not
  overlap one another, and what was in use before keeps its place and its bytes.\<close>

theorem granted_regions_apart:
  assumes "heap_ok s" and "gets heap_get ns s = Some (ps, s')" and "i < length ns" and "j < length ns" and "i \<noteq> j"
  shows "(\<exists>bs cs. (ps ! i, bs) \<in> heap_live s' \<and> ns ! i \<le> length bs \<and> (ps ! j, cs) \<in> heap_live s' \<and> ns ! j \<le> length cs \<and>
    (ps ! i + length bs \<le> ps ! j \<or> ps ! j + length cs \<le> ps ! i)) \<and> heap_live s \<subseteq> heap_live s'"
  using kernel_heap.gets_apart [OF assms(2,1,3-5)] kernel_heap.gets_correct [OF assms(2,1)] by blast

lemma granted_regions_apart_witness:
  "\<exists>s' bs cs. gets heap_get [100, 200] demo_block = Some ([0x20001C, 0x200088], s') \<and>
     (0x20001C, bs) \<in> heap_live s' \<and> 100 \<le> length bs \<and> (0x200088, cs) \<in> heap_live s' \<and> 200 \<le> length cs \<and>
     (0x20001C + length bs \<le> 0x200088 \<or> 0x200088 + length cs \<le> 0x20001C)"
proof -
  obtain s' where g: "gets heap_get [100, 200] demo_block = Some ([0x20001C, 0x200088], s')" using demo_two by blast
  have "heap_ok demo_block" using demo_block_facts(1-3) by (auto simp: heap_ok_def)
  from granted_regions_apart [OF this g, of 0 1] show ?thesis using g by auto
qed

lemma alloc_free_roundtrip_witness:
  "\<exists>h1 m1 h2 m2. k_heapLCABAlloc 100 demo_block = Some (0x20001C, h1, m1) \<and>
     k_heapLCABFree 0x9000 0x20001C (h1, m1) = Some (h2, m2) \<and>
     heap_block m2 0x200000 [(False, 4044), (False, 0), (False, 0), (False, 0)]"
proof -
  obtain h m where d: "demo_block = (h, m)" by (cases demo_block)
  have b: "heap_block m 0x200000 ([] @ (False, 4044) # [(False, 0), (False, 0), (False, 0)])" "fblock h = 0x200000"
    "has_room 0x200000 (of_nat 100) m" "hb_size m 0x200000 = 0x1000" "prevsize m 0x200014 = 0"
    using demo_block_facts [unfolded d] by simp_all
  obtain h1 m1 where a: "k_heapLCABAlloc (of_nat 100) (h, m) = Some (0x20001C, h1, m1)" "prevsize m1 0x200014 = prevsize m 0x200014"
    using alloc_first_fit [OF b(1-3), of 8] by (auto simp: taken_def)
  from alloc_free_roundtrip [OF b(1-3) _ _ _ _ _ a(1), of "0x9000"] show ?thesis
    using a b(4,5) by (simp add: d stack_quiet_def)
qed

text \<open>When the allocator takes a whole chunk it counts only the bytes asked for, while \<open>free\<close> subtracts the size of
  the chunk: after allocating and freeing, the heap reports less memory in use than before.\<close>

theorem accounting_drifts:
  assumes "heap_block m hb (pre @ (False, s) # post)" and "fblock h = hb" and "has_room hb (of_nat n) m"
    and "first_fit n pre = None" and "n \<le> s" and "s \<le> n + 24" and "0 < s" and "n < 4294967296" and "\<not> (\<exists>t ds. post = (False, t) # ds)"
    and "unat (hb_size m hb) \<le> 2147483648" and "unat hb + unat (hb_size m hb) + 4 \<le> 4294967296"
    and "k_heapLCABAlloc (of_nat n) (h, m) = Some (p, h1, m1)" and "stack_quiet stk hb (p - 8) m1"
  shows "\<exists>h2 m2. k_heapLCABFree stk p (h1, m1) = Some (h2, m2) \<and> mem_in_use h2 = mem_in_use h - of_nat (s - n)"
proof -
  define d where "d = unat hb + 20 + total pre"
  have t: "heap_take hb (of_nat d) (of_nat n) (h, m) = (p, h1, m1)"
    using alloc_take [OF assms(1-3,8,4,5) d_def] assms(12) by simp
  note r = heap_take_correct [OF assms(1,5) d_def t]
  have b1: "heap_block m1 hb (pre @ (True, s) # post)"
    using r(2) assms(6) by (simp add: taken_def)
  have q: "stack_quiet stk hb (of_nat d) m1" using assms(13) r(1) by simp
  from free_correct [OF b1 _ assms(7) d_def _ _ q, of h1] r(5,8) assms(2,9-11)
  obtain h2 m2 where "k_heapLCABFree stk (of_nat (d + 8)) (h1, m1) = Some (h2, m2)" "mem_in_use h2 = mem_in_use h1 - of_nat s"
    by auto
  then show ?thesis using r(1,10) assms(5,6) by (simp add: granted_def)
qed

definition demo_small :: memory where
  "demo_small = store32 0x1018 100 (store32 0x1000 128 (\<lambda>_. 0))"

lemma accounting_drifts_witness:
  "\<exists>h1 m1 h2 m2. k_heapLCABAlloc 90 (\<lparr>fblock = 0x1000, bcnt = 1, mem_in_use = 0, heap_size = 128\<rparr>, demo_small) = Some (0x101C, h1, m1) \<and>
     k_heapLCABFree 0x9000 0x101C (h1, m1) = Some (h2, m2) \<and> mem_in_use h2 = - 10"
proof -
  let ?h = "\<lparr>fblock = 0x1000, bcnt = 1, mem_in_use = 0, heap_size = 128\<rparr>"
  have b: "heap_block demo_small 0x1000 ([] @ (False, 100) # [])" "fblock ?h = 0x1000" "has_room 0x1000 (of_nat 90) demo_small"
    "hb_size demo_small 0x1000 = 128" "prevsize demo_small 0x1014 = 0"
    by (simp_all add: heap_block_def demo_small_def load32_def store32_def flag_word_def has_room_def)
  obtain h1 m1 where a: "k_heapLCABAlloc (of_nat 90) (?h, demo_small) = Some (0x101C, h1, m1)" "prevsize m1 0x1014 = prevsize demo_small 0x1014"
    using alloc_first_fit [OF b(1-3), of 8] by (auto simp: taken_def)
  from accounting_drifts [OF b(1-3) _ _ _ _ _ _ _ _ a(1), of "0x9000"] show ?thesis
    using a b(4,5) by (simp add: stack_quiet_def)
qed

end
