(* ===== verification/Pmem.thy ===== *)
theory Pmem
  imports KernelHeap
begin

text \<open>
  \<open>standard/bitmap.h\<close>, \<open>mem/mem.h\<close> and the boot information of \<open>misc/multiboot.h\<close>: the bitmap of physical
  blocks, the block allocator, the offset allocator used before the heap exists, \<open>malloc\<close> and \<open>free\<close>.
  An operation that may call \<open>die\<close> has a result \<open>Inl\<close> of the state the machine is halted in, or \<open>Inr\<close> of its
  value and state: \<open>die\<close> masks every interrupt and executes \<open>hlt\<close>, so nothing follows it. \<open>None\<close> is a call
  that never returns.
\<close>

subsection \<open>Bitmaps\<close>

definition bit_set :: "u32 \<Rightarrow> u32 \<Rightarrow> memory \<Rightarrow> memory" where
  "bit_set bmap b m = store32 (bmap + 4 * (b div 32)) (load32 m (bmap + 4 * (b div 32)) OR push_bit (unat (b mod 32)) 1) m"

definition bit_unset :: "u32 \<Rightarrow> u32 \<Rightarrow> memory \<Rightarrow> memory" where
  "bit_unset bmap b m = store32 (bmap + 4 * (b div 32)) (load32 m (bmap + 4 * (b div 32)) AND NOT (push_bit (unat (b mod 32)) 1)) m"

definition bit_test :: "memory \<Rightarrow> u32 \<Rightarrow> u32 \<Rightarrow> bool" where
  "bit_test m bmap b \<longleftrightarrow> load32 m (bmap + 4 * (b div 32)) AND push_bit (unat (b mod 32)) 1 \<noteq> 0"

subsection \<open>State\<close>

text \<open>
  \<open>cpu_regs\<close> and \<open>cr3\<close> are what \<open>die\<close> dumps of the processor. \<open>kernel_mem\<close> is a pointer, 0 until the heap is made;
  the structure it points to is in memory (\<open>start\<close>, \<open>end\<close>).
\<close>

record pmem = keyboard +
  cpu_regs :: registers
  cr3 :: u32
  mem_size :: u32
  blocks_used :: u32
  blocks_max :: u32
  mmap_len :: u32
  memory_map :: u32
  mb_mmap_len :: u32
  mem_unused :: u32
  kernel_mem :: u32
  mb_mmap :: u32
  mem_avail :: u32
  kernel_size :: u32
  kernel_heap_state :: KHEAPLCAB

type_synonym ('s, 'v) kernel_result = "('s + 'v \<times> 's) option"

definition halt :: "u32 \<Rightarrow> 'a pmem_scheme \<Rightarrow> ('a pmem_scheme, 'v) kernel_result" where
  "halt stat s = map_option Inl (die (cpu_regs s) (cr3 s) stat s)"

definition return :: "'v \<Rightarrow> 's \<Rightarrow> ('s, 'v) kernel_result" where
  "return v s = Some (Inr (v, s))"

definition kbind :: "('s, 'v) kernel_result \<Rightarrow> ('v \<Rightarrow> 's \<Rightarrow> ('s, 'w) kernel_result) \<Rightarrow> ('s, 'w) kernel_result" where
  "kbind r f = (case r of None \<Rightarrow> None | Some (Inl s) \<Rightarrow> Some (Inl s) | Some (Inr (v, s)) \<Rightarrow> f v s)"

text \<open>A call that cannot die, but may not return.\<close>

definition lift :: "'s option \<Rightarrow> ('s, unit) kernel_result" where
  "lift r = map_option (\<lambda>s. Inr ((), s)) r"

definition lift_val :: "('v \<times> 's) option \<Rightarrow> ('s, 'v) kernel_result" where
  "lift_val r = map_option Inr r"

lemma kbind_simps [simp]:
  "kbind None f = None" "kbind (Some (Inl s)) f = Some (Inl s)" "kbind (Some (Inr (v, s))) f = f v s"
  "kbind (return v s) f = f v s"
  by (simp_all add: kbind_def return_def)

lemma lift_simps [simp]: "lift (Some s) = return () s" "lift None = None" "lift_val (Some (v, s)) = return v s" "lift_val None = None"
  by (simp_all add: lift_def lift_val_def return_def)

subsection \<open>The block bitmap\<close>

definition mmap_set :: "u32 \<Rightarrow> 'a pmem_scheme \<Rightarrow> 'a pmem_scheme" where
  "mmap_set b s = s\<lparr>ram := bit_set (memory_map s) b (ram s)\<rparr>"

definition mmap_unset :: "u32 \<Rightarrow> 'a pmem_scheme \<Rightarrow> 'a pmem_scheme" where
  "mmap_unset b s = s\<lparr>ram := bit_unset (memory_map s) b (ram s)\<rparr>"

definition mmap_test :: "u32 \<Rightarrow> 'a pmem_scheme \<Rightarrow> bool" where
  "mmap_test b s = bit_test (ram s) (memory_map s) b"

definition init_block :: "u32 \<Rightarrow> 'a pmem_scheme \<Rightarrow> 'a pmem_scheme" where
  "init_block at s =
     (if mmap_test at s then let s = mmap_unset at s in s\<lparr>blocks_used := blocks_used s - 1\<rparr> else s)"

definition mem_init_region :: "u32 \<Rightarrow> u32 \<Rightarrow> 'a pmem_scheme \<Rightarrow> 'a pmem_scheme" where
  "mem_init_region base size' s =
     (let align = base div 4096; blocks = size' div 4096;
          s = fold (\<lambda>i s. init_block (align + of_nat i) s) [0..<unat blocks] s
      in mmap_set 0 s)"

definition deinit_block :: "u32 \<Rightarrow> 'a pmem_scheme \<Rightarrow> 'a pmem_scheme" where
  "deinit_block at s =
     (if \<not> mmap_test at s then let s = mmap_set at s in s\<lparr>blocks_used := blocks_used s + 1\<rparr> else s)"

definition mem_deinit_region :: "u32 \<Rightarrow> u32 \<Rightarrow> 'a pmem_scheme \<Rightarrow> 'a pmem_scheme" where
  "mem_deinit_region base size' s =
     (let align = base div 4096; blocks = size' div 4096
      in fold (\<lambda>i s. deinit_block (align + of_nat i) s) [0..<unat blocks] s)"

text \<open>Word \<open>i\<close> of the bitmap; the loops return the first clear bit of the first word that is not full.\<close>

definition map_word :: "'a pmem_scheme \<Rightarrow> nat \<Rightarrow> u32" where
  "map_word s i = load32 (ram s) (memory_map s + 4 * of_nat i)"

definition clear_bit :: "u32 \<Rightarrow> nat option" where
  "clear_bit w = find (\<lambda>j. w AND push_bit j 1 = 0) [0..<32]"

fun find_free_from :: "'a pmem_scheme \<Rightarrow> nat list \<Rightarrow> u32" where
  "find_free_from s [] = - 1"
| "find_free_from s (i # is) =
     (if map_word s i \<noteq> 0xffffffff
      then case clear_bit (map_word s i) of Some j \<Rightarrow> of_nat i * 4 * 8 + of_nat j | None \<Rightarrow> find_free_from s is
      else find_free_from s is)"

definition find_free_block :: "'a pmem_scheme \<Rightarrow> u32" where
  "find_free_block s = find_free_from s [0..<unat (blocks_max s div 32)]"

text \<open>
  The search for several blocks: the counting loop runs \<open>size + 1\<close> times (for ever when \<open>size\<close> is the largest
  word and it does not leave early), from \<open>startingBit = i * 32 + bit\<close> where \<open>bit\<close> is the mask, not the position.
\<close>

fun count_free :: "'a pmem_scheme \<Rightarrow> u32 \<Rightarrow> u32 \<Rightarrow> nat \<Rightarrow> u32 \<Rightarrow> u32 \<Rightarrow> bool option" where
  "count_free s start size' 0 count free = (if size' = - 1 then None else Some False)"
| "count_free s start size' (Suc n) count free =
     (let free = (if \<not> mmap_test (start + count) s then free + 1 else free)
      in if free = size' then Some True else count_free s start size' n (count + 1) free)"

fun first_free_in_word :: "'a pmem_scheme \<Rightarrow> u32 \<Rightarrow> nat \<Rightarrow> nat list \<Rightarrow> u32 option option" where
  "first_free_in_word s size' i [] = Some None"
| "first_free_in_word s size' i (j # js) =
     (let bit = push_bit j 1 :: u32
      in if map_word s i AND bit = 0
         then (case count_free s (of_nat i * 32 + bit) size' (unat size' + 1) 0 0 of
             None \<Rightarrow> None
           | Some True \<Rightarrow> Some (Some (of_nat i * 4 * 8 + of_nat j))
           | Some False \<Rightarrow> first_free_in_word s size' i js)
         else first_free_in_word s size' i js)"

fun first_free_from :: "'a pmem_scheme \<Rightarrow> u32 \<Rightarrow> nat list \<Rightarrow> u32 option" where
  "first_free_from s size' [] = Some (- 1)"
| "first_free_from s size' (i # is) =
     (if map_word s i \<noteq> 0xffffffff
      then (case first_free_in_word s size' i [0..<32] of
          None \<Rightarrow> None
        | Some (Some r) \<Rightarrow> Some r
        | Some None \<Rightarrow> first_free_from s size' is)
      else first_free_from s size' is)"

definition mmap_first_free_s :: "u32 \<Rightarrow> 'a pmem_scheme \<Rightarrow> u32 option" where
  "mmap_first_free_s size' s =
     (if size' = 0 then Some (- 1)
      else if size' = 1 then Some (find_free_block s)
      else first_free_from s size' [0..<unat (blocks_max s)])"

subsection \<open>The block allocator\<close>

definition alloc_block :: "'a pmem_scheme \<Rightarrow> ('a pmem_scheme, u32) kernel_result" where
  "alloc_block s =
     (if blocks_used s \<ge> blocks_max s then halt (STATUS_NOMEM + 1) s
      else
        let frame = find_free_block s
        in if frame = - 1 then halt STATUS_NOMEM s
           else let s = mmap_set frame s; addr = frame * 4096
                in return addr (s\<lparr>blocks_used := blocks_used s + 1\<rparr>))"

definition free_block :: "u32 \<Rightarrow> 'a pmem_scheme \<Rightarrow> 'a pmem_scheme" where
  "free_block p s = (let frame = p div 4096; s = mmap_unset frame s in s\<lparr>blocks_used := blocks_used s - 1\<rparr>)"

definition alloc_blocks :: "u32 \<Rightarrow> 'a pmem_scheme \<Rightarrow> ('a pmem_scheme, u32) kernel_result" where
  "alloc_blocks size' s =
     kbind (lift (kprintf (text_line ''Allocating %u phys blocks...'') [VaWord size'] s)) (\<lambda>_ s.
       if blocks_used s - blocks_max s \<le> size' then halt STATUS_NOMEM s
       else (case mmap_first_free_s size' s of
           None \<Rightarrow> None
         | Some frame \<Rightarrow>
             if frame = - 1 then halt STATUS_NOMEM s
             else let s = fold (\<lambda>i s. mmap_set (frame + of_nat i) s) [0..<unat size'] s; addr = frame * 4096
                  in return addr (s\<lparr>blocks_used := blocks_used s + size'\<rparr>)))"

definition free_blocks :: "u32 \<Rightarrow> u32 \<Rightarrow> 'a pmem_scheme \<Rightarrow> 'a pmem_scheme" where
  "free_blocks p size' s =
     (let frame = p div 4096; s = fold (\<lambda>i s. mmap_unset (frame + of_nat i) s) [0..<unat size'] s
      in s\<lparr>blocks_used := blocks_used s - size'\<rparr>)"

subsection \<open>malloc and free\<close>

definition alloc :: "u32 \<Rightarrow> bool \<Rightarrow> 'a pmem_scheme \<Rightarrow> (u32 \<times> 'a pmem_scheme) option" where
  "alloc sz palign s = do {
     let s = (if palign \<and> mem_unused s AND 0xFFFFF000 \<noteq> 0
              then let s = s\<lparr>mem_unused := mem_unused s AND 0xFFFFF000\<rparr> in s\<lparr>mem_unused := mem_unused s + 0x1000\<rparr>
              else s);
     let tmp = mem_unused s;
     let s = s\<lparr>mem_unused := mem_unused s + sz\<rparr>;
     s \<leftarrow> kprintf (text_line ''Offset alloc %u at 0x%X'') [VaWord sz, VaWord tmp] s;
     Some (tmp, s) }"

definition heap_alloc :: "u32 \<Rightarrow> 'a pmem_scheme \<Rightarrow> (u32 \<times> 'a pmem_scheme) option" where
  "heap_alloc sz s = do {
     (p, h, m) \<leftarrow> k_heapLCABAlloc sz (kernel_heap_state s, ram s);
     Some (p, s\<lparr>ram := m, kernel_heap_state := h\<rparr>) }"

definition malloc :: "u32 \<Rightarrow> 'a pmem_scheme \<Rightarrow> (u32 \<times> 'a pmem_scheme) option" where
  "malloc sz s = (if kernel_mem s = 0 then alloc sz False s else heap_alloc sz s)"

definition amalloc :: "u32 \<Rightarrow> 'a pmem_scheme \<Rightarrow> (u32 \<times> 'a pmem_scheme) option" where
  "amalloc sz s =
     (if kernel_mem s = 0 then alloc sz True s
      else do { (p, s) \<leftarrow> heap_alloc (sz + 0x1000) s; Some (p AND 0xFFFFF000, s) })"

text \<open>The argument \<open>stk\<close> is the address of the local variable of \<open>k_heapLCABFree\<close> that its code takes for a header.\<close>

definition free :: "u32 \<Rightarrow> u32 \<Rightarrow> 'a pmem_scheme \<Rightarrow> 'a pmem_scheme option" where
  "free stk sz s =
     (if kernel_mem s = 0 then Some (s\<lparr>mem_unused := mem_unused s - sz\<rparr>)
      else do { (h, m) \<leftarrow> k_heapLCABFree stk sz (kernel_heap_state s, ram s); Some (s\<lparr>ram := m, kernel_heap_state := h\<rparr>) })"

definition get_free_mem :: "'a pmem_scheme \<Rightarrow> u32" where
  "get_free_mem s = (blocks_max s - blocks_used s) * 0x1000"

definition km_start :: "'a pmem_scheme \<Rightarrow> u32" where "km_start s = load32 (ram s) (kernel_mem s)"
definition km_end :: "'a pmem_scheme \<Rightarrow> u32" where "km_end s = load32 (ram s) (kernel_mem s + 4)"

definition get_mem :: "'a pmem_scheme \<Rightarrow> 'a pmem_scheme option" where
  "get_mem s = do {
     s \<leftarrow> kprintf (bytes ''Total physical memory: %uB'' @ [10] @ text_line ''Physical blocks used: %u/%u (%u free)'')
       [VaWord (mem_size s), VaWord (blocks_used s), VaWord (blocks_max s), VaWord (get_free_mem s div 0x1000)] s;
     s \<leftarrow> kprintf (text_line ''Usable kernel mem : 0x%X - 0x%X (%uB)'')
       [VaWord (km_start s), VaWord (km_end s), VaWord (km_end s - km_start s)] s;
     kprintf (bytes ''Kernel heap: %uB/%uB (%uB free)'')
       [VaWord (mem_in_use (kernel_heap_state s)), VaWord (heap_size (kernel_heap_state s)),
        VaWord (heap_size (kernel_heap_state s) - mem_in_use (kernel_heap_state s))] s }"

subsection \<open>Boot information\<close>

text \<open>Fields of \<open>multiboot_info_t\<close>, by their offsets.\<close>

definition mbt_flags :: "memory \<Rightarrow> u32 \<Rightarrow> u32" where "mbt_flags m p = load32 m p"
definition mbt_mem_upper :: "memory \<Rightarrow> u32 \<Rightarrow> u32" where "mbt_mem_upper m p = load32 m (p + 8)"
definition mbt_boot_device :: "memory \<Rightarrow> u32 \<Rightarrow> u32" where "mbt_boot_device m p = load32 m (p + 12)"
definition mbt_mods_count :: "memory \<Rightarrow> u32 \<Rightarrow> u32" where "mbt_mods_count m p = load32 m (p + 20)"
definition mbt_mods_addr :: "memory \<Rightarrow> u32 \<Rightarrow> u32" where "mbt_mods_addr m p = load32 m (p + 24)"
definition mbt_mmap_length :: "memory \<Rightarrow> u32 \<Rightarrow> u32" where "mbt_mmap_length m p = load32 m (p + 44)"
definition mbt_mmap_addr :: "memory \<Rightarrow> u32 \<Rightarrow> u32" where "mbt_mmap_addr m p = load32 m (p + 48)"

definition FLAG_EXISTS :: "u32 \<Rightarrow> nat \<Rightarrow> bool" where
  "FLAG_EXISTS flags b \<longleftrightarrow> flags AND push_bit b 1 \<noteq> 0"

definition verify_multiboot :: "u32 \<Rightarrow> u32 \<Rightarrow> 'a pmem_scheme \<Rightarrow> ('a pmem_scheme, u32) kernel_result" where
  "verify_multiboot magic addr s =
     (if magic \<noteq> 0x2BADB002 then halt STATUS_BAD_MULTIBOOT s
      else lift_val (do {
        let s = term_tempcolor 10 s;
        s \<leftarrow> (if FLAG_EXISTS (mbt_flags (ram s) addr) 0
              then kprintf (text_line ''Total physical memory: %uB'') [VaWord (mbt_mem_upper (ram s) addr * 1024)] s else Some s);
        s \<leftarrow> (if FLAG_EXISTS (mbt_flags (ram s) addr) 1
              then kprintf (text_line ''Bootdev: 0x%X'') [VaWord (mbt_boot_device (ram s) addr)] s else Some s);
        Some (addr, term_revertcolor s) }))"

text \<open>One entry of the memory map, \<open>_multiboot_memory_map_t\<close> at \<open>mb_mmap\<close>.\<close>

definition region_size :: "'a pmem_scheme \<Rightarrow> u32" where "region_size s = load32 (ram s) (mb_mmap s)"
definition base_addr_low :: "'a pmem_scheme \<Rightarrow> u32" where "base_addr_low s = load32 (ram s) (mb_mmap s + 4)"
definition base_addr_high :: "'a pmem_scheme \<Rightarrow> u32" where "base_addr_high s = load32 (ram s) (mb_mmap s + 8)"
definition length_low :: "'a pmem_scheme \<Rightarrow> u32" where "length_low s = load32 (ram s) (mb_mmap s + 12)"
definition region_type :: "'a pmem_scheme \<Rightarrow> u32" where "region_type s = load32 (ram s) (mb_mmap s + 20)"

definition mem_regions :: "u8 list list" where
  "mem_regions = [bytes ''Available'', bytes ''Reserved'', bytes ''ACPI Reclaim'', bytes ''ACPI NVS Memory'']"

text \<open>The heap is made of the first available region above address 0.\<close>

definition make_heap :: "u32 \<Rightarrow> 'a pmem_scheme \<Rightarrow> 'a pmem_scheme option" where
  "make_heap size_pa s = do {
     (p, s) \<leftarrow> malloc 8 s;
     let s = s\<lparr>kernel_mem := p\<rparr>;
     let s = s\<lparr>ram := store32 (kernel_mem s) (base_addr_low s + size_pa + 4096 * 30) (ram s)\<rparr>;
     let s = s\<lparr>ram := store32 (kernel_mem s + 4) (km_start s + (length_low s - size_pa - 4096 * 30)) (ram s)\<rparr>;
     let s = s\<lparr>kernel_heap_state := k_heapLCABInit (kernel_heap_state s)\<rparr>;
     s \<leftarrow> kprintf (text_line ''%X %X %u'') [VaWord (km_start s), VaWord (km_end s), VaWord (km_end s - km_start s)] s;
     let (h, m) = k_heapLCABAddBlock (km_start s) (km_end s - km_start s) (kernel_heap_state s, ram s);
     Some (s\<lparr>kernel_heap_state := h, ram := m\<rparr>) }"

text \<open>A type of 4 or more indexes \<open>mem_regions\<close> out of bounds, which is undefined.\<close>

definition pmem_region :: "u32 \<Rightarrow> 'a pmem_scheme \<Rightarrow> 'a pmem_scheme option" where
  "pmem_region size_pa s = do {
     s \<leftarrow> (if region_type s < 4
           then kprintf (text_line ''Addr: 0x%X%X Len: %uB Type: %s'')
             [VaWord (base_addr_high s), VaWord (base_addr_low s), VaWord (length_low s), VaLit (mem_regions ! unat (region_type s))] s
           else None);
     s \<leftarrow> (if region_type s = 1 \<and> base_addr_low s > 0
           then do {
             let s = mem_init_region (base_addr_low s) (length_low s) s;
             s \<leftarrow> kprintf (text_line ''0x%X %u adding heap block'') [VaWord (base_addr_low s), VaWord (length_low s)] s;
             (if kernel_mem s = 0 then make_heap size_pa s else Some s) }
           else Some (mem_deinit_region (base_addr_low s) (length_low s) s));
     Some (s\<lparr>mb_mmap := mb_mmap s + region_size s + 4\<rparr>) }"

partial_function (option) pmem_regions :: "u32 \<Rightarrow> u32 \<Rightarrow> 'a pmem_scheme \<Rightarrow> 'a pmem_scheme option" where
  "pmem_regions mbt size_pa s =
     (if mb_mmap s < mbt_mmap_addr (ram s) mbt + mbt_mmap_length (ram s) mbt
      then Option.bind (pmem_region size_pa s) (pmem_regions mbt size_pa)
      else Some s)"

definition pmem_init :: "u32 \<Rightarrow> 'a pmem_scheme \<Rightarrow> 'a pmem_scheme option" where
  "pmem_init mbt s = do {
     let s = s\<lparr>mb_mmap_len := mbt_mmap_length (ram s) mbt\<rparr>;
     let s = s\<lparr>mem_size := mbt_mem_upper (ram s) mbt\<rparr>;
     let s = s\<lparr>mb_mmap := mbt_mmap_addr (ram s) mbt\<rparr>;
     let s = s\<lparr>blocks_max := (mem_size s * 1024) div 4096\<rparr>;
     s \<leftarrow> kprintf (text_line ''Total memory blocks: %u'') [VaWord (blocks_max s)] s;
     let s = s\<lparr>mmap_len := blocks_max s div 8\<rparr>;
     (p, s) \<leftarrow> malloc (mmap_len s) s;
     let s = s\<lparr>memory_map := p\<rparr>;
     let s = s\<lparr>ram := memset (memory_map s) 0xf (mmap_len s) (ram s)\<rparr>;
     let s = s\<lparr>blocks_used := blocks_max s\<rparr>;
     let s = term_tempcolor 9 s;
     s \<leftarrow> kprint (Lit (bytes ''Memory map'')) s;
     let size_pa = (kernel_size s AND 0xFFFFF000) + 0x1000;
     s \<leftarrow> pmem_regions mbt size_pa s;
     let s = s\<lparr>mem_avail := blocks_used s * 4096\<rparr>;
     let s = term_revertcolor s;
     Some (s\<lparr>mem_size := mem_size s * 1024\<rparr>) }"

end
