(* ===== verification/Blocks.thy ===== *)
theory Blocks
  imports Pmem
begin

text \<open>
  The physical block allocator. A bitmap is abstracted to the set of its used blocks; the search for a free
  block is the search for the first block outside that set. The locale \<open>block_allocator\<close> is what the
  paging code relies on.
\<close>

subsection \<open>Pages\<close>

lemma page_floor: "(w :: u32) AND 0xFFFFF000 = 4096 * (w div 4096)"
proof -
  have "w AND NOT (mask 12) = push_bit 12 (drop_bit 12 w)"
    by (rule bit_word_eqI) (auto simp: bit_simps)
  moreover have "NOT (mask 12) = (0xFFFFF000 :: u32)" by (simp add: mask_eq_exp_minus_1)
  ultimately show ?thesis by (simp add: push_bit_eq_mult drop_bit_eq_div mult.commute)
qed

lemma page_offset: "(w :: u32) AND 0xFFF = w mod 4096"
  using take_bit_eq_mask [of 12 w] by (simp add: mask_eq_exp_minus_1 take_bit_eq_mod)

lemma page_split: "4096 * (w div 4096) + w mod 4096 = (w :: u32)"
  by (metis mult.commute word_mod_div_equality)

subsection \<open>The bitmap as a set\<close>

definition used :: "'a pmem_scheme \<Rightarrow> u32 set" where
  "used s = {b. mmap_test b s}"

lemma unat_div32: "unat (b div 32 :: u32) = unat b div 32" and unat_mod32: "unat (b mod 32 :: u32) = unat b mod 32"
  by (simp_all add: unat_div unat_mod)

lemma map_words_apart:
  assumes "b div 32 \<noteq> (c :: u32) div 32"
  shows "separate (p + 4 * (b div 32)) 4 (p + 4 * (c div 32)) 4"
proof -
  define x y where "x = unat (b div 32)" and "y = unat (c div 32)"
  have l: "x < 134217728" "y < 134217728"
    using unat32_lt [of b] unat32_lt [of c] by (simp_all add: x_def y_def unat_div32 less_mult_imp_div_less)
  have ne: "x \<noteq> y" using assms by (simp add: x_def y_def word_unat_eq_iff)
  have w: "4 * (b div 32) = of_nat (4 * x)" "4 * (c div 32) = of_nat (4 * y)" by (simp_all add: x_def y_def)
  have "unat (of_nat (4 * x) - of_nat (4 * y) :: u32) \<ge> 4" "unat (of_nat (4 * y) - of_nat (4 * x) :: u32) \<ge> 4"
    using l ne unfolding unat32_sub by (auto simp del: of_nat_mult)
  then show ?thesis unfolding separate_def w by (simp del: of_nat_mult)
qed

lemma div_mod_32: "b div 32 = c div 32 \<Longrightarrow> b mod 32 = c mod 32 \<Longrightarrow> b = (c :: u32)"
  by (metis word_mod_div_equality)

lemma test_bit32: "(w AND push_bit n 1 \<noteq> (0 :: u32)) = bit w n"
  unfolding and_single_bit by (auto simp: bit_simps word_size dest: bit_imp_le_length)

lemma bit_test_iff: "bit_test m p b \<longleftrightarrow> bit (load32 m (p + 4 * (b div 32))) (unat (b mod 32))"
  unfolding bit_test_def test_bit32 ..

lemma unat_mod32_lt: "unat (b mod 32 :: u32) < 32"
  by (simp add: unat_mod32)

lemma bit_test_bit_set: "bit_test (bit_set p b m) p c \<longleftrightarrow> c = b \<or> bit_test m p c"
proof (cases "b div 32 = c div 32")
  case True
  have "unat (b mod 32) = unat (c mod 32) \<longleftrightarrow> b = c"
    using div_mod_32 [OF True] by (auto simp: word_unat_eq_iff [symmetric])
  then show ?thesis
    using True unat_mod32_lt [of b] unat_mod32_lt [of c]
    by (auto simp: bit_test_iff bit_set_def mem_simps bit_simps)
next
  case False
  then show ?thesis using map_words_apart [OF False, of p] by (auto simp: bit_test_iff bit_set_def mem_simps)
qed

lemma bit_test_bit_unset: "bit_test (bit_unset p b m) p c \<longleftrightarrow> c \<noteq> b \<and> bit_test m p c"
proof (cases "b div 32 = c div 32")
  case True
  have "unat (b mod 32) = unat (c mod 32) \<longleftrightarrow> b = c"
    using div_mod_32 [OF True] by (auto simp: word_unat_eq_iff [symmetric])
  then show ?thesis
    using True unat_mod32_lt [of b] unat_mod32_lt [of c]
    by (auto simp: bit_test_iff bit_unset_def mem_simps bit_simps)
next
  case False
  then show ?thesis using map_words_apart [OF False, of p] by (auto simp: bit_test_iff bit_unset_def mem_simps)
qed

lemma store32_same: "store32 a (load32 m a) m = m"
proof -
  have "ucast (load32 m a) = m a" "ucast (drop_bit 8 (load32 m a)) = m (a + 1)"
    "ucast (drop_bit 16 (load32 m a)) = m (a + 2)" "ucast (drop_bit 24 (load32 m a)) = m (a + 3)"
    unfolding load32_def
    by (rule bit_word_eqI; auto simp: bit_simps dest: bit_imp_le_length; simp add: add.commute)+
  then show ?thesis by (simp add: store32_def fun_eq_iff)
qed

lemma store32_twice: "store32 a v (store32 a w m) = store32 a v m"
  by (simp add: store32_def fun_eq_iff)

lemma bit_unset_bit_set: "\<not> bit_test m p b \<Longrightarrow> bit_unset p b (bit_set p b m) = m"
proof -
  assume "\<not> bit_test m p b"
  then have b: "\<not> bit (load32 m (p + 4 * (b div 32))) (unat (b mod 32))" by (simp add: bit_test_iff)
  have "(load32 m (p + 4 * (b div 32)) OR push_bit (unat (b mod 32)) 1) AND NOT (push_bit (unat (b mod 32)) 1)
      = load32 m (p + 4 * (b div 32))"
    using b by (intro bit_word_eqI) (auto simp: bit_simps)
  then show ?thesis by (simp add: bit_unset_def bit_set_def mem_simps store32_twice store32_same)
qed

lemma mmap_simps [simp]:
  "memory_map (mmap_set b s) = memory_map s" "blocks_used (mmap_set b s) = blocks_used s"
  "blocks_max (mmap_set b s) = blocks_max s" "kernel_mem (mmap_set b s) = kernel_mem s"
  "memory_map (mmap_unset b s) = memory_map s" "blocks_used (mmap_unset b s) = blocks_used s"
  "blocks_max (mmap_unset b s) = blocks_max s" "kernel_mem (mmap_unset b s) = kernel_mem s"
  by (simp_all add: mmap_set_def mmap_unset_def)

lemma used_mmap_set [simp]: "used (mmap_set b s) = insert b (used s)"
  by (auto simp: used_def mmap_test_def mmap_set_def bit_test_bit_set)

lemma used_mmap_unset [simp]: "used (mmap_unset b s) = used s - {b}"
  by (auto simp: used_def mmap_test_def mmap_unset_def bit_test_bit_unset)

lemma used_count [simp]: "used (s\<lparr>blocks_used := n\<rparr>) = used s"
  by (simp add: used_def mmap_test_def)

lemma mmap_test_used: "mmap_test b s \<longleftrightarrow> b \<in> used s"
  by (simp add: used_def)

lemma mmap_unset_set: "b \<notin> used s \<Longrightarrow> mmap_unset b (mmap_set b s) = s"
  by (simp add: used_def mmap_test_def mmap_unset_def mmap_set_def bit_unset_bit_set)

subsection \<open>The first free block\<close>

text \<open>The reference: the least block number outside the set of used blocks.\<close>

definition first_free :: "nat \<Rightarrow> u32 set \<Rightarrow> nat option" where
  "first_free n U = find (\<lambda>b. of_nat b \<notin> U) [0..<n]"

lemma map_word_bit: "i < 134217728 \<Longrightarrow> j < 32 \<Longrightarrow> bit (map_word s i) j \<longleftrightarrow> of_nat (32 * i + j) \<in> used s"
proof -
  assume i: "i < 134217728" and j: "j < 32"
  have u: "unat (of_nat (32 * i + j) :: u32) = 32 * i + j" using i j by (simp del: of_nat_add of_nat_mult)
  have d: "(of_nat (32 * i + j) :: u32) div 32 = of_nat i" and m: "unat ((of_nat (32 * i + j) :: u32) mod 32) = j"
    using i j unfolding word_unat_eq_iff [of "_ div 32"] unat_div32 unat_mod32 u by simp_all
  show ?thesis unfolding used_def mmap_test_def bit_test_iff mem_Collect_eq d m by (simp add: map_word_def)
qed

lemma full_word: "w = (0xffffffff :: u32) \<longleftrightarrow> (\<forall>j < 32. bit w j)"
proof -
  have "(0xffffffff :: u32) = mask 32" by (simp add: mask_eq_exp_minus_1)
  then show ?thesis by (auto simp: bit_eq_iff bit_simps)
qed

lemma find_map_upt: "find P (map f xs) = map_option f (find (P \<circ> f) xs)"
  by (induction xs) auto

lemma find_append: "find P (xs @ ys) = (case find P xs of Some x \<Rightarrow> Some x | None \<Rightarrow> find P ys)"
  by (induction xs) auto

lemma find_cong_set: "(\<And>x. x \<in> set xs \<Longrightarrow> P x = Q x) \<Longrightarrow> find P xs = find Q xs"
  by (induction xs) auto

lemma upt_block: "[32 * i..<32 * Suc i] = map (\<lambda>j. 32 * i + j) [0..<32]"
  by (simp add: map_add_upt [symmetric] add.commute)

lemma clear_bit_spec:
  assumes "i < 134217728"
  shows "map_option (\<lambda>j. 32 * i + j) (clear_bit (map_word s i)) = find (\<lambda>b. of_nat b \<notin> used s) [32 * i..<32 * Suc i]"
proof -
  have "clear_bit (map_word s i) = find ((\<lambda>b. of_nat b \<notin> used s) \<circ> (\<lambda>j. 32 * i + j)) [0..<32]"
    unfolding clear_bit_def
    by (rule find_cong_set) (use map_word_bit [OF assms, of _ s] test_bit32 [of "map_word s i"] in \<open>auto simp del: of_nat_add of_nat_mult\<close>)
  then show ?thesis unfolding upt_block find_map_upt by simp
qed

lemma find_free_from_spec:
  "n \<le> 134217728 \<Longrightarrow> i \<le> n \<Longrightarrow>
   find_free_from s [i..<n] = (case find (\<lambda>b. of_nat b \<notin> used s) [32 * i..<32 * n] of Some b \<Rightarrow> of_nat b | None \<Rightarrow> - 1)"
proof (induction "n - i" arbitrary: i)
  case (Suc k)
  then have i: "i < n" "i < 134217728" and r: "[i..<n] = i # [Suc i..<n]" by (simp_all add: upt_conv_Cons)
  have sp: "[32 * i..<32 * n] = [32 * i..<32 * Suc i] @ [32 * Suc i..<32 * n]"
    using i upt_add_eq_append [of "32 * i" "32 * Suc i" "32 * (n - Suc i)"] by (simp add: algebra_simps)
  have IH: "find_free_from s [Suc i..<n] = (case find (\<lambda>b. of_nat b \<notin> used s) [32 * Suc i..<32 * n] of Some b \<Rightarrow> of_nat b | None \<Rightarrow> - 1)"
    using Suc.hyps(1) [of "Suc i"] Suc.hyps(2) Suc.prems i by simp
  note cb = clear_bit_spec [OF i(2), of s]
  show ?case
  proof (cases "clear_bit (map_word s i)")
    case None
    then show ?thesis unfolding r sp find_append using cb IH by simp
  next
    case (Some j)
    have "map_word s i \<noteq> 0xffffffff"
    proof
      assume "map_word s i = 0xffffffff"
      then have "\<forall>j < 32. bit (map_word s i) j" by (simp only: full_word)
      then have "clear_bit (map_word s i) = None"
        unfolding clear_bit_def find_None_iff using test_bit32 [of "map_word s i"] by auto
      with Some show False by simp
    qed
    then show ?thesis unfolding r sp find_append using cb [symmetric] Some by (simp add: mult.commute)
  qed
qed simp

lemma find_free_block_first:
  "find_free_block s = (case first_free (32 * (unat (blocks_max s) div 32)) (used s) of Some b \<Rightarrow> of_nat b | None \<Rightarrow> - 1)"
  using find_free_from_spec [of "unat (blocks_max s) div 32" 0 s] unat32_lt [of "blocks_max s"]
  by (simp add: find_free_block_def first_free_def unat_div32 less_mult_imp_div_less less_imp_le)

subsection \<open>Allocating and freeing blocks\<close>

lemma first_free_Some:
  "first_free n U = Some b \<Longrightarrow> b < n \<and> of_nat b \<notin> U \<and> (\<forall>c < b. of_nat c \<in> U)"
  unfolding first_free_def find_Some_iff by auto

lemma first_free_None: "first_free n U = None \<longleftrightarrow> (\<forall>b < n. of_nat b \<in> U)"
  unfolding first_free_def find_None_iff by auto

lemma words_bound: "32 * (unat (n :: u32) div 32) + 32 \<le> 4294967296"
proof -
  have "unat n div 32 \<le> 134217727" using unat32_lt [of n] by linarith
  then show ?thesis by linarith
qed

lemma alloc_block_some:
  assumes "blocks_used s < blocks_max s" and "first_free (32 * (unat (blocks_max s) div 32)) (used s) = Some b"
  shows "alloc_block s = return (of_nat b * 4096) ((mmap_set (of_nat b) s)\<lparr>blocks_used := blocks_used s + 1\<rparr>)"
proof -
  have b: "b < 4294967264" using first_free_Some [OF assms(2)] words_bound [of "blocks_max s"] by simp
  have "of_nat b \<noteq> (- 1 :: u32)"
  proof
    assume "of_nat b = (- 1 :: u32)"
    then have "unat (of_nat b :: u32) = 4294967295" by (simp add: unat_minus_1)
    then show False using b by simp
  qed
  then show ?thesis
    using assms by (auto simp: alloc_block_def find_free_block_first Let_def dest: leD)
qed

lemma alloc_block_none:
  "blocks_used s < blocks_max s \<Longrightarrow> first_free (32 * (unat (blocks_max s) div 32)) (used s) = None \<Longrightarrow>
   alloc_block s = halt STATUS_NOMEM s"
  by (auto simp: alloc_block_def find_free_block_first Let_def dest: leD)

lemma alloc_block_full: "\<not> blocks_used s < blocks_max s \<Longrightarrow> alloc_block s = halt (STATUS_NOMEM + 1) s"
  by (simp add: alloc_block_def not_less)

lemma alloc_block_cases:
  assumes "alloc_block s = return p s'"
  shows "\<exists>b. first_free (32 * (unat (blocks_max s) div 32)) (used s) = Some b \<and> p = of_nat b * 4096 \<and>
    s' = (mmap_set (of_nat b) s)\<lparr>blocks_used := blocks_used s + 1\<rparr> \<and> blocks_used s < blocks_max s"
proof -
  have h: "halt st s \<noteq> return p s'" for st by (auto simp: halt_def return_def)
  have lt: "blocks_used s < blocks_max s" using assms h alloc_block_full [of s] by (cases "blocks_used s < blocks_max s") auto
  obtain b where b: "first_free (32 * (unat (blocks_max s) div 32)) (used s) = Some b"
    using assms h alloc_block_none [OF lt] by (cases "first_free (32 * (unat (blocks_max s) div 32)) (used s)") auto
  then show ?thesis using alloc_block_some [OF lt b] assms lt by (auto simp: return_def)
qed

lemma frame_of_addr: "b < 1048576 \<Longrightarrow> (of_nat b * 4096 :: u32) div 4096 = of_nat b"
proof -
  assume b: "b < 1048576"
  have "(of_nat b * 4096 :: u32) = of_nat (b * 4096)" by simp
  then have "unat (of_nat b * 4096 :: u32) = b * 4096" using b by (simp only: unat_of_nat32)
  then show ?thesis using b by (intro word_unat_eq_iff [THEN iffD2]) (simp add: unat_div)
qed

text \<open>What the paging code relies on of a block allocator: a fresh page-aligned block, recorded as in use.\<close>

locale block_allocator =
  fixes inuse :: "'s \<Rightarrow> u32 set" and take :: "'s \<Rightarrow> (u32 \<times> 's) option" and good :: "'s \<Rightarrow> bool"
  assumes take_fresh: "good s \<Longrightarrow> take s = Some (p, s') \<Longrightarrow> p div 4096 \<notin> inuse s"
    and take_aligned: "good s \<Longrightarrow> take s = Some (p, s') \<Longrightarrow> 4096 * (p div 4096) = p"
    and take_inuse: "good s \<Longrightarrow> take s = Some (p, s') \<Longrightarrow> inuse s' = insert (p div 4096) (inuse s)"
    and take_good: "good s \<Longrightarrow> take s = Some (p, s') \<Longrightarrow> good s'"
begin

fun takes :: "nat \<Rightarrow> 's \<Rightarrow> (u32 list \<times> 's) option" where
  "takes 0 s = Some ([], s)"
| "takes (Suc n) s = Option.bind (take s) (\<lambda>(p, s). Option.bind (takes n s) (\<lambda>(ps, s). Some (p # ps, s)))"

lemma takes_distinct:
  "takes n s = Some (ps, s') \<Longrightarrow> good s \<Longrightarrow> distinct (map (\<lambda>p. p div 4096) ps) \<and> (\<forall>p \<in> set ps. p div 4096 \<notin> inuse s) \<and>
   inuse s' = (\<lambda>p. p div 4096) ` set ps \<union> inuse s"
proof (induction n arbitrary: s ps)
  case (Suc n)
  from Suc.prems(1) obtain p s1 qs where g: "take s = Some (p, s1)" "takes n s1 = Some (qs, s')" "ps = p # qs"
    by (auto simp: Option.bind_eq_Some_conv)
  note t = take_fresh [OF Suc.prems(2) g(1)] take_inuse [OF Suc.prems(2) g(1)] take_good [OF Suc.prems(2) g(1)]
  from Suc.IH [OF g(2) t(3)] t(1,2) show ?case by (auto simp: g(3))
qed simp

text \<open>A page that is in use stays apart from every block handed out later: their bytes do not overlap.\<close>

lemma take_apart:
  assumes "good s" and "take s = Some (p, s')" and "q div 4096 \<in> inuse s" and "4096 * (q div 4096) = q"
  shows "separate p 4096 q 4096"
proof -
  have p: "4096 * (p div 4096) = p" "p div 4096 \<noteq> q div 4096"
    using take_fresh [OF assms(1,2)] take_aligned [OF assms(1,2)] assms(3) by auto
  define x y where "x = unat (p div 4096)" and "y = unat (q div 4096)"
  have l: "x < 1048576" "y < 1048576"
    using unat32_lt [of p] unat32_lt [of q] by (simp_all add: x_def y_def unat_div less_mult_imp_div_less)
  have ne: "x \<noteq> y" using p(2) by (simp add: x_def y_def word_unat_eq_iff)
  have w: "p = of_nat (4096 * x)" "q = of_nat (4096 * y)"
    using p(1) assms(4) by (simp_all add: x_def y_def)
  have "unat (of_nat (4096 * x) - of_nat (4096 * y) :: u32) \<ge> 4096" "unat (of_nat (4096 * y) - of_nat (4096 * x) :: u32) \<ge> 4096"
    using l ne unfolding unat32_sub by (auto simp del: of_nat_mult)
  then show ?thesis unfolding separate_def w by (simp del: of_nat_mult)
qed

end

text \<open>The kernel's block numbers fit the address space: \<open>blocks_max\<close> is a number of pages of a 32-bit memory.\<close>

definition blocks_fit :: "'a pmem_scheme \<Rightarrow> bool" where
  "blocks_fit s \<longleftrightarrow> unat (blocks_max s) \<le> 1048576"

definition take_block :: "'a pmem_scheme \<Rightarrow> (u32 \<times> 'a pmem_scheme) option" where
  "take_block s = (case alloc_block s of Some (Inr r) \<Rightarrow> Some r | _ \<Rightarrow> None)"

lemma take_block_return: "take_block s = Some (p, s') \<longleftrightarrow> alloc_block s = return p s'"
  by (auto simp: take_block_def return_def split: option.splits sum.splits)

interpretation kernel_blocks: block_allocator used take_block blocks_fit
proof
  fix s s' :: "'a pmem_scheme" and p
  assume fit: "blocks_fit s" and t: "take_block s = Some (p, s')"
  from alloc_block_cases [OF t [unfolded take_block_return]] obtain b where
    b: "first_free (32 * (unat (blocks_max s) div 32)) (used s) = Some b" "p = of_nat b * 4096"
      "s' = (mmap_set (of_nat b) s)\<lparr>blocks_used := blocks_used s + 1\<rparr>" by blast
  have l: "b < 1048576" using first_free_Some [OF b(1)] fit unfolding blocks_fit_def by linarith
  have d: "p div 4096 = of_nat b" unfolding b(2) by (rule frame_of_addr [OF l])
  show "p div 4096 \<notin> used s" using first_free_Some [OF b(1)] d by simp
  show "4096 * (p div 4096) = p" unfolding d by (simp add: b(2) mult.commute)
  show "used s' = insert (p div 4096) (used s)" unfolding d by (simp add: b(3))
  show "blocks_fit s'" using fit by (simp add: b(3) blocks_fit_def)
qed

lemma free_alloc_block:
  assumes "alloc_block s = return p s'" and "blocks_fit s"
  shows "free_block p s' = s"
proof -
  from alloc_block_cases [OF assms(1)] obtain b where
    b: "first_free (32 * (unat (blocks_max s) div 32)) (used s) = Some b" "p = of_nat b * 4096"
      "s' = (mmap_set (of_nat b) s)\<lparr>blocks_used := blocks_used s + 1\<rparr>" by blast
  have l: "b < 1048576" using first_free_Some [OF b(1)] assms(2) unfolding blocks_fit_def by linarith
  have u: "mmap_unset c (t\<lparr>blocks_used := n\<rparr>) = (mmap_unset c t)\<lparr>blocks_used := n\<rparr>" for c n and t :: "'a pmem_scheme"
    by (simp add: mmap_unset_def)
  have "of_nat b \<notin> used s" using first_free_Some [OF b(1)] by simp
  then show ?thesis
    unfolding free_block_def b(2) frame_of_addr [OF l] by (simp add: b(3) u mmap_unset_set)
qed

subsection \<open>Regions\<close>

definition region_blocks :: "u32 \<Rightarrow> nat \<Rightarrow> u32 set" where
  "region_blocks a n = (\<lambda>i. a + of_nat i) ` {..<n}"

lemma region_blocks_Suc: "region_blocks a (Suc n) = insert (a + of_nat n) (region_blocks a n)"
  by (auto simp: region_blocks_def lessThan_Suc)

lemma region_fresh: "n < 4294967296 \<Longrightarrow> a + of_nat n \<notin> region_blocks a n"
  by (auto simp: region_blocks_def of_nat32_eq_iff)

lemma finite_region [simp]: "finite (region_blocks a n)"
  by (simp add: region_blocks_def)

lemma deinit_block_effect:
  "used (deinit_block b s) = insert b (used s)"
  "blocks_used (deinit_block b s) = blocks_used s + of_nat (card ({b} - used s))"
  "blocks_max (deinit_block b s) = blocks_max s"
  by (auto simp: deinit_block_def Let_def mmap_test_used insert_Diff_if)

lemma init_block_effect:
  "used (init_block b s) = used s - {b}"
  "blocks_used (init_block b s) = blocks_used s - of_nat (card ({b} \<inter> used s))"
  "blocks_max (init_block b s) = blocks_max s"
  by (auto simp: init_block_def Let_def mmap_test_used)

lemma deinit_blocks_effect:
  "n \<le> 4294967296 \<Longrightarrow>
   used (fold (\<lambda>i s. deinit_block (a + of_nat i) s) [0..<n] s) = region_blocks a n \<union> used s \<and>
   blocks_used (fold (\<lambda>i s. deinit_block (a + of_nat i) s) [0..<n] s) = blocks_used s + of_nat (card (region_blocks a n - used s)) \<and>
   blocks_max (fold (\<lambda>i s. deinit_block (a + of_nat i) s) [0..<n] s) = blocks_max s"
proof (induction n)
  case (Suc n)
  have f: "a + of_nat n \<notin> region_blocks a n" using Suc.prems by (intro region_fresh) simp
  have "card (region_blocks a (Suc n) - used s) = card (region_blocks a n - used s) + card ({a + of_nat n} - (region_blocks a n \<union> used s))"
    using f by (auto simp: region_blocks_Suc insert_Diff_if card_insert_if)
  then show ?case using Suc by (simp add: deinit_block_effect region_blocks_Suc)
qed (simp add: region_blocks_def)

lemma init_blocks_effect:
  "n \<le> 4294967296 \<Longrightarrow>
   used (fold (\<lambda>i s. init_block (a + of_nat i) s) [0..<n] s) = used s - region_blocks a n \<and>
   blocks_used (fold (\<lambda>i s. init_block (a + of_nat i) s) [0..<n] s) = blocks_used s - of_nat (card (region_blocks a n \<inter> used s)) \<and>
   blocks_max (fold (\<lambda>i s. init_block (a + of_nat i) s) [0..<n] s) = blocks_max s"
proof (induction n)
  case (Suc n)
  have f: "a + of_nat n \<notin> region_blocks a n" using Suc.prems by (intro region_fresh) simp
  have "card (region_blocks a (Suc n) \<inter> used s) = card (region_blocks a n \<inter> used s) + card ({a + of_nat n} \<inter> (used s - region_blocks a n))"
    using f by (cases "a + of_nat n \<in> used s") (simp_all add: region_blocks_Suc Int_insert_left)
  then show ?case using Suc by (auto simp: init_block_effect region_blocks_Suc)
qed (simp add: region_blocks_def)

lemma deinit_region_effect:
  fixes base size' :: u32
  defines "R \<equiv> region_blocks (base div 4096) (unat (size' div 4096))"
  shows "used (mem_deinit_region base size' s) = R \<union> used s"
    and "blocks_used (mem_deinit_region base size' s) = blocks_used s + of_nat (card (R - used s))"
    and "blocks_max (mem_deinit_region base size' s) = blocks_max s"
  using deinit_blocks_effect [of "unat (size' div 4096)" "base div 4096" s] unat32_lt [of "size' div 4096"]
  unfolding mem_deinit_region_def R_def Let_def by simp_all

lemma init_region_effect:
  fixes base size' :: u32
  defines "R \<equiv> region_blocks (base div 4096) (unat (size' div 4096))"
  shows "used (mem_init_region base size' s) = insert 0 (used s - R)"
    and "blocks_used (mem_init_region base size' s) = blocks_used s - of_nat (card (R \<inter> used s))"
    and "blocks_max (mem_init_region base size' s) = blocks_max s"
  using init_blocks_effect [of "unat (size' div 4096)" "base div 4096" s] unat32_lt [of "size' div 4096"]
  unfolding mem_init_region_def R_def Let_def by simp_all

text \<open>\<open>counted\<close>: \<open>blocks_used\<close> is the number of used blocks among those of the memory.\<close>

definition counted :: "'a pmem_scheme \<Rightarrow> bool" where
  "counted s \<longleftrightarrow> blocks_used s = of_nat (card (used s \<inter> {..<blocks_max s}))"

lemma finite_u32 [simp]: "finite (A :: u32 set)"
  by (rule finite)

lemma counted_alloc:
  assumes "counted s" and "alloc_block s = return p s'"
  shows "counted s'"
proof -
  from alloc_block_cases [OF assms(2)] obtain b where
    b: "first_free (32 * (unat (blocks_max s) div 32)) (used s) = Some b"
      "s' = (mmap_set (of_nat b) s)\<lparr>blocks_used := blocks_used s + 1\<rparr>" by blast
  have l: "of_nat b < blocks_max s" "of_nat b \<notin> used s"
  proof -
    have "b < unat (blocks_max s)" using first_free_Some [OF b(1)] by linarith
    moreover from this have "b < 4294967296" using unat32_lt [of "blocks_max s"] by (rule less_trans)
    ultimately show "of_nat b < blocks_max s" by (simp add: word_less_nat_alt)
  qed (use first_free_Some [OF b(1)] in simp)
  have "insert (of_nat b) (used s) \<inter> {..<blocks_max s} = insert (of_nat b) (used s \<inter> {..<blocks_max s})" using l(1) by auto
  then show ?thesis using assms(1) l(2) by (simp add: counted_def b(2))
qed

lemma counted_free:
  assumes "counted s" and "p div 4096 \<in> used s" and "p div 4096 < blocks_max s"
  shows "counted (free_block p s)"
proof -
  have "(used s - {p div 4096}) \<inter> {..<blocks_max s} = (used s \<inter> {..<blocks_max s}) - {p div 4096}" by auto
  moreover have "card ((used s \<inter> {..<blocks_max s}) - {p div 4096}) = card (used s \<inter> {..<blocks_max s}) - 1"
    using assms(2,3) by (simp add: card_Diff_singleton)
  moreover have "card (used s \<inter> {..<blocks_max s}) \<noteq> 0" using assms(2,3) by auto
  then obtain k where "card (used s \<inter> {..<blocks_max s}) = Suc k" using not0_implies_Suc by blast
  ultimately show ?thesis using assms(1)
    by (simp add: counted_def free_block_def Let_def)
qed

lemma counted_deinit:
  assumes "counted s" and "region_blocks (base div 4096) (unat (size' div 4096)) \<subseteq> {..<blocks_max s}"
  shows "counted (mem_deinit_region base size' s)"
proof -
  let ?R = "region_blocks (base div 4096) (unat (size' div 4096))"
  have "(?R \<union> used s) \<inter> {..<blocks_max s} = (used s \<inter> {..<blocks_max s}) \<union> (?R - used s)" using assms(2) by auto
  moreover have "card ((used s \<inter> {..<blocks_max s}) \<union> (?R - used s)) = card (used s \<inter> {..<blocks_max s}) + card (?R - used s)"
    by (rule card_Un_disjoint) auto
  ultimately show ?thesis using assms(1)
    by (simp add: counted_def deinit_region_effect)
qed

end
