(* ===== verification/MemSpec.thy ===== *)
theory MemSpec
  imports Blocks
begin

text \<open>
  The properties of the physical memory manager: the block allocator, the accounting of used blocks, the
  offset allocator and \<open>malloc\<close>. Output only moves the cursor and writes the screen: what a format with
  numbers and literal strings prints never depends on the memory it is printed over.
\<close>

subsection \<open>Output leaves the managers alone\<close>

interpretation any_sink: char_sink term_putchar "\<lambda>_. True" 0 4294967296
  by unfold_locales (auto simp: same_outside_def in_range_def)

fun plain_meaning :: "va \<Rightarrow> meaning" where
  "plain_meaning (VaWord w) = Num w"
| "plain_meaning (VaLit bs) = Str bs"

lemma plain_denotes: "list_all2 (denotes m b n) args (map plain_meaning args)"
proof -
  have "denotes m b n a (plain_meaning a)" for a by (cases a) simp_all
  then show ?thesis by (induction args) simp_all
qed

lemma term_writes_refl: "term_writes s s"
  by (rule term_writesI [where m = "ram s" and t = "io s" and r = "term_row s" and c = "term_column s"]) simp

lemma term_writes_puts: "term_writes s (fold term_putchar cs s)"
  by (induction cs arbitrary: s) (auto intro: term_writes_refl term_writes_trans [OF term_writes_putchar])

lemma kprintf_plain:
  assumes "render fmt (map plain_meaning args) = Some out"
  shows "kprintf fmt args s = Some (fold term_putchar out s)"
  using any_sink.printf_out [of s args "map plain_meaning args" fmt out, OF TrueI plain_denotes assms] by (simp add: kprintf_def)

text \<open>What printing in the kernel leaves unchanged: everything but memory, port trace and cursor; and below a good cursor
  the memory outside the screen.\<close>

definition quiet :: "'a terminal_scheme \<Rightarrow> 'a terminal_scheme \<Rightarrow> bool" where
  "quiet s s' \<longleftrightarrow> term_writes s s' \<and> (term_ok s \<longrightarrow> term_ok s' \<and> same_outside 0xB8000 5400 (ram s) (ram s'))"

lemma quiet_puts: "quiet s (fold term_putchar cs s)"
  using term_sink.ok_puts [of s cs] term_sink.puts_frame [of s cs]
  by (auto simp: quiet_def term_writes_puts)

lemma kprintf_quiet:
  assumes "render fmt (map plain_meaning args) \<noteq> None"
  shows "\<exists>s'. kprintf fmt args s = Some s' \<and> quiet s s'"
proof -
  obtain out where "render fmt (map plain_meaning args) = Some out" using assms by blast
  then show ?thesis using kprintf_plain quiet_puts by blast
qed

lemma quiet_pmem:
  "quiet s s' \<Longrightarrow> mem_unused s' = mem_unused s \<and> kernel_mem s' = kernel_mem s \<and> memory_map s' = memory_map s \<and>
   blocks_used s' = blocks_used s \<and> blocks_max s' = blocks_max s \<and> kernel_heap_state s' = kernel_heap_state s"
  for s s' :: "'a pmem_scheme"
  by (auto simp: quiet_def term_writes_def)

lemma quiet_update:
  "quiet s s' \<Longrightarrow> \<exists>m t r c. s' = s\<lparr>ram := m, io := t, term_row := r, term_column := c\<rparr>"
  by (auto simp: quiet_def term_writes_def)

subsection \<open>Printing before the heap exists\<close>

lemma alloc_plain:
  "\<exists>s'. alloc sz palign s = Some (if palign \<and> mem_unused s AND 0xFFFFF000 \<noteq> 0 then (mem_unused s AND 0xFFFFF000) + 0x1000 else mem_unused s, s') \<and>
     quiet (s\<lparr>mem_unused := (if palign \<and> mem_unused s AND 0xFFFFF000 \<noteq> 0 then (mem_unused s AND 0xFFFFF000) + 0x1000 else mem_unused s) + sz\<rparr>) s'"
proof -
  let ?p = "if palign \<and> mem_unused s AND 0xFFFFF000 \<noteq> 0 then (mem_unused s AND 0xFFFFF000) + 0x1000 else mem_unused s"
  obtain s' where "kprintf (text_line ''Offset alloc %u at 0x%X'') [VaWord sz, VaWord ?p] (s\<lparr>mem_unused := ?p + sz\<rparr>) = Some s'"
    "quiet (s\<lparr>mem_unused := ?p + sz\<rparr>) s'"
    using kprintf_quiet [of "text_line ''Offset alloc %u at 0x%X''" "[VaWord sz, VaWord ?p]" "s\<lparr>mem_unused := ?p + sz\<rparr>"]
    by (auto simp: text_line_def bytes_def)
  then show ?thesis by (auto simp: alloc_def Let_def)
qed

subsection \<open>Properties\<close>

text \<open>A memory of 64 blocks whose block 0 is in use, before the heap exists.\<close>

definition demo_empty :: pmem where
  "demo_empty = keyboard.extend (demo_keyboard\<lparr>ram := \<lambda>_. 0\<rparr>)
     \<lparr>cpu_regs = regdump demo_keyboard, cr3 = 0, mem_size = 0, blocks_used = 1, blocks_max = 64, mmap_len = 8,
      memory_map = 0x300000, mb_mmap_len = 0, mem_unused = 0x100010, kernel_mem = 0, mb_mmap = 0, mem_avail = 0,
      kernel_size = 0, kernel_heap_state = \<lparr>fblock = 0, bcnt = 0, mem_in_use = 0, heap_size = 0\<rparr>\<rparr>"

definition demo_pmem :: pmem where
  "demo_pmem = mmap_set 0 demo_empty"

lemma demo_empty_facts:
  "used demo_empty = {}" "blocks_max demo_empty = 64" "memory_map demo_empty = 0x300000"
proof -
  have "bit_test (\<lambda>_. 0) p b = False" for p b by (simp add: bit_test_iff load32_def)
  then show "used demo_empty = {}"
    by (simp add: used_def mmap_test_def demo_empty_def keyboard.defs timer.defs demo_keyboard_def)
  show "blocks_max demo_empty = 64" "memory_map demo_empty = 0x300000"
    by (simp_all add: demo_empty_def keyboard.defs timer.defs)
qed

lemma demo_pmem_facts:
  "used demo_pmem = {0}" "blocks_used demo_pmem = 1" "blocks_max demo_pmem = 64" "mem_unused demo_pmem = 0x100010"
  "kernel_mem demo_pmem = 0" "term_ok demo_pmem"
proof -
  show "used demo_pmem = {0}" by (simp add: demo_pmem_def demo_empty_facts)
  show "blocks_used demo_pmem = 1" "blocks_max demo_pmem = 64" "mem_unused demo_pmem = 0x100010" "kernel_mem demo_pmem = 0"
    "term_ok demo_pmem"
    by (simp_all add: demo_pmem_def mmap_set_def demo_empty_def keyboard.defs timer.defs demo_keyboard_def blank_timer_def
        terminal.defs blank_terminal_def term_ok_def)
qed

lemma demo_first_free: "first_free 64 {0} = Some 1"
  by (simp add: first_free_def upt_rec [of _ 64])

lemma demo_alloc_block:
  "alloc_block demo_pmem = return 0x1000 ((mmap_set 1 demo_pmem)\<lparr>blocks_used := 2\<rparr>)"
  using alloc_block_some [of demo_pmem 1] by (simp add: demo_pmem_facts demo_first_free)

text \<open>C21. The two nested loops over the words and bits of the bitmap compute the same as a search for the least block
  number that is not in use, among the blocks of the whole words of the map; \<open>-1\<close> when there is none.\<close>

theorem find_free_block_is_first:
  "find_free_block s = (case first_free (32 * (unat (blocks_max s) div 32)) (used s) of Some b \<Rightarrow> of_nat b | None \<Rightarrow> - 1)"
  by (rule find_free_block_first)

text \<open>\<open>alloc_block\<close> on every path: with all blocks counted as used, or none free in the bitmap, the kernel dies with
  the status of its case; otherwise it hands out the first free block, sets its bit and counts it.\<close>

theorem alloc_block_spec:
  "alloc_block s =
     (if blocks_used s < blocks_max s
      then (case first_free (32 * (unat (blocks_max s) div 32)) (used s) of
          Some b \<Rightarrow> return (of_nat b * 4096) ((mmap_set (of_nat b) s)\<lparr>blocks_used := blocks_used s + 1\<rparr>)
        | None \<Rightarrow> halt STATUS_NOMEM s)
      else halt (STATUS_NOMEM + 1) s)"
  using alloc_block_some [of s] alloc_block_none [of s] alloc_block_full [of s] by (auto split: option.split)

text \<open>Freeing the block just allocated gives back exactly the state before: bitmap, count and all other memory.\<close>

theorem block_roundtrip:
  assumes "alloc_block s = return p s'" and "blocks_fit s"
  shows "free_block p s' = s"
  by (rule free_alloc_block [OF assms])

lemma block_roundtrip_witness: "free_block 0x1000 ((mmap_set 1 demo_pmem)\<lparr>blocks_used := 2\<rparr>) = demo_pmem"
  by (rule block_roundtrip [OF demo_alloc_block]) (simp add: blocks_fit_def demo_pmem_facts)

text \<open>C26. The number of used blocks is exact under every operation that keeps to its contract: allocating, freeing a
  block in use, and reserving a region of the memory.\<close>

theorem block_count_invariant:
  assumes "counted s"
  shows "(alloc_block s = return p s' \<longrightarrow> counted s') \<and>
    (q div 4096 \<in> used s \<longrightarrow> q div 4096 < blocks_max s \<longrightarrow> counted (free_block q s)) \<and>
    (region_blocks (base div 4096) (unat (size' div 4096)) \<subseteq> {..<blocks_max s} \<longrightarrow> counted (mem_deinit_region base size' s))"
  using counted_alloc [OF assms] counted_free [OF assms] counted_deinit [OF assms] by blast

lemma demo_counted: "counted demo_pmem"
proof -
  have "{0} \<inter> {..<64 :: u32} = {0}" by auto
  then show ?thesis by (simp add: counted_def demo_pmem_facts)
qed

lemma block_count_invariant_witness:
  "counted ((mmap_set 1 demo_pmem)\<lparr>blocks_used := 2\<rparr>) \<and> counted (free_block 0 demo_pmem)"
  using block_count_invariant [OF demo_counted, of "0x1000" _ 0] demo_alloc_block
  by (simp add: demo_pmem_facts)

text \<open>\<open>mem_init_region\<close> frees the blocks of its region and then marks block 0 as used without counting it: a count that
  was exact is one too low afterwards, when block 0 was free.\<close>

theorem init_region_miscounts:
  assumes "counted s" and "0 \<notin> used s" and "0 < blocks_max s"
    and "region_blocks (base div 4096) (unat (size' div 4096)) \<subseteq> {0<..<blocks_max s}"
  shows "blocks_used (mem_init_region base size' s) + 1 =
      of_nat (card (used (mem_init_region base size' s) \<inter> {..<blocks_max s}))"
proof -
  let ?R = "region_blocks (base div 4096) (unat (size' div 4096))" and ?M = "{..<blocks_max s}"
  have R: "0 \<notin> ?R" "?R \<subseteq> ?M" using assms(4) by auto
  have e: "insert 0 (used s - ?R) \<inter> ?M = insert 0 ((used s \<inter> ?M) - (?R \<inter> used s))" using assms(2,3) R by auto
  have c: "card ((used s \<inter> ?M) - (?R \<inter> used s)) = card (used s \<inter> ?M) - card (?R \<inter> used s)"
    using R(2) by (intro card_Diff_subset) auto
  have le: "card (?R \<inter> used s) \<le> card (used s \<inter> ?M)" using R(2) by (intro card_mono) auto
  have "card (insert 0 (used s - ?R) \<inter> ?M) = Suc (card (used s \<inter> ?M) - card (?R \<inter> used s))"
    unfolding e using assms(2) c by (simp add: card_insert_if)
  then show ?thesis using assms(1) le by (simp add: init_region_effect counted_def of_nat_diff)
qed

lemma init_region_miscounts_witness:
  "blocks_used (mem_init_region 0x1000 0x1000 (demo_empty\<lparr>blocks_used := 0\<rparr>)) + 1 =
      of_nat (card (used (mem_init_region 0x1000 0x1000 (demo_empty\<lparr>blocks_used := 0\<rparr>)) \<inter> {..<64}))"
proof -
  note u = demo_empty_facts(1) and m = demo_empty_facts(2)
  have "region_blocks 1 (Suc 0) \<subseteq> {0<..<64}" by (auto simp: region_blocks_def)
  then show ?thesis
    using init_region_miscounts [of "demo_empty\<lparr>blocks_used := 0\<rparr>" "0x1000" "0x1000"]
    by (simp add: counted_def u m init_region_effect)
qed

lemma memset_byte: "n < unat k \<Longrightarrow> memset p v k m (p + of_nat n) = v"
  using in_range_offset [of n "unat k" p] unat32_lt [of k] by (simp add: memset_at less_imp_le)

lemma bits_0f: "j < 32 \<Longrightarrow> bit (0x0f0f0f0f :: u32) j \<longleftrightarrow> j mod 8 < 4"
proof -
  have "\<forall>j \<in> set [0..<32]. bit (0x0f0f0f0f :: u32) j \<longleftrightarrow> j mod 8 < 4"
    by (simp add: upt_rec [of _ 32])
  then show "j < 32 \<Longrightarrow> ?thesis" by simp
qed

text \<open>\<open>pmem_init\<close> fills the bitmap with bytes \<open>0x0F\<close> and counts every block as used: in fact only the lower four
  blocks of every eight are marked, the others are free for \<open>alloc_block\<close> to hand out.\<close>

theorem bitmap_init_marks_half:
  assumes "unat b < 32 * (unat len div 4)" and "memory_map s = p" and "ram s = memset p 0x0f len m"
  shows "b \<in> used s \<longleftrightarrow> unat b mod 8 < 4"
proof -
  define i where "i = unat b div 32"
  have "i < unat len div 4" using assms(1) unfolding i_def by (simp add: less_mult_imp_div_less mult.commute)
  then have l: "4 * i + 4 \<le> unat len" by linarith
  have "ram s (p + of_nat (4 * i + k)) = 0x0f" if "k < 4" for k
    unfolding assms(3) by (rule memset_byte) (use l that in linarith)
  from this [of 0] this [of 1] this [of 2] this [of 3]
  have r: "ram s (p + of_nat (4 * i)) = 0x0f" "ram s (p + of_nat (4 * i) + 1) = 0x0f"
    "ram s (p + of_nat (4 * i) + 2) = 0x0f" "ram s (p + of_nat (4 * i) + 3) = 0x0f"
    by (simp_all add: ac_simps)
  have bi: "b div 32 = of_nat i" by (simp add: i_def flip: unat_div32)
  have w: "load32 (ram s) (p + 4 * (b div 32)) = 0x0f0f0f0f"
    using r unfolding load32_def bi by simp
  have "unat (b mod 32) mod 8 = unat b mod 8" by (simp add: unat_mod32 mod_mod_cancel)
  then show ?thesis
    using bits_0f [OF unat_mod32_lt [of b]] by (simp add: used_def mmap_test_def bit_test_iff assms(2) w)
qed

lemma bitmap_init_marks_half_witness:
  "5 \<notin> used (demo_empty\<lparr>ram := memset 0x300000 0x0f 8 (\<lambda>_. 0)\<rparr>) \<and> 8 \<in> used (demo_empty\<lparr>ram := memset 0x300000 0x0f 8 (\<lambda>_. 0)\<rparr>)"
  using bitmap_init_marks_half [of 5 8 "demo_empty\<lparr>ram := memset 0x300000 0x0f 8 (\<lambda>_. 0)\<rparr>" "0x300000" "\<lambda>_. 0"]
    bitmap_init_marks_half [of 8 8 "demo_empty\<lparr>ram := memset 0x300000 0x0f 8 (\<lambda>_. 0)\<rparr>" "0x300000" "\<lambda>_. 0"]
  by (simp add: demo_empty_facts)

text \<open>The search for two blocks tests the blocks from the mask of the free bit on, not from its number: a free
  block 0 followed by a used block 1 is returned as the start of two free blocks when blocks 2 and 3 are free.\<close>

theorem first_free_s_returns_used:
  assumes "0 \<notin> used s" and "1 \<in> used s" and "2 \<notin> used s" and "3 \<notin> used s" and "0 < blocks_max s"
  shows "mmap_first_free_s 2 s = Some 0"
proof -
  have b0: "\<not> bit (map_word s 0) 0" using map_word_bit [of 0 0 s] assms(1) by simp
  have w: "map_word s 0 \<noteq> 0xffffffff" using b0 full_word [of "map_word s 0"] by auto
  have a: "map_word s 0 AND 1 = 0" using b0 test_bit32 [of "map_word s 0" 0] by simp
  have c: "count_free s 1 2 3 0 0 = Some True"
    using assms(2-4) by (simp add: numeral_3_eq_3 mmap_test_used Let_def)
  have r: "[0..<unat (blocks_max s)] = 0 # [1..<unat (blocks_max s)]" "[0..<32] = 0 # [1..<32]"
    using assms(5) by (simp_all add: upt_conv_Cons word_less_nat_alt)
  have "first_free_in_word s 2 0 [0..<32] = Some (Some 0)"
    unfolding r(2) using a c by (simp add: Let_def)
  then show ?thesis unfolding mmap_first_free_s_def r(1) using w by simp
qed

lemma first_free_s_returns_used_witness: "mmap_first_free_s 2 (mmap_set 1 demo_empty) = Some 0 \<and> 1 \<in> used (mmap_set 1 demo_empty)"
  using first_free_s_returns_used [of "mmap_set 1 demo_empty"] by (simp add: demo_empty_facts)

text \<open>Before the heap exists \<open>malloc\<close> hands out the memory above \<open>mem_unused\<close> in order: the result is the old mark,
  the mark moves up by the size, and memory below and above changes on the screen only.\<close>

theorem offset_malloc:
  assumes "kernel_mem s = 0" and "term_ok s"
  shows "\<exists>s'. malloc sz s = Some (mem_unused s, s') \<and> mem_unused s' = mem_unused s + sz \<and> kernel_mem s' = 0 \<and>
    same_outside 0xB8000 5400 (ram s) (ram s') \<and> term_ok s'"
proof -
  obtain s' where a: "alloc sz False s = Some (mem_unused s, s')" "quiet (s\<lparr>mem_unused := mem_unused s + sz\<rparr>) s'"
    using alloc_plain [of sz False s] by auto
  have "term_ok (s\<lparr>mem_unused := mem_unused s + sz\<rparr>)" using assms(2) by (simp add: term_ok_def)
  then show ?thesis using a quiet_pmem [OF a(2)] assms(1) by (auto simp: malloc_def quiet_def)
qed

lemma offset_malloc_witness: "\<exists>s'. malloc 100 demo_pmem = Some (0x100010, s') \<and> mem_unused s' = 0x100074"
  using offset_malloc [of demo_pmem 100] demo_pmem_facts by auto

text \<open>\<open>amalloc\<close> rounds the pointer it got from the heap down to a page: on a page-aligned heap whose first chunk is
  free and large enough it returns the address of the header of the heap itself.\<close>

theorem amalloc_returns_heap_header:
  assumes "heap_block (ram s) hb ((False, n) # cs)" and "fblock (kernel_heap_state s) = hb" and "has_room hb (sz + 0x1000) (ram s)"
    and "unat (sz + 0x1000) \<le> n" and "kernel_mem s \<noteq> 0" and "hb AND 0xFFF = 0"
  shows "\<exists>s'. amalloc sz s = Some (hb, s')"
proof -
  have "unat (sz + 0x1000) < 4294967296" by simp
  from alloc_first_fit [OF assms(1,2), of "unat (sz + 0x1000)", simplified] assms(3,4)
  obtain h' m' where "k_heapLCABAlloc (sz + 0x1000) (kernel_heap_state s, ram s) = Some (hb + 28, h', m')"
    by (auto simp: ac_simps)
  moreover have "(hb + 28) AND 0xFFFFF000 = hb"
  proof -
    have h: "unat hb mod 4096 = 0" using arg_cong [OF assms(6), of unat] by (simp add: page_offset unat_mod)
    define q where "q = unat hb div 4096"
    have q: "unat hb = 4096 * q" "q < 1048576"
      using h mult_div_mod_eq [of 4096 "unat hb"] unat32_lt [of hb] by (simp_all add: q_def less_mult_imp_div_less)
    have "unat (hb + 28) = 4096 * q + 28" using q unat32_add [of hb 28] by simp
    moreover have "(4096 * q + 28) div 4096 = q" by (simp add: div_add1_eq)
    ultimately have "(hb + 28) div 4096 = hb div 4096"
      unfolding word_unat_eq_iff unat_div using q by simp
    then show ?thesis using assms(6) page_split [of hb] by (simp add: page_floor page_offset)
  qed
  ultimately show ?thesis using assms(5) by (simp add: amalloc_def heap_alloc_def)
qed

lemma amalloc_returns_heap_header_witness:
  "\<exists>h m s'. k_heapLCABAddBlock 0x400000 0x4000 (\<lparr>fblock = 0, bcnt = 0, mem_in_use = 0, heap_size = 0\<rparr>, \<lambda>_. 0) = (h, m) \<and>
     amalloc 16 (demo_empty\<lparr>ram := m, kernel_heap_state := h, kernel_mem := 0x100000\<rparr>) = Some (0x400000, s')"
proof -
  obtain h m where d: "k_heapLCABAddBlock 0x400000 0x4000 (\<lparr>fblock = 0, bcnt = 0, mem_in_use = 0, heap_size = 0\<rparr>, \<lambda>_. 0) = (h, m)"
    by (cases "k_heapLCABAddBlock 0x400000 0x4000 (\<lparr>fblock = 0, bcnt = 0, mem_in_use = 0, heap_size = 0\<rparr>, \<lambda>_. 0)")
  have b: "heap_block m 0x400000 [(False, 16332), (False, 0), (False, 0), (False, 0)]"
    using add_block_zero [OF _ _ _ _ d] by simp
  have f: "fblock h = 0x400000" and r: "has_room 0x400000 (16 + 0x1000) m"
    using add_block_stores [OF refl refl _ _ d] by (simp_all add: has_room_def)
  show ?thesis
    using amalloc_returns_heap_header [of "demo_empty\<lparr>ram := m, kernel_heap_state := h, kernel_mem := 0x100000\<rparr>" "0x400000" 16332 _ 16]
      b f r d by auto
qed

end
