(* ===== verification/Paging.thy ===== *)
theory Paging
  imports MemSpec
begin

text \<open>
  \<open>mem/paging.h\<close>: page directory entries, mapping and unmapping of pages. \<open>paging_init\<close> returns at once, so
  the kernel runs without paging; the operations are modelled on the directory they would work on. The
  specification is the walk the processor makes through directory and tables.
\<close>

subsection \<open>Entries\<close>

definition PAGEDIR_IDX :: "u32 \<Rightarrow> u32" where "PAGEDIR_IDX x = drop_bit 22 x AND 0x3ff"
definition PAGETABLE_IDX :: "u32 \<Rightarrow> u32" where "PAGETABLE_IDX x = drop_bit 12 x AND 0x3ff"

text \<open>The inline functions on an entry, as functions of its value; the tests read it.\<close>

definition page_set_property :: "u32 \<Rightarrow> u32 \<Rightarrow> u32" where "page_set_property property e = e OR property"
definition page_del_property :: "u32 \<Rightarrow> u32 \<Rightarrow> u32" where "page_del_property property e = e AND NOT property"
definition page_set_frame :: "u32 \<Rightarrow> u32 \<Rightarrow> u32" where "page_set_frame addr e = (e AND NOT 0x7FFFF000) OR addr"
definition page_is_present :: "u32 \<Rightarrow> bool" where "page_is_present e \<longleftrightarrow> e AND 1 \<noteq> 0"
definition page_is_writable :: "u32 \<Rightarrow> bool" where "page_is_writable e \<longleftrightarrow> e AND 2 \<noteq> 0"
definition page_pfn :: "u32 \<Rightarrow> u32" where "page_pfn e = e AND 0x7FFFF000"
definition table_add_property :: "u32 \<Rightarrow> u32 \<Rightarrow> u32" where "table_add_property property e = e OR property"
definition table_del_property :: "u32 \<Rightarrow> u32 \<Rightarrow> u32" where "table_del_property property e = e AND NOT property"
definition table_set_frame :: "u32 \<Rightarrow> u32 \<Rightarrow> u32" where "table_set_frame addr e = (e AND NOT 0x7FFFF000) OR addr"
definition table_is_present :: "u32 \<Rightarrow> bool" where "table_is_present e \<longleftrightarrow> e AND 1 \<noteq> 0"
definition table_is_writable :: "u32 \<Rightarrow> bool" where "table_is_writable e \<longleftrightarrow> e AND 2 \<noteq> 0"
definition table_pfn :: "u32 \<Rightarrow> u32" where "table_pfn e = e AND 0x7FFFF000"
definition table_is_user :: "u32 \<Rightarrow> bool" where "table_is_user e \<longleftrightarrow> e AND 4 \<noteq> 0"
definition table_is_4mb :: "u32 \<Rightarrow> bool" where "table_is_4mb e \<longleftrightarrow> e AND 0x80 \<noteq> 0"

text \<open>\<open>*e = f(*e)\<close>.\<close>

definition at_entry :: "u32 \<Rightarrow> (u32 \<Rightarrow> u32) \<Rightarrow> 'a machine_scheme \<Rightarrow> 'a machine_scheme" where
  "at_entry e f s = s\<lparr>ram := store32 e (f (load32 (ram s) e)) (ram s)\<rparr>"

subsection \<open>Directories\<close>

record paging = pmem +
  dir_current :: u32

definition pagedir_load :: "u32 \<Rightarrow> 'a pmem_scheme \<Rightarrow> 'a pmem_scheme" where
  "pagedir_load ptr s = s\<lparr>cr3 := ptr\<rparr>"

definition get_page :: "u32 \<Rightarrow> u32 \<Rightarrow> u32" where
  "get_page p addr = (if p \<noteq> 0 then p + 4 * PAGETABLE_IDX addr else 0)"

definition get_pagetable :: "u32 \<Rightarrow> u32 \<Rightarrow> memory \<Rightarrow> u32" where
  "get_pagetable p addr m = (if p \<noteq> 0 then load32 m (p + 4 * PAGEDIR_IDX addr) AND NOT 0xfff else 0)"

definition current_page :: "u32 \<Rightarrow> 'a paging_scheme \<Rightarrow> u32" where
  "current_page addr s = get_page (get_pagetable (dir_current s) addr (ram s)) addr"

definition switch_directory :: "u32 \<Rightarrow> 'a paging_scheme \<Rightarrow> bool \<times> 'a paging_scheme" where
  "switch_directory dir s =
     (if dir = 0 then (False, s) else (True, pagedir_load dir (s\<lparr>dir_current := dir\<rparr>)))"

definition get_directory :: "'a paging_scheme \<Rightarrow> u32" where
  "get_directory s = dir_current s"

text \<open>The faulting address, from \<open>cr2\<close>, is an argument.\<close>

definition pagefault :: "u32 \<Rightarrow> registers \<Rightarrow> 'a paging_scheme \<Rightarrow> ('a paging_scheme, unit) kernel_result" where
  "pagefault addr regs s =
     kbind (lift (do {
       let s = setcolor 11 s;
       s \<leftarrow> kprintf (10 # text_line ''Pagefault at 0x%X'') [VaWord addr] s;
       s \<leftarrow> (if err_code regs AND 0x1 = 0 then kprintf (text_line ''Not present'') [] s else Some s);
       s \<leftarrow> (if err_code regs AND 0x2 \<noteq> 0 then kprintf (text_line ''RO'') [] s else Some s);
       s \<leftarrow> (if err_code regs AND 0x4 \<noteq> 0 then kprintf (text_line ''Usermode'') [] s else Some s);
       s \<leftarrow> (if err_code regs AND 0x8 \<noteq> 0 then kprintf (text_line ''Reserved'') [] s else Some s);
       (if err_code regs AND 0x10 \<noteq> 0 then kprintf (text_line ''Instruction fetch'') [] s else Some s) }))
     (\<lambda>_ s. halt STATUS_PAGEFAULT s)"

subsection \<open>Mapping\<close>

text \<open>A new table for a directory entry, with the contents \<open>fill\<close> writes after it is cleared.\<close>

definition new_table :: "u32 \<Rightarrow> (u32 \<Rightarrow> memory \<Rightarrow> memory) \<Rightarrow> 'a paging_scheme \<Rightarrow> ('a paging_scheme, unit) kernel_result" where
  "new_table virt fill s =
     kbind (alloc_block s) (\<lambda>table s.
       if table = 0 then halt STATUS_NOMEM s
       else
         let s = s\<lparr>ram := fill table (memset table 0 4096 (ram s))\<rparr>;
             entry = get_directory s + 4 * PAGEDIR_IDX virt;
             s = at_entry entry (table_add_property 1) s;
             s = at_entry entry (table_add_property 2) s
         in return () (at_entry entry (table_set_frame table) s))"

definition map_page :: "u32 \<Rightarrow> u32 \<Rightarrow> 'a paging_scheme \<Rightarrow> ('a paging_scheme, unit) kernel_result" where
  "map_page phys virt s =
     (let e = get_directory s + 4 * PAGEDIR_IDX virt
      in kbind (if load32 (ram s) e AND 1 \<noteq> 1 then new_table virt (\<lambda>_ m. m) s else return () s) (\<lambda>_ s.
           let table = load32 (ram s) e AND NOT 0xfff;
               page = table + 4 * PAGETABLE_IDX virt;
               s = at_entry page (page_set_frame phys) s;
               s = at_entry page (page_set_property 1) s
           in return () (at_entry page (page_set_property 2) s)))"

fun map_pages_loop :: "nat \<Rightarrow> u32 \<Rightarrow> u32 \<Rightarrow> 'a paging_scheme \<Rightarrow> ('a paging_scheme, u32 \<times> u32) kernel_result" where
  "map_pages_loop 0 phys virt s = return (phys, virt) s"
| "map_pages_loop (Suc amt) phys virt s =
     kbind (map_page phys virt s) (\<lambda>_ s. map_pages_loop amt (phys + 4096) (virt + 4096) s)"

definition map_pages :: "u32 \<Rightarrow> u32 \<Rightarrow> u32 \<Rightarrow> 'a paging_scheme \<Rightarrow> ('a paging_scheme, unit) kernel_result" where
  "map_pages phys virt amt s =
     kbind (map_pages_loop (unat amt) phys virt s) (\<lambda>(phys, virt) s.
       lift (kprintf (text_line ''Last mapped page: 0x%X -> 0x%X'') [VaWord (phys - 4096), VaWord (virt - 4096)] s))"

definition size_to_pages :: "u32 \<Rightarrow> u32" where
  "size_to_pages sz = (let res = (sz AND 0xFFFFF000) + 0x1000; res = res div 4096 in if res = 0 then 1 else res)"

definition table_page :: "u32 \<Rightarrow> u32" where
  "table_page frame = page_set_frame frame (page_set_property 2 (page_set_property 1 0))"

definition fill_table :: "u32 \<Rightarrow> u32 \<Rightarrow> u32 \<Rightarrow> memory \<Rightarrow> memory" where
  "fill_table phys virt table m =
     fold (\<lambda>i m. store32 (table + 4 * PAGETABLE_IDX (virt + 4096 * of_nat i)) (table_page (phys + 4096 * of_nat i)) m)
       [0..<1024] m"

definition map_table :: "u32 \<Rightarrow> u32 \<Rightarrow> 'a paging_scheme \<Rightarrow> ('a paging_scheme, unit) kernel_result" where
  "map_table phys virt s =
     (let e = get_directory s + 4 * PAGEDIR_IDX virt
      in if load32 (ram s) e AND 1 \<noteq> 1 then new_table virt (fill_table phys virt) s else return () s)"

fun map_tables_loop :: "nat \<Rightarrow> u32 \<Rightarrow> u32 \<Rightarrow> 'a paging_scheme \<Rightarrow> ('a paging_scheme, u32 \<times> u32) kernel_result" where
  "map_tables_loop 0 phys virt s = return (phys, virt) s"
| "map_tables_loop (Suc amt) phys virt s =
     kbind (map_table phys virt s) (\<lambda>_ s. map_tables_loop amt (phys + 0x400000) (virt + 0x400000) s)"

definition map_tables :: "u32 \<Rightarrow> u32 \<Rightarrow> u32 \<Rightarrow> 'a paging_scheme \<Rightarrow> ('a paging_scheme, unit) kernel_result" where
  "map_tables phys virt amt s =
     kbind (map_tables_loop (unat amt) phys virt s) (\<lambda>(phys, virt) s.
       lift (kprintf (text_line ''Last mapped table: 0x%X -> 0x%X'') [VaWord (phys - 0x400000), VaWord (virt - 0x400000)] s))"

definition size_to_tables :: "u32 \<Rightarrow> 'a pmem_scheme \<Rightarrow> (u32 \<times> 'a pmem_scheme) option" where
  "size_to_tables sz s = do {
     let res = 0x1000 + (sz AND 0xFFFFF000);
     s \<leftarrow> kprintf (text_line ''s2t: %u %u'') [VaWord (1024 * 4096), VaWord sz] s;
     let res = res div (1024 * 4096);
     Some (if res = 0 then 1 else res, s) }"

definition alloc_page :: "u32 \<Rightarrow> 'a paging_scheme \<Rightarrow> ('a paging_scheme, bool) kernel_result" where
  "alloc_page e s =
     kbind (alloc_block s) (\<lambda>p s.
       if p = 0 then return False s
       else
         let s = at_entry e (page_set_frame p) s;
             s = at_entry e (page_set_property 1) s
         in return True (at_entry e (page_set_property 2) s))"

definition free_page :: "u32 \<Rightarrow> 'a paging_scheme \<Rightarrow> 'a paging_scheme" where
  "free_page virt s =
     (let e = get_directory s + 4 * PAGEDIR_IDX virt;
          table = load32 (ram s) e AND NOT 0xfff;
          page = table + 4 * PAGETABLE_IDX virt
      in at_entry page (page_del_property 1) s)"

text \<open>The first statement of \<open>paging_init\<close> is \<open>return\<close>.\<close>

definition paging_init :: "'a paging_scheme \<Rightarrow> 'a paging_scheme" where
  "paging_init s = s"

end
