(* ===== verification/PageWalk.thy ===== *)
theory PageWalk
  imports Paging
begin

text \<open>
  The page walk of the processor and what mapping and unmapping a page do to it, on a well-formed directory:
  directory, tables and block bitmap on pages of their own, all of them blocks in use.
\<close>

subsection \<open>The walk\<close>

definition pde :: "memory \<Rightarrow> u32 \<Rightarrow> u32 \<Rightarrow> u32" where
  "pde m D i = load32 m (D + 4 * i)"

definition walk :: "memory \<Rightarrow> u32 \<Rightarrow> u32 \<Rightarrow> u32 option" where
  "walk m D v =
     (let e = pde m D (PAGEDIR_IDX v)
      in if e AND 1 = 0 then None
         else let p = load32 m ((e AND 0xFFFFF000) + 4 * PAGETABLE_IDX v)
              in if p AND 1 = 0 then None else Some (p AND 0xFFFFF000))"

text \<open>The blocks of the bitmap that are in use: the bits beyond its words are other memory.\<close>

definition map_bits :: "'a pmem_scheme \<Rightarrow> nat" where
  "map_bits s = 32 * (unat (blocks_max s) div 32)"

definition taken_blocks :: "'a pmem_scheme \<Rightarrow> u32 set" where
  "taken_blocks s = used s \<inter> {b. unat b < map_bits s}"

definition in_bitmap :: "'a pmem_scheme \<Rightarrow> u32 \<Rightarrow> bool" where
  "in_bitmap s x \<longleftrightarrow> in_range (memory_map s) (map_bits s div 8) x"

definition paging_ok :: "'a paging_scheme \<Rightarrow> bool" where
  "paging_ok s \<longleftrightarrow>
     (let D = dir_current s; e = pde (ram s) D
      in D mod 4096 = 0 \<and> D div 4096 \<in> taken_blocks s \<and> blocks_fit s \<and>
         (\<forall>i < 1024. e i AND 1 = 0 \<longrightarrow> e i = 0) \<and>
         (\<forall>i < 1024. e i AND 1 \<noteq> 0 \<longrightarrow> e i div 4096 \<in> taken_blocks s \<and> e i div 4096 \<noteq> D div 4096) \<and>
         (\<forall>i < 1024. \<forall>j < 1024. i \<noteq> j \<longrightarrow> e i AND 1 \<noteq> 0 \<longrightarrow> e j AND 1 \<noteq> 0 \<longrightarrow> e i div 4096 \<noteq> e j div 4096) \<and>
         (\<forall>x. in_bitmap s x \<longrightarrow> x div 4096 \<in> taken_blocks s \<and> x div 4096 \<noteq> D div 4096 \<and>
            (\<forall>i < 1024. e i AND 1 \<noteq> 0 \<longrightarrow> x div 4096 \<noteq> e i div 4096)))"

subsection \<open>Words of pages\<close>

lemma unat_dir_idx: "unat (PAGEDIR_IDX v) = unat v div 4194304"
proof -
  have "PAGEDIR_IDX v = take_bit 10 (drop_bit 22 v)"
    using take_bit_eq_mask [of 10 "drop_bit 22 v"] by (simp add: PAGEDIR_IDX_def mask_eq_exp_minus_1)
  moreover have "unat v div 4194304 < 1024" using unat32_lt [of v] by (simp add: less_mult_imp_div_less)
  ultimately show ?thesis by (simp add: take_bit_eq_mod drop_bit_eq_div unat_mod unat_div)
qed

lemma unat_table_idx: "unat (PAGETABLE_IDX v) = unat v div 4096 mod 1024"
proof -
  have "PAGETABLE_IDX v = take_bit 10 (drop_bit 12 v)"
    using take_bit_eq_mask [of 10 "drop_bit 12 v"] by (simp add: PAGETABLE_IDX_def mask_eq_exp_minus_1)
  then show ?thesis by (simp add: take_bit_eq_mod drop_bit_eq_div unat_mod unat_div)
qed

lemma idx_lt [simp]: "PAGEDIR_IDX v < 1024" "PAGETABLE_IDX v < 1024"
  using unat32_lt [of v] by (simp_all add: word_less_nat_alt unat_dir_idx unat_table_idx less_mult_imp_div_less)

lemma div_mod_1024: "(a :: nat) = b \<longleftrightarrow> a div 1024 = b div 1024 \<and> a mod 1024 = b mod 1024"
  by (metis div_mult_mod_eq)

lemma same_page_iff: "v div 4096 = w div 4096 \<longleftrightarrow> PAGEDIR_IDX v = PAGEDIR_IDX w \<and> PAGETABLE_IDX v = PAGETABLE_IDX w"
proof -
  have "unat v div 4194304 = unat v div 4096 div 1024" "unat w div 4194304 = unat w div 4096 div 1024"
    by (simp_all flip: div_mult2_eq)
  then show ?thesis
    unfolding word_unat_eq_iff [of "v div 4096"] word_unat_eq_iff [of "PAGEDIR_IDX v"] word_unat_eq_iff [of "PAGETABLE_IDX v"]
      unat_dir_idx unat_table_idx unat_div
    using div_mod_1024 [of "unat v div 4096" "unat w div 4096"] by simp
qed

lemma entry_nat:
  assumes "D mod 4096 = 0" and "i < (1024 :: u32)"
  obtains a where "D + 4 * i = of_nat a" "a + 4 \<le> 4294967296" "a = 4096 * unat (D div 4096) + 4 * unat i"
    "4 * unat i + 4 \<le> 4096"
proof
  have D: "D = of_nat (4096 * unat (D div 4096))"
    using page_split [of D] assms(1) by simp
  have f: "unat (D div 4096) < 1048576" using unat32_lt [of D] by (simp add: unat_div less_mult_imp_div_less)
  have i: "unat i < 1024" using assms(2) by (simp add: word_less_nat_alt)
  show "D + 4 * i = of_nat (4096 * unat (D div 4096) + 4 * unat i)" using D by simp
  show "4096 * unat (D div 4096) + 4 * unat i + 4 \<le> 4294967296" "4 * unat i + 4 \<le> 4096" using f i by linarith+
qed simp

lemma entry_page:
  assumes "D mod 4096 = 0" and "i < (1024 :: u32)" and "in_range (D + 4 * i) 4 x"
  shows "x div 4096 = D div 4096"
proof -
  obtain a where a: "D + 4 * i = of_nat a" "a + 4 \<le> 4294967296" "a = 4096 * unat (D div 4096) + 4 * unat i" "4 * unat i + 4 \<le> 4096"
    by (rule entry_nat [OF assms(1,2)])
  from assms(3) obtain j where j: "j < 4" "x = of_nat (a + j)" unfolding a(1) in_range_ex by auto
  then have "unat x = 4096 * unat (D div 4096) + (4 * unat i + j)" using a by (simp del: of_nat_add)
  moreover have "4 * unat i + j < 4096" using a(4) j(1) by linarith
  ultimately show ?thesis by (intro word_unat_eq_iff [THEN iffD2]) (simp add: unat_div)
qed

lemma separate_words:
  assumes "a + 4 \<le> 4294967296" and "b + 4 \<le> 4294967296" and "a mod 4 = b mod 4" and "a \<noteq> b"
  shows "separate (of_nat a) 4 (of_nat b :: u32) 4"
proof -
  have "a = 4 * (a div 4) + a mod 4" "b = 4 * (b div 4) + b mod 4" by simp_all
  moreover from this have "a div 4 \<noteq> b div 4" using assms(3,4) by auto
  then have "a div 4 + 1 \<le> b div 4 \<or> b div 4 + 1 \<le> a div 4" by linarith
  ultimately have le: "a + 4 \<le> b \<or> b + 4 \<le> a" using assms(3) by linarith
  have u: "unat (of_nat a :: u32) = a" "unat (of_nat b :: u32) = b" using assms(1,2) by simp_all
  show ?thesis unfolding separate_def unat32_sub u using le assms(1,2) by auto
qed

lemma entries_apart:
  assumes "D mod 4096 = 0" and "E mod 4096 = 0" and "i < (1024 :: u32)" and "j < 1024" and "D \<noteq> E \<or> i \<noteq> j"
  shows "separate (D + 4 * i) 4 (E + 4 * j) 4"
proof -
  obtain a where a: "D + 4 * i = of_nat a" "a + 4 \<le> 4294967296" "a = 4096 * unat (D div 4096) + 4 * unat i" "4 * unat i + 4 \<le> 4096"
    by (rule entry_nat [OF assms(1,3)])
  obtain b where b: "E + 4 * j = of_nat b" "b + 4 \<le> 4294967296" "b = 4096 * unat (E div 4096) + 4 * unat j" "4 * unat j + 4 \<le> 4096"
    by (rule entry_nat [OF assms(2,4)])
  have "a \<noteq> b"
  proof
    assume e: "a = b"
    have "a div 4096 = unat (D div 4096)" "b div 4096 = unat (E div 4096)" using a(3,4) b(3,4) by simp_all
    then have "D div 4096 = E div 4096" using e by (simp add: word_unat_eq_iff)
    moreover from this have "i = j" using e a(3) b(3) by (simp add: word_unat_eq_iff)
    ultimately have "D = E" using page_split [of D] page_split [of E] assms(1,2) by simp
    then show False using \<open>i = j\<close> assms(5) by simp
  qed
  then show ?thesis unfolding a(1) b(1) using a(2,3) b(2,3) by (intro separate_words) (simp_all add: mod_add_eq [symmetric])
qed

lemma load_entry:
  assumes "D mod 4096 = 0" and "E mod 4096 = 0" and "i < (1024 :: u32)" and "j < 1024"
  shows "load32 (store32 (D + 4 * i) v m) (E + 4 * j) = (if D = E \<and> i = j then v else load32 m (E + 4 * j))"
  using entries_apart [OF assms] by (auto simp: mem_simps)

text \<open>Entries of a page depend on the bytes of that page only.\<close>

definition page_agrees :: "memory \<Rightarrow> memory \<Rightarrow> u32 \<Rightarrow> bool" where
  "page_agrees m m' f \<longleftrightarrow> (\<forall>x. x div 4096 = f \<longrightarrow> m' x = m x)"

lemma load_page_agrees:
  "D mod 4096 = 0 \<Longrightarrow> i < (1024 :: u32) \<Longrightarrow> page_agrees m m' (D div 4096) \<Longrightarrow> load32 m' (D + 4 * i) = load32 m (D + 4 * i)"
  by (rule load32_cong) (auto simp: page_agrees_def entry_page)

lemma page_agrees_refl [simp]: "page_agrees m m f"
  by (simp add: page_agrees_def)

lemma page_agrees_trans: "page_agrees m m' f \<Longrightarrow> page_agrees m' m'' f \<Longrightarrow> page_agrees m m'' f"
  by (simp add: page_agrees_def)

lemma page_agrees_entry:
  "D mod 4096 = 0 \<Longrightarrow> i < (1024 :: u32) \<Longrightarrow> f \<noteq> D div 4096 \<Longrightarrow> page_agrees m (store32 (D + 4 * i) v m) f"
  unfolding page_agrees_def by (metis entry_page store32_outside)

lemma page_agrees_memset:
  assumes "p mod 4096 = 0" and "f \<noteq> p div 4096"
  shows "page_agrees m (memset p v 4096 m) f"
  unfolding page_agrees_def
proof (intro allI impI)
  fix x assume x: "x div 4096 = f"
  have "\<not> in_range p 4096 x"
  proof
    assume "in_range p 4096 x"
    then obtain j where j: "j < 4096" "x = p + of_nat j" unfolding in_range_ex by auto
    have p: "p = of_nat (4096 * unat (p div 4096))" using page_split [of p] assms(1) by simp
    have l: "unat (p div 4096) < 1048576" using unat32_lt [of p] by (simp add: unat_div less_mult_imp_div_less)
    have "x = of_nat (4096 * unat (p div 4096) + j)" using p j(2) by simp
    moreover have "4096 * unat (p div 4096) + j < 4294967296" using l j(1) by simp
    ultimately have "unat x = 4096 * unat (p div 4096) + j" by (simp only: unat_of_nat32)
    then have "x div 4096 = p div 4096" using j(1) by (intro word_unat_eq_iff [THEN iffD2]) (simp add: unat_div)
    then show False using x assms(2) by simp
  qed
  then show "memset p v 4096 m x = m x" by (simp add: memset_at)
qed

lemma load_memset_page:
  assumes "p mod 4096 = 0" and "i < (1024 :: u32)"
  shows "load32 (memset p 0 4096 m) (p + 4 * i) = 0"
proof -
  obtain a where a: "p + 4 * i = of_nat a" "a + 4 \<le> 4294967296" "a = 4096 * unat (p div 4096) + 4 * unat i" "4 * unat i + 4 \<le> 4096"
    by (rule entry_nat [OF assms])
  have "in_range p 4096 (p + 4 * i + of_nat j)" if "j < 4" for j
  proof -
    have "p + 4 * i + of_nat j = p + of_nat (4 * unat i + j)" by simp
    then show ?thesis using a(4) that by (simp only:) (intro in_range_offset; linarith)
  qed
  from this [of 0] this [of 1] this [of 2] this [of 3] show ?thesis
    by (simp add: load32_def memset_at)
qed

subsection \<open>Values of entries\<close>

lemma page_mask [simp]: "NOT 0xfff = (0xFFFFF000 :: u32)" "NOT 0x7FFFF000 = (0x80000FFF :: u32)"
  by simp_all

lemma page_base_split: "(w :: u32) AND 0xFFFFF000 = 4096 * (w div 4096)" "(w AND 0xFFFFF000) mod 4096 = 0"
  "(w AND 0xFFFFF000) div 4096 = w div 4096"
proof -
  show f: "w AND 0xFFFFF000 = 4096 * (w div 4096)" by (rule page_floor)
  have "(w AND 0xFFFFF000) AND 0xFFF = 0" by (simp add: and.assoc)
  then show z: "(w AND 0xFFFFF000) mod 4096 = 0" by (simp only: page_offset)
  have l: "unat (w div 4096) < 1048576" using unat32_lt [of w] by (simp add: unat_div less_mult_imp_div_less)
  have "4096 * (w div 4096) = of_nat (unat (w div 4096)) * 4096" by (simp add: mult.commute)
  then show "(w AND 0xFFFFF000) div 4096 = w div 4096" unfolding f using frame_of_addr [OF l] by (simp add: mult.commute [of 4096])
qed

lemma aligned_base: "(p :: u32) mod 4096 = 0 \<Longrightarrow> p AND 0xFFFFF000 = p"
  using page_split [of p] by (simp add: page_base_split)

text \<open>What the frame setters leave of an old entry: its low bits and bit 31, which \<open>PAGE_FRAME\<close> omits.\<close>

lemma frame_entry:
  fixes v p :: u32
  assumes "p mod 4096 = 0"
  shows "(page_set_frame p v AND 0xFFFFF000) = (p OR v AND 0x80000000)"
    and "page_set_frame p v AND 1 = v AND 1"
proof -
  have p: "p AND 0xFFF = 0" using assms by (simp only: page_offset)
  have p1: "p AND 1 = 0"
  proof -
    have "p AND 1 = (p AND 0xFFF) AND 1" by (simp add: and.assoc)
    then show ?thesis using p by simp
  qed
  have "(v AND 0x80000FFF) AND 0xFFFFF000 = v AND 0x80000000" "(v AND 0x80000FFF) AND 1 = v AND 1"
    by (simp_all add: and.assoc)
  then show "(page_set_frame p v AND 0xFFFFF000) = (p OR v AND 0x80000000)" "page_set_frame p v AND 1 = v AND 1"
    unfolding page_set_frame_def page_mask bit.conj_disj_distrib2 by (simp_all only: p1 aligned_base [OF assms] or.commute or.left_neutral)
qed

lemma or_flags: "(w OR 1 OR 2) AND 0xFFFFF000 = w AND (0xFFFFF000 :: u32)" "(w OR 1 OR 2) AND 1 = (1 :: u32)"
  by (simp_all add: bit.conj_disj_distrib2)

lemma clear_flag: "(w AND NOT 1) AND (1 :: u32) = 0"
  by (simp add: and.assoc)

subsection \<open>Writes that keep the bitmap\<close>

lemma map_word_range:
  assumes "unat b < map_bits s" and "in_range (memory_map s + 4 * (b div 32)) 4 x"
  shows "in_bitmap s x"
proof -
  define n where "n = unat (blocks_max s) div 32"
  obtain j where j: "j < 4" "x = memory_map s + 4 * (b div 32) + of_nat j" using assms(2) unfolding in_range_ex by auto
  have u: "unat (b div 32) < n" using assms(1) by (simp add: map_bits_def n_def unat_div32 less_mult_imp_div_less mult.commute)
  have "x = memory_map s + of_nat (4 * unat (b div 32) + j)" using j(2) by simp
  moreover have "4 * unat (b div 32) + j < 4 * n" using u j(1) by linarith
  moreover have "4 * n \<le> 4294967296" using words_bound [of "blocks_max s"] by (simp add: n_def)
  moreover have "map_bits s div 8 = 4 * n" by (simp add: map_bits_def n_def)
  ultimately show ?thesis unfolding in_bitmap_def by (simp only: in_range_offset)
qed

lemma taken_cong:
  assumes "memory_map s' = memory_map s" and "blocks_max s' = blocks_max s"
    and "\<And>x. in_bitmap s x \<Longrightarrow> ram s' x = ram s x"
  shows "taken_blocks s' = taken_blocks s"
proof -
  have "mmap_test b s' = mmap_test b s" if "unat b < map_bits s" for b
  proof -
    have "load32 (ram s') (memory_map s + 4 * (b div 32)) = load32 (ram s) (memory_map s + 4 * (b div 32))"
      by (rule load32_cong) (rule assms(3), rule map_word_range [OF that])
    then show ?thesis by (simp add: mmap_test_def bit_test_iff assms(1))
  qed
  moreover have "map_bits s' = map_bits s" by (simp add: map_bits_def assms(2))
  ultimately show ?thesis by (auto simp: taken_blocks_def used_def)
qed

lemma paging_cong:
  assumes "paging_ok s" and "dir_current s' = dir_current s" and "memory_map s' = memory_map s" and "blocks_max s' = blocks_max s"
    and "\<And>i. i < 1024 \<Longrightarrow> pde (ram s') (dir_current s) i = pde (ram s) (dir_current s) i"
    and "taken_blocks s \<subseteq> taken_blocks s'"
  shows "paging_ok s'"
proof -
  have "in_bitmap s' x = in_bitmap s x" for x by (simp add: in_bitmap_def map_bits_def assms(3,4))
  then show ?thesis using assms(1,6) unfolding paging_ok_def Let_def blocks_fit_def assms(2,4)
    by (simp add: assms(5) subset_iff)
qed

lemma taken_blocks_fields: "taken_blocks (s\<lparr>blocks_used := n\<rparr>) = taken_blocks s"
  by (simp add: taken_blocks_def map_bits_def)

lemma alloc_block_paging:
  fixes s :: "'a paging_scheme"
  assumes "paging_ok s" and "alloc_block s = return p s'"
  shows "p mod 4096 = 0" and "p div 4096 \<notin> taken_blocks s" and "taken_blocks s' = insert (p div 4096) (taken_blocks s)"
    and "dir_current s' = dir_current s" and "memory_map s' = memory_map s" and "blocks_max s' = blocks_max s"
    and "\<And>x. \<not> in_bitmap s x \<Longrightarrow> ram s' x = ram s x"
proof -
  have fit: "blocks_fit s" using assms(1) by (simp add: paging_ok_def Let_def)
  from alloc_block_cases [OF assms(2)] obtain b where
    b: "first_free (32 * (unat (blocks_max s) div 32)) (used s) = Some b" "p = of_nat b * 4096"
      "s' = (mmap_set (of_nat b) s)\<lparr>blocks_used := blocks_used s + 1\<rparr>" by blast
  have l: "b < 1048576" "b < map_bits s" using first_free_Some [OF b(1)] fit unfolding blocks_fit_def map_bits_def by linarith+
  have d: "p div 4096 = of_nat b" unfolding b(2) by (rule frame_of_addr [OF l(1)])
  have "4096 * (p div 4096) = p" unfolding d by (simp add: b(2) mult.commute)
  then show "p mod 4096 = 0" using page_split [of p] by simp
  have u: "unat (of_nat b :: u32) = b" using l(1) by simp
  show "p div 4096 \<notin> taken_blocks s" unfolding d using first_free_Some [OF b(1)] by (simp add: taken_blocks_def)
  show "taken_blocks s' = insert (p div 4096) (taken_blocks s)" unfolding d b(3) taken_blocks_fields
    using l u by (auto simp: taken_blocks_def map_bits_def mmap_set_def used_mmap_set [unfolded mmap_set_def])
  show "dir_current s' = dir_current s" "memory_map s' = memory_map s" "blocks_max s' = blocks_max s"
    by (simp_all add: b(3) mmap_set_def)
  show "ram s' x = ram s x" if "\<not> in_bitmap s x" for x
  proof -
    have "\<not> in_range (memory_map s + 4 * (of_nat b div 32)) 4 x" using map_word_range [of "of_nat b" s x] u l(2) that by auto
    then show ?thesis by (simp add: b(3) mmap_set_def bit_set_def store32_outside)
  qed
qed

subsection \<open>Writing an entry of a table\<close>

text \<open>The table of a directory entry, and the entry of a page in it.\<close>

definition table_of :: "'a paging_scheme \<Rightarrow> u32 \<Rightarrow> u32" where
  "table_of s i = pde (ram s) (dir_current s) i AND 0xFFFFF000"

definition pte_addr :: "'a paging_scheme \<Rightarrow> u32 \<Rightarrow> u32" where
  "pte_addr s v = table_of s (PAGEDIR_IDX v) + 4 * PAGETABLE_IDX v"

definition table_present :: "'a paging_scheme \<Rightarrow> u32 \<Rightarrow> bool" where
  "table_present s v \<longleftrightarrow> pde (ram s) (dir_current s) (PAGEDIR_IDX v) AND 1 \<noteq> 0"

lemma table_of_split [simp]: "table_of s i mod 4096 = 0" "table_of s i div 4096 = pde (ram s) (dir_current s) i div 4096"
  by (simp_all only: table_of_def page_base_split(2,3))

lemma walk_alt:
  "walk (ram s) (dir_current s) v =
     (if table_present s v then
        let p = load32 (ram s) (pte_addr s v) in if p AND 1 = 0 then None else Some (p AND 0xFFFFF000)
      else None)"
  by (simp add: walk_def table_present_def pte_addr_def table_of_def Let_def)

lemma paging_okD:
  assumes "paging_ok s"
  shows "dir_current s mod 4096 = 0" and "dir_current s div 4096 \<in> taken_blocks s" and "blocks_fit s"
    and "i < 1024 \<Longrightarrow> pde (ram s) (dir_current s) i AND 1 = 0 \<Longrightarrow> pde (ram s) (dir_current s) i = 0"
    and "i < 1024 \<Longrightarrow> pde (ram s) (dir_current s) i AND 1 \<noteq> 0 \<Longrightarrow>
      pde (ram s) (dir_current s) i div 4096 \<in> taken_blocks s \<and> pde (ram s) (dir_current s) i div 4096 \<noteq> dir_current s div 4096"
    and "i < 1024 \<Longrightarrow> j < 1024 \<Longrightarrow> i \<noteq> j \<Longrightarrow> pde (ram s) (dir_current s) i AND 1 \<noteq> 0 \<Longrightarrow> pde (ram s) (dir_current s) j AND 1 \<noteq> 0 \<Longrightarrow>
      pde (ram s) (dir_current s) i div 4096 \<noteq> pde (ram s) (dir_current s) j div 4096"
    and "in_bitmap s x \<Longrightarrow> x div 4096 \<in> taken_blocks s \<and> x div 4096 \<noteq> dir_current s div 4096"
    and "in_bitmap s x \<Longrightarrow> i < 1024 \<Longrightarrow> pde (ram s) (dir_current s) i AND 1 \<noteq> 0 \<Longrightarrow> x div 4096 \<noteq> pde (ram s) (dir_current s) i div 4096"
  using assms unfolding paging_ok_def Let_def by metis+

lemma write_pte:
  fixes s :: "'a paging_scheme" and w :: u32
  assumes "paging_ok s" and "table_present s v"
  defines "s' \<equiv> s\<lparr>ram := store32 (pte_addr s v) w (ram s)\<rparr>"
  shows "paging_ok s'" and "table_present s' u = table_present s u" and "pte_addr s' u = pte_addr s u"
    and "table_present s u \<Longrightarrow>
      load32 (ram s') (pte_addr s' u) = (if u div 4096 = v div 4096 then w else load32 (ram s) (pte_addr s u))"
proof -
  note ok = paging_okD [OF assms(1)]
  let ?e = "pde (ram s) (dir_current s)"
  have pr: "?e (PAGEDIR_IDX v) AND 1 \<noteq> 0" using assms(2) by (simp add: table_present_def)
  have ag: "page_agrees (ram s) (ram s') f" if "f \<noteq> ?e (PAGEDIR_IDX v) div 4096" for f
    unfolding s'_def pte_addr_def using that by (auto intro!: page_agrees_entry)
  have e: "pde (ram s') (dir_current s) i = ?e i" if "i < 1024" for i
    unfolding pde_def using ok(5) [OF idx_lt(1) pr] ok(1) that by (intro load_page_agrees ag) auto
  have tk: "taken_blocks s' = taken_blocks s"
    using ok(8) [OF _ idx_lt(1) pr] ag by (intro taken_cong) (auto simp: s'_def page_agrees_def)
  show "paging_ok s'"
    by (rule paging_cong [OF assms(1)]) (use tk e in \<open>auto simp: s'_def\<close>)
  show "table_present s' u = table_present s u" using e [OF idx_lt(1)] by (simp add: table_present_def s'_def)
  show pa: "pte_addr s' u = pte_addr s u" using e [OF idx_lt(1)] by (simp add: pte_addr_def table_of_def s'_def)
  show "load32 (ram s') (pte_addr s' u) = (if u div 4096 = v div 4096 then w else load32 (ram s) (pte_addr s u))"
    if "table_present s u"
  proof -
    have "table_of s (PAGEDIR_IDX v) = table_of s (PAGEDIR_IDX u) \<longleftrightarrow> PAGEDIR_IDX v = PAGEDIR_IDX u"
      using ok(6) [OF idx_lt(1) idx_lt(1) _ pr] that table_of_split(2) [of s] by (metis table_present_def)
    then show ?thesis unfolding pa unfolding s'_def pte_addr_def
      by (auto simp: load_entry same_page_iff)
  qed
qed

subsection \<open>A new table\<close>

declare store32_twice [mem_simps]

lemma at_entry_ram [simp]: "ram (at_entry e f s) = store32 e (f (load32 (ram s) e)) (ram s)"
  by (simp add: at_entry_def)

lemma new_table_entry:
  fixes p :: u32
  assumes "p mod 4096 = 0"
  defines "e \<equiv> table_set_frame p (table_add_property 2 (table_add_property 1 0))"
  shows "e AND 0xFFFFF000 = p" and "e AND 1 = 1" and "e div 4096 = p div 4096"
proof -
  have e: "e = page_set_frame p 3" by (simp add: e_def table_set_frame_def page_set_frame_def table_add_property_def)
  show a: "e AND 0xFFFFF000 = p" and "e AND 1 = 1" using frame_entry [OF assms(1), of 3] by (simp_all add: e)
  show "e div 4096 = p div 4096" using page_base_split(3) [of e] a by simp
qed

text \<open>A new directory entry for a page that was free keeps the directory well formed.\<close>

lemma paging_ok_extend:
  fixes s s' :: "'a paging_scheme"
  assumes ok: "paging_ok s" and ds: "dir_current s' = dir_current s" "memory_map s' = memory_map s" "blocks_max s' = blocks_max s"
    and pd: "\<And>i. i < 1024 \<Longrightarrow> pde (ram s') (dir_current s) i = (if i = I then e else pde (ram s) (dir_current s) i)"
    and tk: "taken_blocks s' = insert f (taken_blocks s)" and f: "f \<notin> taken_blocks s" "e AND 1 = 1" "e div 4096 = f"
  shows "paging_ok s'"
proof -
  note d = paging_okD [OF ok]
  let ?D = "dir_current s" and ?e = "pde (ram s') (dir_current s)"
  have bm: "in_bitmap s' x = in_bitmap s x" for x by (simp add: in_bitmap_def map_bits_def ds)
  have tp: "f \<noteq> pde (ram s) ?D i div 4096" if "i < 1024" "pde (ram s) ?D i AND 1 \<noteq> 0" for i using f(1) d(5) [OF that] by auto
  show ?thesis unfolding paging_ok_def Let_def ds bm tk
  proof (intro conjI)
    show "?D mod 4096 = 0" "?D div 4096 \<in> insert f (taken_blocks s)" "blocks_fit s'"
      using d(1,2,3) by (simp_all add: blocks_fit_def ds)
    show "\<forall>i<1024. ?e i AND 1 = 0 \<longrightarrow> ?e i = 0" using d(4) f(2) by (simp add: pd)
    show "\<forall>i<1024. ?e i AND 1 \<noteq> 0 \<longrightarrow> ?e i div 4096 \<in> insert f (taken_blocks s) \<and> ?e i div 4096 \<noteq> ?D div 4096"
      using d(2,5) f by (auto simp: pd)
    show "\<forall>i<1024. \<forall>j<1024. i \<noteq> j \<longrightarrow> ?e i AND 1 \<noteq> 0 \<longrightarrow> ?e j AND 1 \<noteq> 0 \<longrightarrow> ?e i div 4096 \<noteq> ?e j div 4096"
      using d(6) f(3) tp by (simp add: pd) metis
    show "\<forall>x. in_bitmap s x \<longrightarrow> x div 4096 \<in> insert f (taken_blocks s) \<and> x div 4096 \<noteq> ?D div 4096 \<and>
        (\<forall>i<1024. ?e i AND 1 \<noteq> 0 \<longrightarrow> x div 4096 \<noteq> ?e i div 4096)"
      using d(7,8) f(1,3) by (simp add: pd) metis
  qed
qed

lemma new_table_correct:
  fixes s :: "'a paging_scheme"
  assumes ok: "paging_ok s" and abs: "\<not> table_present s v" and al: "alloc_block s = return p s1" and nz: "p \<noteq> 0"
    and fl: "\<And>m f. f \<noteq> p div 4096 \<Longrightarrow> page_agrees m (fill p m) f"
  obtains s' where "new_table v fill s = return () s'" and "paging_ok s'" and "dir_current s' = dir_current s"
    and "\<And>u. table_present s' u \<longleftrightarrow> table_present s u \<or> PAGEDIR_IDX u = PAGEDIR_IDX v"
    and "\<And>i. i < 1024 \<Longrightarrow> table_of s' i = (if i = PAGEDIR_IDX v then p else table_of s i)"
    and "\<And>u. table_present s u \<Longrightarrow> load32 (ram s') (pte_addr s' u) = load32 (ram s) (pte_addr s u)"
    and "page_agrees (fill p (memset p 0 4096 (ram s1))) (ram s') (p div 4096)"
proof -
  note d = paging_okD [OF ok] and a = alloc_block_paging [OF ok al]
  let ?D = "dir_current s" and ?e = "pde (ram s) (dir_current s)" and ?I = "PAGEDIR_IDX v"
  define m where "m = fill p (memset p 0 4096 (ram s1))"
  define e where "e = table_set_frame p (table_add_property 2 (table_add_property 1 0))"
  define s' where "s' = s1\<lparr>ram := store32 (?D + 4 * ?I) e m\<rparr>"
  note en = new_table_entry [OF a(1), folded e_def]
  have pn: "p div 4096 \<noteq> ?D div 4096" using a(2) d(2) by auto
  have tp: "p div 4096 \<noteq> ?e i div 4096" if "i < 1024" "?e i AND 1 \<noteq> 0" for i using a(2) d(5) [OF that] by auto
  have m: "m x = ram s x" if "\<not> in_bitmap s x" "x div 4096 \<noteq> p div 4096" for x
    using fl [OF that(2), of "memset p 0 4096 (ram s1)"] page_agrees_memset [OF a(1) that(2), of "ram s1" 0] a(7) [OF that(1)]
    by (simp add: m_def page_agrees_def)
  have mp: "page_agrees (ram s) m f" if "f \<noteq> p div 4096" "\<And>x. in_bitmap s x \<Longrightarrow> x div 4096 \<noteq> f" for f
    unfolding page_agrees_def using m that by auto
  have md: "load32 m (?D + 4 * i) = ?e i" if "i < 1024" for i
    unfolding pde_def using d(1,7) that pn by (intro load_page_agrees mp) auto
  have z: "?e ?I = 0" using abs d(4) [OF idx_lt(1)] by (simp add: table_present_def)
  have run: "new_table v fill s = return () s'"
    using nz md [OF idx_lt(1), of v] unfolding new_table_def al
    by (simp add: Let_def return_def at_entry_def a(4) get_directory_def s'_def e_def mem_simps m_def z)
  have pd: "pde (ram s') ?D i = (if i = ?I then e else ?e i)" if "i < 1024" for i
    unfolding pde_def s'_def using that d(1) md [OF that] by (auto simp: load_entry pde_def)
  have ds: "dir_current s' = ?D" "memory_map s' = memory_map s" "blocks_max s' = blocks_max s" by (simp_all add: s'_def a)
  have ag: "page_agrees m (ram s') f" if "f \<noteq> ?D div 4096" for f
    using page_agrees_entry [OF d(1) idx_lt(1) that] by (simp add: s'_def)
  have bm: "in_bitmap s' x = in_bitmap s x" "in_bitmap s1 x = in_bitmap s x" for x by (simp_all add: in_bitmap_def map_bits_def ds a)
  have m1: "ram s' x = ram s1 x" if "in_bitmap s x" for x
  proof -
    have n: "x div 4096 \<noteq> p div 4096" "x div 4096 \<noteq> ?D div 4096" using d(7) [OF that] a(2) by auto
    show ?thesis using ag [OF n(2)] fl [OF n(1), of "memset p 0 4096 (ram s1)"] page_agrees_memset [OF a(1) n(1), of "ram s1" 0]
      by (simp add: page_agrees_def m_def)
  qed
  have tk: "taken_blocks s' = insert (p div 4096) (taken_blocks s)"
    unfolding a(3) [symmetric] by (rule taken_cong) (simp_all only: ds a bm m1)
  have tb: "table_of s' i = (if i = ?I then p else table_of s i)" if "i < 1024" for i
    unfolding table_of_def ds pd [OF that] using en by simp
  show thesis
  proof
    show "paging_ok s'" by (rule paging_ok_extend [OF ok ds pd tk]) (use a(2) en in auto)
    show "load32 (ram s') (pte_addr s' u) = load32 (ram s) (pte_addr s u)" if "table_present s u" for u
    proof -
      have i: "PAGEDIR_IDX u \<noteq> ?I" using abs that by (auto simp: table_present_def)
      have t: "?e (PAGEDIR_IDX u) AND 1 \<noteq> 0" using that by (simp add: table_present_def)
      have "page_agrees (ram s) (ram s') (?e (PAGEDIR_IDX u) div 4096)"
        using d(5) [OF idx_lt(1) t] d(8) [OF _ idx_lt(1) t] tp [OF idx_lt(1) t] by (intro page_agrees_trans [OF mp ag]) auto
      then show ?thesis using i unfolding pte_addr_def tb [OF idx_lt(1)] by (simp add: load_page_agrees)
    qed
    show "page_agrees (fill p (memset p 0 4096 (ram s1))) (ram s') (p div 4096)"
      using ag [OF pn] by (simp add: m_def)
    show "table_present s' u \<longleftrightarrow> table_present s u \<or> PAGEDIR_IDX u = ?I" for u
      using en by (simp add: table_present_def ds pd)
  qed (use run ds tb in auto)
qed

subsection \<open>Mapping and unmapping a page\<close>

text \<open>Bit 31 of the entry a mapping replaces.\<close>

definition stale :: "'a paging_scheme \<Rightarrow> u32 \<Rightarrow> u32" where
  "stale s v = (if table_present s v then load32 (ram s) (pte_addr s v) AND 0x80000000 else 0)"

abbreviation (input) mapped :: "u32 \<Rightarrow> u32 \<Rightarrow> u32" where
  "mapped phys old \<equiv> page_set_property 2 (page_set_property 1 (page_set_frame phys old))"

lemma mapped_entry:
  "phys mod 4096 = 0 \<Longrightarrow> mapped phys old AND 1 = 1 \<and> mapped phys old AND 0xFFFFF000 = (phys OR old AND 0x80000000)"
  using or_flags [of "page_set_frame phys old"] frame_entry [of phys old] by (simp add: page_set_property_def or.assoc)

lemma page_of_table:
  "dir_current s = D \<Longrightarrow> (load32 (ram s) (D + 4 * PAGEDIR_IDX v) AND NOT 0xfff) + 4 * PAGETABLE_IDX v = pte_addr s v"
  unfolding page_mask by (simp add: pte_addr_def table_of_def pde_def)

lemma present_iff: "dir_current s = D \<Longrightarrow> (load32 (ram s) (D + 4 * PAGEDIR_IDX v) AND 1 \<noteq> 1) = (\<not> table_present s v)"
  unfolding table_present_def pde_def and_one_eq by (auto simp: odd_iff_mod_2_eq_one split: if_splits)

lemma map_page_present:
  assumes "table_present s v"
  shows "map_page phys v s = return () (s\<lparr>ram := store32 (pte_addr s v) (mapped phys (load32 (ram s) (pte_addr s v))) (ram s)\<rparr>)"
  using assms page_of_table [OF refl, of s v] present_iff [OF refl, of s v]
  by (simp add: map_page_def Let_def get_directory_def return_def at_entry_def mem_simps)

lemma walk_write_pte:
  fixes s :: "'a paging_scheme" and w :: u32
  assumes "paging_ok s" and "table_present s v"
  defines "s' \<equiv> s\<lparr>ram := store32 (pte_addr s v) w (ram s)\<rparr>"
  shows "walk (ram s') (dir_current s) u =
      (if u div 4096 = v div 4096 then if w AND 1 = 0 then None else Some (w AND 0xFFFFF000) else walk (ram s) (dir_current s) u)"
    and "stale s' u = (if u div 4096 = v div 4096 then w AND 0x80000000 else stale s u)"
proof -
  note w = write_pte [OF assms(1,2), where w = w, folded s'_def]
  have tp: "table_present s u" if "u div 4096 = v div 4096" using assms(2) that by (simp add: table_present_def same_page_iff)
  have D: "dir_current s' = dir_current s" by (simp add: s'_def)
  show "walk (ram s') (dir_current s) u =
      (if u div 4096 = v div 4096 then if w AND 1 = 0 then None else Some (w AND 0xFFFFF000) else walk (ram s) (dir_current s) u)"
    using walk_alt [of s' u] walk_alt [of s u] w(2) w(4) tp by (simp add: D Let_def)
  show "stale s' u = (if u div 4096 = v div 4096 then w AND 0x80000000 else stale s u)"
    using w(2,4) tp by (simp add: stale_def)
qed

text \<open>Clearing of a new table, which leaves every translation as it was.\<close>

lemma new_table_walk:
  fixes s :: "'a paging_scheme"
  assumes "paging_ok s" and "\<not> table_present s v" and "alloc_block s = return p s1" and "p \<noteq> 0"
  obtains s' where "new_table v (\<lambda>_ m. m) s = return () s'" and "paging_ok s'" and "dir_current s' = dir_current s"
    and "\<And>u. table_present s' u \<longleftrightarrow> table_present s u \<or> PAGEDIR_IDX u = PAGEDIR_IDX v"
    and "\<And>u. walk (ram s') (dir_current s) u = walk (ram s) (dir_current s) u"
    and "\<And>u. stale s' u = stale s u"
proof (rule new_table_correct [OF assms, of "\<lambda>_ m. m"])
  fix s' assume a: "new_table v (\<lambda>_ m. m) s = return () s'" "paging_ok s'" "dir_current s' = dir_current s"
    and tp: "\<And>u. table_present s' u \<longleftrightarrow> table_present s u \<or> PAGEDIR_IDX u = PAGEDIR_IDX v"
    and tb: "\<And>i. i < 1024 \<Longrightarrow> table_of s' i = (if i = PAGEDIR_IDX v then p else table_of s i)"
    and ld: "\<And>u. table_present s u \<Longrightarrow> load32 (ram s') (pte_addr s' u) = load32 (ram s) (pte_addr s u)"
    and ag: "page_agrees (memset p 0 4096 (ram s1)) (ram s') (p div 4096)"
  note p = alloc_block_paging(1) [OF assms(1,3)]
  have z: "load32 (ram s') (pte_addr s' u) = 0" if "PAGEDIR_IDX u = PAGEDIR_IDX v" for u
    using load_page_agrees [OF p idx_lt(2) ag, of u] load_memset_page [OF p idx_lt(2), of "ram s1" u] that
    by (simp add: pte_addr_def tb)
  have n: "\<not> table_present s u" if "PAGEDIR_IDX u = PAGEDIR_IDX v" for u using assms(2) that by (simp add: table_present_def)
  have "walk (ram s') (dir_current s) u = walk (ram s) (dir_current s) u" "stale s' u = stale s u" for u
    using walk_alt [of s' u] walk_alt [of s u] tp [of u] ld [of u] z [of u] n [of u] by (auto simp: a(3) stale_def Let_def)
  then show thesis using that [OF a tp] by blast
qed (use assms in auto)

text \<open>The page of \<open>v\<close> is mapped to the frame \<open>f\<close> and no other page is touched.\<close>

definition remapped :: "u32 \<Rightarrow> u32 \<Rightarrow> 'a paging_scheme \<Rightarrow> 'a paging_scheme \<Rightarrow> bool" where
  "remapped v f s s' \<longleftrightarrow> paging_ok s' \<and> dir_current s' = dir_current s \<and>
    (\<forall>u. table_present s' u \<longleftrightarrow> table_present s u \<or> PAGEDIR_IDX u = PAGEDIR_IDX v) \<and>
    (\<forall>u. walk (ram s') (dir_current s) u = (if u div 4096 = v div 4096 then Some f else walk (ram s) (dir_current s) u)) \<and>
    (\<forall>u. u div 4096 \<noteq> v div 4096 \<longrightarrow> stale s' u = stale s u)"

lemma map_page_effect_present:
  fixes s :: "'a paging_scheme"
  assumes ok: "paging_ok s" and al: "phys mod 4096 = 0" and tp: "table_present s v"
  shows "\<exists>s'. map_page phys v s = return () s' \<and> remapped v (phys OR stale s v) s s'"
proof -
  define w where "w = mapped phys (load32 (ram s) (pte_addr s v))"
  define s' where "s' = s\<lparr>ram := store32 (pte_addr s v) w (ram s)\<rparr>"
  have m: "w AND 1 = 1" "w AND 0xFFFFF000 = (phys OR stale s v)"
    using mapped_entry [OF al, of "load32 (ram s) (pte_addr s v)"] tp by (simp_all add: w_def stale_def)
  have i: "table_present s u" if "PAGEDIR_IDX u = PAGEDIR_IDX v" for u using tp that by (simp add: table_present_def)
  show ?thesis
  proof (intro exI [of _ s'] conjI allI impI remapped_def [THEN iffD2])
    show "map_page phys v s = return () s'" using map_page_present [OF tp, of phys] by (simp add: s'_def w_def)
    show "paging_ok s'" "dir_current s' = dir_current s" using write_pte(1) [OF ok tp] by (simp_all add: s'_def)
    show "table_present s' u \<longleftrightarrow> table_present s u \<or> PAGEDIR_IDX u = PAGEDIR_IDX v" for u
      using write_pte(2) [OF ok tp] i [of u] by (auto simp: s'_def)
    show "walk (ram s') (dir_current s) u = (if u div 4096 = v div 4096 then Some (phys OR stale s v) else walk (ram s) (dir_current s) u)" for u
      using walk_write_pte(1) [OF ok tp, of w u] m by (simp add: s'_def)
    show "stale s' u = stale s u" if "u div 4096 \<noteq> v div 4096" for u
      using walk_write_pte(2) [OF ok tp, of w u] that by (simp add: s'_def)
  qed
qed

lemma map_page_effect:
  fixes s :: "'a paging_scheme"
  assumes "paging_ok s" and "phys mod 4096 = 0"
    and "table_present s v \<or> (\<exists>p s1. alloc_block s = return p s1 \<and> p \<noteq> 0)"
  shows "\<exists>s'. map_page phys v s = return () s' \<and> remapped v (phys OR stale s v) s s'"
proof (cases "table_present s v")
  case False
  then obtain p s1 where p: "alloc_block s = return p s1" "p \<noteq> 0" using assms(3) by blast
  obtain s2 where n: "new_table v (\<lambda>_ m. m) s = return () s2" "paging_ok s2" "dir_current s2 = dir_current s"
    and tp: "\<And>u. table_present s2 u \<longleftrightarrow> table_present s u \<or> PAGEDIR_IDX u = PAGEDIR_IDX v"
    and wk: "\<And>u. walk (ram s2) (dir_current s) u = walk (ram s) (dir_current s) u" "\<And>u. stale s2 u = stale s u"
    by (rule new_table_walk [OF assms(1) False p]) blast
  have t2: "table_present s2 v" using tp by simp
  have "map_page phys v s = map_page phys v s2"
    using present_iff [OF refl, of s v] present_iff [OF refl, of s2 v] False t2 n
    by (simp add: map_page_def Let_def get_directory_def return_def)
  moreover have "remapped v f s2 s' \<Longrightarrow> remapped v f s s'" for f s'
    unfolding remapped_def n(3) tp wk by blast
  ultimately show ?thesis using map_page_effect_present [OF n(2) assms(2) t2] by (auto simp: wk)
qed (rule map_page_effect_present [OF assms(1,2)])

end
