(* ===== verification/PageMap.thy ===== *)
theory PageMap
  imports PageWalk
begin

text \<open>
  Properties of the paging code over the page walk: mapping one page and a range of pages, unmapping, and the
  numbers of pages and tables computed for a size.
\<close>

subsection \<open>A directory in memory\<close>

definition demo_blank :: paging where
  "demo_blank = pmem.extend (demo_empty\<lparr>memory_map := 0x2000, blocks_used := 3\<rparr>) \<lparr>dir_current = 0x3000\<rparr>"

definition demo_paging :: paging where
  "demo_paging = mmap_set 0 (mmap_set 2 (mmap_set 3 demo_blank))"

lemma demo_blank_facts:
  "used demo_blank = {}" "blocks_max demo_blank = 64" "memory_map demo_blank = 0x2000" "dir_current demo_blank = 0x3000"
  "ram demo_blank = (\<lambda>_. 0)" "blocks_used demo_blank = 3"
proof -
  show r: "ram demo_blank = (\<lambda>_. 0)"
    by (simp add: demo_blank_def pmem.defs demo_empty_def keyboard.defs timer.defs demo_keyboard_def)
  show "used demo_blank = {}" by (simp add: used_def mmap_test_def bit_test_iff r load32_def)
qed (simp_all add: demo_blank_def pmem.defs demo_empty_def keyboard.defs timer.defs)

lemma mmap_set_fields [simp]:
  "blocks_max (mmap_set b s) = blocks_max s" "memory_map (mmap_set b s) = memory_map s" "blocks_used (mmap_set b s) = blocks_used s"
  "dir_current (mmap_set b t) = dir_current t"
  by (simp_all add: mmap_set_def)

lemma demo_paging_facts:
  "used demo_paging = {0, 2, 3}" "blocks_max demo_paging = 64" "memory_map demo_paging = 0x2000" "dir_current demo_paging = 0x3000"
  "blocks_used demo_paging = 3"
  by (auto simp: demo_paging_def demo_blank_facts)

lemma demo_taken: "taken_blocks demo_paging = {0, 2, 3}"
  by (auto simp: taken_blocks_def demo_paging_facts map_bits_def)

lemma demo_directory: "i < 1024 \<Longrightarrow> pde (ram demo_paging) 0x3000 i = 0"
proof -
  assume i: "i < 1024"
  have "page_agrees (\<lambda>_. 0) (ram demo_paging) 3"
    unfolding page_agrees_def
  proof (intro allI impI)
    fix x :: u32 assume x: "x div 4096 = 3"
    have "\<not> in_range 0x2000 4 x" using entry_page [of "0x2000" 0 x] x by auto
    then show "ram demo_paging x = 0"
      by (simp add: demo_paging_def mmap_set_def bit_set_def demo_blank_facts store32_outside)
  qed
  then have "load32 (ram demo_paging) (0x3000 + 4 * i) = load32 (\<lambda>_. 0) (0x3000 + 4 * i)"
    using load_page_agrees [of "0x3000" i "\<lambda>_. 0" "ram demo_paging"] i by simp
  then show ?thesis by (simp add: pde_def load32_def)
qed

lemma demo_paging_ok: "paging_ok demo_paging"
proof -
  have "x div 4096 = 2" if "in_bitmap demo_paging x" for x
  proof -
    from that obtain j where "j < 8" "x = of_nat (8192 + j)"
      unfolding in_bitmap_def in_range_ex by (auto simp: demo_paging_facts map_bits_def)
    then have "unat x = 8192 + j" by (simp del: of_nat_add)
    then show ?thesis using \<open>j < 8\<close> by (intro word_unat_eq_iff [THEN iffD2]) (simp add: unat_div)
  qed
  then show ?thesis
    by (auto simp: paging_ok_def Let_def demo_paging_facts demo_taken demo_directory blocks_fit_def)
qed

lemma demo_paging_alloc: "alloc_block demo_paging = return 0x1000 ((mmap_set 1 demo_paging)\<lparr>blocks_used := 4\<rparr>)"
proof -
  have "first_free 64 {0, 2, 3 :: u32} = Some 1" by (simp add: first_free_def upt_rec [of _ 64])
  then show ?thesis using alloc_block_some [of demo_paging 1] by (simp add: demo_paging_facts)
qed

lemma demo_absent: "\<not> table_present demo_paging v"
  by (simp add: table_present_def demo_paging_facts demo_directory)

lemma demo_room: "\<exists>p s1. alloc_block demo_paging = return p s1 \<and> p \<noteq> 0"
  using demo_paging_alloc by force

lemma demo_mapped:
  obtains s1 where "remapped 0xC0001000 0x5000 demo_paging s1"
  using map_page_effect [OF demo_paging_ok, of "0x5000" "0xC0001000"] demo_absent [of "0xC0001000"] demo_room by (auto simp: stale_def)

subsection \<open>Mapping a page\<close>

text \<open>C1. \<open>map_page\<close> establishes the translation asked for: when the page table is there, or a block is left for a new one, it
  returns, the page of \<open>virt\<close> translates to \<open>phys\<close> (with bit 31 of the replaced entry, which the frame mask omits), every other
  page translates as before, and the directory stays well formed.\<close>

theorem map_page_translates:
  assumes "paging_ok s" and "phys mod 4096 = 0"
    and "table_present s virt \<or> (\<exists>p s1. alloc_block s = return p s1 \<and> p \<noteq> 0)"
  shows "\<exists>s'. map_page phys virt s = return () s' \<and> paging_ok s' \<and>
    (\<forall>u. walk (ram s') (dir_current s) u =
       (if u div 4096 = virt div 4096 then Some (phys OR stale s virt) else walk (ram s) (dir_current s) u))"
  using map_page_effect [OF assms] by (auto simp: remapped_def)

lemma map_page_translates_witness:
  "\<exists>s'. map_page 0x5000 0xC0001000 demo_paging = return () s' \<and> paging_ok s' \<and>
     walk (ram s') 0x3000 0xC0001234 = Some 0x5000 \<and> walk (ram s') 0x3000 0xC0002000 = None"
proof -
  have "walk (ram demo_paging) 0x3000 0xC0002000 = None"
    using walk_alt [of demo_paging "0xC0002000"] by (simp add: demo_absent demo_paging_facts)
  then show ?thesis
    using map_page_translates [OF demo_paging_ok, of "0x5000" "0xC0001000"] demo_absent [of "0xC0001000"] demo_room
    by (auto simp: stale_def demo_paging_facts)
qed

subsection \<open>Mapping a range\<close>

definition pages_from :: "u32 \<Rightarrow> nat \<Rightarrow> u32" where
  "pages_from v i = (v + 4096 * of_nat i) div 4096"

lemma pages_from_unat: "unat (pages_from v i) = (unat v div 4096 + i) mod 1048576"
proof -
  have "v + 4096 * of_nat i = of_nat (unat v + 4096 * i)" by simp
  then have "unat (v + 4096 * of_nat i) = (unat v + 4096 * i) mod (4096 * 1048576)" by (simp only: unat_of_nat) simp
  moreover have "x mod (4096 * 1048576) div 4096 = x div 4096 mod 1048576" for x :: nat unfolding mod_mult2_eq by simp
  moreover have "unat (4096 :: u32) = 4096" "(unat v + 4096 * i) div 4096 = unat v div 4096 + i" by simp_all
  ultimately show ?thesis unfolding pages_from_def unat_div by (simp only:)
qed

lemma pages_from_inj: "i < 1048576 \<Longrightarrow> j < 1048576 \<Longrightarrow> pages_from v i = pages_from v j \<Longrightarrow> i = j"
proof -
  assume l: "i < 1048576" "j < 1048576" and "pages_from v i = pages_from v j"
  then have "(unat v div 4096 + i) mod 1048576 = (unat v div 4096 + j) mod 1048576" by (metis pages_from_unat)
  moreover have "unat v div 4096 < 1048576" using unat32_lt [of v] by (simp add: less_mult_imp_div_less)
  moreover have "x mod 1048576 = (if x < 1048576 then x else x - 1048576)" if "x < 2 * 1048576" for x :: nat
    using that by (auto simp: mod_if)
  ultimately show "i = j" using l by (simp split: if_splits)
qed

lemma pages_from_Suc: "pages_from (v + 4096) i = pages_from v (Suc i)"
  by (simp add: pages_from_def algebra_simps)

lemma next_page: "(p :: u32) mod 4096 = 0 \<Longrightarrow> (p + 4096) mod 4096 = 0"
proof -
  assume "p mod 4096 = 0"
  then have "p = 4096 * (p div 4096)" using page_split [of p] by simp
  then have "p + 4096 = of_nat (4096 * (unat (p div 4096) + 1))" by (simp add: algebra_simps)
  then have "unat (p + 4096) = 4096 * (unat (p div 4096) + 1) mod 4294967296" by (simp only: unat_of_nat) simp
  then have "unat ((p + 4096) mod 4096) = 0" unfolding unat_mod by (simp add: mod_mod_cancel)
  then show ?thesis by (simp only: unat_eq_zero)
qed

lemma map_pages_loop_effect:
  fixes s :: "'a paging_scheme"
  assumes "paging_ok s" and "phys mod 4096 = 0" and "n \<le> 1048576"
    and "\<And>i. i < n \<Longrightarrow> table_present s (virt + 4096 * of_nat i) \<and> stale s (virt + 4096 * of_nat i) = 0"
  shows "\<exists>s'. map_pages_loop n phys virt s = return (phys + 4096 * of_nat n, virt + 4096 * of_nat n) s' \<and> paging_ok s' \<and>
    dir_current s' = dir_current s \<and>
    (\<forall>i < n. \<forall>u. u div 4096 = pages_from virt i \<longrightarrow> walk (ram s') (dir_current s) u = Some (phys + 4096 * of_nat i)) \<and>
    (\<forall>u. (\<forall>i < n. u div 4096 \<noteq> pages_from virt i) \<longrightarrow> walk (ram s') (dir_current s) u = walk (ram s) (dir_current s) u)"
  using assms
proof (induction n arbitrary: phys virt s)
  case (Suc n)
  from Suc.prems(4) [of 0] have tp: "table_present s virt" "stale s virt = 0" by simp_all
  obtain s1 where m: "map_page phys virt s = return () s1" and r: "remapped virt phys s s1"
    using map_page_effect_present [OF Suc.prems(1,2) tp(1)] by (auto simp: tp(2))
  note p = next_page [OF Suc.prems(2)]
  have o: "pages_from virt (Suc i) \<noteq> pages_from virt 0" if "i < n" for i
  proof
    assume "pages_from virt (Suc i) = pages_from virt 0"
    then have "Suc i = 0" by (rule pages_from_inj [rotated 2]) (use that Suc.prems(3) in linarith)+
    then show False by simp
  qed
  have nx: "table_present s1 (virt + 4096 + 4096 * of_nat i) \<and> stale s1 (virt + 4096 + 4096 * of_nat i) = 0" if "i < n" for i
  proof -
    have e: "virt + 4096 + 4096 * of_nat i = virt + 4096 * of_nat (Suc i)" by (simp add: algebra_simps)
    have n: "(virt + 4096 * of_nat (Suc i)) div 4096 \<noteq> virt div 4096" using o [OF that] by (simp only: pages_from_def) simp
    show ?thesis unfolding e using Suc.prems(4) [of "Suc i"] r n that unfolding remapped_def by (metis Suc_less_eq)
  qed
  from Suc.IH [OF _ p _ nx] r Suc.prems(3) obtain s2 where
    s2: "map_pages_loop n (phys + 4096) (virt + 4096) s1 = return (phys + 4096 + 4096 * of_nat n, virt + 4096 + 4096 * of_nat n) s2"
      "paging_ok s2" "dir_current s2 = dir_current s"
    and w: "\<And>i u. i < n \<Longrightarrow> u div 4096 = pages_from virt (Suc i) \<Longrightarrow> walk (ram s2) (dir_current s) u = Some (phys + 4096 + 4096 * of_nat i)"
    and ow: "\<And>u. (\<And>i. i < n \<Longrightarrow> u div 4096 \<noteq> pages_from virt (Suc i)) \<Longrightarrow> walk (ram s2) (dir_current s) u = walk (ram s1) (dir_current s) u"
    by (auto simp: remapped_def pages_from_Suc)
  have z: "pages_from virt 0 = virt div 4096" by (simp add: pages_from_def)
  show ?case
  proof (intro exI [of _ s2] conjI allI impI)
    show "map_pages_loop (Suc n) phys virt s = return (phys + 4096 * of_nat (Suc n), virt + 4096 * of_nat (Suc n)) s2"
      using m s2(1) by (simp add: return_def algebra_simps)
    show "walk (ram s2) (dir_current s) u = Some (phys + 4096 * of_nat i)" if "i < Suc n" "u div 4096 = pages_from virt i" for i u
    proof (cases i)
      case 0
      have "walk (ram s2) (dir_current s) u = walk (ram s1) (dir_current s) u"
        by (rule ow) (use o that 0 in metis)
      then show ?thesis using 0 that r z by (auto simp: remapped_def)
    next
      case (Suc k)
      then show ?thesis using w [of k u] that by (simp add: algebra_simps)
    qed
    show "walk (ram s2) (dir_current s) u = walk (ram s) (dir_current s) u" if "\<forall>i < Suc n. u div 4096 \<noteq> pages_from virt i" for u
      using ow [of u] that r z by (auto simp: remapped_def)
  qed (use s2 in auto)
qed (auto simp: return_def)

lemma last_page_renders: "render (text_line ''Last mapped page: 0x%X -> 0x%X'') (map plain_meaning [VaWord p, VaWord v]) \<noteq> None"
  by (simp add: text_line_def bytes_def)

text \<open>C22. \<open>map_pages\<close> maps a range: with the tables of the range in place and no stale bit 31 in its entries, page \<open>i\<close> of the range
  translates to frame \<open>i\<close> from \<open>phys\<close>, pages outside keep their translation, and what follows is output on the terminal only.
  The range may wrap around the end of the address space.\<close>

theorem map_pages_translates:
  fixes s :: "'a paging_scheme"
  assumes "paging_ok s" and "phys mod 4096 = 0" and "unat amt \<le> 1048576"
    and "\<And>i. i < unat amt \<Longrightarrow> table_present s (virt + 4096 * of_nat i) \<and> stale s (virt + 4096 * of_nat i) = 0"
  shows "\<exists>s' s''. map_pages phys virt amt s = return () s'' \<and> quiet s' s'' \<and> paging_ok s' \<and>
    (\<forall>i < unat amt. \<forall>u. u div 4096 = pages_from virt i \<longrightarrow> walk (ram s') (dir_current s) u = Some (phys + 4096 * of_nat i)) \<and>
    (\<forall>u. (\<forall>i < unat amt. u div 4096 \<noteq> pages_from virt i) \<longrightarrow> walk (ram s') (dir_current s) u = walk (ram s) (dir_current s) u)"
proof -
  obtain s' where l: "map_pages_loop (unat amt) phys virt s = return (phys + 4096 * amt, virt + 4096 * amt) s'" and w: "paging_ok s'"
    "\<forall>i < unat amt. \<forall>u. u div 4096 = pages_from virt i \<longrightarrow> walk (ram s') (dir_current s) u = Some (phys + 4096 * of_nat i)"
    "\<forall>u. (\<forall>i < unat amt. u div 4096 \<noteq> pages_from virt i) \<longrightarrow> walk (ram s') (dir_current s) u = walk (ram s) (dir_current s) u"
    using map_pages_loop_effect [OF assms] by auto
  obtain s'' where "kprintf (text_line ''Last mapped page: 0x%X -> 0x%X'')
      [VaWord (phys + 4096 * amt - 4096), VaWord (virt + 4096 * amt - 4096)] s' = Some s''" "quiet s' s''"
    using kprintf_quiet [OF last_page_renders] by blast
  then have "map_pages phys virt amt s = return () s'' \<and> quiet s' s''" using l by (simp add: map_pages_def return_def lift_def)
  then show ?thesis using w by blast
qed

lemma map_pages_translates_witness:
  "\<exists>(s :: paging) s' s''. map_pages 0x6000 0xC0002000 2 s = return () s'' \<and> quiet s' s'' \<and>
     walk (ram s') 0x3000 0xC0003FFC = Some 0x7000"
proof -
  obtain s1 where s1: "remapped 0xC0001000 0x5000 demo_paging s1" by (rule demo_mapped)
  have i: "PAGEDIR_IDX 0xC0002000 = PAGEDIR_IDX 0xC0001000" "PAGEDIR_IDX 0xC0003000 = PAGEDIR_IDX 0xC0001000"
    by (simp_all add: PAGEDIR_IDX_def)
  have t: "table_present s1 0xC0002000" "table_present s1 0xC0003000" using s1 i by (simp_all add: remapped_def)
  have n: "stale s1 0xC0002000 = 0" "stale s1 0xC0003000 = 0"
    using s1 stale_def [of demo_paging] by (simp_all add: remapped_def demo_absent)
  have c: "table_present s1 (0xC0002000 + 4096 * of_nat i) \<and> stale s1 (0xC0002000 + 4096 * of_nat i) = 0" if "i < unat (2 :: u32)" for i
  proof -
    have "i = 0 \<or> i = 1" using that by auto
    then show ?thesis using t n by auto
  qed
  have ok: "paging_ok s1" "dir_current s1 = 0x3000" using s1 by (simp_all add: remapped_def demo_paging_facts)
  have p: "0xC0003FFC div 4096 = pages_from 0xC0002000 1" by (simp add: pages_from_def)
  obtain s' s'' where r: "map_pages 0x6000 0xC0002000 2 s1 = return () s''" "quiet s' s''"
    "\<forall>i < unat (2 :: u32). \<forall>u. u div 4096 = pages_from 0xC0002000 i \<longrightarrow> walk (ram s') 0x3000 u = Some (0x6000 + 4096 * of_nat i)"
    using map_pages_translates [where amt = 2 and phys = "0x6000", OF ok(1) _ _ c] ok(2) by auto
  then have "walk (ram s') 0x3000 0xC0003FFC = Some (0x6000 + 4096 * of_nat 1)" using p by (intro r(3) [rule_format]) simp_all
  then show ?thesis using r(1,2) by auto
qed

subsection \<open>Unmapping a page\<close>

text \<open>C23. \<open>free_page\<close> takes one page out of the translation and nothing else, when its page table is there.\<close>

theorem free_page_unmaps:
  assumes "paging_ok s" and "table_present s virt"
  shows "paging_ok (free_page virt s) \<and>
    (\<forall>u. walk (ram (free_page virt s)) (dir_current s) u =
      (if u div 4096 = virt div 4096 then None else walk (ram s) (dir_current s) u))"
proof -
  define w where "w = page_del_property 1 (load32 (ram s) (pte_addr s virt))"
  have f: "free_page virt s = s\<lparr>ram := store32 (pte_addr s virt) w (ram s)\<rparr>"
    using page_of_table [OF refl, of s virt] by (simp add: free_page_def Let_def get_directory_def at_entry_def w_def)
  have "w AND 1 = 0" using clear_flag by (simp only: w_def page_del_property_def)
  then show ?thesis unfolding f using write_pte(1) [OF assms] walk_write_pte(1) [OF assms, of w] by simp
qed

lemma free_page_unmaps_witness:
  "\<exists>s :: paging. walk (ram s) 0x3000 0xC0001234 = Some 0x5000 \<and> walk (ram (free_page 0xC0001000 s)) 0x3000 0xC0001234 = None"
proof -
  obtain s1 where s1: "remapped 0xC0001000 0x5000 demo_paging s1" by (rule demo_mapped)
  then have "walk (ram s1) 0x3000 0xC0001234 = Some 0x5000" and "dir_current s1 = 0x3000"
    by (simp_all add: remapped_def demo_paging_facts)
  moreover have "walk (ram (free_page 0xC0001000 s1)) (dir_current s1) 0xC0001234 = None"
    using free_page_unmaps [of s1 "0xC0001000"] s1 by (simp add: remapped_def)
  ultimately show ?thesis by auto
qed

subsection \<open>Numbers of pages and tables\<close>

text \<open>\<open>size_to_pages\<close> always gives enough pages, one more than needed when the size is a number of whole pages; a size in the last page of
  the address space overflows and gives one page.\<close>

theorem size_to_pages_covers:
  "unat (size_to_pages sz) = (if unat sz < 4294963200 then unat sz div 4096 + 1 else 1)"
proof -
  define k where "k = unat sz div 4096"
  have k: "k < 1048576" using unat32_lt [of sz] by (simp add: k_def less_mult_imp_div_less)
  have f: "sz AND 0xFFFFF000 = of_nat (4096 * k)"
  proof -
    have "of_nat (4096 * unat (sz div 4096)) = 4096 * (sz div 4096)" by simp
    moreover have "unat (sz div 4096) = k" by (simp add: unat_div k_def)
    ultimately show ?thesis unfolding page_floor by simp
  qed
  have s: "(sz AND 0xFFFFF000) + 0x1000 = of_nat (4096 * (k + 1))" unfolding f by simp
  show ?thesis
  proof (cases "k + 1 < 1048576")
    case True
    then have "unat (of_nat (4096 * (k + 1)) :: u32) = 4096 * (k + 1)" by (simp del: of_nat_mult of_nat_add of_nat_Suc)
    then have "unat ((of_nat (4096 * (k + 1)) :: u32) div 4096) = k + 1" unfolding unat_div by simp
    moreover have "unat sz < 4294963200" using True by (simp add: k_def)
    ultimately show ?thesis unfolding size_to_pages_def s Let_def by (auto simp: k_def unat_eq_zero [symmetric] simp del: unat_eq_zero)
  next
    case False
    then have k': "k = 1048575" using k by simp
    then have "\<not> unat sz < 4294963200" by (simp add: k_def)
    then show ?thesis unfolding size_to_pages_def s k' Let_def by simp
  qed
qed

end
