(* ===== verification/Tokens.thy ===== *)
theory Tokens
  imports Strings
begin

text \<open>
  The rest of \<open>standard/strings.h\<close>: \<open>strshl\<close> (shift a string left in place), \<open>strtok\<close> (cut
  the first token off a command line, used by the shell) and the \<open>trim\<close> family (used on the
  contents of \<open>autostart.dat\<close>).
\<close>

subsection \<open>Operations\<close>

text \<open>
  \<open>strshl\<close>: the loop runs over \<open>i < size - amt\<close>; its \<open>break\<close> (when \<open>i + amt > size\<close>) is kept as a
  guard, all sums staying below \<open>size < 2 ^ 32\<close>.
\<close>

definition strshl_body :: "u32 \<Rightarrow> nat \<Rightarrow> nat \<Rightarrow> memory \<Rightarrow> memory" where
  "strshl_body str amt i m =
     (let m = m(str + of_nat i := m (str + of_nat (i + amt))) in m(str + of_nat (i + amt) := 0))"

fun strshl_loop :: "u32 \<Rightarrow> nat \<Rightarrow> nat \<Rightarrow> nat list \<Rightarrow> memory \<Rightarrow> memory" where
  "strshl_loop str amt sz [] m = m"
| "strshl_loop str amt sz (i # is) m =
     (if i + amt > sz then m
      else strshl_loop str amt sz is (strshl_body str amt i m))"

definition strshl :: "u32 \<Rightarrow> u32 \<Rightarrow> memory \<Rightarrow> memory option" where
  "strshl str amt m = do {
     sz \<leftarrow> strlen m str;
     if amt \<ge> sz then Some (memset str 0 sz m)
     else let m = strshl_loop str (unat amt) (unat sz) [0..<unat (sz - amt)] m
          in do { n \<leftarrow> strlen m str;
                  if n > sz - amt then Some (snd (substr str str 0 (sz - amt) m)) else Some m } }"

partial_function (option) strtok_copy :: "u32 \<Rightarrow> u32 \<Rightarrow> u8 \<Rightarrow> u32 \<Rightarrow> memory \<Rightarrow> (u32 \<times> memory) option" where
  "strtok_copy dest src d i m =
     (if m (src + i) \<noteq> d \<and> m (src + i) \<noteq> 0
      then strtok_copy dest src d (i + 1) (m(dest + i := m (src + i)))
      else Some (i, m))"

partial_function (option) strtok_loop :: "u32 \<Rightarrow> u32 \<Rightarrow> u32 \<Rightarrow> u32 \<Rightarrow> memory \<Rightarrow> memory option" where
  "strtok_loop dest src delim di m =
     (if m (delim + di) \<noteq> 0
      then do { (i, m) \<leftarrow> strtok_copy dest src (m (delim + di)) 0 m;
                m \<leftarrow> strshl src (i + 1) m;
                strtok_loop dest src delim (di + 1) m }
      else Some m)"

definition strtok :: "u32 \<Rightarrow> u32 \<Rightarrow> u32 \<Rightarrow> memory \<Rightarrow> (u32 \<times> memory) option" where
  "strtok dest src delim m =
     (if m src = 0 then Some (0, m)
      else do { m \<leftarrow> clearchar dest m;
                m \<leftarrow> strtok_loop dest src delim 0 m;
                Some (if m dest = 0 then 0 else dest, m) })"

partial_function (option) ltrim :: "memory \<Rightarrow> u32 \<Rightarrow> u32 option" where
  "ltrim m s = (if isspace (m s) then ltrim m (s + 1) else Some s)"

partial_function (option) rtrim_loop :: "memory \<Rightarrow> u32 \<Rightarrow> u32 option" where
  "rtrim_loop m back = (let back = back - 1 in if isspace (m back) then rtrim_loop m back else Some back)"

definition rtrim :: "u32 \<Rightarrow> memory \<Rightarrow> memory option" where
  "rtrim s m = do {
     n \<leftarrow> strlen m s;
     back \<leftarrow> rtrim_loop m (s + n);
     Some (m(back + 1 := 0)) }"

definition trim :: "u32 \<Rightarrow> memory \<Rightarrow> (u32 \<times> memory) option" where
  "trim s m = do { s \<leftarrow> ltrim m s; m \<leftarrow> rtrim s m; Some (s, m) }"

subsection \<open>Facts: shifting\<close>

lemma strshl_loop_fold:
  "(\<And>i. i \<in> set is \<Longrightarrow> i + amt \<le> sz) \<Longrightarrow>
   strshl_loop str amt sz is m = fold (strshl_body str amt) is m"
proof (induction "is" arbitrary: m)
  case (Cons i "is")
  then have "\<not> i + amt > sz" by (simp add: not_less)
  then show ?case using Cons by (simp del: not_less)
qed simp

lemma strshl_body_at:
  "i + amt < 4294967296 \<Longrightarrow> j < 4294967296 \<Longrightarrow> strshl_body str amt i m (str + of_nat j) =
     (if j = i + amt then 0 else if j = i then m (str + of_nat (i + amt)) else m (str + of_nat j))"
  by (simp add: strshl_body_def Let_def of_nat32_eq_iff del: of_nat_add)

lemma strshl_loop_at:
  assumes "0 < amt" and "amt \<le> sz" and "sz < 4294967296" and j: "j < 4294967296"
  shows "strshl_loop str amt sz [0..<sz - amt] m (str + of_nat j) =
    (if j < sz - amt then m (str + of_nat (j + amt))
     else if amt \<le> j \<and> j < sz then 0 else m (str + of_nat j))"
proof -
  let ?P = "\<lambda>k m'. \<forall>j < 4294967296. m' (str + of_nat j) = (if j < k then m (str + of_nat (j + amt))
     else if amt \<le> j \<and> j < k + amt then 0 else m (str + of_nat j))"
  have "?P (sz - amt) (fold (strshl_body str amt) [0..<sz - amt] m)"
  proof (rule fold_upt_inv [where P = ?P])
    fix i m' assume i: "i < sz - amt" and P: "?P i m'"
    have "m' (str + of_nat (i + amt)) = m (str + of_nat (i + amt))"
      using P i assms by (auto simp del: of_nat_add)
    then show "?P (Suc i) (strshl_body str amt i m')"
      using i assms P by (auto simp: strshl_body_at less_Suc_eq simp del: of_nat_add)
  qed (use assms in auto)
  moreover have "strshl_loop str amt sz [0..<sz - amt] m = fold (strshl_body str amt) [0..<sz - amt] m"
    using assms by (intro strshl_loop_fold) auto
  ultimately show ?thesis using assms by (auto simp del: of_nat_add)
qed

lemma substr_loop_self:
  "substr_loop n a a 0 m = (a + of_nat n, m(a + of_nat n := 0))"
  by (induction n arbitrary: a) (simp_all add: ac_simps)

text \<open>Some string starts at any address from which a NUL is in reach.\<close>

lemma cstring_ex:
  assumes "m (a + of_nat n) = 0" and "n < 4294967295"
  shows "\<exists>t. cstring m a t \<and> length t \<le> n"
proof -
  define t where "t = takeWhile (\<lambda>c. c \<noteq> 0) (bytes_at m a n)"
  have t: "length t \<le> n" using length_takeWhile_le [of _ "bytes_at m a n"] by (simp add: t_def)
  have "cstring m a t"
  proof (rule cstringI)
    show "length t < 4294967295" using t assms by simp
    show "0 \<notin> set t" by (auto simp: t_def dest: set_takeWhileD)
    show "m (a + of_nat i) = t ! i" if "i < length t" for i
      using that t takeWhile_nth [of i _ "bytes_at m a n"] by (simp add: t_def)
    show "m (a + of_nat (length t)) = 0"
    proof (cases "length t < n")
      case True
      then show ?thesis
        using nth_length_takeWhile [of "\<lambda>c. c \<noteq> 0" "bytes_at m a n"] by (simp add: t_def)
    next
      case False
      with t assms show ?thesis by (metis le_antisym not_le)
    qed
  qed
  with t show ?thesis by blast
qed

lemma cstring_append:
  assumes "\<And>i. i < length s \<Longrightarrow> m (a + of_nat i) = s ! i" and "0 \<notin> set s"
    and "cstring m (a + of_nat (length s)) t" and "length s + length t < 4294967295"
  shows "cstring m a (s @ t)"
proof (rule cstringI)
  fix i assume "i < length (s @ t)"
  then show "m (a + of_nat i) = (s @ t) ! i"
    using assms(1) [of i] cstring_nth [OF assms(3), of "i - length s"]
    by (auto simp: nth_append)
qed (use assms cstring_end [OF assms(3)] in \<open>auto simp: cstring_def ac_simps\<close>)

lemma strshl_cstring:
  assumes s: "cstring m a (xs @ ys)" and xs: "xs \<noteq> []" and len: "length xs + length ys < 2147483648"
  shows "\<exists>m'. strshl a (of_nat (length xs)) m = Some m' \<and> cstring m' a ys
    \<and> same_outside a (length xs + length ys) m m'"
proof (cases "ys = []")
  case True
  then have "strshl a (of_nat (length xs)) m = Some (memset a 0 (of_nat (length xs)) m)"
    using s by (simp add: strshl_def strlen_cstring)
  moreover have "same_outside a (length xs) m (memset a 0 (of_nat (length xs)) m)"
    using same_outside_memset [of a "of_nat (length xs)" m 0] len by simp
  ultimately show ?thesis using True xs len by (simp add: memset_at)
next
  case False
  define p q n where "p = length xs" and "q = length ys" and "n = p + q"
  have pq: "0 < p" "0 < q" "n < 2147483648" "length (xs @ ys) = n" "n - p = q"
    using xs len False by (simp_all add: p_def q_def n_def)
  define m1 where "m1 = strshl_loop a p n [0..<q] m"
  have m1: "m1 (a + of_nat j) = (if j < q then m (a + of_nat (j + p))
     else if p \<le> j \<and> j < n then 0 else m (a + of_nat j))" if "j < 4294967296" for j
    using strshl_loop_at [of p n j a m] that pq by (simp add: m1_def n_def)
  have lo: "m1 (a + of_nat i) = ys ! i" if "i < q" for i
    using that pq cstring_nth [OF s, of "i + p"]
    by (simp add: m1 nth_append n_def p_def q_def del: of_nat_add)
  have nz: "0 \<notin> set ys" using s by (simp add: cstring_def)
  have fr1: "same_outside a n m m1"
    unfolding same_outside_def
  proof (intro allI impI)
    fix x assume "\<not> in_range a n x"
    then show "m1 x = m x"
      using m1 [of "unat (x - a)"] pq by (simp add: in_range_def n_def)
  qed
  have sn: "strlen m a = Some (of_nat n)" using strlen_cstring [OF s] by (simp only: pq)
  have "m (a + of_nat n) = 0" using cstring_end [OF s] by (simp only: pq)
  then have "m1 (a + of_nat n) = 0" using m1 [of n] pq by (simp add: n_def)
  then have "m1 (a + of_nat q + of_nat p) = 0" by (simp add: n_def ac_simps)
  then obtain t where t: "cstring m1 (a + of_nat q) t" "length t \<le> p"
    using cstring_ex [of m1 "a + of_nat q" p] pq n_def by auto
  have st: "cstring m1 a (ys @ t)"
    using lo nz t pq by (intro cstring_append) (simp_all add: q_def n_def)
  let ?rest = "do { k \<leftarrow> strlen m1 a; if k > of_nat q then Some (snd (substr a a 0 (of_nat q) m1)) else Some m1 }"
  have np: "unat (of_nat n :: u32) = n" "unat (of_nat p :: u32) = p" "unat (of_nat q :: u32) = q"
    "(of_nat n - of_nat p :: u32) = of_nat q" "\<not> n \<le> p"
    using pq unat_of_nat32 [of n] unat_of_nat32 [of p] unat_of_nat32 [of q]
    by (simp_all add: n_def del: unat_of_nat32)
  have eq: "strshl a (of_nat p) m = ?rest"
    unfolding m1_def strshl_def sn bind.bind_lunit word_le_nat_alt np Let_def
    by (simp add: np)
  show ?thesis
  proof (cases "t = []")
    case True
    with st fr1 show ?thesis
      using pq by (simp add: eq strlen_cstring q_def [symmetric] p_def [symmetric] n_def)
  next
    case nt: False
    let ?m2 = "m1(a + of_nat q := 0)"
    have "?rest = Some (snd (substr a a 0 (of_nat q) m1))"
      using strlen_cstring [OF st] pq nt t(2) by (simp add: word_less_nat_alt q_def n_def unat32_add)
    moreover have "snd (substr a a 0 (of_nat q) m1) = ?m2"
      using pq by (simp add: substr_def substr_loop_self signed_of_nat n_def signed_take_bit_int_eq_self)
    moreover have "cstring ?m2 a ys"
      using lo nz pq by (intro cstringI) (auto simp: of_nat32_eq_iff q_def n_def)
    moreover have "same_outside a n m ?m2"
      using fr1 pq by (intro same_outside_upd) (auto simp: n_def)
    ultimately have "strshl a (of_nat p) m = Some ?m2" "cstring ?m2 a ys" "same_outside a n m ?m2"
      using eq by simp_all
    then show ?thesis unfolding n_def p_def q_def by blast
  qed
qed

subsection \<open>Facts: the first token\<close>

lemma strtok_copy_token:
  assumes src: "\<And>i. i < length w \<Longrightarrow> m (src + of_nat i) = w ! i"
    and stop: "m (src + of_nat (length w)) = d \<or> m (src + of_nat (length w)) = 0"
    and w: "0 \<notin> set w" "d \<notin> set w"
    and sep: "separate dest (length w) src (Suc (length w))" and len: "length w < 4294967295"
  shows "strtok_copy dest src d 0 m = Some (of_nat (length w), write_bytes dest w m)"
proof -
  have "strtok_copy dest src d (of_nat k) (write_bytes dest (take k w) m) =
      Some (of_nat (length w), write_bytes dest w m)" if "k \<le> length w" for k
    using that
  proof (induction "length w - k" arbitrary: k)
    case 0
    then have k: "k = length w" by simp
    have "in_range src (Suc (length w)) (src + of_nat (length w))" using len by (simp add: in_range_def)
    then have "\<not> in_range dest (length w) (src + of_nat (length w))" using separateD2 [OF sep] by blast
    then have "write_bytes dest w m (src + of_nat (length w)) = m (src + of_nat (length w))"
      using len by (simp add: write_bytes_outside)
    then show ?case
      using stop k by (auto simp: strtok_copy.simps [of dest src d "of_nat (length w)"])
  next
    case (Suc n)
    then have k: "k < length w" by simp
    then have "in_range src (Suc (length w)) (src + of_nat k)" using len by (simp add: in_range_def)
    then have "\<not> in_range dest (length w) (src + of_nat k)" using separateD2 [OF sep] by blast
    then have "\<not> in_range dest (length (take k w)) (src + of_nat k)"
      by (auto simp: in_range_def)
    then have rd: "write_bytes dest (take k w) m (src + of_nat k) = w ! k"
      using len src [OF k] by (simp add: write_bytes_outside)
    have "w ! k \<noteq> d" "w ! k \<noteq> 0" using w k by (metis nth_mem)+
    moreover have "write_bytes dest (take (Suc k) w) m =
        (write_bytes dest (take k w) m)(dest + of_nat k := w ! k)"
      using k by (simp add: take_Suc_conv_app_nth write_bytes_snoc)
    moreover have "strtok_copy dest src d (of_nat (Suc k)) (write_bytes dest (take (Suc k) w) m) =
        Some (of_nat (length w), write_bytes dest w m)"
      using Suc k by (intro Suc.hyps(1)) auto
    ultimately show ?case
      using rd by (simp add: strtok_copy.simps [of dest src d "of_nat k"] ac_simps)
  qed
  from this [of 0] show ?thesis by simp
qed

lemma strtok_token:
  assumes line: "cstring m src (w @ d # rest)" and delim: "cstring m del [d]"
    and w: "w \<noteq> []" "d \<notin> set w" and len: "length (w @ d # rest) < 2147483648"
    and old: "cstring m dest old" "length old \<le> length w"
    and blank: "\<And>i. length old \<le> i \<Longrightarrow> i \<le> length w \<Longrightarrow> m (dest + of_nat i) = 0"
    and sep: "separate dest (Suc (length w)) src (Suc (length (w @ d # rest)))"
      "separate dest (Suc (length w)) del 2" "separate src (length (w @ d # rest)) del 2"
  shows "\<exists>m'. strtok dest src del m = Some (dest, m') \<and> cstring m' dest w \<and> cstring m' src rest \<and>
    (\<forall>x. in_range dest (Suc (length w)) x \<or> in_range src (length (w @ d # rest)) x \<or> m' x = m x)"
proof -
  let ?n = "length (w @ d # rest)" and ?l = "Suc (length w)"
  define m1 where "m1 = memset dest 0 (of_nat (length old)) m"
  have clear: "clearchar dest m = Some m1" using old by (simp add: clearchar_cstring m1_def)
  have u: "unat (of_nat (length old) :: u32) = length old" using old len by simp
  have "same_outside dest (length old) m m1"
    using same_outside_memset [of dest "of_nat (length old)" m 0] unfolding m1_def u .
  then have fr1: "same_outside dest ?l m m1" by (rule same_outside_le) (use old in simp)
  have zero: "m1 (dest + of_nat i) = 0" if "i \<le> length w" for i
  proof (cases "i < length old")
    case True
    then have "in_range dest (length old) (dest + of_nat i)" using len old by simp
    then show ?thesis using old len by (simp add: m1_def memset_at)
  next
    case False
    then have "m (dest + of_nat i) = 0" using that by (intro blank) auto
    then show ?thesis by (simp add: m1_def memset_at)
  qed
  have sdel: "separate dest ?l del (Suc (length [d]))" using sep(2) by (simp add: numeral_2_eq_2)
  have line1: "cstring m1 src (w @ d # rest)" by (rule cstring_same_outside [OF line fr1 sep(1)])
  have del1: "cstring m1 del [d]" by (rule cstring_same_outside [OF delim fr1 sdel])
  define m2 where "m2 = write_bytes dest w m1"
  have w0: "0 \<notin> set w" "d \<noteq> 0" using line by (auto simp: cstring_def)
  have copy: "strtok_copy dest src d 0 m1 = Some (of_nat (length w), m2)"
    unfolding m2_def
  proof (rule strtok_copy_token)
    show "m1 (src + of_nat i) = w ! i" if "i < length w" for i
      using cstring_nth [OF line1, of i] that by (simp add: nth_append)
    show "m1 (src + of_nat (length w)) = d \<or> m1 (src + of_nat (length w)) = 0"
      using cstring_nth [OF line1, of "length w"] by simp
    show "separate dest (length w) src (Suc (length w))"
      using sep(1) by (rule separate_le) auto
  qed (use w w0 len in auto)
  have fr2: "same_outside dest ?l m1 m2"
    unfolding m2_def by (rule same_outside_le [OF same_outside_write_bytes]) (use len in auto)
  have line2: "cstring m2 src ((w @ [d]) @ rest)"
    using cstring_same_outside [OF line1 fr2 sep(1)] by simp
  have del2: "cstring m2 del [d]" by (rule cstring_same_outside [OF del1 fr2 sdel])
  have tok2: "cstring m2 dest w"
    using zero [of "length w"] len w0 write_bytes_nth [of _ w dest m1]
    by (intro cstringI) (auto simp: m2_def write_bytes_outside in_range_def)
  obtain m3 where m3: "strshl src (of_nat (length (w @ [d]))) m2 = Some m3" "cstring m3 src rest"
    "same_outside src (length (w @ [d]) + length rest) m2 m3"
    using strshl_cstring [OF line2] len by auto
  have tok3: "cstring m3 dest w"
    by (rule cstring_same_outside [OF tok2 m3(3) separate_le [OF separate_sym [OF sep(1)]]]) auto
  have del3: "cstring m3 del [d]"
    using sep(3) by (intro cstring_same_outside [OF del2 m3(3)]) (simp add: numeral_2_eq_2)
  have d1: "m1 del = d" "m3 (del + 1) = 0" using del1 del3 by (simp_all add: cstring_Cons)
  have "strtok_loop dest src del 1 m3 = Some m3"
    using d1 by (simp add: strtok_loop.simps [of dest src del 1])
  moreover have "strshl src (of_nat (length w) + 1) m2 = Some m3" using m3(1) by (simp add: ac_simps)
  ultimately have "strtok_loop dest src del 0 m1 = Some m3"
    using d1 copy w0 by (subst strtok_loop.simps) simp
  moreover have "m src \<noteq> 0" using line w w0 by (cases w) (auto simp: cstring_Cons)
  moreover have "m3 dest \<noteq> 0" using tok3 w by (cases w) (auto simp: cstring_Cons)
  ultimately have "strtok dest src del m = Some (dest, m3)"
    by (simp add: strtok_def clear)
  moreover have "\<forall>x. in_range dest ?l x \<or> in_range src ?n x \<or> m3 x = m x"
    using fr1 fr2 m3(3) by (auto simp: same_outside_def)
  ultimately show ?thesis using tok3 m3(2) by blast
qed

text \<open>C32. \<open>strtok\<close> with a one-character delimiter, as the shell calls it: from a line \<open>w d rest\<close>
  it puts the first word \<open>w\<close> into the token buffer, leaves \<open>rest\<close> in the line's own buffer,
  and answers the token's address, provided the token buffer has been blank beyond its old contents.\<close>

theorem strtok_first_token:
  assumes line: "cstring m src (w @ d # rest)" and delim: "cstring m del [d]"
    and w: "w \<noteq> []" "d \<notin> set w" and len: "length (w @ d # rest) < 2147483648"
    and old: "cstring m dest old" "length old \<le> length w"
    and blank: "\<And>i. length old \<le> i \<Longrightarrow> i \<le> length w \<Longrightarrow> m (dest + of_nat i) = 0"
    and sep: "separate dest (Suc (length w)) src (Suc (length (w @ d # rest)))"
      "separate dest (Suc (length w)) del 2" "separate src (length (w @ d # rest)) del 2"
  shows "\<exists>m'. strtok dest src del m = Some (dest, m') \<and> cstring m' dest w \<and> cstring m' src rest"
proof -
  from strtok_token [OF line delim w len old blank sep] obtain m' where
    "strtok dest src del m = Some (dest, m')" "cstring m' dest w" "cstring m' src rest" by blast
  then show ?thesis by blast
qed

theorem strtok_first_token_witness:
  "\<exists>m'. strtok 64 16 48 ((\<lambda>_. 0)(16 := 108, 17 := 115, 18 := 32, 19 := 120, 48 := 32)) = Some (64, m')
    \<and> cstring m' 64 [108, 115] \<and> cstring m' 16 [120]"
proof -
  let ?m = "(\<lambda>_. 0)(16 := 108, 17 := 115, 18 := 32, 19 := 120, 48 := 32) :: memory"
  have blank: "?m (64 + of_nat i) = 0" if "i \<le> length [108, 115 :: u8]" for i
  proof -
    have "i = 0 \<or> i = 1 \<or> i = 2" using that by auto
    then show ?thesis by (elim disjE) simp_all
  qed
  show ?thesis
  proof (rule strtok_first_token [where d = 32 and old = "[]"])
    show "?m (64 + of_nat i) = 0" if "length ([] :: u8 list) \<le> i" "i \<le> length [108, 115 :: u8]" for i
      using blank that(2) .
  qed (simp_all add: cstring_Cons separate_def)
qed

subsection \<open>Facts: trimming\<close>

lemma ltrim_skips:
  "(\<And>i. i < n \<Longrightarrow> isspace (m (a + of_nat i))) \<Longrightarrow> \<not> isspace (m (a + of_nat n)) \<Longrightarrow>
   ltrim m a = Some (a + of_nat n)"
proof (induction n arbitrary: a)
  case 0
  then show ?case by (simp add: ltrim.simps [of m a])
next
  case (Suc n)
  have "isspace (m a)" using Suc.prems(1) [of 0] by simp
  moreover have "ltrim m (a + 1) = Some (a + 1 + of_nat n)"
  proof (rule Suc.IH)
    show "isspace (m (a + 1 + of_nat i))" if "i < n" for i
      using Suc.prems(1) [of "Suc i"] that by (simp add: ac_simps)
  qed (use Suc.prems(2) in \<open>simp add: ac_simps\<close>)
  ultimately show ?case by (simp add: ltrim.simps [of m a] ac_simps)
qed

lemma rtrim_loop_skips:
  "(\<And>i. i < n \<Longrightarrow> isspace (m (a + 1 + of_nat i))) \<Longrightarrow> \<not> isspace (m a) \<Longrightarrow>
   rtrim_loop m (a + 1 + of_nat n) = Some a"
proof (induction n)
  case 0
  then show ?case by (simp add: rtrim_loop.simps [of m "a + 1"])
next
  case (Suc n)
  have "isspace (m (a + 1 + of_nat n))" using Suc.prems(1) [of n] by simp
  moreover have "rtrim_loop m (a + 1 + of_nat n) = Some a" using Suc by simp
  moreover have "a + 1 + of_nat (Suc n) - 1 = a + 1 + of_nat n" by simp
  ultimately show ?case
    by (simp only: rtrim_loop.simps [of m "a + 1 + of_nat (Suc n)"] Let_def if_True)
qed

lemma isspace_0 [simp]: "\<not> isspace 0"
  by (simp add: isspace_def)

text \<open>\<open>trim\<close> on a string with a non-blank core \<open>t\<close> between runs of blanks answers the address of
  the core, cut off right after it; only the byte after the core changes.\<close>

theorem trim_strips:
  assumes s: "cstring m a (ws1 @ t @ ws2)" and t: "t \<noteq> []" "\<not> isspace (hd t)" "\<not> isspace (last t)"
    and ws: "\<And>c. c \<in> set ws1 \<union> set ws2 \<Longrightarrow> isspace c"
  shows "\<exists>m'. trim a m = Some (a + of_nat (length ws1), m') \<and> cstring m' (a + of_nat (length ws1)) t
    \<and> same_outside (a + of_nat (length ws1 + length t)) 1 m m'"
proof -
  let ?b = "a + of_nat (length ws1)"
  have nth: "m (a + of_nat i) = (ws1 @ t @ ws2) ! i" if "i < length (ws1 @ t @ ws2)" for i
    using cstring_nth [OF s that] .
  have l: "ltrim m a = Some ?b"
  proof (rule ltrim_skips)
    show "isspace (m (a + of_nat i))" if "i < length ws1" for i
      using that nth [of i] ws by (simp add: nth_append)
    show "\<not> isspace (m ?b)" using t nth [of "length ws1"] by (simp add: nth_append hd_conv_nth)
  qed
  have s': "cstring m ?b (t @ ws2)"
    using s cstring_end [OF s] nth [of "length ws1 + _"]
    by (intro cstringI) (auto simp: cstring_def nth_append ac_simps)
  have n: "strlen m ?b = Some (of_nat (length t + length ws2))" using strlen_cstring [OF s'] by simp
  let ?e = "?b + of_nat (length t - 1)"
  have e: "?e + 1 = ?b + of_nat (length t)" using t by (cases t) simp_all
  have "rtrim_loop m (?e + 1 + of_nat (length ws2)) = Some ?e"
  proof (rule rtrim_loop_skips)
    show "isspace (m (?e + 1 + of_nat i))" if "i < length ws2" for i
      using that cstring_nth [OF s', of "length t + i"] ws unfolding e by (simp add: nth_append ac_simps)
    show "\<not> isspace (m ?e)"
    proof -
      have "last t = (t @ ws2) ! (length t - 1)" "length t - 1 < length (t @ ws2)"
        using t by (auto simp: nth_append last_conv_nth intro!: trans_less_add1 diff_less)
      then show ?thesis using t cstring_nth [OF s', of "length t - 1"] by simp
    qed
  qed
  then have "rtrim_loop m (?b + of_nat (length t + length ws2)) = Some ?e"
    unfolding e of_nat_add add.assoc [symmetric] .
  then have r: "rtrim ?b m = Some (m(?b + of_nat (length t) := 0))"
    by (simp only: rtrim_def n bind.bind_lunit e)
  have "cstring (m(?b + of_nat (length t) := 0)) ?b t"
    using s' cstring_nth [OF s']
    by (intro cstringI) (auto simp: cstring_def of_nat32_eq_iff nth_append)
  moreover have "same_outside (a + of_nat (length ws1 + length t)) 1 m (m(?b + of_nat (length t) := 0))"
    by (simp add: same_outside_def in_range_def ac_simps)
  ultimately show ?thesis by (simp add: trim_def l r)
qed

theorem trim_strips_witness:
  "\<exists>m'. trim 16 ((\<lambda>_. 0)(16 := 32, 17 := 97, 18 := 10)) = Some (17, m') \<and> cstring m' 17 [97]"
  using trim_strips [of "(\<lambda>_. 0)(16 := 32, 17 := 97, 18 := 10)" 16 "[32]" "[97]" "[10]"]
  by (auto simp: cstring_Cons isspace_def)

text \<open>On an empty string \<open>rtrim\<close> does not stop at the string's first byte: it looks at the bytes
  before it, and when they are blank it walks over them and writes a NUL into memory it was not given.\<close>

theorem rtrim_empty_underrun:
  assumes "cstring m a []" and "isspace (m (a - 1))" and "\<not> isspace (m (a - 2))"
  shows "rtrim a m = Some (m(a - 1 := 0))"
proof -
  have "rtrim_loop m (a - 2 + 1 + of_nat 1) = Some (a - 2)"
    by (rule rtrim_loop_skips) (use assms in \<open>simp_all add: ac_simps\<close>)
  then show ?thesis using strlen_cstring [OF assms(1)] by (simp add: rtrim_def)
qed

theorem rtrim_empty_underrun_witness:
  "rtrim 16 ((\<lambda>_. 0)(14 := 97, 15 := 32)) = Some ((\<lambda>_. 0)(14 := 97, 15 := 0))"
  using rtrim_empty_underrun [of "(\<lambda>_. 0)(14 := 97, 15 := 32)" 16] by (simp add: isspace_def)

end
