(* ===== verification/Initrd.thy ===== *)
theory Initrd
  imports PageMap Tokens
begin

text \<open>
  \<open>io/vfs.h\<close> and \<open>io/initrd.h\<close>: nodes of the virtual file system with their function pointers, and the ram disk
  behind them. Nodes, file headers and the directory entry are C structures in memory, at the offsets of the
  i386 layout. A call through a function pointer that is not one of the ram disk's functions is outside the
  kernel's code and has no result.
\<close>

subsection \<open>Nodes of the virtual file system\<close>

text \<open>Offsets of the members of \<open>fs_node_t\<close>, of size 184; its name is at offset 0. \<open>dirent\<close> has its \<open>ino\<close> at 128.\<close>

abbreviation (input) fs_mask :: u32 where "fs_mask \<equiv> 128"
abbreviation (input) fs_uid :: u32 where "fs_uid \<equiv> 132"
abbreviation (input) fs_gid :: u32 where "fs_gid \<equiv> 136"
abbreviation (input) fs_flags :: u32 where "fs_flags \<equiv> 140"
abbreviation (input) fs_inode :: u32 where "fs_inode \<equiv> 144"
abbreviation (input) fs_length :: u32 where "fs_length \<equiv> 148"
abbreviation (input) fs_impl :: u32 where "fs_impl \<equiv> 152"
abbreviation (input) fs_read :: u32 where "fs_read \<equiv> 156"
abbreviation (input) fs_write :: u32 where "fs_write \<equiv> 160"
abbreviation (input) fs_open :: u32 where "fs_open \<equiv> 164"
abbreviation (input) fs_close :: u32 where "fs_close \<equiv> 168"
abbreviation (input) fs_readdir :: u32 where "fs_readdir \<equiv> 172"
abbreviation (input) fs_finddir :: u32 where "fs_finddir \<equiv> 176"
abbreviation (input) fs_ptr :: u32 where "fs_ptr \<equiv> 180"

definition FS_FILE :: u32 where "FS_FILE = 1"
definition FS_DIRECTORY :: u32 where "FS_DIRECTORY = 2"

record ramdisk = paging +
  initrd_header :: u32
  file_headers :: u32
  initrd_root :: u32
  initrd_mtp :: u32
  root_nodes :: u32
  nroot_nodes :: u32
  fs_root :: u32
  shell_buf :: u32
  shell_size :: u32
  shell_fname :: u32
  dirent :: u32
  mtp_text :: u32
  initrd_text :: u32
  initrd_read_ptr :: u32
  initrd_readdir_ptr :: u32
  initrd_finddir_ptr :: u32

text \<open>The last six are addresses of the kernel image: the static \<open>dirent\<close>, two string literals and three functions.\<close>

type_synonym 's transfer = "u32 \<Rightarrow> u32 \<Rightarrow> u32 \<Rightarrow> u32 \<Rightarrow> 's \<Rightarrow> (u32 \<times> 's) option"
type_synonym 's node_call = "u32 \<Rightarrow> 's \<Rightarrow> 's option"
type_synonym 's lookup_call = "u32 \<Rightarrow> u32 \<Rightarrow> 's \<Rightarrow> (u32 \<times> 's) option"

text \<open>The operations dispatch on a member of the node; \<open>call fp\<close> is the code at address \<open>fp\<close>.\<close>

definition read_fs :: "(u32 \<Rightarrow> 'a machine_scheme transfer) \<Rightarrow> 'a machine_scheme transfer" where
  "read_fs call node offset size' buffer s =
     (let f = load32 (ram s) (node + fs_read) in if f \<noteq> 0 then call f node offset size' buffer s else Some (0, s))"

definition write_fs :: "(u32 \<Rightarrow> 'a machine_scheme transfer) \<Rightarrow> 'a machine_scheme transfer" where
  "write_fs call node offset size' buffer s =
     (let f = load32 (ram s) (node + fs_write) in if f \<noteq> 0 then call f node offset size' buffer s else Some (0, s))"

definition open_fs :: "(u32 \<Rightarrow> 'a machine_scheme node_call) \<Rightarrow> u32 \<Rightarrow> u8 \<Rightarrow> u8 \<Rightarrow> 'a machine_scheme \<Rightarrow> 'a machine_scheme option" where
  "open_fs call node read write s =
     (let f = load32 (ram s) (node + fs_open) in if f \<noteq> 0 then call f node s else Some s)"

definition close_fs :: "(u32 \<Rightarrow> 'a machine_scheme node_call) \<Rightarrow> 'a machine_scheme node_call" where
  "close_fs call node s =
     (let f = load32 (ram s) (node + fs_close) in if f \<noteq> 0 then call f node s else Some s)"

definition readdir_fs :: "(u32 \<Rightarrow> 'a machine_scheme lookup_call) \<Rightarrow> 'a machine_scheme lookup_call" where
  "readdir_fs call node index s =
     (let f = load32 (ram s) (node + fs_readdir)
      in if load32 (ram s) (node + fs_flags) AND 0x7 = FS_DIRECTORY \<and> f \<noteq> 0 then call f node index s else Some (0, s))"

definition finddir_fs :: "(u32 \<Rightarrow> 'a machine_scheme lookup_call) \<Rightarrow> 'a machine_scheme lookup_call" where
  "finddir_fs call node name s =
     (let f = load32 (ram s) (node + fs_finddir)
      in if load32 (ram s) (node + fs_flags) AND 0x7 = FS_DIRECTORY \<and> f \<noteq> 0 then call f node name s else Some (0, s))"

subsection \<open>The ram disk\<close>

text \<open>File headers have 76 bytes: the name at offset 1, the offset of the data at 68 and its length at 72.\<close>

abbreviation (input) header_at :: "'a ramdisk_scheme \<Rightarrow> u32 \<Rightarrow> u32" where
  "header_at s i \<equiv> file_headers s + 76 * i"

abbreviation (input) node_at :: "'a ramdisk_scheme \<Rightarrow> u32 \<Rightarrow> u32" where
  "node_at s i \<equiv> root_nodes s + 184 * i"

definition INITRD_BUFFER_SIZE :: u32 where "INITRD_BUFFER_SIZE = 1048576"

definition initrd_read :: "u32 \<Rightarrow> u32 \<Rightarrow> u32 \<Rightarrow> u32 \<Rightarrow> 'a ramdisk_scheme \<Rightarrow> u32 \<times> 'a ramdisk_scheme" where
  "initrd_read node offset size' buffer s =
     (let header = header_at s (load32 (ram s) (node + fs_inode));
          h_offset = load32 (ram s) (header + 68);
          h_length = load32 (ram s) (header + 72)
      in if offset > h_length then (0, s)
         else let size' = (if offset + size' > h_length then h_length - offset else size')
              in if size' > INITRD_BUFFER_SIZE then (0, s)
                 else (size', s\<lparr>ram := memcpy buffer (h_offset + offset) size' (ram s)\<rparr>))"

definition initrd_readdir :: "u32 \<Rightarrow> u32 \<Rightarrow> 'a ramdisk_scheme \<Rightarrow> (u32 \<times> 'a ramdisk_scheme) option" where
  "initrd_readdir node index s =
     (if node = initrd_root s \<and> index = 0
      then do {
        m \<leftarrow> strcpy (dirent s) (mtp_text s) (ram s);
        let m = m(dirent s + 3 := 0);
        Some (dirent s, s\<lparr>ram := store32 (dirent s + 128) 0 m\<rparr>) }
      else if index - 1 \<ge> nroot_nodes s then Some (0, s)
      else do {
        let entry = node_at s (index - 1);
        m \<leftarrow> strcpy (dirent s) entry (ram s);
        len \<leftarrow> strlen m entry;
        let m = m(dirent s + len := 0);
        Some (dirent s, s\<lparr>ram := store32 (dirent s + 128) (load32 m (entry + fs_inode)) m\<rparr>) })"

fun find_node :: "memory \<Rightarrow> u32 \<Rightarrow> u32 \<Rightarrow> nat list \<Rightarrow> u32 option" where
  "find_node m nodes name [] = Some 0"
| "find_node m nodes name (i # is) = do {
     e \<leftarrow> streq m name (nodes + 184 * of_nat i);
     if e then Some (nodes + 184 * of_nat i) else find_node m nodes name is }"

definition initrd_finddir :: "u32 \<Rightarrow> u32 \<Rightarrow> 'a ramdisk_scheme \<Rightarrow> u32 option" where
  "initrd_finddir node name s = do {
     e \<leftarrow> (if node = initrd_root s then streq (ram s) name (mtp_text s) else Some False);
     if e then Some (initrd_mtp s) else find_node (ram s) (root_nodes s) name [0..<nat (sint (nroot_nodes s))] }"

text \<open>The function pointers of the nodes.\<close>

definition call_read :: "u32 \<Rightarrow> 'a ramdisk_scheme transfer" where
  "call_read f node offset size' buffer s =
     (if f = initrd_read_ptr s then Some (initrd_read node offset size' buffer s) else None)"

definition call_readdir :: "u32 \<Rightarrow> 'a ramdisk_scheme lookup_call" where
  "call_readdir f node index s = (if f = initrd_readdir_ptr s then initrd_readdir node index s else None)"

definition call_finddir :: "u32 \<Rightarrow> 'a ramdisk_scheme lookup_call" where
  "call_finddir f node name s =
     (if f = initrd_finddir_ptr s then map_option (\<lambda>p. (p, s)) (initrd_finddir node name s) else None)"

text \<open>Assignments to members of a structure, in order.\<close>

fun set_members :: "u32 \<Rightarrow> (u32 \<times> u32) list \<Rightarrow> memory \<Rightarrow> memory" where
  "set_members node [] m = m"
| "set_members node ((offset, v) # rest) m = set_members node rest (store32 (node + offset) v m)"

definition dir_members :: "'a ramdisk_scheme \<Rightarrow> (u32 \<times> u32) list" where
  "dir_members s =
     [(fs_length, 0), (fs_inode, 0), (fs_gid, 0), (fs_uid, 0), (fs_mask, 0), (fs_flags, FS_DIRECTORY), (fs_read, 0), (fs_write, 0),
      (fs_open, 0), (fs_close, 0), (fs_readdir, initrd_readdir_ptr s), (fs_finddir, initrd_finddir_ptr s), (fs_ptr, 0), (fs_impl, 0)]"

definition file_members :: "u32 \<Rightarrow> 'a ramdisk_scheme \<Rightarrow> (u32 \<times> u32) list" where
  "file_members i s =
     [(fs_length, load32 (ram s) (header_at s i + 72)), (fs_inode, i), (fs_flags, FS_FILE),
      (fs_read, initrd_read_ptr s), (fs_write, 0), (fs_readdir, 0), (fs_finddir, 0), (fs_open, 0), (fs_close, 0), (fs_impl, 0)]"

definition init_directory :: "u32 \<Rightarrow> u32 \<Rightarrow> 'a ramdisk_scheme \<Rightarrow> 'a ramdisk_scheme option" where
  "init_directory node name s = do {
     m \<leftarrow> strcpy node name (ram s);
     Some (s\<lparr>ram := set_members node (dir_members s) m\<rparr>) }"

definition init_file :: "u32 \<Rightarrow> u32 \<Rightarrow> 'a ramdisk_scheme \<Rightarrow> 'a ramdisk_scheme option" where
  "init_file location i s = do {
     let m = ram s;
     let m = store32 (header_at s i + 68) (load32 m (header_at s i + 68) + location) m;
     m \<leftarrow> strcpy (node_at s i) (header_at s i + 1) m;
     let s = s\<lparr>ram := set_members (node_at s i) [(fs_gid, 0), (fs_uid, 0), (fs_mask, 0)] m\<rparr>;
     Some (s\<lparr>ram := set_members (node_at s i) (file_members i s) (ram s)\<rparr>) }"

text \<open>The loop reads the number of files from the disk in every round.\<close>

partial_function (option) init_files :: "u32 \<Rightarrow> u32 \<Rightarrow> 'a ramdisk_scheme \<Rightarrow> 'a ramdisk_scheme option" where
  "init_files location i s =
     (if i < load32 (ram s) (initrd_header s)
      then Option.bind (init_file location i s) (init_files location (i + 1))
      else Some s)"

definition initrd_init :: "u32 \<Rightarrow> 'a ramdisk_scheme \<Rightarrow> (u32 \<times> 'a ramdisk_scheme) option" where
  "initrd_init location s = do {
     s \<leftarrow> kprintf (bytes ''Initializing ramdisk (0x%X)... '') [VaWord location] s;
     let s = s\<lparr>initrd_header := location\<rparr>;
     let s = s\<lparr>file_headers := location + 4\<rparr>;
     (p, s) \<leftarrow> malloc 184 s;
     let s = s\<lparr>initrd_root := p\<rparr>;
     s \<leftarrow> init_directory (initrd_root s) (initrd_text s) s;
     (p, s) \<leftarrow> malloc 184 s;
     let s = s\<lparr>initrd_mtp := p\<rparr>;
     s \<leftarrow> init_directory (initrd_mtp s) (mtp_text s) s;
     (p, s) \<leftarrow> malloc (184 * load32 (ram s) (initrd_header s)) s;
     let s = s\<lparr>root_nodes := p\<rparr>;
     let s = s\<lparr>nroot_nodes := load32 (ram s) (initrd_header s)\<rparr>;
     s \<leftarrow> kprintf (text_line ''%d files found on ramdisk'') [VaWord (load32 (ram s) (initrd_header s))] s;
     s \<leftarrow> kprintf (text_line ''Max ramdisk read buffer size: %uB'') [VaWord INITRD_BUFFER_SIZE] s;
     s \<leftarrow> init_files location 0 s;
     s \<leftarrow> kprintf (text_line '' Done!'') [] s;
     Some (initrd_root s, s) }"

subsection \<open>Files by name\<close>

abbreviation (input) find_file :: "u32 \<Rightarrow> 'a ramdisk_scheme \<Rightarrow> (u32 \<times> 'a ramdisk_scheme) option" where
  "find_file fname s \<equiv> finddir_fs call_finddir (fs_root s) fname s"

definition read_initrd :: "u32 \<Rightarrow> u32 \<Rightarrow> 'a ramdisk_scheme \<Rightarrow> (u32 \<times> 'a ramdisk_scheme) option" where
  "read_initrd stk fname s = do {
     (fsnode, s) \<leftarrow> find_file fname s;
     if fsnode = 0 then Some (0, s) else do {
     (buf, s) \<leftarrow> malloc INITRD_BUFFER_SIZE s;
     (sz, s) \<leftarrow> read_fs call_read fsnode 0 INITRD_BUFFER_SIZE buf s;
     if sz = 0 then do { s \<leftarrow> free stk buf s; Some (0, s) } else do {
     (ret, s) \<leftarrow> malloc sz s;
     let s = s\<lparr>ram := memmove ret buf sz (ram s)\<rparr>;
     s \<leftarrow> free stk buf s;
     Some (ret, s) } } }"

text \<open>The loop of \<open>cat_initrd\<close>: a line break after every 50 characters.\<close>

fun cat_loop :: "u32 \<Rightarrow> nat list \<Rightarrow> 'a terminal_scheme \<Rightarrow> 'a terminal_scheme option" where
  "cat_loop buf [] s = Some s"
| "cat_loop buf (j # js) s = do {
     s \<leftarrow> kprintf (bytes ''%c'') [VaWord (scast (ram s (buf + of_nat j - 1)))] s;
     s \<leftarrow> (if j mod 50 = 0 then kprintf [10] [] s else Some s);
     cat_loop buf js s }"

definition cat_initrd :: "u32 \<Rightarrow> u32 \<Rightarrow> 'a ramdisk_scheme \<Rightarrow> 'a ramdisk_scheme option" where
  "cat_initrd stk fname s = do {
     s \<leftarrow> kprintf (text_line ''Contents of %s:'') [VaWord fname] s;
     (fsnode, s) \<leftarrow> find_file fname s;
     if fsnode = 0 then kprintf (text_line ''No such file'') [] s else do {
     (buf, s) \<leftarrow> malloc INITRD_BUFFER_SIZE s;
     (sz, s) \<leftarrow> read_fs call_read fsnode 0 INITRD_BUFFER_SIZE buf s;
     s \<leftarrow> (if sz = 0 then do {
             s \<leftarrow> kprintf (text_line ''Invalid file entry or the file is too large.'') [] s;
             free stk buf s }
           else Some s);
     s \<leftarrow> cat_loop buf [1..<Suc (unat sz)] s;
     free stk buf s } }"

partial_function (option) ls_loop :: "u32 \<Rightarrow> 'a ramdisk_scheme \<Rightarrow> 'a ramdisk_scheme option" where
  "ls_loop i s = do {
     (node, s) \<leftarrow> readdir_fs call_readdir (fs_root s) i s;
     if node = 0 then Some s else do {
     (fsnode, s) \<leftarrow> find_file node s;
     let color_out = (if load32 (ram s) (fsnode + fs_flags) = FS_DIRECTORY then 9 else 15);
     s \<leftarrow> cprint (Ptr node) color_out s;
     ls_loop (i + 1) s } }"

definition ls_initrd :: "'a ramdisk_scheme \<Rightarrow> 'a ramdisk_scheme option" where
  "ls_initrd s = map_option term_undo_nl (ls_loop 0 s)"

definition EXEC_ADDR :: u32 where "EXEC_ADDR = 0x100060"

text \<open>The loaded program is \<open>run\<close>, a function of its two arguments.\<close>

definition exec_initrd ::
  "(u32 \<Rightarrow> u32 \<Rightarrow> 'a ramdisk_scheme \<Rightarrow> (u32 \<times> 'a ramdisk_scheme) option) \<Rightarrow> u32 \<Rightarrow> u32 \<Rightarrow> u32 \<Rightarrow> 'a ramdisk_scheme
    \<Rightarrow> (u32 \<times> 'a ramdisk_scheme) option" where
  "exec_initrd run fname arg1 arg2 s = do {
     e \<leftarrow> streq (ram s) fname (shell_fname s);
     let s = (if \<not> e then s\<lparr>ram := memmove (shell_buf s) EXEC_ADDR (shell_size s) (ram s)\<rparr> else s);
     (fsnode, s) \<leftarrow> find_file fname s;
     if fsnode = 0 then Some (0xDEADF113, s) else do {
     (sz, s) \<leftarrow> read_fs call_read fsnode 0 INITRD_BUFFER_SIZE EXEC_ADDR s;
     if sz = 0 then do {
       s \<leftarrow> kprintf (text_line ''Invalid file entry or the file is too large.'') [] s;
       Some (0xDEADF113, s) }
     else do {
     (ret, s) \<leftarrow> run arg1 0 s;
     e \<leftarrow> streq (ram s) fname (shell_fname s);
     let s = (if \<not> e then s\<lparr>ram := memmove EXEC_ADDR (shell_buf s) (shell_size s) (ram s)\<rparr> else s);
     Some (ret, s) } } }"

end
