(* ===== verification/Ramdisk.thy ===== *)
theory Ramdisk
  imports Initrd
begin

text \<open>
  The ram disk as a list of named files: looking a name up finds the first file of that name, reading a node
  gives bytes of its file.
\<close>

subsection \<open>Files on the disk\<close>

type_synonym disk_file = "u8 list \<times> u8 list"

definition file_at :: "u32 \<Rightarrow> disk_file \<Rightarrow> 'a ramdisk_scheme \<Rightarrow> bool" where
  "file_at i f s \<longleftrightarrow>
     cstring (ram s) (node_at s i) (fst f) \<and> load32 (ram s) (node_at s i + fs_inode) = i \<and>
     load32 (ram s) (node_at s i + fs_read) = initrd_read_ptr s \<and>
     length (snd f) < 4294967296 \<and> load32 (ram s) (header_at s i + 72) = of_nat (length (snd f)) \<and>
     bytes_at (ram s) (load32 (ram s) (header_at s i + 68)) (length (snd f)) = snd f"

definition holds_files :: "disk_file list \<Rightarrow> 'a ramdisk_scheme \<Rightarrow> bool" where
  "holds_files fs s \<longleftrightarrow> length fs < 2147483648 \<and> nroot_nodes s = of_nat (length fs) \<and>
     (\<forall>i < length fs. file_at (of_nat i) (fs ! i) s)"

text \<open>A position on the disk for each name.\<close>

definition file_index :: "disk_file list \<Rightarrow> u8 list \<Rightarrow> nat option" where
  "file_index fs n = find (\<lambda>i. fst (fs ! i) = n) [0..<length fs]"

lemma file_index_Some:
  "file_index fs n = Some i \<Longrightarrow> i < length fs \<and> fst (fs ! i) = n \<and> (\<forall>j < i. fst (fs ! j) \<noteq> n)"
  unfolding file_index_def find_Some_iff by (auto simp: less_trans)

lemma file_index_None: "file_index fs n = None \<longleftrightarrow> n \<notin> fst ` set fs"
proof -
  have "fst ` set fs = (\<lambda>i. fst (fs ! i)) ` {..<length fs}" by (auto simp: set_conv_nth image_image)
  then show ?thesis unfolding file_index_def find_None_iff by auto
qed

lemma streq_cstring: "cstring m a s \<Longrightarrow> cstring m b t \<Longrightarrow> streq m a b = Some (s = t)"
  using cmp_loop_cstring [of m a s b t] by (auto simp: streq_def cmp_def)

lemma find_node_spec:
  assumes "cstring m name n" and "\<And>i. i \<in> set is \<Longrightarrow> cstring m (nodes + 184 * of_nat i) (f i)"
  shows "find_node m nodes name is = Some (case find (\<lambda>i. f i = n) is of Some i \<Rightarrow> nodes + 184 * of_nat i | None \<Rightarrow> 0)"
  using assms(2)
proof (induction "is")
  case (Cons i js)
  from Cons.prems [of i] have "streq m name (nodes + 184 * of_nat i) = Some (n = f i)" by (intro streq_cstring [OF assms(1)]) simp
  then show ?case using Cons by auto
qed simp

lemma finddir_files:
  assumes "holds_files fs s" and "cstring (ram s) name n" and "cstring (ram s) (mtp_text s) (bytes ''mtp'')"
  shows "initrd_finddir node name s = Some (
     if node = initrd_root s \<and> n = bytes ''mtp'' then initrd_mtp s
     else case file_index fs n of Some i \<Rightarrow> node_at s (of_nat i) | None \<Rightarrow> 0)"
proof -
  have l: "nat (sint (nroot_nodes s)) = length fs" using assms(1) by (simp add: holds_files_def sint32_small)
  have "find_node (ram s) (root_nodes s) name [0..<length fs] =
      Some (case file_index fs n of Some i \<Rightarrow> node_at s (of_nat i) | None \<Rightarrow> 0)"
    unfolding file_index_def using assms(1) by (intro find_node_spec [OF assms(2)]) (auto simp: holds_files_def file_at_def)
  then show ?thesis using streq_cstring [OF assms(2,3)] by (auto simp: initrd_finddir_def l)
qed

subsection \<open>Reading\<close>

text \<open>How many bytes a read transfers: none past the end or when more than the buffer size remain to be transferred.\<close>

definition read_count :: "nat \<Rightarrow> nat \<Rightarrow> nat \<Rightarrow> nat" where
  "read_count len off n = (let k = min n (len - off) in if off > len \<or> k > 1048576 then 0 else k)"

lemma read_bytes:
  fixes s :: "'a ramdisk_scheme"
  assumes "file_at i f s" and "unat off + unat n < 4294967296"
    and "separate buf (read_count (length (snd f)) (unat off) (unat n)) (load32 (ram s) (header_at s i + 68)) (length (snd f))"
  shows "\<exists>m. initrd_read (node_at s i) off n buf s = (of_nat (read_count (length (snd f)) (unat off) (unat n)), s\<lparr>ram := m\<rparr>) \<and>
    same_outside buf (read_count (length (snd f)) (unat off) (unat n)) (ram s) m \<and>
    bytes_at m buf (read_count (length (snd f)) (unat off) (unat n)) =
      take (read_count (length (snd f)) (unat off) (unat n)) (drop (unat off) (snd f))"
proof -
  define len where "len = length (snd f)"
  define k where "k = read_count len (unat off) (unat n)"
  define src where "src = load32 (ram s) (header_at s i + 68)"
  have len: "load32 (ram s) (header_at s i + 72) = of_nat len" "len < 4294967296" "unat (of_nat len :: u32) = len"
    using assms(1) by (simp_all add: file_at_def len_def)
  have d: "bytes_at (ram s) src len = snd f" using assms(1) by (simp add: file_at_def src_def len_def)
  have i: "load32 (ram s) (node_at s i + fs_inode) = i" using assms(1) by (simp add: file_at_def)
  have add: "unat (off + n) = unat off + unat n" using assms(2) by (simp add: unat32_add)
  have le: "(off > of_nat len) = (len < unat off)" "(off + n > of_nat len) = (len < unat off + unat n)"
    unfolding word_less_nat_alt using len(3) add by simp_all
  define c where "c = (if off + n > of_nat len then of_nat len - off else n)"
  have c: "unat c = min (unat n) (len - unat off)" if "unat off \<le> len"
    using that len(3) add unfolding c_def le by (auto simp: unat32_sub)
  have run: "initrd_read (node_at s i) off n buf s =
      (if len < unat off \<or> unat c > 1048576 then (0, s) else (c, s\<lparr>ram := memcpy buf (src + off) c (ram s)\<rparr>))"
    unfolding initrd_read_def Let_def i len(1) c_def [symmetric] src_def [symmetric] le(1)
    by (simp add: INITRD_BUFFER_SIZE_def word_less_nat_alt)
  show ?thesis unfolding len_def [symmetric] k_def [symmetric]
  proof (cases "len < unat off \<or> unat c > 1048576")
    case True
    then have "k = 0" using c by (auto simp: k_def read_count_def Let_def)
    then show "\<exists>m. initrd_read (node_at s i) off n buf s = (of_nat k, s\<lparr>ram := m\<rparr>) \<and> same_outside buf k (ram s) m \<and>
        bytes_at m buf k = take k (drop (unat off) (snd f))"
      using True by (intro exI [of _ "ram s"]) (simp add: run)
  next
    case False
    then have o: "unat off \<le> len" and k: "k = unat c" using c by (auto simp: k_def read_count_def Let_def)
    have in': "unat off + unat c \<le> len" using c [OF o] o by simp
    have sep: "separate buf (unat c) (src + off) (unat c)"
      using separate_sym [OF separate_sub [OF separate_sym [OF assms(3)], of "unat off" "unat c"]] in' len(2) k
      by (simp add: src_def len_def k_def)
    have b: "bytes_at (ram s) (src + off) (unat c) = take (unat c) (drop (unat off) (snd f))"
      using in' drop_bytes_at [of "unat off" len "ram s" src] take_bytes_at [of "unat c" "len - unat off" "ram s" "src + off"]
      by (simp add: d)
    show "\<exists>m. initrd_read (node_at s i) off n buf s = (of_nat k, s\<lparr>ram := m\<rparr>) \<and> same_outside buf k (ram s) m \<and>
        bytes_at m buf k = take k (drop (unat off) (snd f))"
      using False b bytes_at_memcpy [OF sep, of "ram s"] memcpy_frame [of buf c "ram s" "src + off"]
      by (intro exI [of _ "memcpy buf (src + off) c (ram s)"]) (simp add: run k)
  qed
qed

end
