(* ===== verification/Mount.thy ===== *)
theory Mount
  imports Ramdisk
begin

text \<open>
  Mounting the ram disk: \<open>initrd_init\<close> run on an image with the layout \<open>utils/put_to_ramdisk.c\<close> writes gives a ram
  disk that holds the packed files.
\<close>

subsection \<open>Members of a structure\<close>

lemma members_apart:
  "unat a mod 4 = 0 \<Longrightarrow> unat b mod 4 = 0 \<Longrightarrow> unat a < 184 \<Longrightarrow> unat b < 184 \<Longrightarrow> a \<noteq> b \<Longrightarrow> separate (n + a) 4 (n + b) (4 :: nat)"
  for a b n :: u32
proof -
  assume ab: "unat a mod 4 = 0" "unat b mod 4 = 0" "unat a < 184" "unat b < 184" "a \<noteq> b"
  obtain i j where ij: "unat a = 4 * i" "unat b = 4 * j" using ab(1,2) by (metis dvd_def mod_0_imp_dvd)
  then have "i \<noteq> j" using ab(5) by (auto simp: word_unat_eq_iff)
  then have "4 \<le> unat (a - b) \<and> 4 \<le> unat (b - a)" using ij ab(3,4) unfolding unat32_sub ij by auto
  then show "separate (n + a) 4 (n + b) 4" by (simp add: separate_def)
qed

definition member_offsets :: "(u32 \<times> u32) list \<Rightarrow> bool" where
  "member_offsets ms \<longleftrightarrow> list_all (\<lambda>(off, v). unat off mod 4 = 0 \<and> unat off < 184) ms"

lemma load_set_members:
  "member_offsets ms \<Longrightarrow> unat off mod 4 = 0 \<Longrightarrow> unat off < 184 \<Longrightarrow> off \<notin> fst ` set ms \<Longrightarrow>
   load32 (set_members n ms m) (n + off) = load32 m (n + off)"
proof (induction n ms m rule: set_members.induct)
  case (2 node offset v rest m)
  then show ?case using members_apart [of offset off node] by (auto simp: member_offsets_def load32_store32_other)
qed simp

lemma load_set_member:
  "member_offsets ms \<Longrightarrow> distinct (map fst ms) \<Longrightarrow> (off, v) \<in> set ms \<Longrightarrow> load32 (set_members n ms m) (n + off) = v"
proof (induction n ms m rule: set_members.induct)
  case (2 node offset w rest m)
  show ?case
  proof (cases "(off, v) \<in> set rest")
    case False
    then have "off = offset" "v = w" using 2 by auto
    then show ?thesis using 2 by (simp add: load_set_members member_offsets_def mem_simps)
  qed (use 2 in \<open>simp add: member_offsets_def\<close>)
qed simp

lemma set_members_outside:
  "member_offsets ms \<Longrightarrow> list_all (\<lambda>(off, v). 128 \<le> unat off) ms \<Longrightarrow> \<not> in_range (n + 128) 56 x \<Longrightarrow> set_members n ms m x = m x"
proof (induction n ms m rule: set_members.induct)
  case (2 node offset v rest m)
  have o: "unat offset mod 4 = 0" "unat offset < 184" "128 \<le> unat offset" using "2.prems" by (simp_all add: member_offsets_def)
  then have u: "unat (offset - 128) = unat offset - 128" "unat offset + 4 \<le> 184" by (simp_all add: unat32_sub) presburger
  have "\<not> in_range (node + offset) 4 x"
  proof
    assume "in_range (node + offset) 4 x"
    then have "in_range (node + 128 + of_nat (unat (offset - 128))) 4 x" by simp
    then have "in_range (node + 128) 56 x" by (rule in_range_sub) (use u o in linarith)+
    then show False using "2.prems" by simp
  qed
  then show ?case using 2 by (simp add: member_offsets_def store32_outside)
qed simp

subsection \<open>One file\<close>

text \<open>What \<open>init_file\<close> writes: the offset of the header and the node.\<close>

lemma cstring_agree: "cstring m (of_nat a) s \<Longrightarrow> agree m m' a (a + length s + 1) \<Longrightarrow> cstring m' (of_nat a) s"
  using agree_bytes_at [of m m' a "a + length s + 1" a "Suc (length s)"] by (simp add: cstring_def)

lemma init_file_effect:
  fixes s :: "'a ramdisk_scheme"
  defines "h \<equiv> \<lambda>i. unat (file_headers s) + 76 * i" and "d \<equiv> \<lambda>i. unat (root_nodes s) + 184 * i"
  assumes nm: "cstring (ram s) (of_nat (h i + 1)) name" "length name \<le> 63"
    and lay: "h i + 76 \<le> d i" "d i + 184 \<le> 4294967296"
  shows "\<exists>m. init_file location (of_nat i) s = Some (s\<lparr>ram := m\<rparr>) \<and>
    (\<forall>k < 4294967296. (k < h i + 68 \<or> h i + 72 \<le> k) \<and> (k < d i \<or> d i + 184 \<le> k) \<longrightarrow> m (of_nat k) = ram s (of_nat k)) \<and>
    load32 m (of_nat (h i + 68)) = load32 (ram s) (of_nat (h i + 68)) + location \<and>
    cstring m (of_nat (d i)) name \<and> load32 m (of_nat (d i) + fs_inode) = of_nat i \<and>
    load32 m (of_nat (d i) + fs_read) = initrd_read_ptr s"
proof -
  have H: "header_at s (of_nat i) = of_nat (h i)" and D: "node_at s (of_nat i) = of_nat (d i)" by (simp_all add: h_def d_def)
  define m1 where "m1 = store32 (of_nat (h i + 68)) (load32 (ram s) (of_nat (h i + 68)) + location) (ram s)"
  define m2 where "m2 = write_bytes (of_nat (d i)) (name @ [0]) m1"
  define m3 where "m3 = set_members (of_nat (d i)) [(fs_gid, 0), (fs_uid, 0), (fs_mask, 0)] m2"
  define ms where "ms = file_members (of_nat i) (s\<lparr>ram := m3\<rparr>)"
  define m where "m = set_members (of_nat (d i)) ms m3"
  have c1: "cstring m1 (of_nat (h i + 1)) name"
    unfolding m1_def using lay nm(2) by (intro cstring_agree [OF nm(1)] agree_store32) auto
  have "strcpy (of_nat (d i)) (of_nat (h i + 1)) m1 = Some m2"
    unfolding m2_def
  proof (rule strcpy_cstring [OF c1])
    show "separate (of_nat (d i)) (Suc (length name)) (of_nat (h i + 1)) (Suc (length name))"
      using lay nm(2) by (intro separate_nat) auto
    have "unat (of_nat (d i) :: u32) \<noteq> 0" using lay by simp
    then show "of_nat (d i) \<noteq> (0 :: u32)" by auto
  qed
  then have cp: "strcpy (of_nat (d i)) (of_nat (h i) + 1) m1 = Some m2" by (simp add: add.commute)
  have run: "init_file location (of_nat i) s = Some (s\<lparr>ram := m\<rparr>)"
    using cp unfolding init_file_def Let_def H D addr_simps m1_def [symmetric]
    by (simp add: m_def ms_def m3_def D del: of_nat_add set_members.simps)
  have off: "member_offsets ms" "list_all (\<lambda>(off, v). 128 \<le> unat off) ms" "distinct (map fst ms)"
    by (simp_all add: ms_def file_members_def member_offsets_def)
  have o3: "member_offsets [(fs_gid, 0), (fs_uid, 0), (fs_mask, 0)]" "list_all (\<lambda>(off, v). 128 \<le> unat off) [(fs_gid, 0 :: u32), (fs_uid, 0), (fs_mask, 0)]"
    by (simp_all add: member_offsets_def)
  have m2: "m (of_nat k) = m2 (of_nat k)" if "k < 4294967296" "k < d i + 128 \<or> d i + 184 \<le> k" for k
  proof -
    have n: "\<not> in_range (of_nat (d i) + 128) 56 (of_nat k)" unfolding addr_simps using that lay by (subst in_range_nat) auto
    show ?thesis unfolding m_def m3_def by (simp only: set_members_outside [OF off(1,2) n] set_members_outside [OF o3 n])
  qed
  have m1: "m2 (of_nat k) = m1 (of_nat k)" if "k < 4294967296" "k < d i \<or> d i + length name < k" for k
    unfolding m2_def using that nm(2) lay by (intro write_bytes_outside) (auto simp: in_range_nat)
  have r: "m1 (of_nat k) = ram s (of_nat k)" if "k < 4294967296" "k < h i + 68 \<or> h i + 72 \<le> k" for k
    unfolding m1_def using that lay by (intro store32_outside) (auto simp: in_range_nat simp del: of_nat_add)
  have "cstring m2 (of_nat (d i)) name" using nm c1 bytes_at_write_bytes [of "name @ [0]" "of_nat (d i)" m1]
    by (simp add: m2_def cstring_def)
  then have "cstring m (of_nat (d i)) name"
    by (rule cstring_agree) (use m2 nm(2) lay in \<open>auto simp: agree_def\<close>)
  moreover have "load32 m (of_nat (d i) + fs_inode) = of_nat i" "load32 m (of_nat (d i) + fs_read) = initrd_read_ptr s"
    unfolding m_def by (rule load_set_member [OF off(1,3)]; simp add: ms_def file_members_def)+
  moreover have "load32 m (of_nat (h i + 68)) = load32 (ram s) (of_nat (h i + 68)) + location"
  proof -
    have "agree m1 m (h i + 68) (h i + 72)" using m2 m1 lay by (auto simp: agree_def)
    then show ?thesis using agree_load32 [of m1 m "h i + 68" "h i + 72" "h i + 68"] by (simp add: m1_def mem_simps del: of_nat_add)
  qed
  moreover have "m (of_nat k) = ram s (of_nat k)"
    if "k < 4294967296" "k < h i + 68 \<or> h i + 72 \<le> k" "k < d i \<or> d i + 184 \<le> k" for k
    using m2 [of k] m1 [of k] r [of k] that nm(2) by auto
  ultimately show ?thesis using run by blast
qed

subsection \<open>The image\<close>

text \<open>
  The layout of an image at \<open>L\<close> that ends at \<open>E\<close>: the number of files, 64 headers with name, offset from the start of
  the image and length, then the data.
\<close>

definition image_file :: "memory \<Rightarrow> nat \<Rightarrow> nat \<Rightarrow> nat \<Rightarrow> disk_file \<Rightarrow> nat \<Rightarrow> bool" where
  "image_file m L E j f a \<longleftrightarrow> L + 4868 \<le> a \<and> a + length (snd f) \<le> E \<and> length (fst f) \<le> 63 \<and>
     cstring m (of_nat (L + 4 + 76 * j + 1)) (fst f) \<and>
     load32 m (of_nat (L + 4 + 76 * j + 68)) + of_nat L = of_nat a \<and>
     load32 m (of_nat (L + 4 + 76 * j + 72)) = of_nat (length (snd f)) \<and>
     bytes_at m (of_nat a) (length (snd f)) = snd f"

definition image_at :: "memory \<Rightarrow> nat \<Rightarrow> nat \<Rightarrow> disk_file list \<Rightarrow> bool" where
  "image_at m L E fs \<longleftrightarrow> length fs \<le> 64 \<and> L + 4868 \<le> E \<and> E < 4294967296 \<and> load32 m (of_nat L) = of_nat (length fs) \<and>
     (\<forall>j < length fs. \<exists>a. image_file m L E j (fs ! j) a)"

lemma image_file_agree:
  assumes "image_file m L E j f a" and "j < 64" and "agree m m' (L + 4 + 76 * j) (L + 4 + 76 * j + 76)" and "agree m m' (L + 4868) E"
  shows "image_file m' L E j f a"
proof -
  let ?h = "L + 4 + 76 * j"
  have c: "cstring m (of_nat (?h + 1)) (fst f)" "length (fst f) \<le> 63" using assms(1) by (simp_all add: image_file_def)
  have "cstring m' (of_nat (?h + 1)) (fst f)"
    by (rule cstring_agree [OF c(1)]) (use agree_sub [OF assms(3)] c(2) in auto)
  moreover have "load32 m' (of_nat (?h + 68)) = load32 m (of_nat (?h + 68))" "load32 m' (of_nat (?h + 72)) = load32 m (of_nat (?h + 72))"
    by (rule agree_load32 [OF assms(3)]; simp)+
  moreover have "bytes_at m' (of_nat a) (length (snd f)) = bytes_at m (of_nat a) (length (snd f))"
    using assms(1) by (intro agree_bytes_at [OF assms(4)]) (auto simp: image_file_def)
  ultimately show ?thesis using assms(1) by (simp add: image_file_def del: of_nat_add)
qed

text \<open>A mounted file: its node is filled and the offset of its header is an address.\<close>

definition mounted :: "memory \<Rightarrow> u32 \<Rightarrow> nat \<Rightarrow> nat \<Rightarrow> nat \<Rightarrow> nat \<Rightarrow> disk_file \<Rightarrow> bool" where
  "mounted m rd L E B j f \<longleftrightarrow> (\<exists>a. L + 4868 \<le> a \<and> a + length (snd f) \<le> E \<and> length (fst f) \<le> 63 \<and>
     cstring m (of_nat (B + 184 * j)) (fst f) \<and> load32 m (of_nat (B + 184 * j) + fs_inode) = of_nat j \<and>
     load32 m (of_nat (B + 184 * j) + fs_read) = rd \<and>
     load32 m (of_nat (L + 4 + 76 * j + 68)) = of_nat a \<and>
     load32 m (of_nat (L + 4 + 76 * j + 72)) = of_nat (length (snd f)) \<and>
     bytes_at m (of_nat a) (length (snd f)) = snd f)"

lemma mounted_agree:
  assumes "mounted m rd L E B j f" and "agree m m' (L + 4 + 76 * j) (L + 4 + 76 * j + 76)" and "agree m m' (L + 4868) E"
    and "agree m m' (B + 184 * j) (B + 184 * j + 184)"
  shows "mounted m' rd L E B j f"
proof -
  let ?h = "L + 4 + 76 * j" and ?d = "B + 184 * j"
  from assms(1) obtain a where a: "L + 4868 \<le> a" "a + length (snd f) \<le> E" "length (fst f) \<le> 63"
    "cstring m (of_nat ?d) (fst f)" "load32 m (of_nat ?d + fs_inode) = of_nat j" "load32 m (of_nat ?d + fs_read) = rd"
    "load32 m (of_nat (?h + 68)) = of_nat a" "load32 m (of_nat (?h + 72)) = of_nat (length (snd f))"
    "bytes_at m (of_nat a) (length (snd f)) = snd f" unfolding mounted_def by blast
  have "cstring m' (of_nat ?d) (fst f)"
    by (rule cstring_agree [OF a(4)]) (use agree_sub [OF assms(4)] a(3) in auto)
  moreover have "load32 m' (of_nat (?h + 68)) = load32 m (of_nat (?h + 68))" "load32 m' (of_nat (?h + 72)) = load32 m (of_nat (?h + 72))"
    by (rule agree_load32 [OF assms(2)]; simp)+
  moreover have "load32 m' (of_nat (?d + 144)) = load32 m (of_nat (?d + 144))" "load32 m' (of_nat (?d + 156)) = load32 m (of_nat (?d + 156))"
    by (rule agree_load32 [OF assms(4)]; simp)+
  moreover have "bytes_at m' (of_nat a) (length (snd f)) = bytes_at m (of_nat a) (length (snd f))"
    by (rule agree_bytes_at [OF assms(3) a(1,2)])
  ultimately show ?thesis unfolding mounted_def using a by (intro exI [of _ a]) (simp add: addr_simps del: of_nat_add)
qed

subsection \<open>The loop over the files\<close>

lemma init_files_mount:
  fixes s :: "'a ramdisk_scheme" and L E B :: nat
  assumes "unat (initrd_header s) = L" and "unat (file_headers s) = L + 4" and "unat (root_nodes s) = B"
    and "L + 4868 \<le> E" and "E \<le> B" and "B + 184 * length fs \<le> 4294967296" and "length fs \<le> 64"
    and "load32 (ram s) (of_nat L) = of_nat (length fs)" and "i \<le> length fs"
    and "\<And>j. j < i \<Longrightarrow> mounted (ram s) (initrd_read_ptr s) L E B j (fs ! j)"
    and "\<And>j. i \<le> j \<Longrightarrow> j < length fs \<Longrightarrow> \<exists>a. image_file (ram s) L E j (fs ! j) a"
  shows "\<exists>m. init_files (of_nat L) (of_nat i) s = Some (s\<lparr>ram := m\<rparr>) \<and> (\<forall>j < length fs. mounted m (initrd_read_ptr s) L E B j (fs ! j)) \<and>
    agree (ram s) m 0 (L + 4) \<and> agree (ram s) m (L + 4868) B"
  using assms
proof (induction "length fs - i" arbitrary: i s)
  case 0
  then have i: "i = length fs" by simp
  have h: "initrd_header s = of_nat L" using arg_cong [OF 0(2), of "of_nat :: nat \<Rightarrow> u32"] by simp
  have "init_files (of_nat L) (of_nat i) s = Some s" using 0 by (subst init_files.simps) (simp add: h i)
  then show ?case using 0 i by (intro exI [of _ "ram s"]) simp
next
  case (Suc n)
  note p = Suc.prems
  have i: "i < length fs" "i < 64" using Suc.hyps(2) p(7) by linarith+
  let ?h = "\<lambda>j. L + 4 + 76 * j" and ?d = "\<lambda>j. B + 184 * j"
  have b: "B + 184 * i + 184 \<le> 4294967296" "?h i + 76 \<le> L + 4868" using i p(6) by linarith+
  from p(11) [OF le_refl i(1)] obtain a where im: "image_file (ram s) L E i (fs ! i) a" by blast
  have hd: "unat (file_headers s) + 76 * i = ?h i" "unat (root_nodes s) + 184 * i = ?d i" by (simp_all add: p(2,3))
  note ie = init_file_effect [of s i "fst (fs ! i)" "of_nat L", unfolded hd]
  obtain m where run: "init_file (of_nat L) (of_nat i) s = Some (s\<lparr>ram := m\<rparr>)"
    and fr: "\<And>k. k < 4294967296 \<Longrightarrow> k < ?h i + 68 \<or> ?h i + 72 \<le> k \<Longrightarrow> k < ?d i \<or> ?d i + 184 \<le> k \<Longrightarrow> m (of_nat k) = ram s (of_nat k)"
    and ef: "load32 m (of_nat (?h i + 68)) = load32 (ram s) (of_nat (?h i + 68)) + of_nat L" "cstring m (of_nat (?d i)) (fst (fs ! i))"
      "load32 m (of_nat (?d i) + fs_inode) = of_nat i" "load32 m (of_nat (?d i) + fs_read) = initrd_read_ptr s"
    using ie im p(4,5) b by (auto simp: image_file_def simp del: of_nat_add)
  have ag: "agree (ram s) m x y" if "y \<le> 4294967296" "y \<le> ?h i + 68 \<or> ?h i + 72 \<le> x" "y \<le> ?d i \<or> ?d i + 184 \<le> x" for x y
    unfolding agree_def using fr that by auto
  have "agree (ram s) m (L + 4868) E" using b p(4,5) by (intro ag) linarith+
  note E' = this
  have mi: "mounted m (initrd_read_ptr s) L E B i (fs ! i)"
  proof -
    have "load32 m (of_nat (?h i + 72)) = load32 (ram s) (of_nat (?h i + 72))"
      by (rule agree_load32 [of _ _ "?h i + 72" "?h i + 76"]; (rule ag)?) (use b p(4,5) in linarith)+
    moreover have "bytes_at m (of_nat a) (length (snd (fs ! i))) = snd (fs ! i)"
      using im agree_bytes_at [OF E', of a "length (snd (fs ! i))"] by (simp add: image_file_def)
    ultimately show ?thesis unfolding mounted_def using im ef by (intro exI [of _ a]) (simp add: image_file_def del: of_nat_add)
  qed
  have mj: "mounted m (initrd_read_ptr s) L E B j (fs ! j)" if "j < i" for j
    using p(10) [OF that]
    by (rule mounted_agree) (rule E' | rule ag; use that b p(4,5) i in linarith)+
  have ij: "\<exists>a. image_file m L E j (fs ! j) a" if "Suc i \<le> j" "j < length fs" for j
  proof -
    from p(11) [of j] that obtain c where "image_file (ram s) L E j (fs ! j) c" by auto
    then have "image_file m L E j (fs ! j) c"
      by (rule image_file_agree) (rule E' | (use that p(7) in linarith) | rule ag; use that b p(4,5,7) in linarith)+
    then show ?thesis by blast
  qed
  have hdr: "load32 m (of_nat L) = of_nat (length fs)"
    using agree_load32 [of "ram s" m L "L + 4" L] ag [of "L + 4" L] b p(4,5,8) by simp
  have h: "initrd_header s = of_nat L" using arg_cong [OF p(1), of "of_nat :: nat \<Rightarrow> u32"] by simp
  obtain m' where IH: "init_files (of_nat L) (of_nat (Suc i)) (s\<lparr>ram := m\<rparr>) = Some (s\<lparr>ram := m'\<rparr>)"
    "\<forall>j < length fs. mounted m' (initrd_read_ptr s) L E B j (fs ! j)" "agree m m' 0 (L + 4)" "agree m m' (L + 4868) B"
  proof -
    have n: "n = length fs - Suc i" using Suc.hyps(2) by simp
    have mS: "mounted m (initrd_read_ptr s) L E B j (fs ! j)" if "j < Suc i" for j using mi mj that by (cases "j = i") auto
    have "\<exists>m'. init_files (of_nat L) (of_nat (Suc i)) (s\<lparr>ram := m\<rparr>) = Some (s\<lparr>ram := m, ram := m'\<rparr>) \<and>
      (\<forall>j < length fs. mounted m' (initrd_read_ptr (s\<lparr>ram := m\<rparr>)) L E B j (fs ! j)) \<and>
      agree (ram (s\<lparr>ram := m\<rparr>)) m' 0 (L + 4) \<and> agree (ram (s\<lparr>ram := m\<rparr>)) m' (L + 4868) B"
      by (rule Suc.hyps(1) [OF n]) (use p(1-7) hdr i mS ij in simp_all)
    then show thesis using that by auto
  qed
  have "(of_nat i :: u32) < of_nat (length fs)" using i p(7) by (simp add: word_less_nat_alt)
  then have "init_files (of_nat L) (of_nat i) s = Some (s\<lparr>ram := m'\<rparr>)"
    using IH(1) p(8) run by (subst init_files.simps) (simp add: h add.commute)
  moreover have "agree (ram s) m 0 (L + 4)" "agree (ram s) m (L + 4868) B" using b p(4,5) by (intro ag; linarith)+
  ultimately show ?case using IH(2-4) agree_trans by blast
qed

end
