(* ===== verification/Image.thy ===== *)
theory Image
  imports Mount
begin

text \<open>
  \<open>initrd_init\<close> as a whole, at boot: the memory above the ram disk is handed out by the offset allocator, printing
  touches the screen only. Then the packer \<open>utils/put_to_ramdisk.c\<close> and the round trip from packed files to mounted
  ones.
\<close>

subsection \<open>Steps at boot\<close>

text \<open>What printing and allocating change.\<close>

definition same_disk :: "'a ramdisk_scheme \<Rightarrow> 'a ramdisk_scheme \<Rightarrow> bool" where
  "same_disk s s' \<longleftrightarrow> (\<exists>m t r c u. s' = s\<lparr>ram := m, io := t, term_row := r, term_column := c, mem_unused := u\<rparr>)"

definition boot_step :: "u32 \<Rightarrow> 'a ramdisk_scheme \<Rightarrow> 'a ramdisk_scheme \<Rightarrow> bool" where
  "boot_step n s s' \<longleftrightarrow> term_ok s' \<and> same_disk s s' \<and> mem_unused s' = mem_unused s + n \<and> agree (ram s) (ram s') 0x100000 4294967296"

lemma screen_below: "same_outside 0xB8000 5400 m m' \<Longrightarrow> agree m m' 0x100000 4294967296"
proof -
  assume so: "same_outside 0xB8000 5400 m m'"
  have "m' (of_nat k) = m (of_nat k)" if "0x100000 \<le> k" "k < 4294967296" for k
  proof -
    have "\<not> in_range (of_nat 0xB8000) 5400 (of_nat k)" using that by (subst in_range_nat) auto
    then show ?thesis using so by (simp add: same_outside_def)
  qed
  then show ?thesis by (simp add: agree_def)
qed

lemma print_step:
  fixes s :: "'a ramdisk_scheme"
  assumes "term_ok s" and "render fmt (map plain_meaning args) \<noteq> None"
  obtains s' where "kprintf fmt args s = Some s'" and "boot_step 0 s s'"
proof -
  obtain s' where p: "kprintf fmt args s = Some s'" "quiet s s'" using kprintf_quiet [OF assms(2)] by blast
  from quiet_update [OF p(2)] obtain m t r c where e: "s' = s\<lparr>ram := m, io := t, term_row := r, term_column := c\<rparr>" by blast
  have "s' = s\<lparr>ram := m, io := t, term_row := r, term_column := c, mem_unused := mem_unused s\<rparr>" using e by simp
  then have "same_disk s s'" unfolding same_disk_def by blast
  then show thesis using that [OF p(1)] p(2) assms(1) e screen_below by (auto simp: boot_step_def quiet_def)
qed

lemma malloc_step:
  fixes s :: "'a ramdisk_scheme"
  assumes "term_ok s" and "kernel_mem s = 0"
  obtains s' where "malloc n s = Some (mem_unused s, s')" and "boot_step n s s'"
proof -
  obtain s' where p: "malloc n s = Some (mem_unused s, s')" "quiet (s\<lparr>mem_unused := mem_unused s + n\<rparr>) s'"
    using alloc_plain [of n False s] assms(2) by (auto simp: malloc_def)
  from quiet_update [OF p(2)] obtain m t r c where
    e: "s' = s\<lparr>mem_unused := mem_unused s + n, ram := m, io := t, term_row := r, term_column := c\<rparr>" by blast
  then have "s' = s\<lparr>ram := m, io := t, term_row := r, term_column := c, mem_unused := mem_unused s + n\<rparr>" by simp
  then have "same_disk s s'" unfolding same_disk_def by blast
  then show thesis using that [OF p(1)] p(2) assms(1) e screen_below by (auto simp: boot_step_def quiet_def term_ok_def)
qed

lemma boot_stepD:
  assumes "boot_step n s s'"
  shows "term_ok s'" "mem_unused s' = mem_unused s + n" "agree (ram s) (ram s') 0x100000 4294967296"
    "kernel_mem s' = kernel_mem s" "initrd_header s' = initrd_header s" "file_headers s' = file_headers s"
    "initrd_root s' = initrd_root s" "root_nodes s' = root_nodes s"
    "nroot_nodes s' = nroot_nodes s" "mtp_text s' = mtp_text s" "initrd_text s' = initrd_text s"
    "initrd_read_ptr s' = initrd_read_ptr s" "initrd_finddir_ptr s' = initrd_finddir_ptr s"
    "initrd_readdir_ptr s' = initrd_readdir_ptr s"
  using assms by (auto simp: boot_step_def same_disk_def)

subsection \<open>A directory node\<close>

lemma init_directory_effect:
  fixes s :: "'a ramdisk_scheme"
  assumes "cstring (ram s) (of_nat p) name" and "length name < 128" and "p + length name < d" and "d + 184 \<le> 4294967296"
  obtains m where "init_directory (of_nat d) (of_nat p) s = Some (s\<lparr>ram := m\<rparr>)" and "agree (ram s) m 0 d"
    and "load32 m (of_nat (d + 140)) = FS_DIRECTORY" and "load32 m (of_nat (d + 176)) = initrd_finddir_ptr s"
    and "load32 m (of_nat (d + 172)) = initrd_readdir_ptr s"
proof -
  define m1 where "m1 = write_bytes (of_nat d) (name @ [0]) (ram s)"
  define m where "m = set_members (of_nat d) (dir_members s) m1"
  have "strcpy (of_nat d) (of_nat p) (ram s) = Some m1" unfolding m1_def
  proof (rule strcpy_cstring [OF assms(1)])
    show "separate (of_nat d) (Suc (length name)) (of_nat p) (Suc (length name))" using assms by (intro separate_nat) auto
    have "unat (of_nat d :: u32) \<noteq> 0" using assms by simp
    then show "of_nat d \<noteq> (0 :: u32)" by auto
  qed
  then have run: "init_directory (of_nat d) (of_nat p) s = Some (s\<lparr>ram := m\<rparr>)"
    by (simp add: init_directory_def m_def dir_members_def)
  have off: "member_offsets (dir_members s)" "list_all (\<lambda>(off, v). 128 \<le> unat off) (dir_members s)" "distinct (map fst (dir_members s))"
    by (simp_all add: dir_members_def member_offsets_def)
  have "agree (ram s) m 0 d" unfolding agree_def
  proof (intro allI impI)
    fix k assume k: "0 \<le> k \<and> k < d"
    have n: "\<not> in_range (of_nat d + 128) 56 (of_nat k)" unfolding addr_simps using k assms(4) by (subst in_range_nat) auto
    have "m1 (of_nat k) = ram s (of_nat k)" unfolding m1_def using k assms(2,4) by (intro write_bytes_outside) (auto simp: in_range_nat)
    then show "m (of_nat k) = ram s (of_nat k)" unfolding m_def by (simp only: set_members_outside [OF off(1,2) n])
  qed
  moreover have "load32 m (of_nat d + 140) = FS_DIRECTORY" "load32 m (of_nat d + 176) = initrd_finddir_ptr s"
      "load32 m (of_nat d + 172) = initrd_readdir_ptr s"
    unfolding m_def by (rule load_set_member [OF off(1,3)]; simp add: dir_members_def)+
  ultimately show thesis using that [OF run] by (simp add: addr_simps del: of_nat_add)
qed

subsection \<open>Mounting at boot\<close>

definition text_below :: "memory \<Rightarrow> nat \<Rightarrow> u32 \<Rightarrow> u8 list \<Rightarrow> bool" where
  "text_below m L p str \<longleftrightarrow> cstring m p str \<and> 0x100000 \<le> unat p \<and> unat p + length str < L"

text \<open>The machine when \<open>kmain\<close> calls \<open>initrd_init\<close>: no heap yet, the image between kernel and the memory to be handed out.\<close>

definition boot_image :: "disk_file list \<Rightarrow> nat \<Rightarrow> nat \<Rightarrow> 'a ramdisk_scheme \<Rightarrow> bool" where
  "boot_image fs L E s \<longleftrightarrow> term_ok s \<and> kernel_mem s = 0 \<and> 0x100000 \<le> L \<and> image_at (ram s) L E fs \<and>
     E \<le> unat (mem_unused s) \<and> unat (mem_unused s) + 368 + 184 * length fs < 4294967296 \<and>
     text_below (ram s) L (initrd_text s) (bytes ''initrd'') \<and> text_below (ram s) L (mtp_text s) (bytes ''mtp'')"

text \<open>What a mounted ram disk offers to the kernel: its files, and a root that is a directory.\<close>

definition mounted_disk :: "disk_file list \<Rightarrow> 'a ramdisk_scheme \<Rightarrow> bool" where
  "mounted_disk fs s \<longleftrightarrow> holds_files fs s \<and> cstring (ram s) (mtp_text s) (bytes ''mtp'') \<and>
     load32 (ram s) (initrd_root s + fs_flags) = FS_DIRECTORY \<and> load32 (ram s) (initrd_root s + fs_finddir) = initrd_finddir_ptr s \<and>
     load32 (ram s) (initrd_root s + fs_readdir) = initrd_readdir_ptr s"

lemma text_below_agree: "text_below m L p str \<Longrightarrow> agree m m' 0x100000 L \<Longrightarrow> text_below m' L p str"
proof -
  assume b: "text_below m L p str" and ag: "agree m m' 0x100000 L"
  have "cstring m (of_nat (unat p)) str" using b by (simp add: text_below_def)
  then have "cstring m' (of_nat (unat p)) str"
    by (rule cstring_agree) (rule agree_sub [OF ag]; use b in \<open>simp add: text_below_def\<close>)
  then show ?thesis using b by (simp add: text_below_def)
qed

lemma mount_messages:
  "render (bytes ''Initializing ramdisk (0x%X)... '') (map plain_meaning [VaWord w]) \<noteq> None"
  "render (text_line ''%d files found on ramdisk'') (map plain_meaning [VaWord w]) \<noteq> None"
  "render (text_line ''Max ramdisk read buffer size: %uB'') (map plain_meaning [VaWord w]) \<noteq> None"
  "render (text_line '' Done!'') (map plain_meaning []) \<noteq> None"
  by (simp_all add: bytes_def text_line_def)

lemma init_directory_text:
  fixes s :: "'a ramdisk_scheme"
  assumes "text_below (ram s) L p str" and "length str < 128" and "L \<le> d" and "d + 184 \<le> 4294967296"
  obtains m where "init_directory (of_nat d) p s = Some (s\<lparr>ram := m\<rparr>)" and "agree (ram s) m 0 d"
    and "load32 m (of_nat (d + 140)) = FS_DIRECTORY" and "load32 m (of_nat (d + 176)) = initrd_finddir_ptr s"
    and "load32 m (of_nat (d + 172)) = initrd_readdir_ptr s"
  by (rule init_directory_effect [of s "unat p" str d]) (use assms that in \<open>auto simp: text_below_def\<close>)

text \<open>The nodes before the loop over the files.\<close>

lemma initrd_init_nodes:
  fixes s :: "'a ramdisk_scheme"
  assumes bi: "boot_image fs L E s" and U: "U = unat (mem_unused s)"
  obtains s' where "initrd_init (of_nat L) s = do {
      s \<leftarrow> init_files (of_nat L) 0 s';
      s \<leftarrow> kprintf (text_line '' Done!'') [] s;
      Some (initrd_root s, s) }"
    and "term_ok s'" and "agree (ram s) (ram s') 0x100000 U" and "initrd_root s' = of_nat U" and "root_nodes s' = of_nat (U + 368)"
    and "initrd_header s' = of_nat L" and "file_headers s' = of_nat (L + 4)" and "nroot_nodes s' = of_nat (length fs)"
    and "mtp_text s' = mtp_text s" and "initrd_read_ptr s' = initrd_read_ptr s" and "initrd_finddir_ptr s' = initrd_finddir_ptr s"
    and "load32 (ram s') (of_nat (U + 140)) = FS_DIRECTORY" and "load32 (ram s') (of_nat (U + 176)) = initrd_finddir_ptr s'"
    and "load32 (ram s') (of_nat (U + 172)) = initrd_readdir_ptr s'"
proof -
  have h: "term_ok s" "kernel_mem s = 0" "0x100000 \<le> L" "image_at (ram s) L E fs" "E \<le> U" "U + 368 + 184 * length fs < 4294967296"
    "text_below (ram s) L (initrd_text s) (bytes ''initrd'')" "text_below (ram s) L (mtp_text s) (bytes ''mtp'')"
    using bi unfolding boot_image_def U by simp_all
  have LE: "L + 4868 \<le> E" "length fs \<le> 64" "load32 (ram s) (of_nat L) = of_nat (length fs)" using h(4) by (simp_all add: image_at_def)
  have u: "mem_unused s = of_nat U" by (simp add: U)
  obtain s1 where s1: "kprintf (bytes ''Initializing ramdisk (0x%X)... '') [VaWord (of_nat L)] s = Some s1" "boot_step 0 s s1"
    by (rule print_step [OF h(1) mount_messages(1)])
  define s2 where "s2 = s1\<lparr>initrd_header := of_nat L, file_headers := of_nat L + 4\<rparr>"
  have k2: "term_ok s2" "kernel_mem s2 = 0" "mem_unused s2 = of_nat U" "agree (ram s) (ram s2) 0x100000 4294967296"
    "initrd_text s2 = initrd_text s" "mtp_text s2 = mtp_text s"
    "initrd_read_ptr s2 = initrd_read_ptr s" "initrd_finddir_ptr s2 = initrd_finddir_ptr s"
    using boot_stepD [OF s1(2)] h(2) u by (simp_all add: s2_def term_ok_def)
  have tx: "text_below (ram s2) L (initrd_text s2) (bytes ''initrd'')"
    using text_below_agree [OF h(7) agree_sub [OF k2(4)]] h(6) LE h(5) by (simp add: k2)
  obtain s3 where s3: "malloc 184 s2 = Some (of_nat U, s3)" "boot_step 184 s2 s3"
    by (rule malloc_step [OF k2(1,2), of 184]) (simp add: k2)
  note k3 = boot_stepD [OF s3(2)]
  define s4 where "s4 = s3\<lparr>initrd_root := of_nat U\<rparr>"
  have g4: "agree (ram s) (ram s4) 0x100000 4294967296" using agree_trans [OF k2(4) k3(3)] by (simp add: s4_def)
  have tx4: "text_below (ram s4) L (initrd_text s) (bytes ''initrd'')" "text_below (ram s4) L (mtp_text s) (bytes ''mtp'')"
    by (rule text_below_agree [OF h(7) agree_sub [OF g4]] text_below_agree [OF h(8) agree_sub [OF g4]]; use h(5,6) LE in simp)+
  obtain m5 where m5: "init_directory (of_nat U) (initrd_text s) s4 = Some (s4\<lparr>ram := m5\<rparr>)" "agree (ram s4) m5 0 U"
    "load32 m5 (of_nat (U + 140)) = FS_DIRECTORY" "load32 m5 (of_nat (U + 176)) = initrd_finddir_ptr s4"
    "load32 m5 (of_nat (U + 172)) = initrd_readdir_ptr s4"
    by (rule init_directory_text [OF tx4(1), of U]) (use h(5,6) LE in \<open>auto simp: bytes_def\<close>)
  define s5 where "s5 = s4\<lparr>ram := m5\<rparr>"
  have k5: "term_ok s5" "kernel_mem s5 = 0" "mem_unused s5 = of_nat (U + 184)"
    using k3 k2 by (simp_all add: s5_def s4_def term_ok_def add.commute)
  obtain s6 where s6: "malloc 184 s5 = Some (of_nat (U + 184), s6)" "boot_step 184 s5 s6"
    by (rule malloc_step [OF k5(1,2), of 184]) (simp add: k5 del: of_nat_add)
  note k6 = boot_stepD [OF s6(2)]
  define s7 where "s7 = s6\<lparr>initrd_mtp := of_nat (U + 184)\<rparr>"
  have g7: "agree (ram s) (ram s7) 0x100000 U"
    using g4 m5(2) k6(3) h(6) by (simp add: agree_def s7_def s5_def)
  have tx7: "text_below (ram s7) L (mtp_text s) (bytes ''mtp'')"
    by (rule text_below_agree [OF h(8) agree_sub [OF g7]]) (use h(5,6) LE in simp_all)
  obtain m8 where m8: "init_directory (of_nat (U + 184)) (mtp_text s) s7 = Some (s7\<lparr>ram := m8\<rparr>)" "agree (ram s7) m8 0 (U + 184)"
    by (rule init_directory_text [OF tx7, of "U + 184"]) (use h(5,6) LE in \<open>auto simp: bytes_def\<close>)
  define s8 where "s8 = s7\<lparr>ram := m8\<rparr>"
  have g8: "agree (ram s) (ram s8) 0x100000 U" "agree m5 (ram s8) 0x100000 (U + 184)"
    using g7 k6(3) m8(2) h(6) by (simp_all add: agree_def s8_def s7_def s5_def)
  have k8: "term_ok s8" "kernel_mem s8 = 0" "mem_unused s8 = of_nat (U + 368)" "initrd_header s8 = of_nat L"
    using k6 k5 k3 k2 by (simp_all add: s8_def s7_def s5_def s4_def s2_def term_ok_def add.commute)
  have nf: "load32 (ram t) (of_nat L) = of_nat (length fs)" if "agree (ram s) (ram t) 0x100000 U" for t :: "'a ramdisk_scheme"
    using agree_load32 [OF that, of L] LE h(3,5) by simp
  obtain s9 where s9: "malloc (184 * of_nat (length fs)) s8 = Some (of_nat (U + 368), s9)" "boot_step (184 * of_nat (length fs)) s8 s9"
    by (rule malloc_step [OF k8(1,2), of "184 * of_nat (length fs)"]) (simp add: k8 del: of_nat_add)
  note k9 = boot_stepD [OF s9(2)]
  have g9: "agree (ram s) (ram s9) 0x100000 U" "agree m5 (ram s9) 0x100000 (U + 184)"
    using g8 k9(3) h(6) by (simp_all add: agree_def)
  define s10 where "s10 = s9\<lparr>root_nodes := of_nat (U + 368), nroot_nodes := of_nat (length fs)\<rparr>"
  have k10: "term_ok s10" using k9(1) by (simp add: s10_def term_ok_def)
  obtain s11 where s11: "kprintf (text_line ''%d files found on ramdisk'') [VaWord (of_nat (length fs))] s10 = Some s11" "boot_step 0 s10 s11"
    by (rule print_step [OF k10 mount_messages(2)])
  obtain s12 where s12: "kprintf (text_line ''Max ramdisk read buffer size: %uB'') [VaWord INITRD_BUFFER_SIZE] s11 = Some s12" "boot_step 0 s11 s12"
    by (rule print_step [OF boot_stepD(1) [OF s11(2)] mount_messages(3)])
  note k11 = boot_stepD [OF s11(2)] and k12 = boot_stepD [OF s12(2)]
  have g12: "agree (ram s) (ram s12) 0x100000 U" "agree m5 (ram s12) 0x100000 (U + 184)"
    using g9 k11(3) k12(3) h(6) by (simp_all add: agree_def s10_def)
  show thesis
  proof
    show "initrd_init (of_nat L) s = do {
      s \<leftarrow> init_files (of_nat L) 0 s12;
      s \<leftarrow> kprintf (text_line '' Done!'') [] s;
      Some (initrd_root s, s) }"
      using s1(1) s3(1) m5(1) s6(1) m8(1) s9(1) s11(1) s12(1) nf [OF g8(1)] nf [OF g9(1)] k8(4)
      unfolding initrd_init_def Let_def
      by (simp add: s2_def s4_def s5_def s7_def s8_def s10_def boot_stepD [OF s1(2)] k3 k6 k9 k11 k12 del: of_nat_add)
    show "load32 (ram s12) (of_nat (U + 140)) = FS_DIRECTORY" "load32 (ram s12) (of_nat (U + 176)) = initrd_finddir_ptr s12"
      "load32 (ram s12) (of_nat (U + 172)) = initrd_readdir_ptr s12"
      using agree_load32 [OF g12(2), of "U + 140"] agree_load32 [OF g12(2), of "U + 176"] agree_load32 [OF g12(2), of "U + 172"] m5(3-5) h(3,5) LE
      by (simp_all add: s4_def s5_def s7_def s8_def s10_def k6 k9 k11 k12 del: of_nat_add)
  qed (use g12 k12 k11 k9 k6 k3 k2 in \<open>simp_all add: s2_def s4_def s5_def s7_def s8_def s10_def\<close>)
qed

lemma mounted_file_at:
  assumes "mounted (ram s) (initrd_read_ptr s) L E B j f" and "file_headers s = of_nat (L + 4)" and "root_nodes s = of_nat B" and "E < 4294967296"
  shows "file_at (of_nat j) f s"
proof -
  have H: "header_at s (of_nat j) = of_nat (L + 4 + 76 * j)" "node_at s (of_nat j) = of_nat (B + 184 * j)" by (simp_all add: assms)
  from assms(1) show ?thesis unfolding mounted_def file_at_def H using assms(4) by (auto simp: addr_simps simp del: of_nat_add)
qed

lemma initrd_init_mounts:
  fixes s :: "'a ramdisk_scheme"
  assumes "boot_image fs L E s"
  obtains s' where "initrd_init (of_nat L) s = Some (initrd_root s', s')" and "mounted_disk fs s'"
    and "initrd_read_ptr s' = initrd_read_ptr s" and "initrd_finddir_ptr s' = initrd_finddir_ptr s"
proof -
  define U where "U = unat (mem_unused s)"
  obtain s1 where s1: "initrd_init (of_nat L) s = do {
      s \<leftarrow> init_files (of_nat L) 0 s1;
      s \<leftarrow> kprintf (text_line '' Done!'') [] s;
      Some (initrd_root s, s) }" "term_ok s1" and g: "agree (ram s) (ram s1) 0x100000 U"
    and f: "initrd_root s1 = of_nat U" "root_nodes s1 = of_nat (U + 368)" "initrd_header s1 = of_nat L" "file_headers s1 = of_nat (L + 4)"
      "nroot_nodes s1 = of_nat (length fs)" "mtp_text s1 = mtp_text s" "initrd_read_ptr s1 = initrd_read_ptr s"
      "initrd_finddir_ptr s1 = initrd_finddir_ptr s"
    and d: "load32 (ram s1) (of_nat (U + 140)) = FS_DIRECTORY" "load32 (ram s1) (of_nat (U + 176)) = initrd_finddir_ptr s1"
      "load32 (ram s1) (of_nat (U + 172)) = initrd_readdir_ptr s1"
    by (rule initrd_init_nodes [OF assms U_def])
  have h: "0x100000 \<le> L" "E \<le> U" "U + 368 + 184 * length fs < 4294967296" "text_below (ram s) L (mtp_text s) (bytes ''mtp'')"
    "L + 4868 \<le> E" "length fs \<le> 64" "E < 4294967296" "load32 (ram s) (of_nat L) = of_nat (length fs)"
    and im: "\<And>j. j < length fs \<Longrightarrow> \<exists>a. image_file (ram s) L E j (fs ! j) a"
    using assms by (simp_all add: boot_image_def image_at_def U_def)
  have "\<exists>m. init_files (of_nat L) (of_nat 0) s1 = Some (s1\<lparr>ram := m\<rparr>) \<and>
      (\<forall>j < length fs. mounted m (initrd_read_ptr s1) L E (U + 368) j (fs ! j)) \<and>
      agree (ram s1) m 0 (L + 4) \<and> agree (ram s1) m (L + 4868) (U + 368)"
  proof (rule init_files_mount)
    show "load32 (ram s1) (of_nat L) = of_nat (length fs)" using agree_load32 [OF g, of L] h by simp
    show "\<exists>a. image_file (ram s1) L E j (fs ! j) a" if "j < length fs" for j
    proof -
      from im [OF that] obtain a where "image_file (ram s) L E j (fs ! j) a" by blast
      then have "image_file (ram s1) L E j (fs ! j) a"
        by (rule image_file_agree) ((rule agree_sub [OF g])?; use that h in linarith)+
      then show ?thesis by blast
    qed
  qed (use h f in \<open>simp_all del: of_nat_add\<close>)
  then obtain m where m: "init_files (of_nat L) 0 s1 = Some (s1\<lparr>ram := m\<rparr>)"
    "\<And>j. j < length fs \<Longrightarrow> mounted m (initrd_read_ptr s1) L E (U + 368) j (fs ! j)"
    "agree (ram s1) m 0 (L + 4)" "agree (ram s1) m (L + 4868) (U + 368)" by auto
  have tk: "term_ok (s1\<lparr>ram := m\<rparr>)" using s1(2) by (simp add: term_ok_def)
  obtain s2 where s2: "kprintf (text_line '' Done!'') [] (s1\<lparr>ram := m\<rparr>) = Some s2" "boot_step 0 (s1\<lparr>ram := m\<rparr>) s2"
    by (rule print_step [OF tk mount_messages(4)])
  note k = boot_stepD [OF s2(2), simplified]
  have run: "initrd_init (of_nat L) s = Some (initrd_root s2, s2)" using s1(1) m(1) s2(1) by simp
  have "file_at (of_nat j) (fs ! j) s2" if "j < length fs" for j
  proof (rule mounted_file_at)
    show "mounted (ram s2) (initrd_read_ptr s2) L E (U + 368) j (fs ! j)" unfolding k
      by (rule mounted_agree [OF m(2) [OF that]]; rule agree_sub [OF k(3)]; use that h in linarith)
  qed (use k f h in simp_all)
  then have hf: "holds_files fs s2" using h f k by (simp add: holds_files_def)
  have ag: "agree (ram s1) (ram s2) (L + 4868) (U + 368)" "agree (ram s1) (ram s2) 0x100000 (L + 4)"
    using m(3,4) k(3) h by (simp_all add: agree_def)
  have "text_below (ram s2) L (mtp_text s2) (bytes ''mtp'')"
    using text_below_agree [OF text_below_agree [OF h(4) agree_sub [OF g]] agree_sub [OF ag(2)]] h f k by simp
  moreover have "load32 (ram s2) (of_nat (U + 140)) = FS_DIRECTORY" "load32 (ram s2) (of_nat (U + 176)) = initrd_finddir_ptr s2"
      "load32 (ram s2) (of_nat (U + 172)) = initrd_readdir_ptr s2"
    using agree_load32 [OF ag(1), of "U + 140"] agree_load32 [OF ag(1), of "U + 176"] agree_load32 [OF ag(1), of "U + 172"] d h k
    by (simp_all del: of_nat_add)
  ultimately have "mounted_disk fs s2" using hf f k by (simp add: mounted_disk_def text_below_def addr_simps del: of_nat_add)
  then show thesis using that run f k by simp
qed

end
