(* ===== verification/Packer.thy ===== *)
theory Packer
  imports Image
begin

text \<open>
  \<open>utils/put_to_ramdisk.c\<close>, the host program that packs files into a ram disk image, and the round trip: what it
  packs is what the kernel mounts and reads.
\<close>

subsection \<open>Packing\<close>

text \<open>
  An argument pair is the contents of the source file, absent when it cannot be opened, and the name on the disk.
  The array of headers is a host memory of its own from address 0, with arbitrary initial contents.
\<close>

type_synonym pack_arg = "u8 list option \<times> u8 list"

fun pack_headers :: "nat \<Rightarrow> u32 \<Rightarrow> pack_arg list \<Rightarrow> memory \<Rightarrow> memory option" where
  "pack_headers i off [] m = Some m"
| "pack_headers i off ((src, name) # args) m =
     (let h = of_nat (76 * i);
          m = write_bytes (h + 1) (name @ [0]) m;
          m = store32 (h + 68) off m
      in case src of None \<Rightarrow> None
         | Some content \<Rightarrow>
             let m = store32 (h + 72) (of_nat (length content)) m;
                 off = off + of_nat (length content);
                 m = m(h := 0xBF)
             in pack_headers (Suc i) off args m)"

text \<open>\<open>argc\<close> is declared as a \<open>char\<close>.\<close>

definition nheaders :: "nat \<Rightarrow> int" where
  "nheaders argc = (sint (of_nat argc :: u8) - 1) sdiv 2"

definition word_bytes :: "u32 \<Rightarrow> u8 list" where
  "word_bytes w = bytes_at (store32 0 w (\<lambda>_. 0)) 0 4"

definition put_to_ramdisk :: "nat \<Rightarrow> pack_arg list \<Rightarrow> memory \<Rightarrow> u8 list option" where
  "put_to_ramdisk argc args headers =
     (let n = nheaders argc;
          args = take (nat n) args;
          off = 76 * 64 + 4
      in map_option
           (\<lambda>headers. word_bytes (of_int n) @ bytes_at headers 0 (76 * 64) @ concat (map (\<lambda>(src, name). case src of Some content \<Rightarrow> content | None \<Rightarrow> []) args))
           (pack_headers 0 off args headers))"

subsection \<open>The headers\<close>

definition packed_header :: "memory \<Rightarrow> nat \<Rightarrow> nat \<Rightarrow> disk_file \<Rightarrow> bool" where
  "packed_header m i off f \<longleftrightarrow> cstring m (of_nat (76 * i + 1)) (fst f) \<and> load32 m (of_nat (76 * i + 68)) = of_nat off \<and>
     load32 m (of_nat (76 * i + 72)) = of_nat (length (snd f))"

abbreviation (input) arg_of :: "disk_file \<Rightarrow> pack_arg" where
  "arg_of f \<equiv> (Some (snd f), fst f)"

definition data_before :: "disk_file list \<Rightarrow> nat \<Rightarrow> nat" where
  "data_before fs i = sum_list (map (length \<circ> snd) (take i fs))"

definition good_name :: "u8 list \<Rightarrow> bool" where
  "good_name n \<longleftrightarrow> length n \<le> 63 \<and> 0 \<notin> set n"

lemma pack_one:
  fixes m :: memory and off :: u32
  assumes "good_name (fst f)" and "i < 64"
  defines "h \<equiv> of_nat (76 * i) :: u32"
  defines "m' \<equiv> (store32 (h + 72) (of_nat (length (snd f))) (store32 (h + 68) off (write_bytes (h + 1) (fst f @ [0]) m)))(h := 0xBF)"
  shows "cstring m' (of_nat (76 * i + 1)) (fst f)" and "load32 m' (of_nat (76 * i + 68)) = off"
    and "load32 m' (of_nat (76 * i + 72)) = of_nat (length (snd f))" and "agree m m' 0 (76 * i)"
proof -
  define m1 where "m1 = write_bytes (of_nat (76 * i + 1)) (fst f @ [0]) m"
  define m2 where "m2 = store32 (of_nat (76 * i + 68)) off m1"
  define m3 where "m3 = store32 (of_nat (76 * i + 72)) (of_nat (length (snd f))) m2"
  have m': "m' = m3(of_nat (76 * i) := 0xBF)" unfolding m'_def h_def m3_def m2_def m1_def addr_simps by (simp add: add.commute)
  have n: "length (fst f) \<le> 63" "0 \<notin> set (fst f)" using assms(1) by (simp_all add: good_name_def)
  have up: "m' (of_nat k) = m3 (of_nat k)" if "k \<noteq> 76 * i" "k < 4294967296" for k
    using that assms(2) unfolding m' by (simp add: of_nat32_eq_iff del: of_nat_mult)
  have a3: "agree m3 m' (76 * i + 1) 4294967296" using up by (simp add: agree_def)
  have c1: "cstring m1 (of_nat (76 * i + 1)) (fst f)" using n bytes_at_write_bytes [of "fst f @ [0]" "of_nat (76 * i + 1)" m]
    by (simp add: m1_def cstring_def)
  have "agree m1 m3 (76 * i + 1) (76 * i + 68)"
    using assms(2) unfolding m3_def m2_def by (intro agree_trans [OF agree_store32 agree_store32]) auto
  then have "agree m1 m' (76 * i + 1) (76 * i + 68)" using agree_trans agree_sub [OF a3] assms(2) by fastforce
  then show "cstring m' (of_nat (76 * i + 1)) (fst f)" by (rule cstring_agree [OF c1 agree_sub]) (use n in auto)
  have "load32 m3 (of_nat (76 * i + 68)) = off" "load32 m3 (of_nat (76 * i + 72)) = of_nat (length (snd f))"
    using assms(2) separate_nat [of "76 * i + 72" 4 "76 * i + 68" 4] by (simp_all add: m3_def m2_def mem_simps del: of_nat_add of_nat_mult)
  moreover have "load32 m' (of_nat (76 * i + 68)) = load32 m3 (of_nat (76 * i + 68))" "load32 m' (of_nat (76 * i + 72)) = load32 m3 (of_nat (76 * i + 72))"
    by (rule agree_load32 [OF a3]; use assms(2) in simp)+
  ultimately show "load32 m' (of_nat (76 * i + 68)) = off" "load32 m' (of_nat (76 * i + 72)) = of_nat (length (snd f))" by simp_all
  have "m1 (of_nat k) = m (of_nat k)" if "k < 76 * i" for k
  proof -
    have "\<not> in_range (of_nat (76 * i + 1)) (length (fst f @ [0])) (of_nat k)" using that n assms(2) by (subst in_range_nat) auto
    then show ?thesis unfolding m1_def by (rule write_bytes_outside) (use n in simp)
  qed
  then have "agree m m1 0 (76 * i)" by (simp add: agree_def)
  moreover have "agree m1 m3 0 (76 * i)"
    using assms(2) unfolding m3_def m2_def by (intro agree_trans [OF agree_store32 agree_store32]) auto
  moreover have "agree m3 m' 0 (76 * i)" using up assms(2) by (simp add: agree_def)
  ultimately show "agree m m' 0 (76 * i)" using agree_trans by blast
qed

lemma packed_header_agree: "packed_header m i off f \<Longrightarrow> good_name (fst f) \<Longrightarrow> agree m m' (76 * i) (76 * i + 76) \<Longrightarrow> packed_header m' i off f"
proof -
  assume p: "packed_header m i off f" and g: "good_name (fst f)" and ag: "agree m m' (76 * i) (76 * i + 76)"
  have c: "cstring m (of_nat (76 * i + 1)) (fst f)" using p by (simp add: packed_header_def)
  have "cstring m' (of_nat (76 * i + 1)) (fst f)"
    by (rule cstring_agree [OF c agree_sub [OF ag]]) (use g in \<open>simp_all add: good_name_def\<close>)
  moreover have "load32 m' (of_nat (76 * i + 68)) = load32 m (of_nat (76 * i + 68))" "load32 m' (of_nat (76 * i + 72)) = load32 m (of_nat (76 * i + 72))"
    by (rule agree_load32 [OF ag]; simp)+
  ultimately show "packed_header m' i off f" using p by (simp add: packed_header_def del: of_nat_add of_nat_mult)
qed

lemma pack_headers_spec:
  "i + length fs \<le> 64 \<Longrightarrow> \<forall>f \<in> set fs. good_name (fst f) \<Longrightarrow>
   \<exists>m'. pack_headers i (of_nat off) (map arg_of fs) m = Some m' \<and> agree m m' 0 (76 * i) \<and>
     (\<forall>j < length fs. packed_header m' (i + j) (off + data_before fs j) (fs ! j))"
proof (induction fs arbitrary: i off m)
  case (Cons f fs)
  define h :: u32 where "h = of_nat (76 * i)"
  define m1 where "m1 = (store32 (h + 72) (of_nat (length (snd f))) (store32 (h + 68) (of_nat off) (write_bytes (h + 1) (fst f @ [0]) m)))(h := 0xBF)"
  have g: "good_name (fst f)" "i < 64" using Cons.prems by simp_all
  note p = pack_one [OF g, where off = "of_nat off" and m = m, folded h_def, folded m1_def]
  obtain m' where IH: "pack_headers (Suc i) (of_nat (off + length (snd f))) (map arg_of fs) m1 = Some m'" "agree m1 m' 0 (76 * Suc i)"
    "\<And>j. j < length fs \<Longrightarrow> packed_header m' (Suc i + j) (off + length (snd f) + data_before fs j) (fs ! j)"
    using Cons.IH [of "Suc i" "off + length (snd f)" m1] Cons.prems by auto
  have "packed_header m1 i off f" using p by (simp add: packed_header_def del: of_nat_add of_nat_mult)
  then have "packed_header m' i off f" by (rule packed_header_agree [OF _ g(1)]) (use agree_sub [OF IH(2)] in simp)
  then have "packed_header m' (i + j) (off + data_before (f # fs) j) ((f # fs) ! j)" if "j < Suc (length fs)" for j
    using IH(3) [of "j - 1"] that by (cases j) (simp_all add: data_before_def add.assoc)
  moreover have "pack_headers i (of_nat off) (map arg_of (f # fs)) m = Some m'"
    using IH(1) by (simp add: m1_def h_def Let_def)
  moreover have "agree m m' 0 (76 * i)" using agree_trans [OF p(4) agree_sub [OF IH(2)]] by simp
  ultimately show ?case by auto
qed auto

text \<open>The bytes of the image where the kernel finds them.\<close>

lemma load32_shift: "(\<And>k. k < 4 \<Longrightarrow> m (a + of_nat k) = m' (b + of_nat k)) \<Longrightarrow> load32 m a = load32 m' b"
proof -
  assume e: "\<And>k. k < 4 \<Longrightarrow> m (a + of_nat k) = m' (b + of_nat k)"
  from e [of 0] e [of 1] e [of 2] e [of 3] show ?thesis by (simp add: load32_def)
qed

lemma cstring_shift: "cstring m' b s \<Longrightarrow> (\<And>k. k \<le> length s \<Longrightarrow> m (a + of_nat k) = m' (b + of_nat k)) \<Longrightarrow> cstring m a s"
proof -
  assume c: "cstring m' b s" and e: "\<And>k. k \<le> length s \<Longrightarrow> m (a + of_nat k) = m' (b + of_nat k)"
  have "bytes_at m a (Suc (length s)) = bytes_at m' b (Suc (length s))" by (rule nth_equalityI) (simp_all add: e)
  then show "cstring m a s" using c by (simp add: cstring_def)
qed

lemma concat_nth:
  assumes "j < length xs"
  shows "take (length (xs ! j)) (drop (sum_list (map length (take j xs))) (concat xs)) = xs ! j"
    and "sum_list (map length (take j xs)) + length (xs ! j) \<le> length (concat xs)"
proof -
  have "xs = take j xs @ xs ! j # drop (Suc j) xs" by (rule id_take_nth_drop [OF assms])
  then have c: "concat xs = concat (take j xs) @ xs ! j @ concat (drop (Suc j) xs)" by (metis concat.simps(2) concat_append)
  have l: "length (concat (take j xs)) = sum_list (map length (take j xs))" by (simp add: length_concat)
  show "take (length (xs ! j)) (drop (sum_list (map length (take j xs))) (concat xs)) = xs ! j"
    unfolding c l [symmetric] by simp
  show "sum_list (map length (take j xs)) + length (xs ! j) \<le> length (concat xs)" unfolding c l [symmetric] by simp
qed

lemma sub_bytes:
  assumes "bytes_at m (of_nat L) (length img) = img" and "q + l \<le> length img"
  shows "bytes_at m (of_nat (L + q)) l = take l (drop q img)"
proof -
  have "drop q img = bytes_at m (of_nat L + of_nat q) (length img - q)" using drop_bytes_at [of q "length img" m "of_nat L"] assms by simp
  then show ?thesis using take_bytes_at [of l "length img - q" m "of_nat L + of_nat q"] assms(2) by simp
qed

lemma sint8_small: "unat (w :: u8) < 128 \<Longrightarrow> sint w = int (unat w)"
proof -
  assume "unat w < 128"
  then have "- 128 \<le> int (unat w)" "int (unat w) < 128" by linarith+
  then have "sint (of_int (int (unat w)) :: u8) = int (unat w)" by (subst sint_sbintrunc') (simp add: signed_take_bit_int_eq_self)
  then show ?thesis by simp
qed

lemma put_to_ramdisk_image:
  assumes n: "length fs \<le> 63" "\<forall>f \<in> set fs. good_name (fst f)"
    and pk: "put_to_ramdisk (2 * length fs + 1) (map arg_of fs) headers = Some img"
  obtains h where "img = word_bytes (of_nat (length fs)) @ bytes_at h 0 4864 @ concat (map snd fs)"
    and "\<And>j. j < length fs \<Longrightarrow> packed_header h j (4868 + data_before fs j) (fs ! j)"
proof -
  have "unat (of_nat (2 * length fs + 1) :: u8) = 2 * length fs + 1" using n(1) by (simp add: unat_of_nat del: of_nat_add of_nat_mult of_nat_Suc)
  then have "sint (of_nat (2 * length fs + 1) :: u8) = 2 * int (length fs) + 1"
    using n(1) sint8_small [of "of_nat (2 * length fs + 1)"] by (simp del: of_nat_add of_nat_mult of_nat_Suc)
  then have nh: "nheaders (2 * length fs + 1) = int (length fs)" by (simp add: nheaders_def signed_divide_int_def sgn_if)
  obtain h where h: "pack_headers 0 (of_nat 4868) (map arg_of fs) headers = Some h"
    "\<forall>j < length fs. packed_header h (0 + j) (4868 + data_before fs j) (fs ! j)"
    using pack_headers_spec [of 0 fs 4868 headers] n by auto
  have "img = word_bytes (of_nat (length fs)) @ bytes_at h 0 4864 @ concat (map snd fs)"
    using pk h(1) unfolding put_to_ramdisk_def nh Let_def by (simp add: comp_def)
  then show thesis using that h(2) by simp
qed

lemma packed_image:
  assumes n: "length fs \<le> 63" "\<forall>f \<in> set fs. good_name (fst f)"
    and pk: "put_to_ramdisk (2 * length fs + 1) (map arg_of fs) headers = Some img"
    and at: "bytes_at m (of_nat L) (length img) = img" and fit: "L + length img < 4294967296"
  shows "image_at m L (L + length img) fs"
proof -
  obtain h where img: "img = word_bytes (of_nat (length fs)) @ bytes_at h 0 4864 @ concat (map snd fs)"
    and hd: "\<And>j. j < length fs \<Longrightarrow> packed_header h j (4868 + data_before fs j) (fs ! j)"
    by (rule put_to_ramdisk_image [OF n pk]) blast
  have len: "length img = 4868 + length (concat (map snd fs))" by (simp add: img word_bytes_def)
  have w: "bytes_at m (of_nat L) 4 = word_bytes (of_nat (length fs))" using sub_bytes [OF at, of 0 4] len by (simp add: img word_bytes_def)
  have hb: "m (of_nat (L + 4) + of_nat k) = h (of_nat k)" if "k < 4864" for k
  proof -
    have "bytes_at m (of_nat (L + 4)) 4864 = bytes_at h 0 4864" using sub_bytes [OF at, of 4 4864] len by (simp add: img word_bytes_def)
    then have "bytes_at m (of_nat (L + 4)) 4864 ! k = bytes_at h 0 4864 ! k" by simp
    then show ?thesis using that by (simp del: of_nat_add)
  qed
  have "load32 m (of_nat L) = of_nat (length fs)"
  proof -
    have "m (of_nat L + of_nat k) = store32 0 (of_nat (length fs)) (\<lambda>_. 0) (0 + of_nat k)" if "k < 4" for k
      using arg_cong [OF w, of "\<lambda>bs. bs ! k"] that by (simp add: word_bytes_def)
    then show ?thesis using load32_shift [of m "of_nat L" "store32 0 (of_nat (length fs)) (\<lambda>_. 0)" 0] by (simp add: mem_simps)
  qed
  moreover have "image_file m L (L + length img) j (fs ! j) (L + 4868 + data_before fs j)" if j: "j < length fs" for j
  proof -
    let ?f = "fs ! j"
    note p = hd [OF j, unfolded packed_header_def]
    have g: "length (fst ?f) \<le> 63" using n(2) j by (simp add: good_name_def)
    have sh: "m (of_nat (L + 4 + 76 * j + c) + of_nat k) = h (of_nat (76 * j + c) + of_nat k)" if "c + k < 76" for c k
    proof -
      have "of_nat (L + 4 + 76 * j + c) + of_nat k = of_nat (L + 4) + (of_nat (76 * j + c + k) :: u32)" by simp
      moreover have "(of_nat (76 * j + c) + of_nat k :: u32) = of_nat (76 * j + c + k)" by simp
      ultimately show ?thesis using hb [of "76 * j + c + k"] that j n(1) by (simp del: of_nat_add of_nat_mult)
    qed
    have db: "data_before fs j = sum_list (map length (take j (map snd fs)))" by (simp add: data_before_def take_map)
    have "data_before fs j + length (snd ?f) \<le> length (concat (map snd fs))"
      using concat_nth(2) [of j "map snd fs"] j unfolding db by simp
    moreover from this have "bytes_at m (of_nat (L + (4868 + data_before fs j))) (length (snd ?f)) = snd ?f"
      using sub_bytes [OF at, of "4868 + data_before fs j" "length (snd ?f)"] len concat_nth(1) [of j "map snd fs"] j
      by (simp add: img db word_bytes_def)
    moreover have "cstring m (of_nat (L + 4 + 76 * j + 1)) (fst ?f)"
      by (rule cstring_shift [OF p [THEN conjunct1]]; rule sh; use g in linarith)
    moreover have l: "load32 m (of_nat (L + 4 + 76 * j + c)) = load32 h (of_nat (76 * j + c))" if "c + 4 \<le> 76" for c
      by (rule load32_shift, rule sh) (use that in linarith)
    have "load32 m (of_nat (L + 4 + 76 * j + 68)) = of_nat (4868 + data_before fs j)"
      "load32 m (of_nat (L + 4 + 76 * j + 72)) = of_nat (length (snd ?f))"
      using p l [of 68] l [of 72] by (simp_all del: of_nat_add of_nat_mult)
    moreover note this
    moreover have "of_nat (4868 + data_before fs j) + of_nat L = (of_nat (L + 4868 + data_before fs j) :: u32)" by simp
    ultimately show ?thesis unfolding image_file_def using g len by (simp add: add.assoc del: of_nat_add of_nat_mult)
  qed
  ultimately show ?thesis using n(1) len fit by (auto simp: image_at_def)
qed

end
