(* ===== verification/FileSystem.thy ===== *)
theory FileSystem
  imports Packer
begin

text \<open>
  The file system as its clients see it: files found by name and read by node. The locale states what the shell
  and the system calls rely on, the ram disk is its interpretation; then the round trip through the packer.
\<close>

subsection \<open>The interface\<close>

text \<open>A store of files: \<open>named s p n\<close> when \<open>p\<close> denotes the name \<open>n\<close>, reads of at most \<open>cap\<close> bytes.\<close>

locale file_store =
  fixes holds :: "disk_file list \<Rightarrow> 's \<Rightarrow> bool" and named :: "'s \<Rightarrow> 'p \<Rightarrow> u8 list \<Rightarrow> bool"
    and lookup :: "'p \<Rightarrow> 's \<Rightarrow> 'n option" and fetch :: "'n \<Rightarrow> nat \<Rightarrow> nat \<Rightarrow> 's \<Rightarrow> u8 list" and cap :: nat
  assumes lookup_hit: "holds fs s \<Longrightarrow> named s p n \<Longrightarrow> file_index fs n = Some i \<Longrightarrow> \<exists>nd. lookup p s = Some nd \<and>
      (\<forall>off k. k \<le> cap \<longrightarrow> fetch nd off k s = take k (drop off (snd (fs ! i))))"
    and lookup_miss: "holds fs s \<Longrightarrow> named s p n \<Longrightarrow> file_index fs n = None \<Longrightarrow> lookup p s = None"
begin

text \<open>A file read in \<open>c\<close> pieces of \<open>k\<close> bytes.\<close>

definition pieces :: "'n \<Rightarrow> nat \<Rightarrow> nat \<Rightarrow> 's \<Rightarrow> u8 list" where
  "pieces nd k c s = concat (map (\<lambda>i. fetch nd (i * k) k s) [0..<c])"

lemma pieces_contents:
  assumes "holds fs s" and "named s p n" and "file_index fs n = Some i" and "k \<le> cap"
  shows "\<exists>nd. lookup p s = Some nd \<and> pieces nd k c s = take (c * k) (snd (fs ! i))"
proof -
  obtain nd where nd: "lookup p s = Some nd" "\<And>off. fetch nd off k s = take k (drop off (snd (fs ! i)))"
    using lookup_hit [OF assms(1-3)] assms(4) by blast
  have "pieces nd k c s = take (c * k) (snd (fs ! i))"
    by (induction c) (simp_all add: pieces_def nd(2) take_add [symmetric] add.commute)
  then show ?thesis using nd(1) by blast
qed

lemma lookup_found_iff: "holds fs s \<Longrightarrow> named s p n \<Longrightarrow> lookup p s \<noteq> None \<longleftrightarrow> n \<in> fst ` set fs"
  using lookup_hit [of fs s p n] lookup_miss [of fs s p n] file_index_None [of fs n] by (cases "file_index fs n") auto

end

subsection \<open>The ram disk as a file store\<close>

text \<open>Every node and header is outside the buffer that reads go to.\<close>

definition disk_holds :: "u32 \<Rightarrow> disk_file list \<Rightarrow> 'a ramdisk_scheme \<Rightarrow> bool" where
  "disk_holds buf fs s \<longleftrightarrow> mounted_disk fs s \<and> initrd_read_ptr s \<noteq> 0 \<and> initrd_finddir_ptr s \<noteq> 0 \<and> fs_root s = initrd_root s \<and>
     0 < unat (root_nodes s) \<and> unat (root_nodes s) + 184 * length fs \<le> 4294967296 \<and>
     (\<forall>i < length fs. length (snd (fs ! i)) \<le> 1048576 \<and>
        separate buf 1048576 (load32 (ram s) (header_at s (of_nat i) + 68)) (length (snd (fs ! i))))"

definition disk_named :: "'a ramdisk_scheme \<Rightarrow> u32 \<Rightarrow> u8 list \<Rightarrow> bool" where
  "disk_named s p n \<longleftrightarrow> cstring (ram s) p n \<and> n \<noteq> bytes ''mtp''"

definition disk_lookup :: "u32 \<Rightarrow> 'a ramdisk_scheme \<Rightarrow> u32 option" where
  "disk_lookup p s = (case find_file p s of Some (nd, _) \<Rightarrow> if nd = 0 then None else Some nd | None \<Rightarrow> None)"

definition disk_fetch :: "u32 \<Rightarrow> u32 \<Rightarrow> nat \<Rightarrow> nat \<Rightarrow> 'a ramdisk_scheme \<Rightarrow> u8 list" where
  "disk_fetch buf nd off k s =
     (if off > 1048576 then []
      else case read_fs call_read nd (of_nat off) (of_nat k) buf s of Some (c, s') \<Rightarrow> bytes_at (ram s') buf (unat c) | None \<Rightarrow> [])"

lemma find_file_mounted:
  fixes s :: "'a ramdisk_scheme"
  assumes "mounted_disk fs s" and "initrd_finddir_ptr s \<noteq> 0" and "cstring (ram s) p n" and "n \<noteq> bytes ''mtp''"
  shows "finddir_fs call_finddir (initrd_root s) p s = Some (case file_index fs n of Some i \<Rightarrow> node_at s (of_nat i) | None \<Rightarrow> 0, s)"
  using assms finddir_files [of fs s p n "initrd_root s"]
  by (simp add: finddir_fs_def mounted_disk_def Let_def FS_DIRECTORY_def call_finddir_def)

lemma read_file_at:
  fixes s :: "'a ramdisk_scheme"
  assumes "file_at i f s" and "initrd_read_ptr s \<noteq> 0" and "unat off + unat n < 4294967296"
    and "separate buf (read_count (length (snd f)) (unat off) (unat n)) (load32 (ram s) (header_at s i + 68)) (length (snd f))"
  shows "\<exists>m. read_fs call_read (node_at s i) off n buf s = Some (of_nat (read_count (length (snd f)) (unat off) (unat n)), s\<lparr>ram := m\<rparr>) \<and>
    same_outside buf (read_count (length (snd f)) (unat off) (unat n)) (ram s) m \<and>
    bytes_at m buf (read_count (length (snd f)) (unat off) (unat n)) =
      take (read_count (length (snd f)) (unat off) (unat n)) (drop (unat off) (snd f))"
  using read_bytes [OF assms(1,3,4)] assms(1,2) by (auto simp: read_fs_def call_read_def Let_def file_at_def)

lemma read_count_le: "read_count len off n \<le> 1048576" "read_count len off n \<le> len" "read_count len off n \<le> n"
  by (auto simp: read_count_def Let_def)

lemma disk_fetch_contents:
  assumes "disk_holds buf fs s" and "i < length fs" and "k \<le> 1048576"
  shows "disk_fetch buf (node_at s (of_nat i)) off k s = take k (drop off (snd (fs ! i)))"
proof (cases "off > 1048576")
  case True
  moreover have "length (snd (fs ! i)) \<le> 1048576" using assms by (auto simp: disk_holds_def)
  ultimately show ?thesis by (simp add: disk_fetch_def)
next
  case False
  let ?f = "fs ! i"
  define c where "c = read_count (length (snd ?f)) off k"
  have u: "unat (of_nat off :: u32) = off" "unat (of_nat k :: u32) = k" using False assms(3) by simp_all
  have f: "file_at (of_nat i) ?f s" "initrd_read_ptr s \<noteq> 0" "length (snd ?f) \<le> 1048576"
    using assms(1,2) by (simp_all add: disk_holds_def mounted_disk_def holds_files_def)
  have "separate buf c (load32 (ram s) (header_at s (of_nat i) + 68)) (length (snd ?f))"
    by (rule separate_le [of _ 1048576]) (use assms read_count_le in \<open>auto simp: disk_holds_def c_def\<close>)
  with read_file_at [OF f(1,2), of "of_nat off" "of_nat k" buf] u False assms(3) obtain m where
    r: "read_fs call_read (node_at s (of_nat i)) (of_nat off) (of_nat k) buf s = Some (of_nat c, s\<lparr>ram := m\<rparr>)"
      "bytes_at m buf c = take c (drop off (snd ?f))" by (auto simp: c_def)
  have "unat (of_nat c :: u32) = c" using read_count_le(1) [of "length (snd ?f)" off k] by (simp add: c_def)
  moreover have "take c (drop off (snd ?f)) = take k (drop off (snd ?f))"
    using f(3) assms(3) by (auto simp: c_def read_count_def Let_def min_def)
  ultimately show ?thesis using False r by (simp add: disk_fetch_def)
qed

lemma node_at_nonzero:
  assumes "disk_holds buf fs s" and "i < length fs"
  shows "node_at s (of_nat i) \<noteq> 0"
proof -
  have l: "0 < unat (root_nodes s)" "unat (root_nodes s) + 184 * i < 4294967296" using assms by (simp_all add: disk_holds_def)
  then have "unat (of_nat (unat (root_nodes s) + 184 * i) :: u32) \<noteq> 0" by (simp del: of_nat_add of_nat_mult)
  moreover have "node_at s (of_nat i) = of_nat (unat (root_nodes s) + 184 * i)" by simp
  ultimately show ?thesis by (metis unat_0)
qed

interpretation ramdisk_store: file_store "disk_holds buf" disk_named disk_lookup "disk_fetch buf" 1048576 for buf
proof
  fix fs :: "disk_file list" and s :: "'a ramdisk_scheme" and p n
  assume h: "disk_holds buf fs s" and nm: "disk_named s p n"
  have ff: "find_file p s = Some (case file_index fs n of Some i \<Rightarrow> node_at s (of_nat i) | None \<Rightarrow> 0, s)"
    using h nm find_file_mounted [of fs s p n] by (simp add: disk_holds_def disk_named_def)
  show "disk_lookup p s = None" if "file_index fs n = None" using ff that by (simp add: disk_lookup_def)
  show "\<exists>nd. disk_lookup p s = Some nd \<and> (\<forall>off k. k \<le> 1048576 \<longrightarrow> disk_fetch buf nd off k s = take k (drop off (snd (fs ! i))))"
    if "file_index fs n = Some i" for i
    using ff that node_at_nonzero [OF h] disk_fetch_contents [OF h] file_index_Some [OF that] by (simp add: disk_lookup_def)
qed

subsection \<open>A disk at boot\<close>

definition demo_files :: "disk_file list" where
  "demo_files = [(bytes ''a'', [1, 2, 3])]"

definition demo_image :: "u8 list" where
  "demo_image = (case put_to_ramdisk 3 (map arg_of demo_files) (\<lambda>_. 0) of Some img \<Rightarrow> img | None \<Rightarrow> [])"

definition demo_texts :: memory where
  "demo_texts = write_bytes 0x110000 (bytes ''initrd'' @ [0]) (write_bytes 0x110010 (bytes ''mtp'' @ [0]) (write_bytes 0x110020 (bytes ''a'' @ [0]) (\<lambda>_. 0)))"

definition demo_boot :: ramdisk where
  "demo_boot = paging.extend (pmem.extend (demo_empty\<lparr>mem_unused := 0x300000, ram := write_bytes 0x200000 demo_image demo_texts\<rparr>) \<lparr>dir_current = 0\<rparr>)
     \<lparr>initrd_header = 0, file_headers = 0, initrd_root = 0, initrd_mtp = 0, root_nodes = 0, nroot_nodes = 0, fs_root = 0, shell_buf = 0,
      shell_size = 0, shell_fname = 0, dirent = 0x110100, mtp_text = 0x110010, initrd_text = 0x110000, initrd_read_ptr = 0x100100,
      initrd_readdir_ptr = 0x100200, initrd_finddir_ptr = 0x100300\<rparr>"

lemma demo_files_good: "length demo_files \<le> 63" "\<forall>f \<in> set demo_files. good_name (fst f)" "length demo_files = 1"
  by (simp_all add: demo_files_def good_name_def bytes_def)

lemma demo_packed: "put_to_ramdisk (2 * length demo_files + 1) (map arg_of demo_files) (\<lambda>_. 0) = Some demo_image"
proof -
  have "\<exists>img. put_to_ramdisk 3 (map arg_of demo_files) (\<lambda>_. 0) = Some img"
    using pack_headers_spec [of 0 demo_files 4868 "\<lambda>_. 0"] demo_files_good
    by (auto simp: put_to_ramdisk_def Let_def demo_files_def nheaders_def signed_divide_int_def)
  then show ?thesis by (auto simp: demo_image_def demo_files_good)
qed

lemma demo_image_length: "length demo_image = 4871"
proof -
  obtain h where "demo_image = word_bytes (of_nat (length demo_files)) @ bytes_at h 0 4864 @ concat (map snd demo_files)"
    by (rule put_to_ramdisk_image [OF demo_files_good(1,2) demo_packed]) blast
  from arg_cong [OF this, of length] show ?thesis by (simp add: word_bytes_def demo_files_def)
qed

lemma demo_boot_fields:
  "ram demo_boot = write_bytes 0x200000 demo_image demo_texts" "mem_unused demo_boot = 0x300000" "kernel_mem demo_boot = 0"
  "term_ok demo_boot" "initrd_text demo_boot = 0x110000" "mtp_text demo_boot = 0x110010" "initrd_read_ptr demo_boot = 0x100100"
  "initrd_finddir_ptr demo_boot = 0x100300"
  by (simp_all add: demo_boot_def paging.defs pmem.defs demo_empty_def keyboard.defs timer.defs demo_keyboard_def blank_timer_def
      terminal.defs blank_terminal_def term_ok_def)

lemma demo_boot_image: "bytes_at (ram demo_boot) (of_nat 0x200000) (length demo_image) = demo_image"
  using bytes_at_write_bytes [of demo_image "0x200000" demo_texts] demo_image_length by (simp add: demo_boot_fields)

lemma demo_boot_texts:
  "text_below (ram demo_boot) 0x200000 0x110000 (bytes ''initrd'')" "text_below (ram demo_boot) 0x200000 0x110010 (bytes ''mtp'')"
  "text_below (ram demo_boot) 0x200000 0x110020 (bytes ''a'')"
proof -
  have c: "cstring demo_texts 0x110000 (bytes ''initrd'')" "cstring demo_texts 0x110010 (bytes ''mtp'')" "cstring demo_texts 0x110020 (bytes ''a'')"
    by (simp_all add: demo_texts_def bytes_def cstring_Cons)
  have "same_outside 0x200000 4871 demo_texts (ram demo_boot)"
    using same_outside_write_bytes [of demo_image "0x200000" demo_texts] by (simp add: demo_boot_fields demo_image_length)
  then show "text_below (ram demo_boot) 0x200000 0x110000 (bytes ''initrd'')" "text_below (ram demo_boot) 0x200000 0x110010 (bytes ''mtp'')"
    "text_below (ram demo_boot) 0x200000 0x110020 (bytes ''a'')"
    using c by (auto simp: text_below_def bytes_def separate_def intro: cstring_same_outside)
qed

lemma demo_apart: "n \<le> 16 \<Longrightarrow> k \<le> 16 \<Longrightarrow> separate (src + 16) n src k"
proof -
  assume "n \<le> 16" "k \<le> 16"
  moreover have "unat (- 16 :: u32) = 4294967280" by simp
  ultimately show ?thesis by (simp add: separate_def)
qed

text \<open>The demo disk once mounted.\<close>

lemma demo_mount:
  obtains s where "initrd_init 0x200000 demo_boot = Some (initrd_root s, s)" and "mounted_disk demo_files s"
    and "initrd_read_ptr s = 0x100100" and "initrd_finddir_ptr s = 0x100300"
proof -
  have "boot_image demo_files 0x200000 (0x200000 + length demo_image) demo_boot"
    using packed_image [OF demo_files_good(1,2) demo_packed demo_boot_image] demo_boot_texts demo_image_length demo_files_good
    by (simp add: boot_image_def demo_boot_fields)
  then show thesis by (rule initrd_init_mounts) (use that in \<open>simp add: demo_boot_fields\<close>)
qed

subsection \<open>Properties\<close>

text \<open>C29. \<open>initrd_finddir\<close> is a lookup by name: in the root the name \<open>mtp\<close> is the mount point, any other name gives the first file
  of that name on the disk, and a name that is not on the disk the null pointer.\<close>

theorem finddir_is_lookup:
  assumes "holds_files fs s" and "cstring (ram s) name n" and "cstring (ram s) (mtp_text s) (bytes ''mtp'')"
  shows "initrd_finddir node name s = Some (
     if node = initrd_root s \<and> n = bytes ''mtp'' then initrd_mtp s
     else case file_index fs n of Some i \<Rightarrow> root_nodes s + 184 * of_nat i | None \<Rightarrow> 0)"
  by (rule finddir_files [OF assms])

lemma finddir_is_lookup_witness:
  "\<exists>(s :: ramdisk) p. initrd_init 0x200000 demo_boot = Some (initrd_root s, s) \<and> cstring (ram s) p (bytes ''mtp'') \<and>
     initrd_finddir (initrd_root s) p s = Some (initrd_mtp s)"
proof -
  obtain s where s: "initrd_init 0x200000 demo_boot = Some (initrd_root s, s)" "mounted_disk demo_files s" by (rule demo_mount)
  then have h: "holds_files demo_files s" "cstring (ram s) (mtp_text s) (bytes ''mtp'')" by (simp_all add: mounted_disk_def)
  show ?thesis using s(1) h(2) finddir_is_lookup [OF h h(2), of "initrd_root s"] by (intro exI [of _ s] exI [of _ "mtp_text s"]) simp
qed

text \<open>C30. \<open>initrd_read\<close> transfers the bytes of the file from \<open>off\<close> on, cut off at its end, to the buffer and nothing elsewhere; it
  transfers nothing past the end of the file or when more than 1 MB would be due.\<close>

theorem read_transfers_bytes:
  fixes s :: "'a ramdisk_scheme"
  assumes "file_at i f s" and "unat off + unat n < 4294967296"
    and "separate buf (read_count (length (snd f)) (unat off) (unat n)) (load32 (ram s) (file_headers s + 76 * i + 68)) (length (snd f))"
  shows "\<exists>m. initrd_read (root_nodes s + 184 * i) off n buf s = (of_nat (read_count (length (snd f)) (unat off) (unat n)), s\<lparr>ram := m\<rparr>) \<and>
    same_outside buf (read_count (length (snd f)) (unat off) (unat n)) (ram s) m \<and>
    bytes_at m buf (read_count (length (snd f)) (unat off) (unat n)) =
      take (read_count (length (snd f)) (unat off) (unat n)) (drop (unat off) (snd f))"
  by (rule read_bytes [OF assms])

lemma read_transfers_bytes_witness:
  "\<exists>(s :: ramdisk) m buf. initrd_init 0x200000 demo_boot = Some (initrd_root s, s) \<and>
     initrd_read (root_nodes s) 1 10 buf s = (2, s\<lparr>ram := m\<rparr>) \<and> bytes_at m buf 2 = [2, 3]"
proof -
  obtain s where s: "initrd_init 0x200000 demo_boot = Some (initrd_root s, s)" "mounted_disk demo_files s" by (rule demo_mount)
  then have f: "file_at 0 (bytes ''a'', [1, 2, 3]) s" by (simp add: mounted_disk_def holds_files_def demo_files_def)
  define src where "src = load32 (ram s) (file_headers s + 68)"
  have "read_count (Suc (Suc (Suc 0))) (Suc 0) 10 = 2" by (simp add: read_count_def)
  moreover have "separate (src + 16) 2 src 3" by (rule demo_apart; simp)
  ultimately show ?thesis using s(1) read_transfers_bytes [OF f, of 1 10 "src + 16"]
    by (auto simp: src_def numeral_3_eq_3)
qed

text \<open>C2. Files packed by \<open>put_to_ramdisk\<close> are the files the kernel finds: at most 63 files, with names of at most 63 characters,
  packed into an image that is in memory at boot, are mounted by \<open>initrd_init\<close>; then \<open>finddir_fs\<close> finds every name on the disk
  and no other, and \<open>read_fs\<close> of a file of at most 1 MB delivers its contents.\<close>

theorem ramdisk_roundtrip:
  fixes s :: "'a ramdisk_scheme"
  assumes "length fs \<le> 63" and "\<forall>f \<in> set fs. good_name (fst f)"
    and "put_to_ramdisk (2 * length fs + 1) (map (\<lambda>f. (Some (snd f), fst f)) fs) headers = Some img"
    and "bytes_at (ram s) (of_nat L) (length img) = img" and "0x100000 \<le> L" and "L + length img \<le> unat (mem_unused s)"
    and "unat (mem_unused s) + 368 + 184 * length fs < 4294967296" and "term_ok s" and "kernel_mem s = 0"
    and "text_below (ram s) L (initrd_text s) (bytes ''initrd'')" and "text_below (ram s) L (mtp_text s) (bytes ''mtp'')"
    and "initrd_read_ptr s \<noteq> 0" and "initrd_finddir_ptr s \<noteq> 0"
  shows "\<exists>s'. initrd_init (of_nat L) s = Some (initrd_root s', s') \<and>
    (\<forall>p n. cstring (ram s') p n \<longrightarrow> n \<noteq> bytes ''mtp'' \<longrightarrow>
       finddir_fs call_finddir (initrd_root s') p s' =
         Some (case file_index fs n of Some i \<Rightarrow> root_nodes s' + 184 * of_nat i | None \<Rightarrow> 0, s')) \<and>
    (\<forall>i buf. i < length fs \<longrightarrow> length (snd (fs ! i)) \<le> 1048576 \<longrightarrow>
       separate buf (length (snd (fs ! i))) (load32 (ram s') (file_headers s' + 76 * of_nat i + 68)) (length (snd (fs ! i))) \<longrightarrow>
       (\<exists>m. read_fs call_read (root_nodes s' + 184 * of_nat i) 0 INITRD_BUFFER_SIZE buf s' = Some (of_nat (length (snd (fs ! i))), s'\<lparr>ram := m\<rparr>) \<and>
          bytes_at m buf (length (snd (fs ! i))) = snd (fs ! i)))"
proof -
  have "L + length img < 4294967296" using assms(6,7) by linarith
  then have "boot_image fs L (L + length img) s"
    using packed_image [OF assms(1-4)] assms(5-) by (simp add: boot_image_def)
  then obtain s' where s': "initrd_init (of_nat L) s = Some (initrd_root s', s')" "mounted_disk fs s'"
    "initrd_read_ptr s' = initrd_read_ptr s" "initrd_finddir_ptr s' = initrd_finddir_ptr s" by (rule initrd_init_mounts)
  have "\<exists>m. read_fs call_read (root_nodes s' + 184 * of_nat i) 0 INITRD_BUFFER_SIZE buf s' = Some (of_nat (length (snd (fs ! i))), s'\<lparr>ram := m\<rparr>) \<and>
      bytes_at m buf (length (snd (fs ! i))) = snd (fs ! i)"
    if i: "i < length fs" "length (snd (fs ! i)) \<le> 1048576"
      "separate buf (length (snd (fs ! i))) (load32 (ram s') (header_at s' (of_nat i) + 68)) (length (snd (fs ! i)))" for i buf
  proof -
    have "file_at (of_nat i) (fs ! i) s'" using s'(2) i(1) by (simp add: mounted_disk_def holds_files_def)
    moreover have "read_count (length (snd (fs ! i))) (unat (0 :: u32)) (unat INITRD_BUFFER_SIZE) = length (snd (fs ! i))"
      using i(2) by (simp add: read_count_def INITRD_BUFFER_SIZE_def)
    ultimately show ?thesis
      using read_file_at [of "of_nat i" "fs ! i" s' 0 INITRD_BUFFER_SIZE buf] i s'(3) assms(12) by (auto simp: INITRD_BUFFER_SIZE_def)
  qed
  then show ?thesis using s' find_file_mounted [OF s'(2)] assms(13) by (intro exI [of _ s'] conjI) auto
qed

lemma ramdisk_roundtrip_witness:
  "\<exists>(s :: ramdisk) m buf. initrd_init 0x200000 demo_boot = Some (initrd_root s, s) \<and>
     read_fs call_read (root_nodes s) 0 INITRD_BUFFER_SIZE buf s = Some (3, s\<lparr>ram := m\<rparr>) \<and> bytes_at m buf 3 = [1, 2, 3]"
proof -
  have *: "\<exists>s'. initrd_init (of_nat 0x200000) demo_boot = Some (initrd_root s', s') \<and>
    (\<forall>p n. cstring (ram s') p n \<longrightarrow> n \<noteq> bytes ''mtp'' \<longrightarrow>
       finddir_fs call_finddir (initrd_root s') p s' =
         Some (case file_index demo_files n of Some i \<Rightarrow> root_nodes s' + 184 * of_nat i | None \<Rightarrow> 0, s')) \<and>
    (\<forall>i buf. i < length demo_files \<longrightarrow> length (snd (demo_files ! i)) \<le> 1048576 \<longrightarrow>
       separate buf (length (snd (demo_files ! i))) (load32 (ram s') (file_headers s' + 76 * of_nat i + 68)) (length (snd (demo_files ! i))) \<longrightarrow>
       (\<exists>m. read_fs call_read (root_nodes s' + 184 * of_nat i) 0 INITRD_BUFFER_SIZE buf s' = Some (of_nat (length (snd (demo_files ! i))), s'\<lparr>ram := m\<rparr>) \<and>
          bytes_at m buf (length (snd (demo_files ! i))) = snd (demo_files ! i)))"
    by (rule ramdisk_roundtrip [OF demo_files_good(1,2) demo_packed demo_boot_image])
      (use demo_boot_texts demo_image_length in \<open>simp_all add: demo_boot_fields demo_files_good\<close>)
  then obtain s' :: ramdisk where s': "initrd_init 0x200000 demo_boot = Some (initrd_root s', s')"
    and rd: "\<And>buf. separate buf 3 (load32 (ram s') (file_headers s' + 68)) 3 \<Longrightarrow>
      \<exists>m. read_fs call_read (root_nodes s') 0 INITRD_BUFFER_SIZE buf s' = Some (3, s'\<lparr>ram := m\<rparr>) \<and> bytes_at m buf 3 = [1, 2, 3]"
    by (auto simp: demo_files_def numeral_3_eq_3)
  have "separate (load32 (ram s') (file_headers s' + 68) + 16) 3 (load32 (ram s') (file_headers s' + 68)) 3"
    by (rule demo_apart; simp)
  from rd [OF this] s' show ?thesis by blast
qed

end
