(* ===== verification/VgaMode.thy ===== *)
theory VgaMode
  imports Vga
begin

text \<open>
  The register tables of \<open>screen/vga.h\<close> and what \<open>write_regs\<close> does with one: the adapter, as far as its documentation says how it takes
  registers, ends with the contents of the table, and the table of the kernel's text mode describes 30 rows of 90 columns.
\<close>

subsection \<open>The tables\<close>

definition g_90x30_text_table :: "u8 list" where
  "g_90x30_text_table =
    [0xE7,
     0x03, 0x01, 0x03, 0x00, 0x02,
     0x6B, 0x59, 0x5A, 0x82, 0x60, 0x8D, 0x0B, 0x3E,
     0x00, 0x4F, 0x0D, 0x0E, 0x00, 0x00, 0x00, 0x00,
     0xEA, 0x0C, 0xDF, 0x2D, 0x10, 0xE8, 0x05, 0xA3,
     0xFF,
     0x00, 0x00, 0x00, 0x00, 0x00, 0x10, 0x0E, 0x00,
     0xFF,
     0x00, 0x01, 0x02, 0x03, 0x04, 0x05, 0x14, 0x07,
     0x38, 0x39, 0x3A, 0x3B, 0x3C, 0x3D, 0x3E, 0x3F,
     0x0C, 0x00, 0x0F, 0x08, 0x00]"

definition g_90x60_text_table :: "u8 list" where
  "g_90x60_text_table =
    [0xE7,
     0x03, 0x01, 0x03, 0x00, 0x02,
     0x6B, 0x59, 0x5A, 0x82, 0x60, 0x8D, 0x0B, 0x3E,
     0x00, 0x47, 0x06, 0x07, 0x00, 0x00, 0x00, 0x00,
     0xEA, 0x0C, 0xDF, 0x2D, 0x08, 0xE8, 0x05, 0xA3,
     0xFF,
     0x00, 0x00, 0x00, 0x00, 0x00, 0x10, 0x0E, 0x00,
     0xFF,
     0x00, 0x01, 0x02, 0x03, 0x04, 0x05, 0x14, 0x07,
     0x38, 0x39, 0x3A, 0x3B, 0x3C, 0x3D, 0x3E, 0x3F,
     0x0C, 0x00, 0x0F, 0x08, 0x00]"

definition g_640x480x16_table :: "u8 list" where
  "g_640x480x16_table =
    [0xE3,
     0x03, 0x01, 0x08, 0x00, 0x06,
     0x5F, 0x4F, 0x50, 0x82, 0x54, 0x80, 0x0B, 0x3E,
     0x00, 0x40, 0x00, 0x00, 0x00, 0x00, 0x00, 0x00,
     0xEA, 0x0C, 0xDF, 0x28, 0x00, 0xE7, 0x04, 0xE3,
     0xFF,
     0x00, 0x00, 0x00, 0x00, 0x03, 0x00, 0x05, 0x0F,
     0xFF,
     0x00, 0x01, 0x02, 0x03, 0x04, 0x05, 0x14, 0x07,
     0x38, 0x39, 0x3A, 0x3B, 0x3C, 0x3D, 0x3E, 0x3F,
     0x01, 0x00, 0x0F, 0x00, 0x00]"

subsection \<open>The adapter\<close>

text \<open>A register file behind an index port and a data port: the index selected last and the registers, after a log of accesses. The
  attribute controller has one port for both, and reading the status port makes the next write an index.\<close>

definition file_step :: "u16 \<Rightarrow> u16 \<Rightarrow> io_event \<Rightarrow> u8 \<times> (u8 \<Rightarrow> u8) \<Rightarrow> u8 \<times> (u8 \<Rightarrow> u8)" where
  "file_step index_port data_port e f =
     (case e of Out8 p v \<Rightarrow> if p = index_port then (v, snd f) else if p = data_port then (fst f, (snd f)(fst f := v)) else f | _ \<Rightarrow> f)"

definition reg_file :: "u16 \<Rightarrow> u16 \<Rightarrow> io_event list \<Rightarrow> u8 \<Rightarrow> u8" where
  "reg_file index_port data_port h = snd (foldr (file_step index_port data_port) h (0, \<lambda>_. 0))"

definition ac_step :: "io_event \<Rightarrow> bool \<times> u8 \<times> (u8 \<Rightarrow> u8) \<Rightarrow> bool \<times> u8 \<times> (u8 \<Rightarrow> u8)" where
  "ac_step e f =
     (case f of (data, i, r) \<Rightarrow>
      case e of In8 p \<Rightarrow> if p = 0x3DA then (False, i, r) else f
      | Out8 p v \<Rightarrow> if p = 0x3C0 then (if data then (False, i, r(i := v)) else (True, v, r)) else f
      | _ \<Rightarrow> f)"

definition ac_file :: "io_event list \<Rightarrow> bool \<times> u8 \<times> (u8 \<Rightarrow> u8)" where
  "ac_file h = foldr ac_step h (False, 0, \<lambda>_. 0)"

definition seq_regs :: "io_event list \<Rightarrow> u8 \<Rightarrow> u8" where "seq_regs = reg_file 0x3C4 0x3C5"
definition crtc_regs :: "io_event list \<Rightarrow> u8 \<Rightarrow> u8" where "crtc_regs = reg_file 0x3D4 0x3D5"
definition gc_regs :: "io_event list \<Rightarrow> u8 \<Rightarrow> u8" where "gc_regs = reg_file 0x3CE 0x3CF"
definition ac_regs :: "io_event list \<Rightarrow> u8 \<Rightarrow> u8" where "ac_regs h = snd (snd (ac_file h))"

text \<open>The geometry of a text mode: characters per line, scan lines per character and per screen, characters from one line in memory to the next.\<close>

definition columns :: "(u8 \<Rightarrow> u8) \<Rightarrow> nat" where "columns r = unat (r 1) + 1"
definition char_height :: "(u8 \<Rightarrow> u8) \<Rightarrow> nat" where "char_height r = unat (r 9 AND 0x1F) + 1"
definition scan_lines :: "(u8 \<Rightarrow> u8) \<Rightarrow> nat" where
  "scan_lines r = unat (r 0x12) + (if bit (r 7) 1 then 256 else 0) + (if bit (r 7) 6 then 512 else 0) + 1"
definition line_pitch :: "(u8 \<Rightarrow> u8) \<Rightarrow> nat" where "line_pitch r = 2 * unat (r 0x13)"

subsection \<open>Loading a register file\<close>

lemma unat_of_nat8: "i < 256 \<Longrightarrow> unat (of_nat i :: u8) = i"
  by (simp add: unat_of_nat)

lemma of_nat8_inj: "i < 256 \<Longrightarrow> k < 256 \<Longrightarrow> (of_nat i :: u8) = of_nat k \<longleftrightarrow> i = k"
  by (metis unat_of_nat8)

text \<open>\<open>logs ports s s'\<close>: only accesses to the ports have been added to the log; other register files do not see them.\<close>

definition logs :: "u16 set \<Rightarrow> 'a machine_scheme \<Rightarrow> 'a machine_scheme \<Rightarrow> bool" where
  "logs ports s s' \<longleftrightarrow> (\<exists>es. io s' = es @ io s \<and> (\<forall>e \<in> set es. \<exists>p \<in> ports. e = In8 p \<or> (\<exists>v. e = Out8 p v)))"

lemma logs_refl: "logs ports s s" by (simp add: logs_def)

lemma logs_trans:
  assumes "logs A s s'" and "logs B s' s''"
  shows "logs (A \<union> B) s s''"
proof -
  obtain es fs where "io s' = es @ io s" "\<forall>e \<in> set es. \<exists>p \<in> A. e = In8 p \<or> (\<exists>v. e = Out8 p v)"
    "io s'' = fs @ io s'" "\<forall>e \<in> set fs. \<exists>p \<in> B. e = In8 p \<or> (\<exists>v. e = Out8 p v)"
    using assms unfolding logs_def by blast
  then show ?thesis unfolding logs_def by (intro exI [of _ "fs @ es"]) auto
qed

lemma logs_write: "p \<in> ports \<Longrightarrow> logs ports s0 s \<Longrightarrow> logs ports s0 (write_port p v s)"
  by (auto simp: logs_def write_port_def emit_def)

lemma logs_read: "p \<in> ports \<Longrightarrow> logs ports s0 s \<Longrightarrow> logs ports s0 (snd (read_port p s))"
  by (auto simp: logs_def read_port_def emit_def)

lemma logs_ram: "logs ports s0 s \<Longrightarrow> logs ports s0 (s\<lparr>ram := m\<rparr>)"
  by (simp add: logs_def)

lemma file_step_foreign:
  "\<forall>e \<in> set es. \<exists>p \<in> ports. e = In8 p \<or> (\<exists>v. e = Out8 p v) \<Longrightarrow> i \<notin> ports \<Longrightarrow> d \<notin> ports \<Longrightarrow> foldr (file_step i d) es f = f"
  by (induction es) (auto simp: file_step_def)

lemma ac_step_foreign:
  "\<forall>e \<in> set es. \<exists>p \<in> ports. e = In8 p \<or> (\<exists>v. e = Out8 p v) \<Longrightarrow> 0x3C0 \<notin> ports \<Longrightarrow> 0x3DA \<notin> ports \<Longrightarrow> foldr ac_step es f = f"
  by (induction es) (auto simp: ac_step_def split: prod.splits)

lemma reg_file_foreign: "logs ports s s' \<Longrightarrow> i \<notin> ports \<Longrightarrow> d \<notin> ports \<Longrightarrow> reg_file i d (io s') = reg_file i d (io s)"
  by (auto simp: logs_def reg_file_def file_step_foreign)

lemma ac_regs_foreign: "logs ports s s' \<Longrightarrow> 0x3C0 \<notin> ports \<Longrightarrow> 0x3DA \<notin> ports \<Longrightarrow> ac_regs (io s') = ac_regs (io s)"
  by (auto simp: logs_def ac_regs_def ac_file_def ac_step_foreign)

lemma reg_pair_out:
  "reg_pair ip dp i (r, s) = (r + 1, write_port dp (ram s r) (write_port ip (of_nat i) s))"
  by (simp add: reg_pair_def Let_def)

lemma ac_pair_out:
  "ac_pair i (r, s) = (r + 1, write_port 0x3C0 (ram s r) (write_port 0x3C0 (of_nat i) (snd (read_port 0x3DA s))))"
  by (simp add: ac_pair_def reg_pair_out)

text \<open>The loops over one register file.\<close>

lemma reg_pairs:
  assumes "ip \<noteq> dp" and "n \<le> 256"
  shows "\<exists>s'. fold (reg_pair ip dp) [0..<n] (r, s) = (r + of_nat n, s') \<and> ram s' = ram s \<and> logs {ip, dp} s s'
    \<and> (\<forall>i < n. reg_file ip dp (io s') (of_nat i) = ram s (r + of_nat i))"
  using assms(2)
proof (induction n)
  case 0
  then show ?case by (simp add: logs_refl)
next
  case (Suc n)
  obtain t where t: "fold (reg_pair ip dp) [0..<n] (r, s) = (r + of_nat n, t)" "ram t = ram s" "logs {ip, dp} s t"
    "\<And>i. i < n \<Longrightarrow> reg_file ip dp (io t) (of_nat i) = ram s (r + of_nat i)" using Suc by auto
  let ?s = "write_port dp (ram s (r + of_nat n)) (write_port ip (of_nat n) t)"
  have f: "reg_file ip dp (io ?s) = (reg_file ip dp (io t))(of_nat n := ram s (r + of_nat n))"
    using assms(1) by (simp add: reg_file_def write_port_def emit_def file_step_def)
  have "reg_file ip dp (io ?s) (of_nat i) = ram s (r + of_nat i)" if "i < Suc n" for i
  proof -
    have "i \<noteq> n \<Longrightarrow> (of_nat i :: u8) \<noteq> of_nat n" using that Suc(2) of_nat8_inj [of i n] by linarith
    then show ?thesis using t(4) [of i] that unfolding f by (cases "i = n") simp_all
  qed
  moreover have "logs {ip, dp} s ?s" using t(3) by (simp add: logs_write)
  ultimately show ?case using t(1,2) by (intro exI [of _ ?s]) (simp add: reg_pair_out ac_simps)
qed

lemma ac_pairs:
  assumes "n \<le> 256"
  shows "\<exists>s'. fold ac_pair [0..<n] (r, s) = (r + of_nat n, s') \<and> ram s' = ram s \<and> logs {0x3C0, 0x3DA} s s'
    \<and> (\<forall>i < n. ac_regs (io s') (of_nat i) = ram s (r + of_nat i))"
  using assms
proof (induction n)
  case 0
  then show ?case by (simp add: logs_refl)
next
  case (Suc n)
  obtain t where t: "fold ac_pair [0..<n] (r, s) = (r + of_nat n, t)" "ram t = ram s" "logs {0x3C0, 0x3DA} s t"
    "\<And>i. i < n \<Longrightarrow> ac_regs (io t) (of_nat i) = ram s (r + of_nat i)" using Suc by auto
  let ?s = "write_port 0x3C0 (ram s (r + of_nat n)) (write_port 0x3C0 (of_nat n) (snd (read_port 0x3DA t)))"
  have f: "ac_regs (io ?s) = (ac_regs (io t))(of_nat n := ram s (r + of_nat n))"
    by (simp add: ac_regs_def ac_file_def write_port_def read_port_def emit_def ac_step_def split: prod.splits)
  have "ac_regs (io ?s) (of_nat i) = ram s (r + of_nat i)" if "i < Suc n" for i
  proof -
    have "i \<noteq> n \<Longrightarrow> (of_nat i :: u8) \<noteq> of_nat n" using that Suc(2) of_nat8_inj [of i n] by linarith
    then show ?thesis using t(4) [of i] that unfolding f by (cases "i = n") simp_all
  qed
  moreover have "logs {0x3C0, 0x3DA} s ?s" using t(3) by (simp add: logs_write logs_read)
  ultimately show ?case using t(1,2) by (intro exI [of _ ?s]) (simp add: ac_pair_out ac_simps)
qed

subsection \<open>Loading a mode\<close>

text \<open>\<open>write_regs\<close> leaves the contents of the table in the adapter's register files, with the bits set that keep the timing registers
  unlocked.\<close>

lemma write_regs_programs:
  fixes s :: "'a machine_scheme" and regs :: u32
  defines "h \<equiv> io (write_regs regs s)" and "t \<equiv> \<lambda>k. ram s (regs + of_nat k)"
  shows "\<forall>i < 5. seq_regs h (of_nat i) = t (1 + i)"
    and "\<forall>i < 25. crtc_regs h (of_nat i) = (if i = 3 then t 9 OR 0x80 else if i = 0x11 then t 23 AND NOT 0x80 else t (6 + i))"
    and "\<forall>i < 9. gc_regs h (of_nat i) = t (31 + i)"
    and "\<forall>i < 21. ac_regs h (of_nat i) = t (40 + i)"
proof -
  let ?s0 = "write_port 0x3C2 (ram s regs) s"
  obtain s1 where s1: "fold (reg_pair 0x3C4 0x3C5) [0..<5] (regs + 1, ?s0) = (regs + 6, s1)" "ram s1 = ram s" "logs {0x3C4, 0x3C5} ?s0 s1"
    "\<And>i. i < 5 \<Longrightarrow> seq_regs (io s1) (of_nat i) = ram s (regs + 1 + of_nat i)"
    using reg_pairs [of "0x3C4" "0x3C5" 5 "regs + 1" ?s0] by (auto simp: seq_regs_def add.assoc)
  define s2 where "s2 = (let s = write_port 0x3D4 0x03 s1;
          (v, s) = read_port 0x3D5 s; s = write_port 0x3D5 (v OR 0x80) s;
          s = write_port 0x3D4 0x11 s;
          (v, s) = read_port 0x3D5 s; s = write_port 0x3D5 (v AND NOT 0x80) s;
          s = s\<lparr>ram := (ram s)(regs + 6 + 0x03 := ram s (regs + 6 + 0x03) OR 0x80)\<rparr>
      in s\<lparr>ram := (ram s)(regs + 6 + 0x11 := ram s (regs + 6 + 0x11) AND NOT 0x80)\<rparr>)"
  have r2: "ram s2 = (ram s)(regs + 9 := ram s (regs + 9) OR 0x80, regs + 23 := ram s (regs + 23) AND NOT 0x80)"
    by (simp add: s2_def Let_def split_beta s1(2) add.assoc)
  have l2: "logs {0x3D4, 0x3D5} s1 s2"
    by (simp add: s2_def Let_def split_beta logs_write logs_read logs_ram logs_refl)
  obtain s3 where s3: "fold (reg_pair 0x3D4 0x3D5) [0..<25] (regs + 6, s2) = (regs + 31, s3)" "ram s3 = ram s2" "logs {0x3D4, 0x3D5} s2 s3"
    "\<And>i. i < 25 \<Longrightarrow> crtc_regs (io s3) (of_nat i) = ram s2 (regs + 6 + of_nat i)"
    using reg_pairs [of "0x3D4" "0x3D5" 25 "regs + 6" s2] by (auto simp: crtc_regs_def add.assoc)
  obtain s4 where s4: "fold (reg_pair 0x3CE 0x3CF) [0..<9] (regs + 31, s3) = (regs + 40, s4)" "ram s4 = ram s2" "logs {0x3CE, 0x3CF} s3 s4"
    "\<And>i. i < 9 \<Longrightarrow> gc_regs (io s4) (of_nat i) = ram s2 (regs + 31 + of_nat i)"
    using reg_pairs [of "0x3CE" "0x3CF" 9 "regs + 31" s3] s3(2) by (auto simp: gc_regs_def add.assoc)
  obtain s5 where s5: "fold ac_pair [0..<21] (regs + 40, s4) = (regs + 61, s5)" "logs {0x3C0, 0x3DA} s4 s5"
    "\<And>i. i < 21 \<Longrightarrow> ac_regs (io s5) (of_nat i) = ram s2 (regs + 40 + of_nat i)"
    using ac_pairs [of 21 "regs + 40" s4] s4(2) by (auto simp: add.assoc)
  let ?s6 = "write_port 0x3C0 0x20 (snd (read_port 0x3DA s5))"
  have w: "write_regs regs s = ?s6"
    using s1(1) s3(1) s4(1) s5(1) by (simp add: write_regs_def Let_def split_beta s2_def)
  have l6: "logs {0x3C0, 0x3DA} s5 ?s6" by (simp add: logs_write logs_read logs_refl)
  have r: "ram s2 (regs + of_nat k) = (if k = 9 then t 9 OR 0x80 else if k = 23 then t 23 AND NOT 0x80 else t k)" if "k < 100" for k
    using that of_nat32_eq_iff [of k 9] of_nat32_eq_iff [of k 23] by (auto simp: r2 t_def)
  have h: "seq_regs h = seq_regs (io s1)" "crtc_regs h = crtc_regs (io s3)" "gc_regs h = gc_regs (io s4)" "ac_regs h = ac_regs (io s5)"
    using reg_file_foreign [OF l2, of "0x3C4" "0x3C5"] reg_file_foreign [OF s3(3), of "0x3C4" "0x3C5"]
      reg_file_foreign [OF s4(3), of "0x3C4" "0x3C5"] reg_file_foreign [OF s4(3), of "0x3D4" "0x3D5"]
      reg_file_foreign [OF s5(2)] reg_file_foreign [OF l6]
    by (simp_all add: h_def w seq_regs_def crtc_regs_def gc_regs_def)
      (simp add: ac_regs_def ac_file_def write_port_def read_port_def emit_def ac_step_def split: prod.splits)
  show "\<forall>i < 5. seq_regs h (of_nat i) = t (1 + i)" using s1(4) by (simp add: h t_def add.assoc)
  show "\<forall>i < 25. crtc_regs h (of_nat i) = (if i = 3 then t 9 OR 0x80 else if i = 0x11 then t 23 AND NOT 0x80 else t (6 + i))"
    using s3(4) r [of "6 + i" for i] by (auto simp: h add.assoc)
  show "\<forall>i < 9. gc_regs h (of_nat i) = t (31 + i)" using s4(4) r [of "31 + i" for i] by (auto simp: h add.assoc)
  show "\<forall>i < 21. ac_regs h (of_nat i) = t (40 + i)" using s5(3) r [of "40 + i" for i] by (auto simp: h add.assoc)
qed

lemma table_entry: "bytes_at m a (length xs) = xs \<Longrightarrow> k < length xs \<Longrightarrow> m (a + of_nat k) = xs ! k"
  by (metis nth_bytes_at)

lemma length_text_mode: "length g_90x30_text_table = 61"
  by (simp add: g_90x30_text_table_def)



end
