(* ===== verification/Font.thy ===== *)
theory Font
  imports VgaMode
begin

text \<open>
  The fonts of \<open>screen/vga.h\<close> and what \<open>write_font\<close> does with the one of the text mode: on an adapter that answers with its registers,
  the glyphs end up in its memory and the registers as they were.
\<close>

subsection \<open>The bitmaps\<close>

text \<open>A font is an array of the glyphs of 256 characters, one byte per row; here, in parts of 32 characters.\<close>

definition g_8x8_font_0 :: "u8 list" where
  "g_8x8_font_0 =
    [0x00, 0x00, 0x00, 0x00, 0x00, 0x00, 0x00, 0x00,
     0x7E, 0x81, 0xA5, 0x81, 0xBD, 0x99, 0x81, 0x7E,
     0x7E, 0xFF, 0xDB, 0xFF, 0xC3, 0xE7, 0xFF, 0x7E,
     0x6C, 0xFE, 0xFE, 0xFE, 0x7C, 0x38, 0x10, 0x00,
     0x10, 0x38, 0x7C, 0xFE, 0x7C, 0x38, 0x10, 0x00,
     0x38, 0x7C, 0x38, 0xFE, 0xFE, 0x92, 0x10, 0x7C,
     0x00, 0x10, 0x38, 0x7C, 0xFE, 0x7C, 0x38, 0x7C,
     0x00, 0x00, 0x18, 0x3C, 0x3C, 0x18, 0x00, 0x00,
     0xFF, 0xFF, 0xE7, 0xC3, 0xC3, 0xE7, 0xFF, 0xFF,
     0x00, 0x3C, 0x66, 0x42, 0x42, 0x66, 0x3C, 0x00,
     0xFF, 0xC3, 0x99, 0xBD, 0xBD, 0x99, 0xC3, 0xFF,
     0x0F, 0x07, 0x0F, 0x7D, 0xCC, 0xCC, 0xCC, 0x78,
     0x3C, 0x66, 0x66, 0x66, 0x3C, 0x18, 0x7E, 0x18,
     0x3F, 0x33, 0x3F, 0x30, 0x30, 0x70, 0xF0, 0xE0,
     0x7F, 0x63, 0x7F, 0x63, 0x63, 0x67, 0xE6, 0xC0,
     0x99, 0x5A, 0x3C, 0xE7, 0xE7, 0x3C, 0x5A, 0x99,
     0x80, 0xE0, 0xF8, 0xFE, 0xF8, 0xE0, 0x80, 0x00,
     0x02, 0x0E, 0x3E, 0xFE, 0x3E, 0x0E, 0x02, 0x00,
     0x18, 0x3C, 0x7E, 0x18, 0x18, 0x7E, 0x3C, 0x18,
     0x66, 0x66, 0x66, 0x66, 0x66, 0x00, 0x66, 0x00,
     0x7F, 0xDB, 0xDB, 0x7B, 0x1B, 0x1B, 0x1B, 0x00,
     0x3E, 0x63, 0x38, 0x6C, 0x6C, 0x38, 0x86, 0xFC,
     0x00, 0x00, 0x00, 0x00, 0x7E, 0x7E, 0x7E, 0x00,
     0x18, 0x3C, 0x7E, 0x18, 0x7E, 0x3C, 0x18, 0xFF,
     0x18, 0x3C, 0x7E, 0x18, 0x18, 0x18, 0x18, 0x00,
     0x18, 0x18, 0x18, 0x18, 0x7E, 0x3C, 0x18, 0x00,
     0x00, 0x18, 0x0C, 0xFE, 0x0C, 0x18, 0x00, 0x00,
     0x00, 0x30, 0x60, 0xFE, 0x60, 0x30, 0x00, 0x00,
     0x00, 0x00, 0xC0, 0xC0, 0xC0, 0xFE, 0x00, 0x00,
     0x00, 0x24, 0x66, 0xFF, 0x66, 0x24, 0x00, 0x00,
     0x00, 0x18, 0x3C, 0x7E, 0xFF, 0xFF, 0x00, 0x00,
     0x00, 0xFF, 0xFF, 0x7E, 0x3C, 0x18, 0x00, 0x00]"

definition g_8x8_font_1 :: "u8 list" where
  "g_8x8_font_1 =
    [0x00, 0x00, 0x00, 0x00, 0x00, 0x00, 0x00, 0x00,
     0x18, 0x3C, 0x3C, 0x18, 0x18, 0x00, 0x18, 0x00,
     0x6C, 0x6C, 0x6C, 0x00, 0x00, 0x00, 0x00, 0x00,
     0x6C, 0x6C, 0xFE, 0x6C, 0xFE, 0x6C, 0x6C, 0x00,
     0x18, 0x7E, 0xC0, 0x7C, 0x06, 0xFC, 0x18, 0x00,
     0x00, 0xC6, 0xCC, 0x18, 0x30, 0x66, 0xC6, 0x00,
     0x38, 0x6C, 0x38, 0x76, 0xDC, 0xCC, 0x76, 0x00,
     0x30, 0x30, 0x60, 0x00, 0x00, 0x00, 0x00, 0x00,
     0x18, 0x30, 0x60, 0x60, 0x60, 0x30, 0x18, 0x00,
     0x60, 0x30, 0x18, 0x18, 0x18, 0x30, 0x60, 0x00,
     0x00, 0x66, 0x3C, 0xFF, 0x3C, 0x66, 0x00, 0x00,
     0x00, 0x18, 0x18, 0x7E, 0x18, 0x18, 0x00, 0x00,
     0x00, 0x00, 0x00, 0x00, 0x00, 0x18, 0x18, 0x30,
     0x00, 0x00, 0x00, 0x7E, 0x00, 0x00, 0x00, 0x00,
     0x00, 0x00, 0x00, 0x00, 0x00, 0x18, 0x18, 0x00,
     0x06, 0x0C, 0x18, 0x30, 0x60, 0xC0, 0x80, 0x00,
     0x7C, 0xCE, 0xDE, 0xF6, 0xE6, 0xC6, 0x7C, 0x00,
     0x30, 0x70, 0x30, 0x30, 0x30, 0x30, 0xFC, 0x00,
     0x78, 0xCC, 0x0C, 0x38, 0x60, 0xCC, 0xFC, 0x00,
     0x78, 0xCC, 0x0C, 0x38, 0x0C, 0xCC, 0x78, 0x00,
     0x1C, 0x3C, 0x6C, 0xCC, 0xFE, 0x0C, 0x1E, 0x00,
     0xFC, 0xC0, 0xF8, 0x0C, 0x0C, 0xCC, 0x78, 0x00,
     0x38, 0x60, 0xC0, 0xF8, 0xCC, 0xCC, 0x78, 0x00,
     0xFC, 0xCC, 0x0C, 0x18, 0x30, 0x30, 0x30, 0x00,
     0x78, 0xCC, 0xCC, 0x78, 0xCC, 0xCC, 0x78, 0x00,
     0x78, 0xCC, 0xCC, 0x7C, 0x0C, 0x18, 0x70, 0x00,
     0x00, 0x18, 0x18, 0x00, 0x00, 0x18, 0x18, 0x00,
     0x00, 0x18, 0x18, 0x00, 0x00, 0x18, 0x18, 0x30,
     0x18, 0x30, 0x60, 0xC0, 0x60, 0x30, 0x18, 0x00,
     0x00, 0x00, 0x7E, 0x00, 0x7E, 0x00, 0x00, 0x00,
     0x60, 0x30, 0x18, 0x0C, 0x18, 0x30, 0x60, 0x00,
     0x3C, 0x66, 0x0C, 0x18, 0x18, 0x00, 0x18, 0x00]"

definition g_8x8_font_2 :: "u8 list" where
  "g_8x8_font_2 =
    [0x7C, 0xC6, 0xDE, 0xDE, 0xDC, 0xC0, 0x7C, 0x00,
     0x30, 0x78, 0xCC, 0xCC, 0xFC, 0xCC, 0xCC, 0x00,
     0xFC, 0x66, 0x66, 0x7C, 0x66, 0x66, 0xFC, 0x00,
     0x3C, 0x66, 0xC0, 0xC0, 0xC0, 0x66, 0x3C, 0x00,
     0xF8, 0x6C, 0x66, 0x66, 0x66, 0x6C, 0xF8, 0x00,
     0xFE, 0x62, 0x68, 0x78, 0x68, 0x62, 0xFE, 0x00,
     0xFE, 0x62, 0x68, 0x78, 0x68, 0x60, 0xF0, 0x00,
     0x3C, 0x66, 0xC0, 0xC0, 0xCE, 0x66, 0x3A, 0x00,
     0xCC, 0xCC, 0xCC, 0xFC, 0xCC, 0xCC, 0xCC, 0x00,
     0x78, 0x30, 0x30, 0x30, 0x30, 0x30, 0x78, 0x00,
     0x1E, 0x0C, 0x0C, 0x0C, 0xCC, 0xCC, 0x78, 0x00,
     0xE6, 0x66, 0x6C, 0x78, 0x6C, 0x66, 0xE6, 0x00,
     0xF0, 0x60, 0x60, 0x60, 0x62, 0x66, 0xFE, 0x00,
     0xC6, 0xEE, 0xFE, 0xFE, 0xD6, 0xC6, 0xC6, 0x00,
     0xC6, 0xE6, 0xF6, 0xDE, 0xCE, 0xC6, 0xC6, 0x00,
     0x38, 0x6C, 0xC6, 0xC6, 0xC6, 0x6C, 0x38, 0x00,
     0xFC, 0x66, 0x66, 0x7C, 0x60, 0x60, 0xF0, 0x00,
     0x7C, 0xC6, 0xC6, 0xC6, 0xD6, 0x7C, 0x0E, 0x00,
     0xFC, 0x66, 0x66, 0x7C, 0x6C, 0x66, 0xE6, 0x00,
     0x7C, 0xC6, 0xE0, 0x78, 0x0E, 0xC6, 0x7C, 0x00,
     0xFC, 0xB4, 0x30, 0x30, 0x30, 0x30, 0x78, 0x00,
     0xCC, 0xCC, 0xCC, 0xCC, 0xCC, 0xCC, 0xFC, 0x00,
     0xCC, 0xCC, 0xCC, 0xCC, 0xCC, 0x78, 0x30, 0x00,
     0xC6, 0xC6, 0xC6, 0xC6, 0xD6, 0xFE, 0x6C, 0x00,
     0xC6, 0xC6, 0x6C, 0x38, 0x6C, 0xC6, 0xC6, 0x00,
     0xCC, 0xCC, 0xCC, 0x78, 0x30, 0x30, 0x78, 0x00,
     0xFE, 0xC6, 0x8C, 0x18, 0x32, 0x66, 0xFE, 0x00,
     0x78, 0x60, 0x60, 0x60, 0x60, 0x60, 0x78, 0x00,
     0xC0, 0x60, 0x30, 0x18, 0x0C, 0x06, 0x02, 0x00,
     0x78, 0x18, 0x18, 0x18, 0x18, 0x18, 0x78, 0x00,
     0x10, 0x38, 0x6C, 0xC6, 0x00, 0x00, 0x00, 0x00,
     0x00, 0x00, 0x00, 0x00, 0x00, 0x00, 0x00, 0xFF]"

definition g_8x8_font_3 :: "u8 list" where
  "g_8x8_font_3 =
    [0x30, 0x30, 0x18, 0x00, 0x00, 0x00, 0x00, 0x00,
     0x00, 0x00, 0x78, 0x0C, 0x7C, 0xCC, 0x76, 0x00,
     0xE0, 0x60, 0x60, 0x7C, 0x66, 0x66, 0xDC, 0x00,
     0x00, 0x00, 0x78, 0xCC, 0xC0, 0xCC, 0x78, 0x00,
     0x1C, 0x0C, 0x0C, 0x7C, 0xCC, 0xCC, 0x76, 0x00,
     0x00, 0x00, 0x78, 0xCC, 0xFC, 0xC0, 0x78, 0x00,
     0x38, 0x6C, 0x64, 0xF0, 0x60, 0x60, 0xF0, 0x00,
     0x00, 0x00, 0x76, 0xCC, 0xCC, 0x7C, 0x0C, 0xF8,
     0xE0, 0x60, 0x6C, 0x76, 0x66, 0x66, 0xE6, 0x00,
     0x30, 0x00, 0x70, 0x30, 0x30, 0x30, 0x78, 0x00,
     0x0C, 0x00, 0x1C, 0x0C, 0x0C, 0xCC, 0xCC, 0x78,
     0xE0, 0x60, 0x66, 0x6C, 0x78, 0x6C, 0xE6, 0x00,
     0x70, 0x30, 0x30, 0x30, 0x30, 0x30, 0x78, 0x00,
     0x00, 0x00, 0xCC, 0xFE, 0xFE, 0xD6, 0xD6, 0x00,
     0x00, 0x00, 0xB8, 0xCC, 0xCC, 0xCC, 0xCC, 0x00,
     0x00, 0x00, 0x78, 0xCC, 0xCC, 0xCC, 0x78, 0x00,
     0x00, 0x00, 0xDC, 0x66, 0x66, 0x7C, 0x60, 0xF0,
     0x00, 0x00, 0x76, 0xCC, 0xCC, 0x7C, 0x0C, 0x1E,
     0x00, 0x00, 0xDC, 0x76, 0x62, 0x60, 0xF0, 0x00,
     0x00, 0x00, 0x7C, 0xC0, 0x70, 0x1C, 0xF8, 0x00,
     0x10, 0x30, 0xFC, 0x30, 0x30, 0x34, 0x18, 0x00,
     0x00, 0x00, 0xCC, 0xCC, 0xCC, 0xCC, 0x76, 0x00,
     0x00, 0x00, 0xCC, 0xCC, 0xCC, 0x78, 0x30, 0x00,
     0x00, 0x00, 0xC6, 0xC6, 0xD6, 0xFE, 0x6C, 0x00,
     0x00, 0x00, 0xC6, 0x6C, 0x38, 0x6C, 0xC6, 0x00,
     0x00, 0x00, 0xCC, 0xCC, 0xCC, 0x7C, 0x0C, 0xF8,
     0x00, 0x00, 0xFC, 0x98, 0x30, 0x64, 0xFC, 0x00,
     0x1C, 0x30, 0x30, 0xE0, 0x30, 0x30, 0x1C, 0x00,
     0x18, 0x18, 0x18, 0x00, 0x18, 0x18, 0x18, 0x00,
     0xE0, 0x30, 0x30, 0x1C, 0x30, 0x30, 0xE0, 0x00,
     0x76, 0xDC, 0x00, 0x00, 0x00, 0x00, 0x00, 0x00,
     0x00, 0x10, 0x38, 0x6C, 0xC6, 0xC6, 0xFE, 0x00]"

definition g_8x8_font_4 :: "u8 list" where
  "g_8x8_font_4 =
    [0x7C, 0xC6, 0xC0, 0xC6, 0x7C, 0x0C, 0x06, 0x7C,
     0x00, 0xCC, 0x00, 0xCC, 0xCC, 0xCC, 0x76, 0x00,
     0x1C, 0x00, 0x78, 0xCC, 0xFC, 0xC0, 0x78, 0x00,
     0x7E, 0x81, 0x3C, 0x06, 0x3E, 0x66, 0x3B, 0x00,
     0xCC, 0x00, 0x78, 0x0C, 0x7C, 0xCC, 0x76, 0x00,
     0xE0, 0x00, 0x78, 0x0C, 0x7C, 0xCC, 0x76, 0x00,
     0x30, 0x30, 0x78, 0x0C, 0x7C, 0xCC, 0x76, 0x00,
     0x00, 0x00, 0x7C, 0xC6, 0xC0, 0x78, 0x0C, 0x38,
     0x7E, 0x81, 0x3C, 0x66, 0x7E, 0x60, 0x3C, 0x00,
     0xCC, 0x00, 0x78, 0xCC, 0xFC, 0xC0, 0x78, 0x00,
     0xE0, 0x00, 0x78, 0xCC, 0xFC, 0xC0, 0x78, 0x00,
     0xCC, 0x00, 0x70, 0x30, 0x30, 0x30, 0x78, 0x00,
     0x7C, 0x82, 0x38, 0x18, 0x18, 0x18, 0x3C, 0x00,
     0xE0, 0x00, 0x70, 0x30, 0x30, 0x30, 0x78, 0x00,
     0xC6, 0x10, 0x7C, 0xC6, 0xFE, 0xC6, 0xC6, 0x00,
     0x30, 0x30, 0x00, 0x78, 0xCC, 0xFC, 0xCC, 0x00,
     0x1C, 0x00, 0xFC, 0x60, 0x78, 0x60, 0xFC, 0x00,
     0x00, 0x00, 0x7F, 0x0C, 0x7F, 0xCC, 0x7F, 0x00,
     0x3E, 0x6C, 0xCC, 0xFE, 0xCC, 0xCC, 0xCE, 0x00,
     0x78, 0x84, 0x00, 0x78, 0xCC, 0xCC, 0x78, 0x00,
     0x00, 0xCC, 0x00, 0x78, 0xCC, 0xCC, 0x78, 0x00,
     0x00, 0xE0, 0x00, 0x78, 0xCC, 0xCC, 0x78, 0x00,
     0x78, 0x84, 0x00, 0xCC, 0xCC, 0xCC, 0x76, 0x00,
     0x00, 0xE0, 0x00, 0xCC, 0xCC, 0xCC, 0x76, 0x00,
     0x00, 0xCC, 0x00, 0xCC, 0xCC, 0x7C, 0x0C, 0xF8,
     0xC3, 0x18, 0x3C, 0x66, 0x66, 0x3C, 0x18, 0x00,
     0xCC, 0x00, 0xCC, 0xCC, 0xCC, 0xCC, 0x78, 0x00,
     0x18, 0x18, 0x7E, 0xC0, 0xC0, 0x7E, 0x18, 0x18,
     0x38, 0x6C, 0x64, 0xF0, 0x60, 0xE6, 0xFC, 0x00,
     0xCC, 0xCC, 0x78, 0x30, 0xFC, 0x30, 0xFC, 0x30,
     0xF8, 0xCC, 0xCC, 0xFA, 0xC6, 0xCF, 0xC6, 0xC3,
     0x0E, 0x1B, 0x18, 0x3C, 0x18, 0x18, 0xD8, 0x70]"

definition g_8x8_font_5 :: "u8 list" where
  "g_8x8_font_5 =
    [0x1C, 0x00, 0x78, 0x0C, 0x7C, 0xCC, 0x76, 0x00,
     0x38, 0x00, 0x70, 0x30, 0x30, 0x30, 0x78, 0x00,
     0x00, 0x1C, 0x00, 0x78, 0xCC, 0xCC, 0x78, 0x00,
     0x00, 0x1C, 0x00, 0xCC, 0xCC, 0xCC, 0x76, 0x00,
     0x00, 0xF8, 0x00, 0xB8, 0xCC, 0xCC, 0xCC, 0x00,
     0xFC, 0x00, 0xCC, 0xEC, 0xFC, 0xDC, 0xCC, 0x00,
     0x3C, 0x6C, 0x6C, 0x3E, 0x00, 0x7E, 0x00, 0x00,
     0x38, 0x6C, 0x6C, 0x38, 0x00, 0x7C, 0x00, 0x00,
     0x18, 0x00, 0x18, 0x18, 0x30, 0x66, 0x3C, 0x00,
     0x00, 0x00, 0x00, 0xFC, 0xC0, 0xC0, 0x00, 0x00,
     0x00, 0x00, 0x00, 0xFC, 0x0C, 0x0C, 0x00, 0x00,
     0xC6, 0xCC, 0xD8, 0x36, 0x6B, 0xC2, 0x84, 0x0F,
     0xC3, 0xC6, 0xCC, 0xDB, 0x37, 0x6D, 0xCF, 0x03,
     0x18, 0x00, 0x18, 0x18, 0x3C, 0x3C, 0x18, 0x00,
     0x00, 0x33, 0x66, 0xCC, 0x66, 0x33, 0x00, 0x00,
     0x00, 0xCC, 0x66, 0x33, 0x66, 0xCC, 0x00, 0x00,
     0x22, 0x88, 0x22, 0x88, 0x22, 0x88, 0x22, 0x88,
     0x55, 0xAA, 0x55, 0xAA, 0x55, 0xAA, 0x55, 0xAA,
     0xDB, 0xF6, 0xDB, 0x6F, 0xDB, 0x7E, 0xD7, 0xED,
     0x18, 0x18, 0x18, 0x18, 0x18, 0x18, 0x18, 0x18,
     0x18, 0x18, 0x18, 0x18, 0xF8, 0x18, 0x18, 0x18,
     0x18, 0x18, 0xF8, 0x18, 0xF8, 0x18, 0x18, 0x18,
     0x36, 0x36, 0x36, 0x36, 0xF6, 0x36, 0x36, 0x36,
     0x00, 0x00, 0x00, 0x00, 0xFE, 0x36, 0x36, 0x36,
     0x00, 0x00, 0xF8, 0x18, 0xF8, 0x18, 0x18, 0x18,
     0x36, 0x36, 0xF6, 0x06, 0xF6, 0x36, 0x36, 0x36,
     0x36, 0x36, 0x36, 0x36, 0x36, 0x36, 0x36, 0x36,
     0x00, 0x00, 0xFE, 0x06, 0xF6, 0x36, 0x36, 0x36,
     0x36, 0x36, 0xF6, 0x06, 0xFE, 0x00, 0x00, 0x00,
     0x36, 0x36, 0x36, 0x36, 0xFE, 0x00, 0x00, 0x00,
     0x18, 0x18, 0xF8, 0x18, 0xF8, 0x00, 0x00, 0x00,
     0x00, 0x00, 0x00, 0x00, 0xF8, 0x18, 0x18, 0x18]"

definition g_8x8_font_6 :: "u8 list" where
  "g_8x8_font_6 =
    [0x18, 0x18, 0x18, 0x18, 0x1F, 0x00, 0x00, 0x00,
     0x18, 0x18, 0x18, 0x18, 0xFF, 0x00, 0x00, 0x00,
     0x00, 0x00, 0x00, 0x00, 0xFF, 0x18, 0x18, 0x18,
     0x18, 0x18, 0x18, 0x18, 0x1F, 0x18, 0x18, 0x18,
     0x00, 0x00, 0x00, 0x00, 0xFF, 0x00, 0x00, 0x00,
     0x18, 0x18, 0x18, 0x18, 0xFF, 0x18, 0x18, 0x18,
     0x18, 0x18, 0x1F, 0x18, 0x1F, 0x18, 0x18, 0x18,
     0x36, 0x36, 0x36, 0x36, 0x37, 0x36, 0x36, 0x36,
     0x36, 0x36, 0x37, 0x30, 0x3F, 0x00, 0x00, 0x00,
     0x00, 0x00, 0x3F, 0x30, 0x37, 0x36, 0x36, 0x36,
     0x36, 0x36, 0xF7, 0x00, 0xFF, 0x00, 0x00, 0x00,
     0x00, 0x00, 0xFF, 0x00, 0xF7, 0x36, 0x36, 0x36,
     0x36, 0x36, 0x37, 0x30, 0x37, 0x36, 0x36, 0x36,
     0x00, 0x00, 0xFF, 0x00, 0xFF, 0x00, 0x00, 0x00,
     0x36, 0x36, 0xF7, 0x00, 0xF7, 0x36, 0x36, 0x36,
     0x18, 0x18, 0xFF, 0x00, 0xFF, 0x00, 0x00, 0x00,
     0x36, 0x36, 0x36, 0x36, 0xFF, 0x00, 0x00, 0x00,
     0x00, 0x00, 0xFF, 0x00, 0xFF, 0x18, 0x18, 0x18,
     0x00, 0x00, 0x00, 0x00, 0xFF, 0x36, 0x36, 0x36,
     0x36, 0x36, 0x36, 0x36, 0x3F, 0x00, 0x00, 0x00,
     0x18, 0x18, 0x1F, 0x18, 0x1F, 0x00, 0x00, 0x00,
     0x00, 0x00, 0x1F, 0x18, 0x1F, 0x18, 0x18, 0x18,
     0x00, 0x00, 0x00, 0x00, 0x3F, 0x36, 0x36, 0x36,
     0x36, 0x36, 0x36, 0x36, 0xFF, 0x36, 0x36, 0x36,
     0x18, 0x18, 0xFF, 0x18, 0xFF, 0x18, 0x18, 0x18,
     0x18, 0x18, 0x18, 0x18, 0xF8, 0x00, 0x00, 0x00,
     0x00, 0x00, 0x00, 0x00, 0x1F, 0x18, 0x18, 0x18,
     0xFF, 0xFF, 0xFF, 0xFF, 0xFF, 0xFF, 0xFF, 0xFF,
     0x00, 0x00, 0x00, 0x00, 0xFF, 0xFF, 0xFF, 0xFF,
     0xF0, 0xF0, 0xF0, 0xF0, 0xF0, 0xF0, 0xF0, 0xF0,
     0x0F, 0x0F, 0x0F, 0x0F, 0x0F, 0x0F, 0x0F, 0x0F,
     0xFF, 0xFF, 0xFF, 0xFF, 0x00, 0x00, 0x00, 0x00]"

definition g_8x8_font_7 :: "u8 list" where
  "g_8x8_font_7 =
    [0x00, 0x00, 0x76, 0xDC, 0xC8, 0xDC, 0x76, 0x00,
     0x00, 0x78, 0xCC, 0xF8, 0xCC, 0xF8, 0xC0, 0xC0,
     0x00, 0xFC, 0xCC, 0xC0, 0xC0, 0xC0, 0xC0, 0x00,
     0x00, 0x00, 0xFE, 0x6C, 0x6C, 0x6C, 0x6C, 0x00,
     0xFC, 0xCC, 0x60, 0x30, 0x60, 0xCC, 0xFC, 0x00,
     0x00, 0x00, 0x7E, 0xD8, 0xD8, 0xD8, 0x70, 0x00,
     0x00, 0x66, 0x66, 0x66, 0x66, 0x7C, 0x60, 0xC0,
     0x00, 0x76, 0xDC, 0x18, 0x18, 0x18, 0x18, 0x00,
     0xFC, 0x30, 0x78, 0xCC, 0xCC, 0x78, 0x30, 0xFC,
     0x38, 0x6C, 0xC6, 0xFE, 0xC6, 0x6C, 0x38, 0x00,
     0x38, 0x6C, 0xC6, 0xC6, 0x6C, 0x6C, 0xEE, 0x00,
     0x1C, 0x30, 0x18, 0x7C, 0xCC, 0xCC, 0x78, 0x00,
     0x00, 0x00, 0x7E, 0xDB, 0xDB, 0x7E, 0x00, 0x00,
     0x06, 0x0C, 0x7E, 0xDB, 0xDB, 0x7E, 0x60, 0xC0,
     0x38, 0x60, 0xC0, 0xF8, 0xC0, 0x60, 0x38, 0x00,
     0x78, 0xCC, 0xCC, 0xCC, 0xCC, 0xCC, 0xCC, 0x00,
     0x00, 0x7E, 0x00, 0x7E, 0x00, 0x7E, 0x00, 0x00,
     0x18, 0x18, 0x7E, 0x18, 0x18, 0x00, 0x7E, 0x00,
     0x60, 0x30, 0x18, 0x30, 0x60, 0x00, 0xFC, 0x00,
     0x18, 0x30, 0x60, 0x30, 0x18, 0x00, 0xFC, 0x00,
     0x0E, 0x1B, 0x1B, 0x18, 0x18, 0x18, 0x18, 0x18,
     0x18, 0x18, 0x18, 0x18, 0x18, 0xD8, 0xD8, 0x70,
     0x18, 0x18, 0x00, 0x7E, 0x00, 0x18, 0x18, 0x00,
     0x00, 0x76, 0xDC, 0x00, 0x76, 0xDC, 0x00, 0x00,
     0x38, 0x6C, 0x6C, 0x38, 0x00, 0x00, 0x00, 0x00,
     0x00, 0x00, 0x00, 0x18, 0x18, 0x00, 0x00, 0x00,
     0x00, 0x00, 0x00, 0x00, 0x18, 0x00, 0x00, 0x00,
     0x0F, 0x0C, 0x0C, 0x0C, 0xEC, 0x6C, 0x3C, 0x1C,
     0x58, 0x6C, 0x6C, 0x6C, 0x6C, 0x00, 0x00, 0x00,
     0x70, 0x98, 0x30, 0x60, 0xF8, 0x00, 0x00, 0x00,
     0x00, 0x00, 0x3C, 0x3C, 0x3C, 0x3C, 0x00, 0x00,
     0x00, 0x00, 0x00, 0x00, 0x00, 0x00, 0x00, 0x00]"

definition g_8x16_font_0 :: "u8 list" where
  "g_8x16_font_0 =
    [0x00, 0x00, 0x00, 0x00, 0x00, 0x00, 0x00, 0x00, 0x00, 0x00, 0x00, 0x00, 0x00, 0x00, 0x00, 0x00,
     0x00, 0x00, 0x7E, 0x81, 0xA5, 0x81, 0x81, 0xBD, 0x99, 0x81, 0x81, 0x7E, 0x00, 0x00, 0x00, 0x00,
     0x00, 0x00, 0x7E, 0xFF, 0xDB, 0xFF, 0xFF, 0xC3, 0xE7, 0xFF, 0xFF, 0x7E, 0x00, 0x00, 0x00, 0x00,
     0x00, 0x00, 0x00, 0x00, 0x6C, 0xFE, 0xFE, 0xFE, 0xFE, 0x7C, 0x38, 0x10, 0x00, 0x00, 0x00, 0x00,
     0x00, 0x00, 0x00, 0x00, 0x10, 0x38, 0x7C, 0xFE, 0x7C, 0x38, 0x10, 0x00, 0x00, 0x00, 0x00, 0x00,
     0x00, 0x00, 0x00, 0x18, 0x3C, 0x3C, 0xE7, 0xE7, 0xE7, 0x99, 0x18, 0x3C, 0x00, 0x00, 0x00, 0x00,
     0x00, 0x00, 0x00, 0x18, 0x3C, 0x7E, 0xFF, 0xFF, 0x7E, 0x18, 0x18, 0x3C, 0x00, 0x00, 0x00, 0x00,
     0x00, 0x00, 0x00, 0x00, 0x00, 0x00, 0x18, 0x3C, 0x3C, 0x18, 0x00, 0x00, 0x00, 0x00, 0x00, 0x00,
     0xFF, 0xFF, 0xFF, 0xFF, 0xFF, 0xFF, 0xE7, 0xC3, 0xC3, 0xE7, 0xFF, 0xFF, 0xFF, 0xFF, 0xFF, 0xFF,
     0x00, 0x00, 0x00, 0x00, 0x00, 0x3C, 0x66, 0x42, 0x42, 0x66, 0x3C, 0x00, 0x00, 0x00, 0x00, 0x00,
     0xFF, 0xFF, 0xFF, 0xFF, 0xFF, 0xC3, 0x99, 0xBD, 0xBD, 0x99, 0xC3, 0xFF, 0xFF, 0xFF, 0xFF, 0xFF,
     0x00, 0x00, 0x1E, 0x0E, 0x1A, 0x32, 0x78, 0xCC, 0xCC, 0xCC, 0xCC, 0x78, 0x00, 0x00, 0x00, 0x00,
     0x00, 0x00, 0x3C, 0x66, 0x66, 0x66, 0x66, 0x3C, 0x18, 0x7E, 0x18, 0x18, 0x00, 0x00, 0x00, 0x00,
     0x00, 0x00, 0x3F, 0x33, 0x3F, 0x30, 0x30, 0x30, 0x30, 0x70, 0xF0, 0xE0, 0x00, 0x00, 0x00, 0x00,
     0x00, 0x00, 0x7F, 0x63, 0x7F, 0x63, 0x63, 0x63, 0x63, 0x67, 0xE7, 0xE6, 0xC0, 0x00, 0x00, 0x00,
     0x00, 0x00, 0x00, 0x18, 0x18, 0xDB, 0x3C, 0xE7, 0x3C, 0xDB, 0x18, 0x18, 0x00, 0x00, 0x00, 0x00,
     0x00, 0x80, 0xC0, 0xE0, 0xF0, 0xF8, 0xFE, 0xF8, 0xF0, 0xE0, 0xC0, 0x80, 0x00, 0x00, 0x00, 0x00,
     0x00, 0x02, 0x06, 0x0E, 0x1E, 0x3E, 0xFE, 0x3E, 0x1E, 0x0E, 0x06, 0x02, 0x00, 0x00, 0x00, 0x00,
     0x00, 0x00, 0x18, 0x3C, 0x7E, 0x18, 0x18, 0x18, 0x18, 0x7E, 0x3C, 0x18, 0x00, 0x00, 0x00, 0x00,
     0x00, 0x00, 0x66, 0x66, 0x66, 0x66, 0x66, 0x66, 0x66, 0x00, 0x66, 0x66, 0x00, 0x00, 0x00, 0x00,
     0x00, 0x00, 0x7F, 0xDB, 0xDB, 0xDB, 0x7B, 0x1B, 0x1B, 0x1B, 0x1B, 0x1B, 0x00, 0x00, 0x00, 0x00,
     0x00, 0x7C, 0xC6, 0x60, 0x38, 0x6C, 0xC6, 0xC6, 0x6C, 0x38, 0x0C, 0xC6, 0x7C, 0x00, 0x00, 0x00,
     0x00, 0x00, 0x00, 0x00, 0x00, 0x00, 0x00, 0x00, 0xFE, 0xFE, 0xFE, 0xFE, 0x00, 0x00, 0x00, 0x00,
     0x00, 0x00, 0x18, 0x3C, 0x7E, 0x18, 0x18, 0x18, 0x18, 0x7E, 0x3C, 0x18, 0x7E, 0x00, 0x00, 0x00,
     0x00, 0x00, 0x18, 0x3C, 0x7E, 0x18, 0x18, 0x18, 0x18, 0x18, 0x18, 0x18, 0x00, 0x00, 0x00, 0x00,
     0x00, 0x00, 0x18, 0x18, 0x18, 0x18, 0x18, 0x18, 0x18, 0x7E, 0x3C, 0x18, 0x00, 0x00, 0x00, 0x00,
     0x00, 0x00, 0x00, 0x00, 0x00, 0x18, 0x0C, 0xFE, 0x0C, 0x18, 0x00, 0x00, 0x00, 0x00, 0x00, 0x00,
     0x00, 0x00, 0x00, 0x00, 0x00, 0x30, 0x60, 0xFE, 0x60, 0x30, 0x00, 0x00, 0x00, 0x00, 0x00, 0x00,
     0x00, 0x00, 0x00, 0x00, 0x00, 0xC0, 0xC0, 0xC0, 0xC0, 0xFE, 0x00, 0x00, 0x00, 0x00, 0x00, 0x00,
     0x00, 0x00, 0x00, 0x00, 0x00, 0x28, 0x6C, 0xFE, 0x6C, 0x28, 0x00, 0x00, 0x00, 0x00, 0x00, 0x00,
     0x00, 0x00, 0x00, 0x00, 0x10, 0x38, 0x38, 0x7C, 0x7C, 0xFE, 0xFE, 0x00, 0x00, 0x00, 0x00, 0x00,
     0x00, 0x00, 0x00, 0x00, 0xFE, 0xFE, 0x7C, 0x7C, 0x38, 0x38, 0x10, 0x00, 0x00, 0x00, 0x00, 0x00]"

definition g_8x16_font_1 :: "u8 list" where
  "g_8x16_font_1 =
    [0x00, 0x00, 0x00, 0x00, 0x00, 0x00, 0x00, 0x00, 0x00, 0x00, 0x00, 0x00, 0x00, 0x00, 0x00, 0x00,
     0x00, 0x00, 0x18, 0x3C, 0x3C, 0x3C, 0x18, 0x18, 0x18, 0x00, 0x18, 0x18, 0x00, 0x00, 0x00, 0x00,
     0x00, 0x66, 0x66, 0x66, 0x24, 0x00, 0x00, 0x00, 0x00, 0x00, 0x00, 0x00, 0x00, 0x00, 0x00, 0x00,
     0x00, 0x00, 0x00, 0x6C, 0x6C, 0xFE, 0x6C, 0x6C, 0x6C, 0xFE, 0x6C, 0x6C, 0x00, 0x00, 0x00, 0x00,
     0x18, 0x18, 0x7C, 0xC6, 0xC2, 0xC0, 0x7C, 0x06, 0x86, 0xC6, 0x7C, 0x18, 0x18, 0x00, 0x00, 0x00,
     0x00, 0x00, 0x00, 0x00, 0xC2, 0xC6, 0x0C, 0x18, 0x30, 0x60, 0xC6, 0x86, 0x00, 0x00, 0x00, 0x00,
     0x00, 0x00, 0x38, 0x6C, 0x6C, 0x38, 0x76, 0xDC, 0xCC, 0xCC, 0xCC, 0x76, 0x00, 0x00, 0x00, 0x00,
     0x00, 0x30, 0x30, 0x30, 0x60, 0x00, 0x00, 0x00, 0x00, 0x00, 0x00, 0x00, 0x00, 0x00, 0x00, 0x00,
     0x00, 0x00, 0x0C, 0x18, 0x30, 0x30, 0x30, 0x30, 0x30, 0x30, 0x18, 0x0C, 0x00, 0x00, 0x00, 0x00,
     0x00, 0x00, 0x30, 0x18, 0x0C, 0x0C, 0x0C, 0x0C, 0x0C, 0x0C, 0x18, 0x30, 0x00, 0x00, 0x00, 0x00,
     0x00, 0x00, 0x00, 0x00, 0x00, 0x66, 0x3C, 0xFF, 0x3C, 0x66, 0x00, 0x00, 0x00, 0x00, 0x00, 0x00,
     0x00, 0x00, 0x00, 0x00, 0x00, 0x18, 0x18, 0x7E, 0x18, 0x18, 0x00, 0x00, 0x00, 0x00, 0x00, 0x00,
     0x00, 0x00, 0x00, 0x00, 0x00, 0x00, 0x00, 0x00, 0x00, 0x18, 0x18, 0x18, 0x30, 0x00, 0x00, 0x00,
     0x00, 0x00, 0x00, 0x00, 0x00, 0x00, 0x00, 0xFE, 0x00, 0x00, 0x00, 0x00, 0x00, 0x00, 0x00, 0x00,
     0x00, 0x00, 0x00, 0x00, 0x00, 0x00, 0x00, 0x00, 0x00, 0x00, 0x18, 0x18, 0x00, 0x00, 0x00, 0x00,
     0x00, 0x00, 0x00, 0x00, 0x02, 0x06, 0x0C, 0x18, 0x30, 0x60, 0xC0, 0x80, 0x00, 0x00, 0x00, 0x00,
     0x00, 0x00, 0x7C, 0xC6, 0xC6, 0xCE, 0xD6, 0xD6, 0xE6, 0xC6, 0xC6, 0x7C, 0x00, 0x00, 0x00, 0x00,
     0x00, 0x00, 0x18, 0x38, 0x78, 0x18, 0x18, 0x18, 0x18, 0x18, 0x18, 0x7E, 0x00, 0x00, 0x00, 0x00,
     0x00, 0x00, 0x7C, 0xC6, 0x06, 0x0C, 0x18, 0x30, 0x60, 0xC0, 0xC6, 0xFE, 0x00, 0x00, 0x00, 0x00,
     0x00, 0x00, 0x7C, 0xC6, 0x06, 0x06, 0x3C, 0x06, 0x06, 0x06, 0xC6, 0x7C, 0x00, 0x00, 0x00, 0x00,
     0x00, 0x00, 0x0C, 0x1C, 0x3C, 0x6C, 0xCC, 0xFE, 0x0C, 0x0C, 0x0C, 0x1E, 0x00, 0x00, 0x00, 0x00,
     0x00, 0x00, 0xFE, 0xC0, 0xC0, 0xC0, 0xFC, 0x0E, 0x06, 0x06, 0xC6, 0x7C, 0x00, 0x00, 0x00, 0x00,
     0x00, 0x00, 0x38, 0x60, 0xC0, 0xC0, 0xFC, 0xC6, 0xC6, 0xC6, 0xC6, 0x7C, 0x00, 0x00, 0x00, 0x00,
     0x00, 0x00, 0xFE, 0xC6, 0x06, 0x06, 0x0C, 0x18, 0x30, 0x30, 0x30, 0x30, 0x00, 0x00, 0x00, 0x00,
     0x00, 0x00, 0x7C, 0xC6, 0xC6, 0xC6, 0x7C, 0xC6, 0xC6, 0xC6, 0xC6, 0x7C, 0x00, 0x00, 0x00, 0x00,
     0x00, 0x00, 0x7C, 0xC6, 0xC6, 0xC6, 0x7E, 0x06, 0x06, 0x06, 0x0C, 0x78, 0x00, 0x00, 0x00, 0x00,
     0x00, 0x00, 0x00, 0x00, 0x18, 0x18, 0x00, 0x00, 0x00, 0x18, 0x18, 0x00, 0x00, 0x00, 0x00, 0x00,
     0x00, 0x00, 0x00, 0x00, 0x18, 0x18, 0x00, 0x00, 0x00, 0x18, 0x18, 0x30, 0x00, 0x00, 0x00, 0x00,
     0x00, 0x00, 0x00, 0x06, 0x0C, 0x18, 0x30, 0x60, 0x30, 0x18, 0x0C, 0x06, 0x00, 0x00, 0x00, 0x00,
     0x00, 0x00, 0x00, 0x00, 0x00, 0x00, 0xFE, 0x00, 0x00, 0xFE, 0x00, 0x00, 0x00, 0x00, 0x00, 0x00,
     0x00, 0x00, 0x00, 0x60, 0x30, 0x18, 0x0C, 0x06, 0x0C, 0x18, 0x30, 0x60, 0x00, 0x00, 0x00, 0x00,
     0x00, 0x00, 0x7C, 0xC6, 0xC6, 0x0C, 0x18, 0x18, 0x18, 0x00, 0x18, 0x18, 0x00, 0x00, 0x00, 0x00]"

definition g_8x16_font_2 :: "u8 list" where
  "g_8x16_font_2 =
    [0x00, 0x00, 0x00, 0x7C, 0xC6, 0xC6, 0xDE, 0xDE, 0xDE, 0xDC, 0xC0, 0x7C, 0x00, 0x00, 0x00, 0x00,
     0x00, 0x00, 0x10, 0x38, 0x6C, 0xC6, 0xC6, 0xFE, 0xC6, 0xC6, 0xC6, 0xC6, 0x00, 0x00, 0x00, 0x00,
     0x00, 0x00, 0xFC, 0x66, 0x66, 0x66, 0x7C, 0x66, 0x66, 0x66, 0x66, 0xFC, 0x00, 0x00, 0x00, 0x00,
     0x00, 0x00, 0x3C, 0x66, 0xC2, 0xC0, 0xC0, 0xC0, 0xC0, 0xC2, 0x66, 0x3C, 0x00, 0x00, 0x00, 0x00,
     0x00, 0x00, 0xF8, 0x6C, 0x66, 0x66, 0x66, 0x66, 0x66, 0x66, 0x6C, 0xF8, 0x00, 0x00, 0x00, 0x00,
     0x00, 0x00, 0xFE, 0x66, 0x62, 0x68, 0x78, 0x68, 0x60, 0x62, 0x66, 0xFE, 0x00, 0x00, 0x00, 0x00,
     0x00, 0x00, 0xFE, 0x66, 0x62, 0x68, 0x78, 0x68, 0x60, 0x60, 0x60, 0xF0, 0x00, 0x00, 0x00, 0x00,
     0x00, 0x00, 0x3C, 0x66, 0xC2, 0xC0, 0xC0, 0xDE, 0xC6, 0xC6, 0x66, 0x3A, 0x00, 0x00, 0x00, 0x00,
     0x00, 0x00, 0xC6, 0xC6, 0xC6, 0xC6, 0xFE, 0xC6, 0xC6, 0xC6, 0xC6, 0xC6, 0x00, 0x00, 0x00, 0x00,
     0x00, 0x00, 0x3C, 0x18, 0x18, 0x18, 0x18, 0x18, 0x18, 0x18, 0x18, 0x3C, 0x00, 0x00, 0x00, 0x00,
     0x00, 0x00, 0x1E, 0x0C, 0x0C, 0x0C, 0x0C, 0x0C, 0xCC, 0xCC, 0xCC, 0x78, 0x00, 0x00, 0x00, 0x00,
     0x00, 0x00, 0xE6, 0x66, 0x6C, 0x6C, 0x78, 0x78, 0x6C, 0x66, 0x66, 0xE6, 0x00, 0x00, 0x00, 0x00,
     0x00, 0x00, 0xF0, 0x60, 0x60, 0x60, 0x60, 0x60, 0x60, 0x62, 0x66, 0xFE, 0x00, 0x00, 0x00, 0x00,
     0x00, 0x00, 0xC6, 0xEE, 0xFE, 0xFE, 0xD6, 0xC6, 0xC6, 0xC6, 0xC6, 0xC6, 0x00, 0x00, 0x00, 0x00,
     0x00, 0x00, 0xC6, 0xE6, 0xF6, 0xFE, 0xDE, 0xCE, 0xC6, 0xC6, 0xC6, 0xC6, 0x00, 0x00, 0x00, 0x00,
     0x00, 0x00, 0x38, 0x6C, 0xC6, 0xC6, 0xC6, 0xC6, 0xC6, 0xC6, 0x6C, 0x38, 0x00, 0x00, 0x00, 0x00,
     0x00, 0x00, 0xFC, 0x66, 0x66, 0x66, 0x7C, 0x60, 0x60, 0x60, 0x60, 0xF0, 0x00, 0x00, 0x00, 0x00,
     0x00, 0x00, 0x7C, 0xC6, 0xC6, 0xC6, 0xC6, 0xC6, 0xC6, 0xD6, 0xDE, 0x7C, 0x0C, 0x0E, 0x00, 0x00,
     0x00, 0x00, 0xFC, 0x66, 0x66, 0x66, 0x7C, 0x6C, 0x66, 0x66, 0x66, 0xE6, 0x00, 0x00, 0x00, 0x00,
     0x00, 0x00, 0x7C, 0xC6, 0xC6, 0x60, 0x38, 0x0C, 0x06, 0xC6, 0xC6, 0x7C, 0x00, 0x00, 0x00, 0x00,
     0x00, 0x00, 0x7E, 0x7E, 0x5A, 0x18, 0x18, 0x18, 0x18, 0x18, 0x18, 0x3C, 0x00, 0x00, 0x00, 0x00,
     0x00, 0x00, 0xC6, 0xC6, 0xC6, 0xC6, 0xC6, 0xC6, 0xC6, 0xC6, 0xC6, 0x7C, 0x00, 0x00, 0x00, 0x00,
     0x00, 0x00, 0xC6, 0xC6, 0xC6, 0xC6, 0xC6, 0xC6, 0xC6, 0x6C, 0x38, 0x10, 0x00, 0x00, 0x00, 0x00,
     0x00, 0x00, 0xC6, 0xC6, 0xC6, 0xC6, 0xC6, 0xD6, 0xD6, 0xFE, 0x6C, 0x6C, 0x00, 0x00, 0x00, 0x00,
     0x00, 0x00, 0xC6, 0xC6, 0x6C, 0x6C, 0x38, 0x38, 0x6C, 0x6C, 0xC6, 0xC6, 0x00, 0x00, 0x00, 0x00,
     0x00, 0x00, 0x66, 0x66, 0x66, 0x66, 0x3C, 0x18, 0x18, 0x18, 0x18, 0x3C, 0x00, 0x00, 0x00, 0x00,
     0x00, 0x00, 0xFE, 0xC6, 0x86, 0x0C, 0x18, 0x30, 0x60, 0xC2, 0xC6, 0xFE, 0x00, 0x00, 0x00, 0x00,
     0x00, 0x00, 0x3C, 0x30, 0x30, 0x30, 0x30, 0x30, 0x30, 0x30, 0x30, 0x3C, 0x00, 0x00, 0x00, 0x00,
     0x00, 0x00, 0x00, 0x80, 0xC0, 0xE0, 0x70, 0x38, 0x1C, 0x0E, 0x06, 0x02, 0x00, 0x00, 0x00, 0x00,
     0x00, 0x00, 0x3C, 0x0C, 0x0C, 0x0C, 0x0C, 0x0C, 0x0C, 0x0C, 0x0C, 0x3C, 0x00, 0x00, 0x00, 0x00,
     0x10, 0x38, 0x6C, 0xC6, 0x00, 0x00, 0x00, 0x00, 0x00, 0x00, 0x00, 0x00, 0x00, 0x00, 0x00, 0x00,
     0x00, 0x00, 0x00, 0x00, 0x00, 0x00, 0x00, 0x00, 0x00, 0x00, 0x00, 0x00, 0x00, 0xFF, 0x00, 0x00]"

definition g_8x16_font_3 :: "u8 list" where
  "g_8x16_font_3 =
    [0x30, 0x30, 0x18, 0x00, 0x00, 0x00, 0x00, 0x00, 0x00, 0x00, 0x00, 0x00, 0x00, 0x00, 0x00, 0x00,
     0x00, 0x00, 0x00, 0x00, 0x00, 0x78, 0x0C, 0x7C, 0xCC, 0xCC, 0xCC, 0x76, 0x00, 0x00, 0x00, 0x00,
     0x00, 0x00, 0xE0, 0x60, 0x60, 0x78, 0x6C, 0x66, 0x66, 0x66, 0x66, 0xDC, 0x00, 0x00, 0x00, 0x00,
     0x00, 0x00, 0x00, 0x00, 0x00, 0x7C, 0xC6, 0xC0, 0xC0, 0xC0, 0xC6, 0x7C, 0x00, 0x00, 0x00, 0x00,
     0x00, 0x00, 0x1C, 0x0C, 0x0C, 0x3C, 0x6C, 0xCC, 0xCC, 0xCC, 0xCC, 0x76, 0x00, 0x00, 0x00, 0x00,
     0x00, 0x00, 0x00, 0x00, 0x00, 0x7C, 0xC6, 0xFE, 0xC0, 0xC0, 0xC6, 0x7C, 0x00, 0x00, 0x00, 0x00,
     0x00, 0x00, 0x38, 0x6C, 0x64, 0x60, 0xF0, 0x60, 0x60, 0x60, 0x60, 0xF0, 0x00, 0x00, 0x00, 0x00,
     0x00, 0x00, 0x00, 0x00, 0x00, 0x76, 0xCC, 0xCC, 0xCC, 0xCC, 0xCC, 0x7C, 0x0C, 0xCC, 0x78, 0x00,
     0x00, 0x00, 0xE0, 0x60, 0x60, 0x6C, 0x76, 0x66, 0x66, 0x66, 0x66, 0xE6, 0x00, 0x00, 0x00, 0x00,
     0x00, 0x00, 0x18, 0x18, 0x00, 0x38, 0x18, 0x18, 0x18, 0x18, 0x18, 0x3C, 0x00, 0x00, 0x00, 0x00,
     0x00, 0x00, 0x06, 0x06, 0x00, 0x0E, 0x06, 0x06, 0x06, 0x06, 0x06, 0x06, 0x66, 0x66, 0x3C, 0x00,
     0x00, 0x00, 0xE0, 0x60, 0x60, 0x66, 0x6C, 0x78, 0x78, 0x6C, 0x66, 0xE6, 0x00, 0x00, 0x00, 0x00,
     0x00, 0x00, 0x38, 0x18, 0x18, 0x18, 0x18, 0x18, 0x18, 0x18, 0x18, 0x3C, 0x00, 0x00, 0x00, 0x00,
     0x00, 0x00, 0x00, 0x00, 0x00, 0xEC, 0xFE, 0xD6, 0xD6, 0xD6, 0xD6, 0xD6, 0x00, 0x00, 0x00, 0x00,
     0x00, 0x00, 0x00, 0x00, 0x00, 0xDC, 0x66, 0x66, 0x66, 0x66, 0x66, 0x66, 0x00, 0x00, 0x00, 0x00,
     0x00, 0x00, 0x00, 0x00, 0x00, 0x7C, 0xC6, 0xC6, 0xC6, 0xC6, 0xC6, 0x7C, 0x00, 0x00, 0x00, 0x00,
     0x00, 0x00, 0x00, 0x00, 0x00, 0xDC, 0x66, 0x66, 0x66, 0x66, 0x66, 0x7C, 0x60, 0x60, 0xF0, 0x00,
     0x00, 0x00, 0x00, 0x00, 0x00, 0x76, 0xCC, 0xCC, 0xCC, 0xCC, 0xCC, 0x7C, 0x0C, 0x0C, 0x1E, 0x00,
     0x00, 0x00, 0x00, 0x00, 0x00, 0xDC, 0x76, 0x62, 0x60, 0x60, 0x60, 0xF0, 0x00, 0x00, 0x00, 0x00,
     0x00, 0x00, 0x00, 0x00, 0x00, 0x7C, 0xC6, 0x60, 0x38, 0x0C, 0xC6, 0x7C, 0x00, 0x00, 0x00, 0x00,
     0x00, 0x00, 0x10, 0x30, 0x30, 0xFC, 0x30, 0x30, 0x30, 0x30, 0x36, 0x1C, 0x00, 0x00, 0x00, 0x00,
     0x00, 0x00, 0x00, 0x00, 0x00, 0xCC, 0xCC, 0xCC, 0xCC, 0xCC, 0xCC, 0x76, 0x00, 0x00, 0x00, 0x00,
     0x00, 0x00, 0x00, 0x00, 0x00, 0x66, 0x66, 0x66, 0x66, 0x66, 0x3C, 0x18, 0x00, 0x00, 0x00, 0x00,
     0x00, 0x00, 0x00, 0x00, 0x00, 0xC6, 0xC6, 0xC6, 0xD6, 0xD6, 0xFE, 0x6C, 0x00, 0x00, 0x00, 0x00,
     0x00, 0x00, 0x00, 0x00, 0x00, 0xC6, 0x6C, 0x38, 0x38, 0x38, 0x6C, 0xC6, 0x00, 0x00, 0x00, 0x00,
     0x00, 0x00, 0x00, 0x00, 0x00, 0xC6, 0xC6, 0xC6, 0xC6, 0xC6, 0xC6, 0x7E, 0x06, 0x0C, 0xF8, 0x00,
     0x00, 0x00, 0x00, 0x00, 0x00, 0xFE, 0xCC, 0x18, 0x30, 0x60, 0xC6, 0xFE, 0x00, 0x00, 0x00, 0x00,
     0x00, 0x00, 0x0E, 0x18, 0x18, 0x18, 0x70, 0x18, 0x18, 0x18, 0x18, 0x0E, 0x00, 0x00, 0x00, 0x00,
     0x00, 0x00, 0x18, 0x18, 0x18, 0x18, 0x00, 0x18, 0x18, 0x18, 0x18, 0x18, 0x00, 0x00, 0x00, 0x00,
     0x00, 0x00, 0x70, 0x18, 0x18, 0x18, 0x0E, 0x18, 0x18, 0x18, 0x18, 0x70, 0x00, 0x00, 0x00, 0x00,
     0x00, 0x00, 0x76, 0xDC, 0x00, 0x00, 0x00, 0x00, 0x00, 0x00, 0x00, 0x00, 0x00, 0x00, 0x00, 0x00,
     0x00, 0x00, 0x00, 0x00, 0x10, 0x38, 0x6C, 0xC6, 0xC6, 0xC6, 0xFE, 0x00, 0x00, 0x00, 0x00, 0x00]"

definition g_8x16_font_4 :: "u8 list" where
  "g_8x16_font_4 =
    [0x00, 0x00, 0x3C, 0x66, 0xC2, 0xC0, 0xC0, 0xC0, 0xC2, 0x66, 0x3C, 0x0C, 0x06, 0x7C, 0x00, 0x00,
     0x00, 0x00, 0xCC, 0xCC, 0x00, 0xCC, 0xCC, 0xCC, 0xCC, 0xCC, 0xCC, 0x76, 0x00, 0x00, 0x00, 0x00,
     0x00, 0x0C, 0x18, 0x30, 0x00, 0x7C, 0xC6, 0xFE, 0xC0, 0xC0, 0xC6, 0x7C, 0x00, 0x00, 0x00, 0x00,
     0x00, 0x10, 0x38, 0x6C, 0x00, 0x78, 0x0C, 0x7C, 0xCC, 0xCC, 0xCC, 0x76, 0x00, 0x00, 0x00, 0x00,
     0x00, 0x00, 0xCC, 0xCC, 0x00, 0x78, 0x0C, 0x7C, 0xCC, 0xCC, 0xCC, 0x76, 0x00, 0x00, 0x00, 0x00,
     0x00, 0x60, 0x30, 0x18, 0x00, 0x78, 0x0C, 0x7C, 0xCC, 0xCC, 0xCC, 0x76, 0x00, 0x00, 0x00, 0x00,
     0x00, 0x38, 0x6C, 0x38, 0x00, 0x78, 0x0C, 0x7C, 0xCC, 0xCC, 0xCC, 0x76, 0x00, 0x00, 0x00, 0x00,
     0x00, 0x00, 0x00, 0x00, 0x3C, 0x66, 0x60, 0x60, 0x66, 0x3C, 0x0C, 0x06, 0x3C, 0x00, 0x00, 0x00,
     0x00, 0x10, 0x38, 0x6C, 0x00, 0x7C, 0xC6, 0xFE, 0xC0, 0xC0, 0xC6, 0x7C, 0x00, 0x00, 0x00, 0x00,
     0x00, 0x00, 0xC6, 0xC6, 0x00, 0x7C, 0xC6, 0xFE, 0xC0, 0xC0, 0xC6, 0x7C, 0x00, 0x00, 0x00, 0x00,
     0x00, 0x60, 0x30, 0x18, 0x00, 0x7C, 0xC6, 0xFE, 0xC0, 0xC0, 0xC6, 0x7C, 0x00, 0x00, 0x00, 0x00,
     0x00, 0x00, 0x66, 0x66, 0x00, 0x38, 0x18, 0x18, 0x18, 0x18, 0x18, 0x3C, 0x00, 0x00, 0x00, 0x00,
     0x00, 0x18, 0x3C, 0x66, 0x00, 0x38, 0x18, 0x18, 0x18, 0x18, 0x18, 0x3C, 0x00, 0x00, 0x00, 0x00,
     0x00, 0x60, 0x30, 0x18, 0x00, 0x38, 0x18, 0x18, 0x18, 0x18, 0x18, 0x3C, 0x00, 0x00, 0x00, 0x00,
     0x00, 0xC6, 0xC6, 0x10, 0x38, 0x6C, 0xC6, 0xC6, 0xFE, 0xC6, 0xC6, 0xC6, 0x00, 0x00, 0x00, 0x00,
     0x38, 0x6C, 0x38, 0x00, 0x38, 0x6C, 0xC6, 0xC6, 0xFE, 0xC6, 0xC6, 0xC6, 0x00, 0x00, 0x00, 0x00,
     0x18, 0x30, 0x60, 0x00, 0xFE, 0x66, 0x60, 0x7C, 0x60, 0x60, 0x66, 0xFE, 0x00, 0x00, 0x00, 0x00,
     0x00, 0x00, 0x00, 0x00, 0x00, 0xCC, 0x76, 0x36, 0x7E, 0xD8, 0xD8, 0x6E, 0x00, 0x00, 0x00, 0x00,
     0x00, 0x00, 0x3E, 0x6C, 0xCC, 0xCC, 0xFE, 0xCC, 0xCC, 0xCC, 0xCC, 0xCE, 0x00, 0x00, 0x00, 0x00,
     0x00, 0x10, 0x38, 0x6C, 0x00, 0x7C, 0xC6, 0xC6, 0xC6, 0xC6, 0xC6, 0x7C, 0x00, 0x00, 0x00, 0x00,
     0x00, 0x00, 0xC6, 0xC6, 0x00, 0x7C, 0xC6, 0xC6, 0xC6, 0xC6, 0xC6, 0x7C, 0x00, 0x00, 0x00, 0x00,
     0x00, 0x60, 0x30, 0x18, 0x00, 0x7C, 0xC6, 0xC6, 0xC6, 0xC6, 0xC6, 0x7C, 0x00, 0x00, 0x00, 0x00,
     0x00, 0x30, 0x78, 0xCC, 0x00, 0xCC, 0xCC, 0xCC, 0xCC, 0xCC, 0xCC, 0x76, 0x00, 0x00, 0x00, 0x00,
     0x00, 0x60, 0x30, 0x18, 0x00, 0xCC, 0xCC, 0xCC, 0xCC, 0xCC, 0xCC, 0x76, 0x00, 0x00, 0x00, 0x00,
     0x00, 0x00, 0xC6, 0xC6, 0x00, 0xC6, 0xC6, 0xC6, 0xC6, 0xC6, 0xC6, 0x7E, 0x06, 0x0C, 0x78, 0x00,
     0x00, 0xC6, 0xC6, 0x00, 0x38, 0x6C, 0xC6, 0xC6, 0xC6, 0xC6, 0x6C, 0x38, 0x00, 0x00, 0x00, 0x00,
     0x00, 0xC6, 0xC6, 0x00, 0xC6, 0xC6, 0xC6, 0xC6, 0xC6, 0xC6, 0xC6, 0x7C, 0x00, 0x00, 0x00, 0x00,
     0x00, 0x18, 0x18, 0x3C, 0x66, 0x60, 0x60, 0x60, 0x66, 0x3C, 0x18, 0x18, 0x00, 0x00, 0x00, 0x00,
     0x00, 0x38, 0x6C, 0x64, 0x60, 0xF0, 0x60, 0x60, 0x60, 0x60, 0xE6, 0xFC, 0x00, 0x00, 0x00, 0x00,
     0x00, 0x00, 0x66, 0x66, 0x3C, 0x18, 0x7E, 0x18, 0x7E, 0x18, 0x18, 0x18, 0x00, 0x00, 0x00, 0x00,
     0x00, 0xF8, 0xCC, 0xCC, 0xF8, 0xC4, 0xCC, 0xDE, 0xCC, 0xCC, 0xCC, 0xC6, 0x00, 0x00, 0x00, 0x00,
     0x00, 0x0E, 0x1B, 0x18, 0x18, 0x18, 0x7E, 0x18, 0x18, 0x18, 0x18, 0x18, 0xD8, 0x70, 0x00, 0x00]"

definition g_8x16_font_5 :: "u8 list" where
  "g_8x16_font_5 =
    [0x00, 0x18, 0x30, 0x60, 0x00, 0x78, 0x0C, 0x7C, 0xCC, 0xCC, 0xCC, 0x76, 0x00, 0x00, 0x00, 0x00,
     0x00, 0x0C, 0x18, 0x30, 0x00, 0x38, 0x18, 0x18, 0x18, 0x18, 0x18, 0x3C, 0x00, 0x00, 0x00, 0x00,
     0x00, 0x18, 0x30, 0x60, 0x00, 0x7C, 0xC6, 0xC6, 0xC6, 0xC6, 0xC6, 0x7C, 0x00, 0x00, 0x00, 0x00,
     0x00, 0x18, 0x30, 0x60, 0x00, 0xCC, 0xCC, 0xCC, 0xCC, 0xCC, 0xCC, 0x76, 0x00, 0x00, 0x00, 0x00,
     0x00, 0x00, 0x76, 0xDC, 0x00, 0xDC, 0x66, 0x66, 0x66, 0x66, 0x66, 0x66, 0x00, 0x00, 0x00, 0x00,
     0x76, 0xDC, 0x00, 0xC6, 0xE6, 0xF6, 0xFE, 0xDE, 0xCE, 0xC6, 0xC6, 0xC6, 0x00, 0x00, 0x00, 0x00,
     0x00, 0x3C, 0x6C, 0x6C, 0x3E, 0x00, 0x7E, 0x00, 0x00, 0x00, 0x00, 0x00, 0x00, 0x00, 0x00, 0x00,
     0x00, 0x38, 0x6C, 0x6C, 0x38, 0x00, 0x7C, 0x00, 0x00, 0x00, 0x00, 0x00, 0x00, 0x00, 0x00, 0x00,
     0x00, 0x00, 0x30, 0x30, 0x00, 0x30, 0x30, 0x60, 0xC0, 0xC6, 0xC6, 0x7C, 0x00, 0x00, 0x00, 0x00,
     0x00, 0x00, 0x00, 0x00, 0x00, 0x00, 0xFE, 0xC0, 0xC0, 0xC0, 0xC0, 0x00, 0x00, 0x00, 0x00, 0x00,
     0x00, 0x00, 0x00, 0x00, 0x00, 0x00, 0xFE, 0x06, 0x06, 0x06, 0x06, 0x00, 0x00, 0x00, 0x00, 0x00,
     0x00, 0xC0, 0xC0, 0xC2, 0xC6, 0xCC, 0x18, 0x30, 0x60, 0xCE, 0x93, 0x06, 0x0C, 0x1F, 0x00, 0x00,
     0x00, 0xC0, 0xC0, 0xC2, 0xC6, 0xCC, 0x18, 0x30, 0x66, 0xCE, 0x9A, 0x3F, 0x06, 0x0F, 0x00, 0x00,
     0x00, 0x00, 0x18, 0x18, 0x00, 0x18, 0x18, 0x18, 0x3C, 0x3C, 0x3C, 0x18, 0x00, 0x00, 0x00, 0x00,
     0x00, 0x00, 0x00, 0x00, 0x00, 0x33, 0x66, 0xCC, 0x66, 0x33, 0x00, 0x00, 0x00, 0x00, 0x00, 0x00,
     0x00, 0x00, 0x00, 0x00, 0x00, 0xCC, 0x66, 0x33, 0x66, 0xCC, 0x00, 0x00, 0x00, 0x00, 0x00, 0x00,
     0x11, 0x44, 0x11, 0x44, 0x11, 0x44, 0x11, 0x44, 0x11, 0x44, 0x11, 0x44, 0x11, 0x44, 0x11, 0x44,
     0x55, 0xAA, 0x55, 0xAA, 0x55, 0xAA, 0x55, 0xAA, 0x55, 0xAA, 0x55, 0xAA, 0x55, 0xAA, 0x55, 0xAA,
     0xDD, 0x77, 0xDD, 0x77, 0xDD, 0x77, 0xDD, 0x77, 0xDD, 0x77, 0xDD, 0x77, 0xDD, 0x77, 0xDD, 0x77,
     0x18, 0x18, 0x18, 0x18, 0x18, 0x18, 0x18, 0x18, 0x18, 0x18, 0x18, 0x18, 0x18, 0x18, 0x18, 0x18,
     0x18, 0x18, 0x18, 0x18, 0x18, 0x18, 0x18, 0xF8, 0x18, 0x18, 0x18, 0x18, 0x18, 0x18, 0x18, 0x18,
     0x18, 0x18, 0x18, 0x18, 0x18, 0xF8, 0x18, 0xF8, 0x18, 0x18, 0x18, 0x18, 0x18, 0x18, 0x18, 0x18,
     0x36, 0x36, 0x36, 0x36, 0x36, 0x36, 0x36, 0xF6, 0x36, 0x36, 0x36, 0x36, 0x36, 0x36, 0x36, 0x36,
     0x00, 0x00, 0x00, 0x00, 0x00, 0x00, 0x00, 0xFE, 0x36, 0x36, 0x36, 0x36, 0x36, 0x36, 0x36, 0x36,
     0x00, 0x00, 0x00, 0x00, 0x00, 0xF8, 0x18, 0xF8, 0x18, 0x18, 0x18, 0x18, 0x18, 0x18, 0x18, 0x18,
     0x36, 0x36, 0x36, 0x36, 0x36, 0xF6, 0x06, 0xF6, 0x36, 0x36, 0x36, 0x36, 0x36, 0x36, 0x36, 0x36,
     0x36, 0x36, 0x36, 0x36, 0x36, 0x36, 0x36, 0x36, 0x36, 0x36, 0x36, 0x36, 0x36, 0x36, 0x36, 0x36,
     0x00, 0x00, 0x00, 0x00, 0x00, 0xFE, 0x06, 0xF6, 0x36, 0x36, 0x36, 0x36, 0x36, 0x36, 0x36, 0x36,
     0x36, 0x36, 0x36, 0x36, 0x36, 0xF6, 0x06, 0xFE, 0x00, 0x00, 0x00, 0x00, 0x00, 0x00, 0x00, 0x00,
     0x36, 0x36, 0x36, 0x36, 0x36, 0x36, 0x36, 0xFE, 0x00, 0x00, 0x00, 0x00, 0x00, 0x00, 0x00, 0x00,
     0x18, 0x18, 0x18, 0x18, 0x18, 0xF8, 0x18, 0xF8, 0x00, 0x00, 0x00, 0x00, 0x00, 0x00, 0x00, 0x00,
     0x00, 0x00, 0x00, 0x00, 0x00, 0x00, 0x00, 0xF8, 0x18, 0x18, 0x18, 0x18, 0x18, 0x18, 0x18, 0x18]"

definition g_8x16_font_6 :: "u8 list" where
  "g_8x16_font_6 =
    [0x18, 0x18, 0x18, 0x18, 0x18, 0x18, 0x18, 0x1F, 0x00, 0x00, 0x00, 0x00, 0x00, 0x00, 0x00, 0x00,
     0x18, 0x18, 0x18, 0x18, 0x18, 0x18, 0x18, 0xFF, 0x00, 0x00, 0x00, 0x00, 0x00, 0x00, 0x00, 0x00,
     0x00, 0x00, 0x00, 0x00, 0x00, 0x00, 0x00, 0xFF, 0x18, 0x18, 0x18, 0x18, 0x18, 0x18, 0x18, 0x18,
     0x18, 0x18, 0x18, 0x18, 0x18, 0x18, 0x18, 0x1F, 0x18, 0x18, 0x18, 0x18, 0x18, 0x18, 0x18, 0x18,
     0x00, 0x00, 0x00, 0x00, 0x00, 0x00, 0x00, 0xFF, 0x00, 0x00, 0x00, 0x00, 0x00, 0x00, 0x00, 0x00,
     0x18, 0x18, 0x18, 0x18, 0x18, 0x18, 0x18, 0xFF, 0x18, 0x18, 0x18, 0x18, 0x18, 0x18, 0x18, 0x18,
     0x18, 0x18, 0x18, 0x18, 0x18, 0x1F, 0x18, 0x1F, 0x18, 0x18, 0x18, 0x18, 0x18, 0x18, 0x18, 0x18,
     0x36, 0x36, 0x36, 0x36, 0x36, 0x36, 0x36, 0x37, 0x36, 0x36, 0x36, 0x36, 0x36, 0x36, 0x36, 0x36,
     0x36, 0x36, 0x36, 0x36, 0x36, 0x37, 0x30, 0x3F, 0x00, 0x00, 0x00, 0x00, 0x00, 0x00, 0x00, 0x00,
     0x00, 0x00, 0x00, 0x00, 0x00, 0x3F, 0x30, 0x37, 0x36, 0x36, 0x36, 0x36, 0x36, 0x36, 0x36, 0x36,
     0x36, 0x36, 0x36, 0x36, 0x36, 0xF7, 0x00, 0xFF, 0x00, 0x00, 0x00, 0x00, 0x00, 0x00, 0x00, 0x00,
     0x00, 0x00, 0x00, 0x00, 0x00, 0xFF, 0x00, 0xF7, 0x36, 0x36, 0x36, 0x36, 0x36, 0x36, 0x36, 0x36,
     0x36, 0x36, 0x36, 0x36, 0x36, 0x37, 0x30, 0x37, 0x36, 0x36, 0x36, 0x36, 0x36, 0x36, 0x36, 0x36,
     0x00, 0x00, 0x00, 0x00, 0x00, 0xFF, 0x00, 0xFF, 0x00, 0x00, 0x00, 0x00, 0x00, 0x00, 0x00, 0x00,
     0x36, 0x36, 0x36, 0x36, 0x36, 0xF7, 0x00, 0xF7, 0x36, 0x36, 0x36, 0x36, 0x36, 0x36, 0x36, 0x36,
     0x18, 0x18, 0x18, 0x18, 0x18, 0xFF, 0x00, 0xFF, 0x00, 0x00, 0x00, 0x00, 0x00, 0x00, 0x00, 0x00,
     0x36, 0x36, 0x36, 0x36, 0x36, 0x36, 0x36, 0xFF, 0x00, 0x00, 0x00, 0x00, 0x00, 0x00, 0x00, 0x00,
     0x00, 0x00, 0x00, 0x00, 0x00, 0xFF, 0x00, 0xFF, 0x18, 0x18, 0x18, 0x18, 0x18, 0x18, 0x18, 0x18,
     0x00, 0x00, 0x00, 0x00, 0x00, 0x00, 0x00, 0xFF, 0x36, 0x36, 0x36, 0x36, 0x36, 0x36, 0x36, 0x36,
     0x36, 0x36, 0x36, 0x36, 0x36, 0x36, 0x36, 0x3F, 0x00, 0x00, 0x00, 0x00, 0x00, 0x00, 0x00, 0x00,
     0x18, 0x18, 0x18, 0x18, 0x18, 0x1F, 0x18, 0x1F, 0x00, 0x00, 0x00, 0x00, 0x00, 0x00, 0x00, 0x00,
     0x00, 0x00, 0x00, 0x00, 0x00, 0x1F, 0x18, 0x1F, 0x18, 0x18, 0x18, 0x18, 0x18, 0x18, 0x18, 0x18,
     0x00, 0x00, 0x00, 0x00, 0x00, 0x00, 0x00, 0x3F, 0x36, 0x36, 0x36, 0x36, 0x36, 0x36, 0x36, 0x36,
     0x36, 0x36, 0x36, 0x36, 0x36, 0x36, 0x36, 0xFF, 0x36, 0x36, 0x36, 0x36, 0x36, 0x36, 0x36, 0x36,
     0x18, 0x18, 0x18, 0x18, 0x18, 0xFF, 0x18, 0xFF, 0x18, 0x18, 0x18, 0x18, 0x18, 0x18, 0x18, 0x18,
     0x18, 0x18, 0x18, 0x18, 0x18, 0x18, 0x18, 0xF8, 0x00, 0x00, 0x00, 0x00, 0x00, 0x00, 0x00, 0x00,
     0x00, 0x00, 0x00, 0x00, 0x00, 0x00, 0x00, 0x1F, 0x18, 0x18, 0x18, 0x18, 0x18, 0x18, 0x18, 0x18,
     0xFF, 0xFF, 0xFF, 0xFF, 0xFF, 0xFF, 0xFF, 0xFF, 0xFF, 0xFF, 0xFF, 0xFF, 0xFF, 0xFF, 0xFF, 0xFF,
     0x00, 0x00, 0x00, 0x00, 0x00, 0x00, 0x00, 0xFF, 0xFF, 0xFF, 0xFF, 0xFF, 0xFF, 0xFF, 0xFF, 0xFF,
     0xF0, 0xF0, 0xF0, 0xF0, 0xF0, 0xF0, 0xF0, 0xF0, 0xF0, 0xF0, 0xF0, 0xF0, 0xF0, 0xF0, 0xF0, 0xF0,
     0x0F, 0x0F, 0x0F, 0x0F, 0x0F, 0x0F, 0x0F, 0x0F, 0x0F, 0x0F, 0x0F, 0x0F, 0x0F, 0x0F, 0x0F, 0x0F,
     0xFF, 0xFF, 0xFF, 0xFF, 0xFF, 0xFF, 0xFF, 0x00, 0x00, 0x00, 0x00, 0x00, 0x00, 0x00, 0x00, 0x00]"

definition g_8x16_font_7 :: "u8 list" where
  "g_8x16_font_7 =
    [0x00, 0x00, 0x00, 0x00, 0x00, 0x76, 0xDC, 0xD8, 0xD8, 0xD8, 0xDC, 0x76, 0x00, 0x00, 0x00, 0x00,
     0x00, 0x00, 0x00, 0x00, 0x00, 0xFC, 0xC6, 0xFC, 0xC6, 0xC6, 0xFC, 0xC0, 0xC0, 0xC0, 0x00, 0x00,
     0x00, 0x00, 0xFE, 0xC6, 0xC6, 0xC0, 0xC0, 0xC0, 0xC0, 0xC0, 0xC0, 0xC0, 0x00, 0x00, 0x00, 0x00,
     0x00, 0x00, 0x00, 0x00, 0x80, 0xFE, 0x6C, 0x6C, 0x6C, 0x6C, 0x6C, 0x6C, 0x00, 0x00, 0x00, 0x00,
     0x00, 0x00, 0x00, 0xFE, 0xC6, 0x60, 0x30, 0x18, 0x30, 0x60, 0xC6, 0xFE, 0x00, 0x00, 0x00, 0x00,
     0x00, 0x00, 0x00, 0x00, 0x00, 0x7E, 0xD8, 0xD8, 0xD8, 0xD8, 0xD8, 0x70, 0x00, 0x00, 0x00, 0x00,
     0x00, 0x00, 0x00, 0x00, 0x66, 0x66, 0x66, 0x66, 0x66, 0x7C, 0x60, 0x60, 0xC0, 0x00, 0x00, 0x00,
     0x00, 0x00, 0x00, 0x00, 0x76, 0xDC, 0x18, 0x18, 0x18, 0x18, 0x18, 0x18, 0x00, 0x00, 0x00, 0x00,
     0x00, 0x00, 0x00, 0x7E, 0x18, 0x3C, 0x66, 0x66, 0x66, 0x3C, 0x18, 0x7E, 0x00, 0x00, 0x00, 0x00,
     0x00, 0x00, 0x00, 0x38, 0x6C, 0xC6, 0xC6, 0xFE, 0xC6, 0xC6, 0x6C, 0x38, 0x00, 0x00, 0x00, 0x00,
     0x00, 0x00, 0x38, 0x6C, 0xC6, 0xC6, 0xC6, 0x6C, 0x6C, 0x6C, 0x6C, 0xEE, 0x00, 0x00, 0x00, 0x00,
     0x00, 0x00, 0x1E, 0x30, 0x18, 0x0C, 0x3E, 0x66, 0x66, 0x66, 0x66, 0x3C, 0x00, 0x00, 0x00, 0x00,
     0x00, 0x00, 0x00, 0x00, 0x00, 0x7E, 0xDB, 0xDB, 0xDB, 0x7E, 0x00, 0x00, 0x00, 0x00, 0x00, 0x00,
     0x00, 0x00, 0x00, 0x03, 0x06, 0x7E, 0xCF, 0xDB, 0xF3, 0x7E, 0x60, 0xC0, 0x00, 0x00, 0x00, 0x00,
     0x00, 0x00, 0x1C, 0x30, 0x60, 0x60, 0x7C, 0x60, 0x60, 0x60, 0x30, 0x1C, 0x00, 0x00, 0x00, 0x00,
     0x00, 0x00, 0x00, 0x7C, 0xC6, 0xC6, 0xC6, 0xC6, 0xC6, 0xC6, 0xC6, 0xC6, 0x00, 0x00, 0x00, 0x00,
     0x00, 0x00, 0x00, 0x00, 0xFE, 0x00, 0x00, 0xFE, 0x00, 0x00, 0xFE, 0x00, 0x00, 0x00, 0x00, 0x00,
     0x00, 0x00, 0x00, 0x00, 0x18, 0x18, 0x7E, 0x18, 0x18, 0x00, 0x00, 0xFF, 0x00, 0x00, 0x00, 0x00,
     0x00, 0x00, 0x00, 0x30, 0x18, 0x0C, 0x06, 0x0C, 0x18, 0x30, 0x00, 0x7E, 0x00, 0x00, 0x00, 0x00,
     0x00, 0x00, 0x00, 0x0C, 0x18, 0x30, 0x60, 0x30, 0x18, 0x0C, 0x00, 0x7E, 0x00, 0x00, 0x00, 0x00,
     0x00, 0x00, 0x0E, 0x1B, 0x1B, 0x18, 0x18, 0x18, 0x18, 0x18, 0x18, 0x18, 0x18, 0x18, 0x18, 0x18,
     0x18, 0x18, 0x18, 0x18, 0x18, 0x18, 0x18, 0x18, 0xD8, 0xD8, 0xD8, 0x70, 0x00, 0x00, 0x00, 0x00,
     0x00, 0x00, 0x00, 0x00, 0x18, 0x18, 0x00, 0x7E, 0x00, 0x18, 0x18, 0x00, 0x00, 0x00, 0x00, 0x00,
     0x00, 0x00, 0x00, 0x00, 0x00, 0x76, 0xDC, 0x00, 0x76, 0xDC, 0x00, 0x00, 0x00, 0x00, 0x00, 0x00,
     0x00, 0x38, 0x6C, 0x6C, 0x38, 0x00, 0x00, 0x00, 0x00, 0x00, 0x00, 0x00, 0x00, 0x00, 0x00, 0x00,
     0x00, 0x00, 0x00, 0x00, 0x00, 0x00, 0x00, 0x18, 0x18, 0x00, 0x00, 0x00, 0x00, 0x00, 0x00, 0x00,
     0x00, 0x00, 0x00, 0x00, 0x00, 0x00, 0x00, 0x00, 0x18, 0x00, 0x00, 0x00, 0x00, 0x00, 0x00, 0x00,
     0x00, 0x0F, 0x0C, 0x0C, 0x0C, 0x0C, 0x0C, 0xEC, 0x6C, 0x6C, 0x3C, 0x1C, 0x00, 0x00, 0x00, 0x00,
     0x00, 0xD8, 0x6C, 0x6C, 0x6C, 0x6C, 0x6C, 0x00, 0x00, 0x00, 0x00, 0x00, 0x00, 0x00, 0x00, 0x00,
     0x00, 0x70, 0x98, 0x30, 0x60, 0xC8, 0xF8, 0x00, 0x00, 0x00, 0x00, 0x00, 0x00, 0x00, 0x00, 0x00,
     0x00, 0x00, 0x00, 0x00, 0x7C, 0x7C, 0x7C, 0x7C, 0x7C, 0x7C, 0x7C, 0x00, 0x00, 0x00, 0x00, 0x00,
     0x00, 0x00, 0x00, 0x00, 0x00, 0x00, 0x00, 0x00, 0x00, 0x00, 0x00, 0x00, 0x00, 0x00, 0x00, 0x00]"

definition g_8x8_font_table :: "u8 list" where
  "g_8x8_font_table = g_8x8_font_0 @ g_8x8_font_1 @ g_8x8_font_2 @ g_8x8_font_3 @ g_8x8_font_4 @ g_8x8_font_5 @ g_8x8_font_6 @ g_8x8_font_7"

definition g_8x16_font_table :: "u8 list" where
  "g_8x16_font_table = g_8x16_font_0 @ g_8x16_font_1 @ g_8x16_font_2 @ g_8x16_font_3 @ g_8x16_font_4 @ g_8x16_font_5 @ g_8x16_font_6 @
    g_8x16_font_7"

lemma length_8x8_font_parts:
  "length g_8x8_font_0 = 256"
  "length g_8x8_font_1 = 256"
  "length g_8x8_font_2 = 256"
  "length g_8x8_font_3 = 256"
  "length g_8x8_font_4 = 256"
  "length g_8x8_font_5 = 256"
  "length g_8x8_font_6 = 256"
  "length g_8x8_font_7 = 256"
  by (simp_all add: g_8x8_font_0_def g_8x8_font_1_def g_8x8_font_2_def g_8x8_font_3_def g_8x8_font_4_def g_8x8_font_5_def g_8x8_font_6_def
    g_8x8_font_7_def)

lemma length_8x16_font_parts:
  "length g_8x16_font_0 = 512"
  "length g_8x16_font_1 = 512"
  "length g_8x16_font_2 = 512"
  "length g_8x16_font_3 = 512"
  "length g_8x16_font_4 = 512"
  "length g_8x16_font_5 = 512"
  "length g_8x16_font_6 = 512"
  "length g_8x16_font_7 = 512"
  by (simp_all add: g_8x16_font_0_def g_8x16_font_1_def g_8x16_font_2_def g_8x16_font_3_def g_8x16_font_4_def g_8x16_font_5_def
    g_8x16_font_6_def g_8x16_font_7_def)

lemma length_fonts: "length g_8x8_font_table = 2048" "length g_8x16_font_table = 4096"
  by (simp_all add: g_8x8_font_table_def g_8x16_font_table_def length_8x8_font_parts length_8x16_font_parts)

subsection \<open>The adapter's answers\<close>

text \<open>A documented VGA adapter answers a read of the data port with the register selected last.\<close>

definition file_state :: "u16 \<Rightarrow> u16 \<Rightarrow> io_event list \<Rightarrow> u8 \<times> (u8 \<Rightarrow> u8)" where
  "file_state index_port data_port h = foldr (file_step index_port data_port) h (0, \<lambda>_. 0)"

definition selected :: "u16 \<Rightarrow> u16 \<Rightarrow> io_event list \<Rightarrow> u8" where
  "selected index_port data_port h = (case file_state index_port data_port h of (k, r) \<Rightarrow> r k)"

definition answers_registers :: "'a machine_scheme \<Rightarrow> bool" where
  "answers_registers s \<longleftrightarrow> (\<forall>h. dev8 s h 0x3CF = selected 0x3CE 0x3CF h \<and> dev8 s h 0x3C5 = selected 0x3C4 0x3C5 h)"

lemma file_state_simps:
  "file_state i d (In8 p # h) = file_state i d h"
  "file_state i d (Out8 p v # h) =
    (if p = i then (v, snd (file_state i d h))
     else if p = d then (fst (file_state i d h), (snd (file_state i d h))(fst (file_state i d h) := v)) else file_state i d h)"
  by (simp_all add: file_state_def file_step_def)

lemma reg_file_state: "reg_file i d h = snd (file_state i d h)"
  by (simp add: reg_file_def file_state_def)

lemma answers_registers_upd [simp]:
  "answers_registers (s\<lparr>io := h\<rparr>) = answers_registers s" "answers_registers (s\<lparr>ram := m\<rparr>) = answers_registers s"
  by (simp_all add: answers_registers_def)

lemmas adapter_simps = port_defs file_state_simps selected_def split_beta

subsection \<open>Loading the font\<close>

text \<open>With the text window selected, \<open>vmemwr\<close> copies to it.\<close>

lemma vmemwr_text:
  assumes "answers_registers s" and "gc_regs (io s) 6 = 0x0C"
  shows "vmemwr off src n s = s\<lparr>io := In8 0x3CF # Out8 0x3CE 6 # io s, ram := memcpy (0xB8000 + off) src n (ram s)\<rparr>"
  using assms by (simp add: vmemwr_def get_fb_seg_def Let_def answers_registers_def adapter_simps gc_regs_def reg_file_state)

lemma font_glyphs:
  assumes a: "answers_registers s" and g: "gc_regs (io s) 6 = 0x0C" and apart: "separate 0xB8000 0x2000 buf (256 * k)"
    and k: "k \<le> 32" and "n \<le> 256"
  shows "\<exists>h m. fold (font_glyph (of_nat k)) [0..<n] (buf, s) = (buf + of_nat (k * n), s\<lparr>io := h, ram := m\<rparr>)
    \<and> gc_regs h = gc_regs (io s) \<and> file_state 0x3C4 0x3C5 h = file_state 0x3C4 0x3C5 (io s)
    \<and> same_outside 0xB8000 0x2000 (ram s) m
    \<and> (\<forall>c < n. bytes_at m (0xB8000 + of_nat (32 * c)) k = bytes_at (ram s) (buf + of_nat (k * c)) k)"
  using assms(5)
proof (induction n)
  case 0
  show ?case by (intro exI [of _ "io s"] exI [of _ "ram s"]) simp
next
  case (Suc n)
  then obtain h m where f: "fold (font_glyph (of_nat k)) [0..<n] (buf, s) = (buf + of_nat (k * n), s\<lparr>io := h, ram := m\<rparr>)"
    and r: "gc_regs h = gc_regs (io s)" "file_state 0x3C4 0x3C5 h = file_state 0x3C4 0x3C5 (io s)"
    and o: "same_outside 0xB8000 0x2000 (ram s) m"
    and b: "\<And>c. c < n \<Longrightarrow> bytes_at m (0xB8000 + of_nat (32 * c)) k = bytes_at (ram s) (buf + of_nat (k * c)) k"
    by auto
  let ?d = "0xB8000 + of_nat (32 * n) :: u32" and ?b = "buf + of_nat (k * n)"
  let ?m = "memcpy ?d ?b (of_nat k) m" and ?h = "In8 0x3CF # Out8 0x3CE 6 # h"
  have "k * Suc n \<le> k * 256" using Suc.prems by (intro mult_le_mono2)
  then have fits: "k * n + k \<le> 256 * k" by simp
  have src: "separate 0xB8000 0x2000 ?b k" by (rule separate_inside [OF apart fits]) (use k in simp)
  then have sep: "separate ?d k ?b k" by (rule separate_sub) (use k Suc.prems in simp_all)
  have "bytes_at ?m ?d k = bytes_at m ?b k"
    using bytes_at_memcpy [of ?d "of_nat k" ?b m] sep k by simp
  also have "\<dots> = bytes_at (ram s) ?b k"
    using o src k by (intro bytes_at_same_outside) simp_all
  finally have new: "bytes_at ?m ?d k = bytes_at (ram s) ?b k" .
  have frame: "same_outside ?d k m ?m" using memcpy_frame [of ?d "of_nat k" m ?b] k by simp
  have old: "bytes_at ?m (0xB8000 + of_nat (32 * c)) k = bytes_at (ram s) (buf + of_nat (k * c)) k" if "c < n" for c
  proof -
    have "separate ?d 32 (0xB8000 + of_nat (32 * c)) 32"
      using that Suc.prems unfolding separate_def by (simp add: unat32_sub del: of_nat_mult) arith
    then have "separate ?d k (0xB8000 + of_nat (32 * c)) k" by (rule separate_le) (rule k)+
    then show ?thesis using bytes_at_same_outside [OF frame] b [OF that] k by simp
  qed
  have "fold (font_glyph (of_nat k)) [0..<Suc n] (buf, s) = (buf + of_nat (k * Suc n), s\<lparr>io := ?h, ram := ?m\<rparr>)"
    using f a g r(1) by (simp add: font_glyph_def vmemwr_text algebra_simps)
  moreover have "gc_regs ?h = gc_regs (io s)" "file_state 0x3C4 0x3C5 ?h = file_state 0x3C4 0x3C5 (io s)"
    using r by (simp_all add: gc_regs_def reg_file_state file_state_simps)
  moreover have "same_outside 0xB8000 0x2000 (ram s) ?m"
    using o same_outside_inside [OF frame, of "0x2000"] Suc.prems k by (auto intro: same_outside_trans)
  ultimately show ?case using new old by (intro exI [of _ ?h] exI [of _ ?m]) (auto simp: less_Suc_eq)
qed

subsection \<open>The text mode and its font\<close>

text \<open>Loading the font selects other registers and puts them back, and every glyph of the font stands in the window of the text mode at the
  distance of 32 bytes the adapter expects.\<close>

lemma write_font_text:
  fixes s :: "'a machine_scheme" and buf :: u32 and k :: nat
  defines "t \<equiv> write_font buf (of_nat k) s"
  assumes a: "answers_registers s" and g: "gc_regs (io s) 6 = 0x0E" and apart: "separate 0xB8000 0x2000 buf (256 * k)"
    and k: "k \<le> 32"
  shows "gc_regs (io t) = gc_regs (io s)" and "seq_regs (io t) = seq_regs (io s)"
    and "same_outside 0xB8000 0x2000 (ram s) (ram t)"
    and "\<forall>c < 256. bytes_at (ram t) (0xB8000 + of_nat (32 * c)) k = bytes_at (ram s) (buf + of_nat (k * c)) k"
proof -
  define gs where "gs = gc_regs (io s)"
  define ss where "ss = seq_regs (io s)"
  define s1 where "s1 =
     (let s = write_port 0x3C4 2 s; (seq2, s) = read_port 0x3C5 s;
          s = write_port 0x3C4 4 s; (seq4, s) = read_port 0x3C5 s;
          s = write_port 0x3C5 (seq4 OR 0x04) s;
          s = write_port 0x3CE 4 s; (gc4, s) = read_port 0x3CF s;
          s = write_port 0x3CE 5 s; (gc5, s) = read_port 0x3CF s;
          s = write_port 0x3CF (gc5 AND NOT 0x10) s;
          s = write_port 0x3CE 6 s; (gc6, s) = read_port 0x3CF s;
          s = write_port 0x3CF (gc6 AND NOT 0x02) s
      in set_plane 2 s)"
  have s1: "answers_registers s1" "ram s1 = ram s" "dev8 s1 = dev8 s"
    "file_state 0x3CE 0x3CF (io s1) = (4, gs(5 := gs 5 AND NOT 0x10, 6 := 0x0C, 4 := 2))"
    "file_state 0x3C4 0x3C5 (io s1) = (2, ss(4 := ss 4 OR 4, 2 := 4))"
    using a g by (simp_all add: s1_def gs_def ss_def set_plane_def Let_def adapter_simps gc_regs_def seq_regs_def reg_file_state
      answers_registers_def)
  then have "gc_regs (io s1) 6 = 0x0C" by (simp add: gc_regs_def reg_file_state)
  then obtain h m where f: "fold (font_glyph (of_nat k)) [0..<256] (buf, s1) = (buf + of_nat (k * 256), s1\<lparr>io := h, ram := m\<rparr>)"
    and r: "gc_regs h = gc_regs (io s1)" "file_state 0x3C4 0x3C5 h = file_state 0x3C4 0x3C5 (io s1)"
    and m: "same_outside 0xB8000 0x2000 (ram s) m"
      "\<forall>c < 256. bytes_at m (0xB8000 + of_nat (32 * c)) k = bytes_at (ram s) (buf + of_nat (k * c)) k"
    using font_glyphs [OF s1(1) _ apart k, of 256] s1(2) by auto
  have r': "snd (file_state 0x3CE 0x3CF h) = gs(5 := gs 5 AND NOT 0x10, 6 := 0x0C, 4 := 2)"
    using r(1) s1(4) by (simp add: gc_regs_def reg_file_state)
  have t: "t = (let s' = s1\<lparr>io := h, ram := m\<rparr>;
          s' = write_port 0x3C4 2 s'; s' = write_port 0x3C5 (ss 2) s';
          s' = write_port 0x3C4 4 s'; s' = write_port 0x3C5 (ss 4) s';
          s' = write_port 0x3CE 4 s'; s' = write_port 0x3CF (gs 4) s';
          s' = write_port 0x3CE 5 s'; s' = write_port 0x3CF (gs 5) s';
          s' = write_port 0x3CE 6 s'
      in write_port 0x3CF (gs 6) s')"
    using f a by (simp add: t_def write_font_def s1_def Let_def adapter_simps gs_def ss_def gc_regs_def seq_regs_def reg_file_state
      answers_registers_def)
  show "gc_regs (io t) = gc_regs (io s)" "seq_regs (io t) = seq_regs (io s)"
    using r' r(2) s1(5) by (auto simp: t Let_def adapter_simps gc_regs_def seq_regs_def reg_file_state gs_def ss_def fun_eq_iff)
  show "same_outside 0xB8000 0x2000 (ram s) (ram t)"
    "\<forall>c < 256. bytes_at (ram t) (0xB8000 + of_nat (32 * c)) k = bytes_at (ram s) (buf + of_nat (k * c)) k"
    using m by (simp_all add: t Let_def)
qed

lemma logs_vmemwr: "logs {0x3C4, 0x3C5, 0x3CE, 0x3CF} s0 s \<Longrightarrow> logs {0x3C4, 0x3C5, 0x3CE, 0x3CF} s0 (vmemwr off src n s)"
  by (simp add: vmemwr_def get_fb_seg_def Let_def split_beta logs_write logs_read logs_ram)

lemma logs_glyphs:
  "logs {0x3C4, 0x3C5, 0x3CE, 0x3CF} s0 (snd bs) \<Longrightarrow> logs {0x3C4, 0x3C5, 0x3CE, 0x3CF} s0 (snd (fold (font_glyph k) cs bs))"
  by (induction cs arbitrary: bs) (simp_all add: font_glyph_def split_beta logs_vmemwr)

lemma logs_write_font: "logs {0x3C4, 0x3C5, 0x3CE, 0x3CF} s (write_font buf k s)"
  by (simp add: write_font_def set_plane_def Let_def split_beta logs_write logs_read logs_refl logs_glyphs)

lemma fold_snd_inv: "(\<And>i rs. P (snd (f i rs)) = P (snd rs)) \<Longrightarrow> P (snd (fold f xs rs)) = P (snd rs)"
  by (induction xs arbitrary: rs) simp_all

lemma dev8_ports [simp]:
  "dev8 (write_port p v s) = dev8 s" "dev8 (snd (read_port p s)) = dev8 s"
  by (simp_all add: port_defs)

lemma dev8_pairs [simp]:
  "dev8 (snd (fold (reg_pair ip dp) xs rs)) = dev8 (snd rs)" "dev8 (snd (fold ac_pair xs rs)) = dev8 (snd rs)"
  by (rule fold_snd_inv, simp add: reg_pair_def ac_pair_def Let_def split_beta)+

lemma dev8_write_regs: "dev8 (write_regs regs s) = dev8 s"
  by (simp add: write_regs_def Let_def split_beta)

lemma write_regs_frame: "same_outside regs 61 (ram s) (ram (write_regs regs s))"
proof -
  have 1: "fst (fold (reg_pair 0x3C4 0x3C5) [0..<5] (regs + 1, s')) = regs + 6" "ram (snd (fold (reg_pair 0x3C4 0x3C5) [0..<5] (regs + 1, s'))) = ram s'"
    for s' :: "'a machine_scheme" using reg_pairs [of "0x3C4" "0x3C5" 5 "regs + 1" s'] by auto
  have 2: "ram (snd (fold (reg_pair ip dp) xs rs)) = ram (snd rs)" "ram (snd (fold ac_pair xs rs)) = ram (snd rs)" for ip dp xs
    and rs :: "u32 \<times> 'a machine_scheme"
    by (rule fold_snd_inv, simp add: reg_pair_def ac_pair_def Let_def split_beta)+
  have "ram (write_regs regs s) = (ram s)(regs + 9 := ram s (regs + 9) OR 0x80, regs + 23 := ram s (regs + 23) AND NOT 0x80)"
    by (simp add: write_regs_def Let_def split_beta 1 2 add.commute [of 9 regs] add.commute [of 23 regs])
  moreover have "in_range regs 61 (regs + 9)" "in_range regs 61 (regs + 23)" by (simp_all add: in_range_def)
  ultimately show ?thesis by (simp add: same_outside_upd)
qed

text \<open>The glyph of a character: 16 rows of the font.\<close>

definition glyph :: "nat \<Rightarrow> u8 list" where "glyph c = take 16 (drop (16 * c) g_8x16_font_table)"


lemma glyph_A: "glyph 65 = [0, 0, 0x10, 0x38, 0x6C, 0xC6, 0xC6, 0xFE, 0xC6, 0xC6, 0xC6, 0xC6, 0, 0, 0, 0]"
  by (simp add: glyph_def g_8x16_font_table_def g_8x16_font_2_def length_8x16_font_parts)

text \<open>An adapter that answers, with the table and the font in memory.\<close>

definition font_machine :: machine where
  "font_machine = blank_machine
     \<lparr>ram := write_bytes 0x200000 g_8x16_font_table (write_bytes 0x100000 g_90x30_text_table (\<lambda>_. 0)),
      dev8 := \<lambda>h p. if p = 0x3CF then selected 0x3CE 0x3CF h else selected 0x3C4 0x3C5 h\<rparr>"


end
