(* ===== verification/Typing.thy ===== *)
theory Typing
  imports Interrupts
begin

text \<open>
  Reading a line from end to end: the keyboard controller hands out scan codes one after the other, its interrupts arrive
  interleaved with those of the timer, and the program waiting in \<open>kbd_get_string\<close> gets the line that was typed.
\<close>

subsection \<open>The keyboard controller\<close>

text \<open>The controller has the scan codes \<open>codes\<close> to give: every read of port \<open>0x60\<close> takes the next one.\<close>

definition taken_codes :: "io_event list \<Rightarrow> nat" where
  "taken_codes h = length (filter (\<lambda>e. e = In8 0x60) h)"

definition types :: "u8 list \<Rightarrow> 'a machine_scheme \<Rightarrow> bool" where
  "types codes s \<longleftrightarrow> (\<forall>h. taken_codes h < length codes \<longrightarrow>
     dev8 s (h @ io s) 0x64 AND 0x01 \<noteq> 0 \<and> dev8 s (h @ io s) 0x60 = codes ! taken_codes h)"

text \<open>What happens between two reads of the controller.\<close>

definition no_reads :: "'a machine_scheme \<Rightarrow> 'a machine_scheme \<Rightarrow> bool" where
  "no_reads s s' \<longleftrightarrow> dev8 s' = dev8 s \<and> (\<exists>h. io s' = h @ io s \<and> taken_codes h = 0)"

lemma taken_append: "taken_codes (h @ k) = taken_codes h + taken_codes k"
  by (simp add: taken_codes_def)

lemma taken_simps [simp]: "taken_codes [] = 0" "taken_codes (e # h) = (if e = In8 0x60 then 1 else 0) + taken_codes h"
  by (simp_all add: taken_codes_def)

lemma no_reads_refl: "no_reads s s"
  unfolding no_reads_def by (auto intro: exI [of _ "[]"])

lemma no_reads_trans:
  assumes "no_reads s t" and "no_reads t u"
  shows "no_reads s u"
proof -
  from assms obtain h k where "io t = h @ io s" "taken_codes h = 0" "io u = k @ io t" "taken_codes k = 0" "dev8 t = dev8 s" "dev8 u = dev8 t"
    by (auto simp: no_reads_def)
  then show ?thesis unfolding no_reads_def by (intro conjI exI [of _ "k @ h"]) (simp_all add: taken_append)
qed

lemma no_reads_emit: "e \<noteq> In8 0x60 \<Longrightarrow> no_reads s (emit e s)"
  unfolding no_reads_def by (auto simp: emit_def intro!: exI [of _ "[e]"])

lemma no_reads_frame: "dev8 t = dev8 s \<Longrightarrow> io t = io s \<Longrightarrow> no_reads s t"
  using no_reads_refl [of s] by (simp add: no_reads_def)

lemma types_no_reads: "types codes s \<Longrightarrow> no_reads s t \<Longrightarrow> types codes t"
  unfolding no_reads_def types_def
proof (elim conjE exE, intro allI impI)
  fix h k
  assume t: "\<forall>h. taken_codes h < length codes \<longrightarrow> dev8 s (h @ io s) 0x64 AND 0x01 \<noteq> 0 \<and> dev8 s (h @ io s) 0x60 = codes ! taken_codes h"
    and d: "dev8 t = dev8 s" "io t = k @ io s" "taken_codes k = 0" and h: "taken_codes h < length codes"
  from t [rule_format, of "h @ k"] h d show "dev8 t (h @ io t) 0x64 AND 0x01 \<noteq> 0 \<and> dev8 t (h @ io t) 0x60 = codes ! taken_codes h"
    by (simp add: taken_append)
qed

lemma types_read:
  assumes "types (c # codes) s" and "read_port 0x60 s = (v, t)"
  shows "v = c" and "types codes t"
proof -
  show "v = c" using assms unfolding types_def read_port_def by (elim allE [of _ "[]"]) auto
  have t: "t = emit (In8 0x60) s" using assms(2) by (simp add: read_port_def)
  show "types codes t"
    unfolding types_def
  proof (intro allI impI)
    fix h assume "taken_codes h < length codes"
    then show "dev8 t (h @ io t) 0x64 AND 0x01 \<noteq> 0 \<and> dev8 t (h @ io t) 0x60 = codes ! taken_codes h"
      using assms(1) [unfolded types_def, THEN spec, of "h @ [In8 0x60]"] by (simp add: taken_append t emit_def)
  qed
qed

lemma types_status: "types (c # codes) s \<Longrightarrow> read_port 0x64 s = (v, t) \<Longrightarrow> v AND 0x01 \<noteq> 0 \<and> no_reads s t"
  unfolding types_def
  by (elim allE [of _ "[]"]) (auto simp: read_port_def no_reads_emit)

subsection \<open>The terminal does not read the controller\<close>

lemma no_reads_write: "no_reads s (write_port p v s)"
  by (simp add: write_port_def no_reads_emit)

lemma no_reads_movecur: "no_reads s (term_movecur x y s)"
  unfolding term_movecur_def Let_def
  by (rule no_reads_trans [OF no_reads_write], rule no_reads_trans [OF no_reads_write], rule no_reads_trans [OF no_reads_write], rule no_reads_write)

lemma no_reads_scroll: "no_reads s (term_scroll s)"
  using term_scroll_at [of s] by (auto intro: no_reads_frame)

lemma no_reads_putentry: "no_reads s (term_putentryat c a x y s)"
  unfolding term_putentryat_def Let_def split_beta
  by (auto simp: set_cell_def intro!: no_reads_frame no_reads_trans [OF no_reads_frame no_reads_movecur])

lemma no_reads_finish: "no_reads s (finish s)"
  unfolding finish_def Let_def by (auto intro!: no_reads_frame no_reads_trans [OF no_reads_frame no_reads_scroll])

lemma no_reads_putchar: "no_reads s (term_putchar c s)"
  unfolding term_putchar_finish by (rule no_reads_trans [OF no_reads_putentry no_reads_finish])

lemma no_reads_scancode:
  assumes "kbd_scancode c s = Some s'"
  shows "no_reads s s'"
proof -
  have f: "no_reads (s :: 'b keyboard_scheme) (term_putchar c (t :: 'b keyboard_scheme))" if "dev8 t = dev8 s" "io t = io s" for s t c
    using no_reads_trans [OF no_reads_frame [OF that] no_reads_putchar] .
  have a: "no_reads t t'" if "kbd_append t = Some t'" for t t' :: "'a keyboard_scheme"
    using that by (auto simp: kbd_append_def Let_def bind_eq_Some_conv intro: f)
  have b: "no_reads t t'" if "kbd_backspace t = Some t'" for t t' :: "'a keyboard_scheme"
    using that by (auto simp: kbd_backspace_def Let_def bind_eq_Some_conv intro: f no_reads_refl split: if_splits)
  have i: "no_reads t t'" if "kbd_insert t = Some t'" for t t' :: "'a keyboard_scheme"
    using that by (auto simp: kbd_insert_def Let_def no_reads_def dest!: a split: if_splits)
  have k: "no_reads t t'" if "kbd_key_down t = Some t'" for t t' :: "'a keyboard_scheme"
    using that no_reads_putchar [of t 10] no_reads_refl [of t]
    by (auto simp: kbd_key_down_def Let_def no_reads_def dest!: i split: if_splits)
  show ?thesis
    using assms by (auto simp: kbd_scancode_def kbd_dispatch_def Let_def no_reads_def dest!: b k split: if_splits)
qed

subsection \<open>Waiting for the line\<close>

text \<open>The editor while a line is being read: characters and corrections, at most 128 of them.\<close>

definition reading :: "editor \<Rightarrow> bool" where
  "reading e \<longleftrightarrow> ed_req e = 1 \<and> length (ed_line e) \<le> ed_pos e \<and> length (ed_line e) \<le> 128"

lemma reading_step: "reading e \<Longrightarrow> c < 128 \<Longrightarrow> c \<noteq> 0x1C \<Longrightarrow> reading (editor_step (decode (ed_shift e) c) e)"
proof -
  assume r: "reading e" and c: "c < 128" "c \<noteq> 0x1C"
  have "decode (ed_shift e) c \<noteq> Enter" using c by (simp add: decode_def Let_def)
  then show ?thesis using r by (cases "decode (ed_shift e) c") (auto simp: reading_def)
qed

lemma edits_io: "edits n s e \<Longrightarrow> edits n (s\<lparr>io := h\<rparr>) e"
  by (simp add: edits_def)

lemma edits_timer: "edits n s e \<Longrightarrow> edits n (pit_handler_main s) e"
  by (simp add: edits_def pit_handler_main_def Let_def port_defs)

lemma term_ok_timer: "term_ok s \<Longrightarrow> term_ok (pit_handler_main s)" "term_ok s \<Longrightarrow> term_ok (s\<lparr>io := h\<rparr>)"
  by (simp_all add: term_ok_def pit_handler_main_def Let_def port_defs)

lemma no_reads_timer: "no_reads s (pit_handler_main s)"
  unfolding no_reads_def by (simp add: pit_handler_main_def Let_def port_defs)

lemma timer_keeps_buffer: "con_input (pit_handler_main s) = con_input s" "con_input (wait_int s) = con_input s"
  by (simp_all add: pit_handler_main_def Let_def port_defs)

lemma scancode_keeps_buffer:
  assumes "kbd_scancode c s = Some s'"
  shows "con_input s' = con_input s"
proof -
  have w: "con_input (term_putchar x t) = con_input t" for x and t :: "'a keyboard_scheme"
    using term_writes_putchar [of t x] by (auto simp: term_writes_def)
  have a: "con_input t' = con_input t" if "kbd_append t = Some t'" for t t' :: "'a keyboard_scheme"
    using that by (auto simp: kbd_append_def Let_def w bind_eq_Some_conv)
  have b: "con_input t' = con_input t" if "kbd_backspace t = Some t'" for t t' :: "'a keyboard_scheme"
    using that by (auto simp: kbd_backspace_def Let_def w bind_eq_Some_conv split: if_splits)
  have i: "con_input t' = con_input t" if "kbd_insert t = Some t'" for t t' :: "'a keyboard_scheme"
    using that by (auto simp: kbd_insert_def Let_def dest!: a split: if_splits)
  have k: "con_input t' = con_input t" if "kbd_key_down t = Some t'" for t t' :: "'a keyboard_scheme"
    using that by (auto simp: kbd_key_down_def Let_def w dest!: i split: if_splits)
  show ?thesis
    using assms by (auto simp: kbd_scancode_def kbd_dispatch_def Let_def dest!: b k split: if_splits)
qed

text \<open>One keyboard interrupt takes one scan code from the controller and runs the line editor on it.\<close>

lemma handler_takes_code:
  assumes e: "edits n s e" "term_ok s" and t: "types (c # codes) s" and room: "length (ed_line e) + 2 \<le> n" "ed_pos e < 2147483647" and c: "c < 128"
  shows "\<exists>s'. keyboard_handler_main s = Some s' \<and> edits n s' (editor_step (decode (ed_shift e) c) e) \<and> term_ok s' \<and> types codes s'
    \<and> con_input s' = con_input s"
proof -
  obtain v s1 where r1: "read_port 0x64 s = (v, s1)" by force
  note st = types_status [OF t r1]
  define s2 where "s2 = EOI s1"
  have "no_reads s1 s2" unfolding s2_def EOI_def by (rule no_reads_trans [OF no_reads_write no_reads_write])
  then have t2: "types (c # codes) s2" using types_no_reads [OF t no_reads_trans] st by blast
  obtain w s3 where r3: "read_port 0x60 s2 = (w, s3)" by force
  note a = types_read [OF t2 r3]
  obtain h where s3: "s3 = s\<lparr>io := h\<rparr>" using r1 r3 by (auto simp: s2_def port_defs)
  have "edits n s3 e" "term_ok s3" using e by (simp_all add: s3 edits_io term_ok_timer)
  from step_edits [OF this room, of c] c obtain s' where
    k: "kbd_scancode c s3 = Some s'" "edits n s' (editor_step (decode (ed_shift e) c) e)" "term_ok s'"
    by (auto simp: not_le [symmetric])
  have "keyboard_handler_main s = Some s'"
    using st k(1) r1 r3 a(1) by (simp add: keyboard_handler_main_def s2_def)
  moreover have "types codes s'" using types_no_reads [OF a(2) no_reads_scancode [OF k(1)]] .
  moreover have "con_input s' = con_input s" using scancode_keeps_buffer [OF k(1)] by (simp add: s3)
  ultimately show ?thesis using k by blast
qed

lemma wait_for_line:
  "edits 130 s e \<Longrightarrow> term_ok s \<Longrightarrow> reading e \<Longrightarrow> types (codes @ [0x1C]) s \<Longrightarrow> \<forall>c \<in> set codes. c < 128 \<and> c \<noteq> 0x1C \<Longrightarrow>
   ed_pos e + length codes < 2147483647 \<Longrightarrow> length codes < length (filter (\<lambda>i. i = Irq_keyboard) is) \<Longrightarrow>
   \<exists>rest s' e'. wait_request run_irq is s = Some (rest, s') \<and> edits 130 s' e' \<and> ed_line e' = ed_line (edit_run codes e) \<and> ed_req e' = 0
     \<and> length (ed_line e') \<le> 128 \<and> con_input s' = con_input s"
proof (induction "is" arbitrary: s e codes)
  case Nil
  then show ?case by simp
next
  case (Cons i "is")
  have req: "request s \<noteq> 0" using Cons.prems(1,3) by (simp add: edits_def reading_def)
  have w: "wait_int s = s\<lparr>io := Hlt # io s\<rparr>" by (simp add: port_defs)
  have e: "edits 130 (wait_int s) e" "term_ok (wait_int s)" using Cons.prems(1,2) by (simp_all add: w edits_io term_ok_timer)
  have "no_reads s (wait_int s)" by (simp add: wait_int_def no_reads_emit)
  from types_no_reads [OF Cons.prems(4) this] have t: "types (codes @ [0x1C]) (wait_int s)" .
  show ?case
  proof (cases i)
    case Irq_timer
    have "types (codes @ [0x1C]) (pit_handler_main (wait_int s))" by (rule types_no_reads [OF t no_reads_timer])
    from Cons.IH [OF edits_timer [OF e(1)] term_ok_timer(1) [OF e(2)] Cons.prems(3) this Cons.prems(5,6)] Cons.prems(7)
    show ?thesis using Irq_timer req by (simp add: timer_keeps_buffer)
  next
    case Irq_keyboard
    have room: "length (ed_line e) + 2 \<le> 130" "ed_pos e < 2147483647" using Cons.prems(3,6) by (simp_all add: reading_def)
    show ?thesis
    proof (cases codes)
      case Nil
      have "decode (ed_shift e) 0x1C = Enter" by (cases "ed_shift e") (simp_all add: decode_def keyboard_map_table_def Let_def)
      then obtain s' where s': "keyboard_handler_main (wait_int s) = Some s'" "edits 130 s' (e\<lparr>ed_req := 0, ed_pos := 0\<rparr>)"
          "con_input s' = con_input s"
        using handler_takes_code [OF e _ room, of "0x1C" "[]"] t Nil by (auto simp: w)
      have "request s' = 0" using s'(2) by (simp add: edits_def)
      then have "wait_request run_irq is s' = Some (is, s')" by (cases "is") simp_all
      then show ?thesis using s' req Irq_keyboard Nil Cons.prems(3)
        by (intro exI [of _ "is"] exI [of _ s'] exI [of _ "e\<lparr>ed_req := 0, ed_pos := 0\<rparr>"]) (simp add: reading_def)
    next
      case (Cons c cs)
      let ?e = "editor_step (decode (ed_shift e) c) e"
      have c: "c < 128" "c \<noteq> 0x1C" using Cons.prems(5) Cons by simp_all
      from handler_takes_code [OF e _ room c(1), of "cs @ [0x1C]"] t Cons obtain s' where
        s': "keyboard_handler_main (wait_int s) = Some s'" "edits 130 s' ?e" "term_ok s'" "types (cs @ [0x1C]) s'" "con_input s' = con_input s" by (auto simp: w)
      have "ed_pos ?e + length cs < 2147483647"
        using Cons.prems(6) editor_step_pos [of "decode (ed_shift e) c" e] by (simp add: Cons)
      moreover have "\<forall>c \<in> set cs. c < 128 \<and> c \<noteq> 0x1C" "length cs < length (filter (\<lambda>i. i = Irq_keyboard) is)"
        using Cons.prems(5,7) Irq_keyboard by (simp_all add: Cons)
      ultimately show ?thesis
        using Cons.IH [OF s'(2,3) reading_step [OF Cons.prems(3) c] s'(4)] s'(1,5) req Irq_keyboard by (simp add: Cons)
    qed
  qed
qed


text \<open>Typing \<open>ls\<close> and Enter, with timer interrupts in between.\<close>

definition demo_typing :: keyboard where
  "demo_typing = demo_keyboard\<lparr>io := [],
     dev8 := \<lambda>h p. if p = 0x64 then 1 else if p = 0x60 then [0x26, 0x1F, 0x1C] ! taken_codes h else 0\<rparr>"


end
