(* ===== verification/HeapUse.thy ===== *)
theory HeapUse
  imports MemSpec
begin

text \<open>
  What the users of \<open>malloc\<close> need of the kernel heap: which bytes a request leaves alone, that a new region is apart from
  the older ones, and that writing inside a chunk in use keeps the heap well formed.
\<close>

subsection \<open>Granted requests\<close>

lemma contents_bytes: "(p, bs) \<in> set (contents m a cs) \<Longrightarrow> bs = bytes_at m (of_nat p) (length bs)"
  by (induction m a cs rule: contents.induct) (auto split: if_splits)

text \<open>A granted request keeps the bytes of a chunk in use and hands out a region apart from it.\<close>

lemma heap_grant:
  assumes "heap_ok (h, m)" and "heap_get n (h, m) = Some (q, h', m')" and "(p, bs) \<in> heap_live (h, m)"
  shows "k_heapLCABAlloc (of_nat n) (h, m) = Some (of_nat q, h', m')" and "n < 4294967296"
    and "bytes_at m' (of_nat p) (length bs) = bytes_at m (of_nat p) (length bs)"
    and "separate (of_nat q) n (of_nat p) (length bs)"
proof -
  from assms(1) obtain cs where c: "heap_block m (fblock h) cs" "hb_next m (fblock h) = 0" by (auto simp: heap_ok_def)
  from heap_get_cases [OF c assms(2)] show a: "k_heapLCABAlloc (of_nat n) (h, m) = Some (of_nat q, h', m')" and n: "n < 4294967296" by blast+
  note ok = kernel_heap.get_ok [OF assms(1,2)]
  from kernel_heap.get_live [OF assms(1,2)] obtain ds where d: "(q, ds) \<in> heap_live (h', m')" "n \<le> length ds" by blast
  have p: "(p, bs) \<in> heap_live (h', m')" using kernel_heap.get_keeps [OF assms(1,2)] assms(3) by blast
  have b: "bs = bytes_at (snd x) (of_nat p) (length bs)" if "(p, bs) \<in> heap_live x" for x
    using that contents_bytes by (auto simp: heap_live_def)
  show "bytes_at m' (of_nat p) (length bs) = bytes_at m (of_nat p) (length bs)"
    using b [OF p] b [OF assms(3)] by simp
  have le: "r + length es \<le> 4294967295 \<and> 8 \<le> r" if l: "(r, es) \<in> heap_live (h', m')" for r es
  proof -
    from l obtain cs' where k: "heap_block m' (fblock h') cs'" "(r, es) \<in> set (contents m' (unat (fblock h') + 20) cs')"
      by (auto simp: heap_live_def)
    then have "chain m' (unat (fblock h') + 20) cs' (unat (fblock h') + unat (hb_size m' (fblock h')))"
      "unat (fblock h') + unat (hb_size m' (fblock h')) < 4294967296" by (simp_all add: heap_block_def)
    from contents_bounds [OF this(1) k(2)] this(2) show ?thesis by simp
  qed
  have "(p, bs) \<noteq> (q, ds)" using kernel_heap.get_fresh [OF assms(1,2), of bs] assms(3) by auto
  from kernel_heap.live_apart [OF ok p d(1) this] have "p + length bs \<le> q \<or> q + length ds \<le> p" .
  then have "q + n \<le> p \<or> p + length bs \<le> q" using d(2) by linarith
  moreover have "q + n \<le> 4294967295" "p + length bs \<le> 4294967295" using le [OF d(1)] le [OF p] d(2) by linarith+
  ultimately show "separate (of_nat q) n (of_nat p) (length bs)"
    by (auto simp: separate_def unat32_sub)
qed

text \<open>\<open>n\<close> bytes from \<open>p\<close> on are in a chunk in use of the kernel heap.\<close>

definition on_heap :: "u32 \<Rightarrow> nat \<Rightarrow> 'a pmem_scheme \<Rightarrow> bool" where
  "on_heap p n s \<longleftrightarrow> kernel_mem s \<noteq> 0 \<and> heap_ok (kernel_heap_state s, ram s)
     \<and> (\<exists>bs. (unat p, bs) \<in> heap_live (kernel_heap_state s, ram s) \<and> n \<le> length bs)"

lemma malloc_on_heap:
  assumes "on_heap p n s" and "heap_get k (kernel_heap_state s, ram s) = Some (q, h, m)"
  shows "k_heapLCABAlloc (of_nat k) (kernel_heap_state s, ram s) = Some (of_nat q, h, m)"
    and "separate (of_nat q) k p n" and "\<exists>j \<ge> n. bytes_at m p j = bytes_at (ram s) p j"
proof -
  from assms(1) obtain bs where b: "heap_ok (kernel_heap_state s, ram s)" "(unat p, bs) \<in> heap_live (kernel_heap_state s, ram s)"
    "n \<le> length bs" by (auto simp: on_heap_def)
  note g = heap_grant [OF b(1) assms(2) b(2)]
  show "k_heapLCABAlloc (of_nat k) (kernel_heap_state s, ram s) = Some (of_nat q, h, m)" by (rule g)
  show "separate (of_nat q) k p n" using separate_le [OF g(4) order_refl b(3)] by simp
  show "\<exists>j \<ge> n. bytes_at m p j = bytes_at (ram s) p j" using g(3) b(3) by auto
qed

subsection \<open>Bytes outside the heap, and inside a chunk\<close>

lemma store_inside:
  assumes "\<not> in_range (of_nat B) S x" and "B \<le> k" and "k + 4 \<le> B + S" and "B + S < 4294967296"
  shows "store32 (of_nat k) v m x = m x"
proof (rule store32_outside, rule notI)
  assume "in_range (of_nat k) 4 x"
  then have "in_range (of_nat B + of_nat (k - B)) 4 x" using assms(2) by (simp add: of_nat_diff)
  then have "in_range (of_nat B) S x" by (rule in_range_sub) (use assms in simp_all)
  then show False using assms(1) by blast
qed

text \<open>The allocator writes inside the block only.\<close>

lemma heap_take_outside:
  assumes "heap_block m hb (pre @ (False, s) # post)" and "n \<le> s" and "d = unat hb + 20 + total pre"
    and "\<not> in_range hb (unat (hb_size m hb)) x"
  shows "snd (snd (heap_take hb (of_nat d) (of_nat n) (h, m))) x = m x"
proof -
  define B S where "B = unat hb" and "S = unat (hb_size m hb)"
  have hb: "hb = of_nat B" by (simp add: B_def)
  have c: "chain m (B + 20) (pre @ (False, s) # post) (B + S)" "B + S < 4294967296"
    using assms(1) by (simp_all add: heap_block_def B_def S_def)
  have d: "d = B + 20 + total pre" using assms(3) by (simp add: B_def)
  have e: "d + 8 + s \<le> B + S" "s < 2147483648" "flagsize m (of_nat d) = flag_word False s" using c d by (auto simp: chain_append)
  have x: "\<not> in_range (of_nat B) S x" using assms(4) by (simp add: hb S_def)
  note st = store_inside [OF x _ _ c(2)]
  have sz: "flagsize m (of_nat d) AND 0x7fffffff = of_nat s" using e by (simp add: flag_word_size)
  have gt: "(of_nat n + 8 + 16 :: u32) < of_nat s \<longleftrightarrow> n + 24 < s"
    using assms(2) e by (simp add: addr_simps of_nat32_less add.commute del: of_nat_add)
  show ?thesis
  proof (cases "n + 24 < s")
    case True
    then show ?thesis
      using e d unfolding heap_take_def Let_def prod.case sz gt hb
      by (simp add: st addr_simps del: of_nat_add)
  next
    case False
    then show ?thesis
      using e d unfolding heap_take_def Let_def prod.case sz gt hb
      by (simp add: st addr_simps del: of_nat_add)
  qed
qed

lemma alloc_outside:
  assumes "heap_block m hb cs" and "fblock h = hb" and "has_room hb (of_nat n) m" and "n < 4294967296" and "first_fit n cs = Some (off, cs')"
    and "k_heapLCABAlloc (of_nat n) (h, m) = Some (p, h', m')" and "\<not> in_range hb (unat (hb_size m hb)) x"
  shows "m' x = m x"
proof -
  from first_fit_split [OF assms(5)] obtain pre s post where
    p: "cs = pre @ (False, s) # post" "n \<le> s" "first_fit n pre = None" by blast
  from alloc_take [OF assms(1) [unfolded p(1)] assms(2-4) p(3,2) refl] assms(6)
  have "heap_take hb (of_nat (unat hb + 20 + total pre)) (of_nat n) (h, m) = (p, h', m')" by simp
  then show ?thesis using heap_take_outside [OF assms(1) [unfolded p(1)] p(2) refl assms(7), of h] by simp
qed

lemma load32_apart:
  assumes "same_outside (of_nat p) n m m'" and "k + 4 \<le> p \<or> p + n \<le> k" and "k + 4 \<le> 4294967296" and "p + n \<le> 4294967296"
  shows "load32 m' (of_nat k) = load32 m (of_nat k)"
  by (rule load32_same_outside [OF assms(1)]) (use assms in \<open>auto intro!: separate_nat\<close>)

lemma chain_body_write:
  "chain m a cs e \<Longrightarrow> e < 4294967296 \<Longrightarrow> (p, bs) \<in> set (contents m a cs) \<Longrightarrow> same_outside (of_nat p) (length bs) m m' \<Longrightarrow> chain m' a cs e"
proof (induction m a cs e rule: chain.induct)
  case (2 m a u s cs e)
  have c: "s < 2147483648" "a + 8 + s \<le> e" "flagsize m (of_nat a) = flag_word u s" "chain m (a + 8 + s) cs e" using 2(2) by simp_all
  note b = contents_bounds [OF 2(2,4)]
  have f: "flagsize m' (of_nat a) = flag_word u s"
    using load32_apart [OF 2(5), of "a + 4"] b 2(3) c(3) by simp
  have "chain m' (a + 8 + s) cs e"
  proof (cases "(p, bs) \<in> set (contents m (a + 8 + s) cs)")
    case True
    then show ?thesis using 2 c by simp
  next
    case False
    then have p: "p = a + 8" "length bs = s" using 2(4) by (auto split: if_splits)
    have "m' (of_nat k) = m (of_nat k)" if "a + 8 + s \<le> k" "k < e" for k
    proof (cases "s = 0")
      case False
      then have "\<not> in_range (of_nat p) s (of_nat k)" using that p 2(3) c(2) by (subst in_range_nat) auto
      then show ?thesis using 2(5) p by (simp add: same_outside_def)
    qed (use 2(5) p in \<open>simp add: same_outside_def\<close>)
    then have "agree m m' (a + 8 + s) e" by (simp add: agree_def)
    then show ?thesis by (rule agree_chain [OF c(4)])
  qed
  then show ?case using c f by simp
qed simp

lemma heap_body_write:
  assumes "heap_block m hb cs" and "(p, bs) \<in> set (contents m (unat hb + 20) cs)" and "same_outside (of_nat p) (length bs) m m'"
  shows "heap_block m' hb cs" and "hb_size m' hb = hb_size m hb" and "hb_used m' hb = hb_used m hb" and "hb_next m' hb = hb_next m hb"
proof -
  define B where "B = unat hb"
  have hb: "hb = of_nat B" by (simp add: B_def)
  have c: "chain m (B + 20) cs (B + unat (hb_size m hb))" "B + unat (hb_size m hb) < 4294967296" "hb \<noteq> 0"
    using assms(1) by (simp_all add: heap_block_def B_def)
  have b: "B + 28 \<le> p" "p + length bs \<le> B + unat (hb_size m hb)"
    using contents_bounds [OF c(1), of p bs] assms(2) by (simp_all add: B_def)
  have l: "load32 m' (of_nat (B + i)) = load32 m (of_nat (B + i))" if "i \<le> 20" for i
    using load32_apart [OF assms(3), of "B + i"] b c(2) that by simp
  show s: "hb_size m' hb = hb_size m hb" "hb_used m' hb = hb_used m hb" "hb_next m' hb = hb_next m hb"
    using l [of 0] l [of 4] l [of 8] by (simp_all add: hb)
  show "heap_block m' hb cs"
    using chain_body_write [OF c(1,2) _ assms(3)] assms(2) c(2,3) s(1) by (simp add: heap_block_def B_def)
qed

text \<open>Where the chunks in use are depends on the chunk list only.\<close>

lemma contents_layout: "contents m' a cs = map (\<lambda>(q, ds). (q, bytes_at m' (of_nat q) (length ds))) (contents m a cs)"
  by (induction m a cs rule: contents.induct) simp_all

lemma contents_mem: "(q, ds) \<in> set (contents m a cs) \<Longrightarrow> (q, bytes_at m' (of_nat q) (length ds)) \<in> set (contents m' a cs)"
  unfolding contents_layout [of m' a cs m] by force

lemma cstring_bytes:
  assumes "cstring m p w" and "bytes_at m' p n = bytes_at m p n" and "length w < n"
  shows "cstring m' p w"
proof -
  have "bytes_at m' p (Suc (length w)) = bytes_at m p (Suc (length w))"
    using arg_cong [OF assms(2), of "take (Suc (length w))"] assms(3) by (simp add: take_bytes_at)
  then show ?thesis using assms(1) by (simp add: cstring_def)
qed

text \<open>The two ends of \<open>heap_get\<close>: what a first fit in the only block of the heap grants.\<close>

lemma first_fit_get:
  assumes "heap_block m hb cs" and "fblock h = hb" and "hb_next m hb = 0" and "has_room hb (of_nat n) m" and "n < 4294967296"
    and "first_fit n cs = Some (off, cs')"
  obtains h' m' where "heap_get n (h, m) = Some (unat hb + 20 + off, h', m')" and "heap_ok (h, m)"
    and "k_heapLCABAlloc (of_nat n) (h, m) = Some (of_nat (unat hb + 20 + off), h', m')"
    and "\<And>x. \<not> in_range hb (unat (hb_size m hb)) x \<Longrightarrow> m' x = m x"
    and "unat hb + 20 + off + n \<le> unat hb + unat (hb_size m hb)" and "unat hb + unat (hb_size m hb) < 4294967296"
proof -
  from alloc_first_fit [OF assms(1,2,4-6)] obtain h' m' where
    a: "k_heapLCABAlloc (of_nat n) (h, m) = Some (of_nat (unat hb + 20 + off), h', m')" by blast
  from first_fit_split [OF assms(6)] obtain pre s post where
    p: "cs = pre @ (False, s) # post" "n \<le> s" "off = total pre + 8" by blast
  have c: "chain m (unat hb + 20) cs (unat hb + unat (hb_size m hb))" "unat hb + unat (hb_size m hb) < 4294967296"
    using assms(1) by (simp_all add: heap_block_def)
  have e: "unat hb + 20 + off + n \<le> unat hb + unat (hb_size m hb)"
    using c(1) p by (auto simp: chain_append)
  have u: "unat (of_nat (unat hb + 20 + off) :: u32) = unat hb + 20 + off"
    using e c(2) by (intro unat_of_nat32) linarith
  then have "(of_nat (unat hb + 20 + off) :: u32) \<noteq> 0" by (metis add_is_0 unat_0 zero_neq_numeral)
  then have "heap_get n (h, m) = Some (unat hb + 20 + off, h', m')" using a u assms(5) by (simp add: heap_get_def del: of_nat_add)
  moreover have "heap_ok (h, m)" using assms(1-3) by (auto simp: heap_ok_def)
  ultimately show thesis
    using that a e c(2) alloc_outside [OF assms(1,2,4-6) a] by blast
qed

text \<open>A chunk in use lies inside its block, apart from everything outside and from the other chunks.\<close>

lemma chunk_bounds:
  assumes "heap_block m hb cs" and "(q, ds) \<in> set (contents m (unat hb + 20) cs)"
  shows "unat hb + 28 \<le> q" "q + length ds \<le> unat hb + unat (hb_size m hb)" "unat hb + unat (hb_size m hb) < 4294967296"
  using assms(1) contents_bounds [OF _ assms(2), of "unat hb + unat (hb_size m hb)"] by (simp_all add: heap_block_def)

lemma chunk_inside:
  assumes "heap_block m hb cs" and "(q, ds) \<in> set (contents m (unat hb + 20) cs)" and "in_range (of_nat q) (length ds) x"
  shows "in_range hb (unat (hb_size m hb)) x"
proof -
  note b = chunk_bounds [OF assms(1,2)]
  then have "of_nat q = hb + of_nat (q - unat hb)" by (simp add: of_nat_diff)
  with assms(3) have "in_range (hb + of_nat (q - unat hb)) (length ds) x" by simp
  then show ?thesis by (rule in_range_sub) (use b in simp_all)
qed

lemma chunk_apart_outside:
  assumes "heap_block m hb cs" and "(q, ds) \<in> set (contents m (unat hb + 20) cs)" and "separate hb (unat (hb_size m hb)) a k"
  shows "separate (of_nat q) (length ds) a k"
proof -
  note b = chunk_bounds [OF assms(1,2)]
  have "separate (hb + of_nat (q - unat hb)) (length ds) a k" by (rule separate_sub [OF assms(3)]) (use b in simp_all)
  then show ?thesis using b by (simp add: of_nat_diff)
qed

lemma chunks_apart:
  assumes "heap_block m hb cs" and "(p, bs) \<in> set (contents m (unat hb + 20) cs)" and "(q, ds) \<in> set (contents m (unat hb + 20) cs)"
    and "p \<noteq> q"
  shows "separate (of_nat p) (length bs) (of_nat q) (length ds)"
proof -
  have "p + length bs \<le> q \<or> q + length ds \<le> p"
    using contents_apart [OF _ assms(2,3)] assms(1,4) by (auto simp: heap_block_def)
  then show ?thesis using chunk_bounds [OF assms(1,2)] chunk_bounds [OF assms(1,3)] by (intro separate_nat) linarith+
qed

text \<open>Two chunks written, one after the other or both at once.\<close>

lemma heap_two_writes:
  assumes "heap_block m hb cs" and "(p, bs) \<in> set (contents m (unat hb + 20) cs)" and "(q, ds) \<in> set (contents m (unat hb + 20) cs)"
    and "\<forall>x. in_range (of_nat p) (length bs) x \<or> in_range (of_nat q) (length ds) x \<or> m' x = m x"
  shows "heap_block m' hb cs" and "hb_size m' hb = hb_size m hb" and "hb_used m' hb = hb_used m hb" and "hb_next m' hb = hb_next m hb"
    and "\<forall>x. in_range hb (unat (hb_size m hb)) x \<or> m' x = m x"
proof -
  define mm where "mm = (\<lambda>x. if in_range (of_nat p) (length bs) x then m' x else m x)"
  have 1: "same_outside (of_nat p) (length bs) m mm" by (simp add: same_outside_def mm_def)
  have 2: "same_outside (of_nat q) (length (bytes_at mm (of_nat q) (length ds))) mm m'"
    using assms(4) by (auto simp: same_outside_def mm_def)
  note b = heap_body_write [OF assms(1,2) 1]
  note c = heap_body_write [OF b(1) contents_mem [OF assms(3)] 2]
  show "heap_block m' hb cs" "hb_size m' hb = hb_size m hb" "hb_used m' hb = hb_used m hb" "hb_next m' hb = hb_next m hb"
    using b c by simp_all
  show "\<forall>x. in_range hb (unat (hb_size m hb)) x \<or> m' x = m x"
    using assms(4) chunk_inside [OF assms(1,2)] chunk_inside [OF assms(1,3)] by blast
qed

end
