(* ===== verification/AtaDrive.thy ===== *)
theory AtaDrive
  imports Ata HeapUse
begin

text \<open>
  The drive the routines of \<open>Ata\<close> talk to, as the ATA standard documents its PIO protocol, and what the routines do with
  one. The state of a drive is a function of the accesses to its ports; \<open>attached\<close> says that the machine's devices answer
  as such a drive does.
\<close>

subsection \<open>The PIO protocol\<close>

datatype drive_mode = Idle | Sending nat | Receiving "u16 list"

text \<open>
  The registers of the task file, the transfer in progress, the number of status reads for which the drive stays busy,
  how many of them a command takes (\<open>latency\<close>), whether it is the second drive of its cable, and its sectors.
\<close>

record drive =
  count_reg :: u8
  low_reg :: u8
  mid_reg :: u8
  high_reg :: u8
  device_reg :: u8
  mode :: drive_mode
  busy :: nat
  latency :: nat
  slave :: bool
  sectors :: "u32 \<Rightarrow> u16 list"

definition lba :: "drive \<Rightarrow> u32" where
  "lba d = ucast (low_reg d) OR push_bit 8 (ucast (mid_reg d)) OR push_bit 16 (ucast (high_reg d))
     OR push_bit 24 (ucast (device_reg d AND 0x0F))"

text \<open>Bit 4 of the device register selects one of the two drives; bit 6 selects addressing by block number.\<close>

definition selected :: "drive \<Rightarrow> bool" where
  "selected d \<longleftrightarrow> (device_reg d AND 0x10 \<noteq> 0) = slave d \<and> device_reg d AND 0x40 \<noteq> 0"

definition drive_command :: "u8 \<Rightarrow> drive \<Rightarrow> drive" where
  "drive_command v d =
     (if v = 0x20 \<and> selected d \<and> count_reg d = 1 then d\<lparr>mode := Sending 0, busy := latency d\<rparr>
      else if v = 0x30 \<and> selected d \<and> count_reg d = 1 then d\<lparr>mode := Receiving [], busy := latency d\<rparr>
      else d\<lparr>mode := Idle, busy := latency d\<rparr>)"

fun drive_data :: "u16 \<Rightarrow> drive \<Rightarrow> drive" where
  "drive_data v d =
     (case mode d of
        Receiving ws \<Rightarrow>
          (if length ws = 255 then d\<lparr>sectors := (sectors d)(lba d := ws @ [v]), mode := Idle, busy := latency d\<rparr>
           else d\<lparr>mode := Receiving (ws @ [v])\<rparr>)
      | _ \<Rightarrow> d)"

definition drive_step :: "u16 \<Rightarrow> io_event \<Rightarrow> drive \<Rightarrow> drive" where
  "drive_step base e d =
     (case e of
        Out8 p v \<Rightarrow>
          (if p = base + 2 then d\<lparr>count_reg := v\<rparr>
           else if p = base + 3 then d\<lparr>low_reg := v\<rparr>
           else if p = base + 4 then d\<lparr>mid_reg := v\<rparr>
           else if p = base + 5 then d\<lparr>high_reg := v\<rparr>
           else if p = base + 6 then d\<lparr>device_reg := v\<rparr>
           else if p = base + 7 then drive_command v d
           else d)
      | Out16 p v \<Rightarrow> (if p = base then drive_data v d else d)
      | In8 p \<Rightarrow> (if p = base + 7 then d\<lparr>busy := busy d - 1\<rparr> else d)
      | In16 p \<Rightarrow>
          (if p = base then
             (case mode d of Sending k \<Rightarrow> d\<lparr>mode := (if k = 255 then Idle else Sending (Suc k))\<rparr> | _ \<Rightarrow> d)
           else d)
      | _ \<Rightarrow> d)"

text \<open>The status: BSY, or DRDY and, during a transfer, DRQ.\<close>

definition drive_status :: "drive \<Rightarrow> u8" where
  "drive_status d = (if busy d > 0 then 0x80 else if mode d = Idle then 0x50 else 0x58)"

definition drive_word :: "drive \<Rightarrow> u16" where
  "drive_word d = (case mode d of Sending k \<Rightarrow> sectors d (lba d) ! k | _ \<Rightarrow> 0)"

definition attached :: "u16 \<Rightarrow> drive \<Rightarrow> 'a machine_scheme \<Rightarrow> bool" where
  "attached base d s \<longleftrightarrow>
     (\<forall>h. dev8 s (h @ io s) (base + 7) = drive_status (foldr (drive_step base) h d)
        \<and> dev16 s (h @ io s) base = drive_word (foldr (drive_step base) h d))"

definition ready :: "drive \<Rightarrow> bool" where
  "ready d \<longleftrightarrow> mode d = Idle \<and> busy d = 0"

definition interface :: "memory \<Rightarrow> u32 \<Rightarrow> u8 \<Rightarrow> u16 \<Rightarrow> bool" where
  "interface m p mst base \<longleftrightarrow> m p = mst \<and> data_port m p = base \<and> error_port m p = base + 1 \<and> sector_count_port m p = base + 2
     \<and> lba_low_port m p = base + 3 \<and> lba_mid_port m p = base + 4 \<and> lba_hi_port m p = base + 5 \<and> device_port m p = base + 6
     \<and> command_port m p = base + 7 \<and> control_port m p = base + 0x206"

text \<open>The bytes of a sector, and the words of a buffer, low byte first.\<close>

definition sector_bytes :: "u16 list \<Rightarrow> u8 list" where
  "sector_bytes ws = concat (map (\<lambda>w. [ucast w, ucast (drop_bit 8 w)]) ws)"

definition buffer_words :: "memory \<Rightarrow> u32 \<Rightarrow> nat \<Rightarrow> u16 list" where
  "buffer_words m p n = map (\<lambda>k. load16 m (p + of_nat (2 * k))) [0..<n]"

subsection \<open>Steps of an attached drive\<close>

lemma attached_emit: "attached base d s \<Longrightarrow> attached base (drive_step base e d) (emit e s)"
  unfolding attached_def
proof
  fix h
  assume "\<forall>h. dev8 s (h @ io s) (base + 7) = drive_status (foldr (drive_step base) h d)
     \<and> dev16 s (h @ io s) base = drive_word (foldr (drive_step base) h d)"
  from this [THEN spec, of "h @ [e]"]
  show "dev8 (emit e s) (h @ io (emit e s)) (base + 7) = drive_status (foldr (drive_step base) h (drive_step base e d)) \<and>
      dev16 (emit e s) (h @ io (emit e s)) base = drive_word (foldr (drive_step base) h (drive_step base e d))"
    by (simp add: emit_def)
qed

lemma attached_write: "attached base d s \<Longrightarrow> attached base (drive_step base (Out8 p v) d) (write_port p v s)"
  and attached_write16: "attached base d s \<Longrightarrow> attached base (drive_step base (Out16 p w) d) (port_write16 p w s)"
  and attached_cli: "attached base d s \<Longrightarrow> attached base d (cli s)"
  and attached_sti: "attached base d s \<Longrightarrow> attached base d (sti s)"
  using attached_emit [of base d s] attached_emit [of base d s Cli] attached_emit [of base d s Sti]
  by (auto simp: write_port_def port_write16_def cli_def sti_def drive_step_def [of _ Cli] drive_step_def [of _ Sti])

lemma attached_read:
  assumes "attached base d s" and "read_port (base + 7) s = (v, t)"
  shows "v = drive_status d" and "attached base (d\<lparr>busy := busy d - 1\<rparr>) t" and "t = emit (In8 (base + 7)) s"
proof -
  show "v = drive_status d" "t = emit (In8 (base + 7)) s"
    using assms(1) [unfolded attached_def, THEN spec, of "[]"] assms(2) by (auto simp: read_port_def)
  then show "attached base (d\<lparr>busy := busy d - 1\<rparr>) t"
    using attached_emit [OF assms(1), of "In8 (base + 7)"] by (simp add: drive_step_def)
qed

lemma attached_read16:
  assumes "attached base d s" and "read_port16 base s = (v, t)"
  shows "v = drive_word d" and "attached base (drive_step base (In16 base) d) t" and "t = emit (In16 base) s"
proof -
  show "v = drive_word d" "t = emit (In16 base) s"
    using assms(1) [unfolded attached_def, THEN spec, of "[]"] assms(2) by (auto simp: read_port16_def)
  then show "attached base (drive_step base (In16 base) d) t"
    using attached_emit [OF assms(1)] by simp
qed

lemma attached_frame: "io s' = io s \<Longrightarrow> dev8 s' = dev8 s \<Longrightarrow> dev16 s' = dev16 s \<Longrightarrow> attached base d s' \<longleftrightarrow> attached base d s"
  by (simp add: attached_def)

text \<open>What the port operations keep: everything but the trace.\<close>

definition same_but_io :: "'a machine_scheme \<Rightarrow> 'a machine_scheme \<Rightarrow> bool" where
  "same_but_io s s' \<longleftrightarrow> (\<exists>h. s' = s\<lparr>io := h\<rparr>)"

lemma same_but_io_refl: "same_but_io s s"
  unfolding same_but_io_def by (rule exI [of _ "io s"]) simp

lemma same_but_io_trans: "same_but_io s t \<Longrightarrow> same_but_io t u \<Longrightarrow> same_but_io s u"
  by (auto simp: same_but_io_def)

lemma same_but_io_emit: "same_but_io s t \<Longrightarrow> same_but_io s (emit e t)"
  by (auto simp: same_but_io_def emit_def)

lemma same_but_io_ports:
  "same_but_io s t \<Longrightarrow> same_but_io s (write_port p v t)" "same_but_io s t \<Longrightarrow> same_but_io s (port_write16 p w t)"
  "same_but_io s t \<Longrightarrow> same_but_io s (cli t)" "same_but_io s t \<Longrightarrow> same_but_io s (sti t)"
  by (simp_all add: write_port_def port_write16_def cli_def sti_def same_but_io_emit)

lemma same_but_ioD: "same_but_io s t \<Longrightarrow> ram t = ram s" "same_but_io s t \<Longrightarrow> dev8 t = dev8 s"
  "same_but_io s t \<Longrightarrow> dev16 t = dev16 s"
  by (auto simp: same_but_io_def)

subsection \<open>Addressing a sector\<close>

definition device_byte :: "u8 \<Rightarrow> u32 \<Rightarrow> u8" where
  "device_byte mst sector = (if mst \<noteq> 0 then 0xE0 else 0xF0) OR ucast (drop_bit 24 (sector AND 0x0F000000))"

definition addressed :: "u8 \<Rightarrow> u32 \<Rightarrow> drive \<Rightarrow> drive" where
  "addressed mst sector d = d\<lparr>device_reg := device_byte mst sector, count_reg := 1, low_reg := ucast (sector AND 0x000000FF), mid_reg := ucast (drop_bit 8 (sector AND 0x0000FF00)),
     high_reg := ucast (drop_bit 16 (sector AND 0x00FF0000))\<rparr>"

lemma byte_masks:
  "(0x000000FF :: u32) = mask 8" "(0x0000FF00 :: u32) = push_bit 8 (mask 8)" "(0x00FF0000 :: u32) = push_bit 16 (mask 8)"
  "(0x0F000000 :: u32) = push_bit 24 (mask 4)" "(0x0F :: u8) = mask 4"
  "(0xE0 :: u8) = push_bit 5 (mask 3)" "(0xF0 :: u8) = push_bit 4 (mask 4)"
  by (simp_all add: mask_eq_exp_minus_1 push_bit_eq_mult)

lemma byte_bits: "bit (0x10 :: int) n \<longleftrightarrow> n = 4" "bit (0x40 :: int) n \<longleftrightarrow> n = 6"
  "bit (0x0F :: int) n \<longleftrightarrow> n < 4"
  using bit_exp_iff [where 'a = int, of 4 n] bit_exp_iff [where 'a = int, of 6 n] bit_mask_iff [where 'a = int, of 4 n]
  by (auto simp: mask_eq_exp_minus_1)

lemma device_byte_low: "device_byte mst sector AND 0x0F = ucast (drop_bit 24 (sector AND 0x0F000000))"
  unfolding device_byte_def byte_masks by (rule bit_word_eqI) (auto simp: bit_simps)

lemma device_byte_select: "device_byte mst sector AND 0x10 = (if mst \<noteq> 0 then 0 else 0x10)"
  unfolding device_byte_def byte_masks by (rule bit_word_eqI) (auto simp: bit_simps byte_bits)

lemma device_byte_lba: "device_byte mst sector AND 0x40 = 0x40"
  unfolding device_byte_def byte_masks by (rule bit_word_eqI) (auto simp: bit_simps byte_bits)

lemma lba_addressed:
  assumes "sector \<le> 0x0FFFFFFF"
  shows "lba (addressed mst sector d) = sector"
proof -
  have u: "unat sector < 2 ^ 28" using assms by (simp add: word_le_nat_alt)
  have "\<not> bit sector n" if "28 \<le> n" for n
  proof -
    have "(2 :: nat) ^ 28 \<le> 2 ^ n" using that by (intro power_increasing) simp_all
    then have "unat sector div 2 ^ n = 0" using u by simp
    then have "\<not> bit (unat sector) n" by (simp add: bit_iff_odd)
    then show ?thesis by (auto simp: bit_unsigned_iff dest: bit_imp_le_length)
  qed
  then have high: "bit sector n \<Longrightarrow> n < 28" for n by (meson not_le)
  have "bit (lba (addressed mst sector d)) n = bit sector n" if "n < 32" for n
    unfolding lba_def addressed_def
    using that high [of n]
    by (simp add: device_byte_low) (unfold byte_masks, cases "n < 8"; cases "n < 16"; cases "n < 24"; simp add: bit_simps byte_bits; linarith?)
  then show ?thesis by (intro bit_word_eqI) simp
qed

lemma selected_addressed: "selected (addressed mst sector d) \<longleftrightarrow> slave d = (mst = 0)"
  by (simp add: selected_def addressed_def device_byte_select device_byte_lba)

lemma addressed_simps [simp]:
  "mode (addressed mst sector d) = mode d" "busy (addressed mst sector d) = busy d" "latency (addressed mst sector d) = latency d"
  "slave (addressed mst sector d) = slave d" "sectors (addressed mst sector d) = sectors d" "count_reg (addressed mst sector d) = 1"
  by (simp_all add: addressed_def)

lemma attached_select:
  assumes "attached base d s" and "interface (ram s) p mst base"
  shows "attached base (d\<lparr>device_reg := device_byte mst sector\<rparr>) (select_drive p sector s)"
    and "same_but_io s (select_drive p sector s)"
  using attached_write [OF assms(1), of "base + 6" "device_byte mst sector"] assms(2)
    same_but_io_ports(1) [OF same_but_io_refl]
  by (auto simp: select_drive_def device_byte_def drive_step_def interface_def)

lemma attached_command:
  assumes "attached base (d\<lparr>device_reg := device_byte mst sector\<rparr>) s" and "interface (ram s) p mst base"
  shows "attached base (drive_command command (addressed mst sector d)) (sector_command p sector command s)"
    and "same_but_io s (sector_command p sector command s)"
proof -
  note w = attached_write
  have 1: "attached base (d\<lparr>device_reg := device_byte mst sector\<rparr>) (write_port (base + 1) 0 s)" (is "attached _ _ ?s1")
    using w [OF assms(1), of "base + 1" 0] by (simp add: drive_step_def)
  have 2: "attached base (d\<lparr>device_reg := device_byte mst sector, count_reg := 1\<rparr>) (write_port (base + 2) 1 ?s1)" (is "attached _ _ ?s2")
    using w [OF 1, of "base + 2" 1] by (simp add: drive_step_def)
  have 3: "attached base (d\<lparr>device_reg := device_byte mst sector, count_reg := 1, low_reg := ucast (sector AND 0x000000FF)\<rparr>)
      (write_port (base + 3) (ucast (sector AND 0x000000FF)) ?s2)" (is "attached _ _ ?s3")
    using w [OF 2, of "base + 3" "ucast (sector AND 0x000000FF)"] by (simp add: drive_step_def)
  have 4: "attached base (d\<lparr>device_reg := device_byte mst sector, count_reg := 1, low_reg := ucast (sector AND 0x000000FF),
      mid_reg := ucast (drop_bit 8 (sector AND 0x0000FF00))\<rparr>)
      (write_port (base + 4) (ucast (drop_bit 8 (sector AND 0x0000FF00))) ?s3)" (is "attached _ _ ?s4")
    using w [OF 3, of "base + 4" "ucast (drop_bit 8 (sector AND 0x0000FF00))"] by (simp add: drive_step_def)
  have 5: "attached base (addressed mst sector d)
      (write_port (base + 5) (ucast (drop_bit 16 (sector AND 0x00FF0000))) ?s4)" (is "attached _ _ ?s5")
    using w [OF 4, of "base + 5" "ucast (drop_bit 16 (sector AND 0x00FF0000))"] by (simp add: drive_step_def addressed_def)
  have 6: "attached base (drive_command command (addressed mst sector d)) (write_port (base + 7) command ?s5)"
    using w [OF 5, of "base + 7" command] by (simp add: drive_step_def)
  then show "attached base (drive_command command (addressed mst sector d)) (sector_command p sector command s)"
    using assms(2) by (simp add: sector_command_def interface_def Let_def)
  show "same_but_io s (sector_command p sector command s)"
    unfolding sector_command_def Let_def by (intro same_but_io_ports(1) same_but_io_refl)
qed

subsection \<open>Polling\<close>

lemma read_status_attached:
  assumes "attached base d s" and "interface (ram s) p mst base" and "read_status p s = (v, t)"
  shows "v = drive_status d" and "attached base (d\<lparr>busy := busy d - 1\<rparr>) t" and "same_but_io s t"
proof -
  have "read_port (base + 7) s = (v, t)" using assms(2,3) by (simp add: read_status_def interface_def)
  from attached_read [OF assms(1) this] same_but_io_emit [OF same_but_io_refl]
  show "v = drive_status d" "attached base (d\<lparr>busy := busy d - 1\<rparr>) t" "same_but_io s t" by auto
qed

lemma interface_same: "same_but_io s t \<Longrightarrow> interface (ram t) p mst base \<longleftrightarrow> interface (ram s) p mst base"
  by (simp add: same_but_ioD)

lemma status_bits:
  "drive_status d AND 0x80 \<noteq> 0 \<longleftrightarrow> busy d > 0" "drive_status d AND 0x01 = 0" "drive_status d \<noteq> 0" "drive_status d \<noteq> 0xFF"
  "busy d = 0 \<Longrightarrow> mode d \<noteq> Idle \<Longrightarrow> drive_status d AND 0x08 \<noteq> 0"
  by (simp_all add: drive_status_def)

text \<open>Both polling loops end on an attached drive, with the drive no longer busy.\<close>

lemma ATA_wait_attached:
  assumes "attached base d s" and "interface (ram s) p mst base" and "st = drive_status d0" and "d = d0\<lparr>busy := busy d0 - 1\<rparr>"
  shows "\<exists>st' t. ATA_wait p st s = Some (st', t) \<and> st' AND 0x01 = 0 \<and> same_but_io s t \<and> attached base (d\<lparr>busy := 0\<rparr>) t"
  using assms
proof (induction "busy d0" arbitrary: d0 d s st)
  case 0
  then have "d\<lparr>busy := 0\<rparr> = d" by simp
  moreover have "ATA_wait p st s = Some (st, s)" using 0 by (subst ATA_wait.simps) (simp add: status_bits)
  ultimately show ?case using 0 same_but_io_refl by (auto simp: status_bits)
next
  case (Suc n)
  obtain v t where r: "read_status p s = (v, t)" by force
  note a = read_status_attached [OF Suc.prems(1,2) r]
  have i: "interface (ram t) p mst base" using Suc.prems(2) a(3) by (simp add: interface_same)
  have n: "n = busy d" using Suc.hyps(2) Suc.prems(4) by simp
  obtain st' u where u: "ATA_wait p v t = Some (st', u)" "st' AND 0x01 = 0" "same_but_io t u"
      "attached base (d\<lparr>busy := busy d - 1, busy := 0\<rparr>) u"
    using Suc.hyps(1) [OF n a(2) i a(1) refl] by blast
  have "ATA_wait p st s = ATA_wait p v t"
    using Suc.hyps(2) [symmetric] Suc.prems(3) r by (subst ATA_wait.simps) (simp add: status_bits)
  then show ?case using u same_but_io_trans [OF a(3) u(3)] by auto
qed

lemma ATA_wait_data_attached:
  assumes "attached base d s" and "interface (ram s) p mst base" and "mode d \<noteq> Idle" and "st AND 0x80 \<noteq> 0 \<or> st AND 0x08 = 0"
  shows "\<exists>st' t. ATA_wait_data p st s = Some (st', t) \<and> st' AND 0x01 = 0 \<and> same_but_io s t \<and> attached base (d\<lparr>busy := 0\<rparr>) t"
  using assms
proof (induction "busy d" arbitrary: d s st)
  case 0
  obtain v t where r: "read_status p s = (v, t)" by force
  note a = read_status_attached [OF 0(2,3) r]
  have "ATA_wait_data p st s = ATA_wait_data p v t"
    using 0(5) r by (subst ATA_wait_data.simps) auto
  moreover have "ATA_wait_data p v t = Some (v, t)"
    using 0(1,4) a(1) by (subst ATA_wait_data.simps) (simp add: status_bits)
  ultimately show ?case using a 0(1) by (auto simp: status_bits)
next
  case (Suc n)
  obtain v t where r: "read_status p s = (v, t)" by force
  note a = read_status_attached [OF Suc.prems(1,2) r]
  have i: "interface (ram t) p mst base" using Suc.prems(2) a(3) by (simp add: interface_same)
  have b: "v AND 0x80 \<noteq> 0" using Suc.hyps(2) [symmetric] a(1) by (simp add: status_bits)
  have n: "n = busy (d\<lparr>busy := busy d - 1\<rparr>)" using Suc.hyps(2) [symmetric] by simp
  have "mode (d\<lparr>busy := busy d - 1\<rparr>) \<noteq> Idle" using Suc.prems(3) by simp
  from Suc.hyps(1) [OF n a(2) i this disjI1 [OF b]]
  obtain st' u where u: "ATA_wait_data p v t = Some (st', u)" "st' AND 0x01 = 0" "same_but_io t u"
      "attached base (d\<lparr>busy := busy d - 1, busy := 0\<rparr>) u" by blast
  have "ATA_wait_data p st s = ATA_wait_data p v t"
    using Suc.prems(4) r by (subst ATA_wait_data.simps) auto
  then show ?case using u same_but_io_trans [OF a(3) u(3)] by auto
qed

lemma read_status_5_attached:
  assumes "attached base d s" and "interface (ram s) p mst base" and "read_status_5 p st s = (v, t)"
  shows "v = drive_status (d\<lparr>busy := busy d - 4\<rparr>)" and "attached base (d\<lparr>busy := busy d - 5\<rparr>) t" and "same_but_io s t"
proof -
  have "snd (v, t) = t \<and> fst (v, t) = drive_status (d\<lparr>busy := busy d - (5 - 1)\<rparr>) \<and> attached base (d\<lparr>busy := busy d - 5\<rparr>) t \<and> same_but_io s t"
    if "(v, t) = fold (\<lambda>i (status, s). read_status p s) [0..<5] (st, s)"
  proof -
    let ?f = "\<lambda>(i :: nat) (status, s). read_status p s"
    have step: "(n = 0 \<or> fst x = drive_status (d\<lparr>busy := busy d - (n - 1)\<rparr>)) \<and> attached base (d\<lparr>busy := busy d - n\<rparr>) (snd x) \<and> same_but_io s (snd x)"
      if "x = fold ?f [0..<n] (st, s)" for n x
      using that
    proof (induction n arbitrary: x)
      case 0
      then show ?case using assms(1) same_but_io_refl by (simp add: attached_def)
    next
      case (Suc n)
      let ?y = "fold ?f [0..<n] (st, s)"
      have y: "attached base (d\<lparr>busy := busy d - n\<rparr>) (snd ?y)" "same_but_io s (snd ?y)" using Suc.IH [OF refl] by auto
      have "read_status p (snd ?y) = (fst x, snd x)" using Suc.prems by (simp add: case_prod_unfold)
      from read_status_attached [OF y(1) _ this] assms(2) y(2)
      show ?case using same_but_io_trans [OF y(2)] by (auto simp: interface_same [OF y(2)])
    qed
    from step [OF that] show ?thesis by simp
  qed
  then show "v = drive_status (d\<lparr>busy := busy d - 4\<rparr>)" "attached base (d\<lparr>busy := busy d - 5\<rparr>) t" "same_but_io s t"
    using assms(3) by (simp_all add: read_status_5_def)
qed

subsection \<open>Transfers\<close>

lemma interface_outside:
  assumes "interface m p mst base" and "same_outside q n m m'" and "separate q n p 20"
  shows "interface m' p mst base"
proof -
  have "load16 m' (p + of_nat i) = load16 m (p + of_nat i)" if "i + 2 \<le> 20" for i
    using load16_same_outside [OF assms(2)] separate_sub [OF separate_sym [OF assms(3)] that] by (simp add: separate_sym)
  note l = this [of 2] this [of 4] this [of 6] this [of 8] this [of 10] this [of 12] this [of 14] this [of 16] this [of 18]
  have "m' p = m p" using assms(2,3) by (metis in_range_start separateD2 same_outsideD zero_less_numeral)
  then show ?thesis using assms(1) l
    by (simp add: interface_def data_port_def error_port_def sector_count_port_def lba_low_port_def lba_mid_port_def
        lba_hi_port_def device_port_def command_port_def control_port_def)
qed

lemma sector_bytes_simps [simp]: "sector_bytes [] = []" "sector_bytes (ws @ vs) = sector_bytes ws @ sector_bytes vs"
  "sector_bytes [w] = [ucast w, ucast (drop_bit 8 w)]"
  by (simp_all add: sector_bytes_def)

lemma length_sector_bytes [simp]: "length (sector_bytes ws) = 2 * length ws"
  by (induction ws) (simp_all add: sector_bytes_def)

lemma byte_of_word16: "ucast ((w :: u16) AND 0xFF) = (ucast w :: u8)" "ucast (drop_bit 8 (w :: u16) AND 0xFF) = (ucast (drop_bit 8 w) :: u8)"
proof -
  have m: "(0xFF :: u16) = mask 8" by (simp add: mask_eq_exp_minus_1)
  show "ucast (w AND 0xFF) = (ucast w :: u8)" "ucast (drop_bit 8 w AND 0xFF) = (ucast (drop_bit 8 w) :: u8)"
    unfolding m by (rule bit_word_eqI, auto simp: bit_simps)+
qed

lemma buffer_words_bytes: "sector_bytes (buffer_words m p n) = bytes_at m p (2 * n)"
proof (induction n)
  case (Suc n)
  have "ucast (load16 m a) = m a" "ucast (drop_bit 8 (load16 m a)) = m (a + 1)" for a
    unfolding load16_def by (rule bit_word_eqI, auto simp: bit_simps dest: bit_imp_le_length)+
  with Suc show ?case by (simp add: buffer_words_def bytes_at_snoc ac_simps)
qed (simp add: buffer_words_def)

text \<open>The state after reading \<open>n\<close> words of a sector: only memory and the trace have changed.\<close>

lemma read_words_attached:
  assumes "attached base d s" and "interface (ram s) p mst base" and "separate ret 512 p 20"
    and "mode d = Sending 0" and "length (sectors d (lba d)) = 256"
  shows "n \<le> 256 \<Longrightarrow> \<exists>h. fold (read_word p ret) [0..<n] s
      = s\<lparr>ram := write_bytes ret (sector_bytes (take n (sectors d (lba d)))) (ram s), io := h\<rparr>
    \<and> attached base (d\<lparr>mode := (if n = 256 then Idle else Sending n)\<rparr>) (fold (read_word p ret) [0..<n] s)"
proof (induction n)
  case 0
  have "d\<lparr>mode := Sending 0\<rparr> = d" using assms(4) by simp
  then show ?case using assms(1) by (intro exI [of _ "io s"]) simp
next
  case (Suc n)
  let ?ws = "sectors d (lba d)"
  let ?m = "write_bytes ret (sector_bytes (take n ?ws)) (ram s)"
  define t where "t = fold (read_word p ret) [0..<n] s"
  from Suc obtain h where h: "t = s\<lparr>ram := ?m, io := h\<rparr>" and a: "attached base (d\<lparr>mode := Sending n\<rparr>) t"
    by (auto simp: t_def)
  have n: "n < 256" using Suc.prems by simp
  have len: "length (sector_bytes (take n ?ws)) = 2 * n" using n assms(5) by simp
  have "same_outside ret 512 (ram s) ?m"
    by (rule same_outside_le [OF same_outside_write_bytes]) (use len n in simp_all)
  from interface_outside [OF assms(2) this assms(3)] have i: "data_port (ram t) p = base"
    using h by (simp add: interface_def)
  obtain v u where r: "read_port16 base t = (v, u)" by force
  note b = attached_read16 [OF a r]
  have v: "v = ?ws ! n" using b(1) by (simp add: drive_word_def lba_def)
  have d: "drive_step base (In16 base) (d\<lparr>mode := Sending n\<rparr>) = d\<lparr>mode := (if Suc n = 256 then Idle else Sending (Suc n))\<rparr>"
    by (simp add: drive_step_def)
  have tk: "take (Suc n) ?ws = take n ?ws @ [?ws ! n]" using n assms(5) by (simp add: take_Suc_conv_app_nth)
  have f: "fold (read_word p ret) [0..<Suc n] s = read_word p ret n t" by (simp add: t_def)
  have rw: "read_word p ret n t = u\<lparr>ram := (?m(ret + of_nat (2 * n) := ucast v))(ret + of_nat (2 * n + 1) := ucast (drop_bit 8 v))\<rparr>"
    using i r b(3) h by (simp add: read_word_def byte_of_word16 emit_def)
  also have "(?m(ret + of_nat (2 * n) := ucast v))(ret + of_nat (2 * n + 1) := ucast (drop_bit 8 v))
      = write_bytes ret (sector_bytes (take (Suc n) ?ws)) (ram s)"
    unfolding tk sector_bytes_simps write_bytes_app len v [symmetric] by (simp add: ac_simps)
  also have "u\<lparr>ram := write_bytes ret (sector_bytes (take (Suc n) ?ws)) (ram s)\<rparr>
      = s\<lparr>ram := write_bytes ret (sector_bytes (take (Suc n) ?ws)) (ram s), io := io u\<rparr>"
    using b(3) h by (simp add: emit_def)
  finally have e: "read_word p ret n t = s\<lparr>ram := write_bytes ret (sector_bytes (take (Suc n) ?ws)) (ram s), io := io u\<rparr>" .
  have "attached base (d\<lparr>mode := (if Suc n = 256 then Idle else Sending (Suc n))\<rparr>) (read_word p ret n t)"
    using b(2) unfolding d by (subst attached_frame [of _ u]) (simp_all add: rw)
  then show ?case using e f by auto
qed

lemma write_words_attached:
  assumes "attached base d s" and "interface (ram s) p mst base" and "mode d = Receiving []"
  shows "n \<le> 256 \<Longrightarrow> same_but_io s (fold (write_word p buf) [0..<n] s) \<and>
    attached base (if n = 256 then d\<lparr>sectors := (sectors d)(lba d := buffer_words (ram s) buf 256), mode := Idle, busy := latency d\<rparr>
      else d\<lparr>mode := Receiving (buffer_words (ram s) buf n)\<rparr>) (fold (write_word p buf) [0..<n] s)"
proof (induction n)
  case 0
  have "d\<lparr>mode := Receiving []\<rparr> = d" using assms(3) by simp
  then show ?case using assms(1) same_but_io_refl by (simp add: buffer_words_def)
next
  case (Suc n)
  define t where "t = fold (write_word p buf) [0..<n] s"
  have n: "n < 256" using Suc.prems by simp
  from Suc n have a: "same_but_io s t" "attached base (d\<lparr>mode := Receiving (buffer_words (ram s) buf n)\<rparr>) t" by (auto simp: t_def)
  let ?w = "load16 (ram s) (buf + of_nat (2 * n))"
  have w: "write_word p buf n t = port_write16 base ?w t"
    using assms(2) by (simp add: write_word_def same_but_ioD [OF a(1)] interface_def load16_def ac_simps)
  have s: "buffer_words (ram s) buf (Suc n) = buffer_words (ram s) buf n @ [?w]" by (simp add: buffer_words_def)
  have l: "length (buffer_words (ram s) buf n) = n" by (simp add: buffer_words_def)
  have "drive_step base (Out16 base ?w) (d\<lparr>mode := Receiving (buffer_words (ram s) buf n)\<rparr>) =
      (if Suc n = 256 then d\<lparr>sectors := (sectors d)(lba d := buffer_words (ram s) buf 256), mode := Idle, busy := latency d\<rparr>
       else d\<lparr>mode := Receiving (buffer_words (ram s) buf (Suc n))\<rparr>)"
    using s by (auto simp: drive_step_def l lba_def)
  then show ?case
    using attached_write16 [OF a(2), of base ?w] same_but_io_ports(2) [OF a(1)] w by (simp add: t_def [symmetric])
qed

subsection \<open>Reading and writing sectors\<close>

lemma select_status:
  assumes "attached base d s" and "ready d" and "interface (ram s) p mst base"
    and "read_status_5 p st (select_drive p sector s) = (v, t)"
  shows "v = 0x50" and "attached base (d\<lparr>device_reg := device_byte mst sector\<rparr>) t" and "same_but_io s t" and "interface (ram t) p mst base"
proof -
  note a = attached_select [OF assms(1,3), of sector]
  have i: "interface (ram (select_drive p sector s)) p mst base" using assms(3) a(2) by (simp add: interface_same)
  note b = read_status_5_attached [OF a(1) i assms(4)]
  have e: "(d\<lparr>device_reg := x\<rparr>)\<lparr>busy := busy (d\<lparr>device_reg := x\<rparr>) - 5\<rparr> = d\<lparr>device_reg := x\<rparr>" for x
    using assms(2) by (cases d) (simp add: ready_def)
  show "v = 0x50" using b(1) assms(2) by (simp add: drive_status_def ready_def)
  show "attached base (d\<lparr>device_reg := device_byte mst sector\<rparr>) t" using b(2) unfolding e .
  show st: "same_but_io s t" using same_but_io_trans [OF a(2) b(3)] .
  show "interface (ram t) p mst base" using assms(3) by (simp add: interface_same [OF st])
qed

lemma flush_idle: "mode d = Idle \<Longrightarrow> busy d = latency d \<Longrightarrow> drive_step base (Out8 (base + 7) 0xE7) d = d"
  by (cases d) (simp add: drive_step_def drive_command_def)

lemma write28_effect:
  assumes "attached base d s" and "ready d" and "slave d = (mst = 0)" and "interface (ram s) p mst base" and "sector \<le> 0x0FFFFFFF"
  shows "\<exists>s' d'. ATA_write28 p sector buf s = Some (0, s') \<and> same_but_io s s' \<and> hd (io s') = Sti \<and> attached base d' s' \<and> ready d'
    \<and> slave d' = slave d \<and> sectors d' = (sectors d)(sector := buffer_words (ram s) buf 256)"
proof -
  obtain v t where r: "read_status_5 p 0 (select_drive p sector (cli s)) = (v, t)" by force
  have ic: "interface (ram (cli s)) p mst base" using assms(4) by simp
  note a = select_status [OF attached_cli [OF assms(1)] assms(2) ic r]
  have st: "same_but_io s t" using same_but_io_trans [OF same_but_io_ports(3) [OF same_but_io_refl] a(3)] .
  let ?d = "drive_command 0x30 (addressed mst sector d)"
  have d: "?d = (addressed mst sector d)\<lparr>mode := Receiving [], busy := latency d\<rparr>"
    using assms(3) by (simp add: drive_command_def selected_addressed)
  note c = attached_command [OF a(2,4), of "0x30"]
  define u where "u = sector_command p sector 0x30 t"
  have su: "same_but_io s u" using same_but_io_trans [OF st c(2)] by (simp add: u_def)
  have iu: "interface (ram u) p mst base" using assms(4) by (simp add: interface_same [OF su])
  have "attached base ?d u" using c(1) by (simp add: u_def)
  from ATA_wait_data_attached [OF this iu, of v] a(1)
  obtain v1 t1 where w: "ATA_wait_data p v u = Some (v1, t1)" "v1 AND 0x01 = 0" "same_but_io u t1" "attached base (?d\<lparr>busy := 0\<rparr>) t1"
    by (auto simp: d)
  have s1: "same_but_io s t1" using same_but_io_trans [OF su w(3)] .
  have i1: "interface (ram t1) p mst base" using assms(4) by (simp add: interface_same [OF s1])
  define t2 where "t2 = fold (write_word p buf) [0..<256] t1"
  let ?d2 = "(?d\<lparr>busy := 0\<rparr>)\<lparr>sectors := (sectors d)(sector := buffer_words (ram s) buf 256), mode := Idle, busy := latency d\<rparr>"
  have l: "lba (?d\<lparr>busy := 0\<rparr>) = sector" using lba_addressed [OF assms(5), of mst d] by (simp add: d lba_def)
  have s2: "same_but_io s t2" "attached base ?d2 t2"
    using write_words_attached [OF w(4) i1, of 256 buf] same_but_io_trans [OF s1] l
    by (auto simp: t2_def d same_but_ioD [OF s1])
  have i2: "interface (ram t2) p mst base" using assms(4) by (simp add: interface_same [OF s2(1)])
  define t3 where "t3 = write_port (command_port (ram t2) p) 0xE7 t2"
  have s3: "same_but_io s t3" unfolding t3_def by (rule same_but_io_ports(1) [OF s2(1)])
  have i3: "interface (ram t3) p mst base" using assms(4) by (simp add: interface_same [OF s3])
  have "t3 = write_port (base + 7) 0xE7 t2" using i2 by (simp add: t3_def interface_def)
  then have a3: "attached base ?d2 t3"
    using attached_write [OF s2(2), of "base + 7" "0xE7"] flush_idle [of ?d2 base] by (simp add: d)
  obtain v4 t4 where r4: "read_status_5 p v1 t3 = (v4, t4)" by force
  note b = read_status_5_attached [OF a3 i3 r4]
  have s4: "same_but_io s t4" using same_but_io_trans [OF s3 b(3)] .
  have i4: "interface (ram t4) p mst base" using assms(4) by (simp add: interface_same [OF s4])
  have "?d2\<lparr>busy := busy ?d2 - 5\<rparr> = (?d2\<lparr>busy := busy ?d2 - 4\<rparr>)\<lparr>busy := busy (?d2\<lparr>busy := busy ?d2 - 4\<rparr>) - 1\<rparr>" by simp
  from ATA_wait_attached [OF b(2) i4 b(1) this]
  obtain v5 t5 where w5: "ATA_wait p v4 t4 = Some (v5, t5)" "same_but_io t4 t5" "attached base (?d2\<lparr>busy := 0\<rparr>) t5" by auto
  have "ATA_write28 p sector buf s = Some (0, sti t5)"
    using assms(5) r w r4 w5(1) a(1) status_bits(3) b(1)
    by (simp add: ATA_write28_def u_def [symmetric] t2_def [symmetric] t3_def [symmetric] Let_def)
  moreover have "same_but_io s (sti t5)" using same_but_io_ports(4) [OF same_but_io_trans [OF s4 w5(2)]] .
  ultimately show ?thesis using attached_sti [OF w5(3)]
    by (intro exI [of _ "sti t5"] exI [of _ "?d2\<lparr>busy := 0\<rparr>"]) (auto simp: ready_def d sti_def emit_def)
qed

lemma malloc_heap_io:
  assumes "same_but_io s t" and "kernel_mem s \<noteq> 0" and "k_heapLCABAlloc n (kernel_heap_state s, ram s) = Some (ret, h, m)"
  shows "malloc n t = Some (ret, t\<lparr>ram := m, kernel_heap_state := h\<rparr>)"
proof -
  obtain x where "t = s\<lparr>io := x\<rparr>" using assms(1) by (auto simp: same_but_io_def)
  then show ?thesis using assms(2,3) by (simp add: malloc_def heap_alloc_def)
qed

lemma read28_effect:
  fixes s :: "'a pmem_scheme"
  assumes "attached base d s" and "ready d" and "slave d = (mst = 0)" and "interface (ram s) p mst base" and "sector \<le> 0x0FFFFFFF"
    and "length (sectors d sector) = 256"
    and "kernel_mem s \<noteq> 0" and "k_heapLCABAlloc 512 (kernel_heap_state s, ram s) = Some (ret, h, m)"
    and "interface m p mst base" and "separate ret 512 p 20"
  shows "\<exists>s' d'. ATA_read28 p sector s = Some (ret, s') \<and> bytes_at (ram s') ret 512 = sector_bytes (sectors d sector)
    \<and> same_outside ret 512 m (ram s') \<and> attached base d' s' \<and> ready d' \<and> sectors d' = sectors d"
proof -
  obtain v t where r: "read_status_5 p 0 (select_drive p sector s) = (v, t)" by force
  note a = select_status [OF assms(1,2,4) r]
  let ?d = "drive_command 0x20 (addressed mst sector d)"
  have d: "?d = (addressed mst sector d)\<lparr>mode := Sending 0, busy := latency d\<rparr>"
    using assms(3) by (simp add: drive_command_def selected_addressed)
  note c = attached_command [OF a(2,4), of "0x20"]
  define u where "u = sector_command p sector 0x20 t"
  have su: "same_but_io s u" using same_but_io_trans [OF a(3) c(2)] by (simp add: u_def)
  have iu: "interface (ram u) p mst base" using assms(4) by (simp add: interface_same [OF su])
  have au: "attached base ?d u" using c(1) by (simp add: u_def)
  obtain v1 t1 where r1: "read_status p u = (v1, t1)" by force
  note b = read_status_attached [OF au iu r1]
  have s1: "same_but_io s t1" using same_but_io_trans [OF su b(3)] .
  have i1: "interface (ram t1) p mst base" using assms(4) by (simp add: interface_same [OF s1])
  from ATA_wait_attached [OF b(2) i1 b(1) refl]
  obtain v2 t2 where w: "ATA_wait p v1 t1 = Some (v2, t2)" "same_but_io t1 t2" "attached base (?d\<lparr>busy := busy ?d - 1, busy := 0\<rparr>) t2" by auto
  have s2: "same_but_io s t2" using same_but_io_trans [OF s1 w(2)] .
  let ?t3 = "t2\<lparr>ram := m, kernel_heap_state := h\<rparr>"
  let ?d3 = "(addressed mst sector d)\<lparr>mode := Sending 0, busy := 0\<rparr>"
  have m: "malloc 512 t2 = Some (ret, ?t3)" by (rule malloc_heap_io [OF s2 assms(7,8)])
  have a3: "attached base ?d3 ?t3" using w(3) d by (subst attached_frame [of _ t2]) simp_all
  have l: "lba ?d3 = sector" using lba_addressed [OF assms(5), of mst d] by (simp add: lba_def)
  have i3: "interface (ram ?t3) p mst base" using assms(9) by simp
  have z: "mode ?d3 = Sending 0" "length (sectors ?d3 (lba ?d3)) = 256" using assms(6) by (simp_all only: l) simp_all
  from read_words_attached [OF a3 i3 assms(10) z, of 256] z(2) l
  obtain h' where f: "fold (read_word p ret) [0..<256] ?t3 = ?t3\<lparr>ram := write_bytes ret (sector_bytes (sectors d sector)) m, io := h'\<rparr>"
    "attached base (?d3\<lparr>mode := Idle\<rparr>) (fold (read_word p ret) [0..<256] ?t3)"
    by auto
  have len: "length (sector_bytes (sectors d sector)) = 512" using assms(6) by simp
  have "ATA_read28 p sector s = Some (ret, fold (read_word p ret) [0..<256] ?t3)"
    using assms(5) r a(1) r1 w(1) m
    by (simp add: not_less [symmetric] ATA_read28_def u_def [symmetric] Let_def BYTES_PER_SECTOR_def del: upt_conv_Cons)
  moreover have "bytes_at (ram (fold (read_word p ret) [0..<256] ?t3)) ret 512 = sector_bytes (sectors d sector)"
    using bytes_at_write_bytes [of "sector_bytes (sectors d sector)" ret m] len by (simp add: f(1))
  moreover have "same_outside ret 512 m (ram (fold (read_word p ret) [0..<256] ?t3))"
    using same_outside_write_bytes [of "sector_bytes (sectors d sector)" ret m] len by (simp add: f(1))
  ultimately show ?thesis using f(2)
    by (intro exI [of _ "fold (read_word p ret) [0..<256] ?t3"] exI [of _ "?d3\<lparr>mode := Idle\<rparr>"]) (simp add: ready_def)
qed

subsection \<open>The kernel heap under the transfers\<close>

lemma interface_bytes:
  assumes "interface m p mst base" and "bytes_at m' p n = bytes_at m p n" and "20 \<le> n"
  shows "interface m' p mst base"
proof -
  have b: "m' (p + of_nat i) = m (p + of_nat i)" if "i < 20" for i
    using arg_cong [OF assms(2), of "\<lambda>bs. bs ! i"] that assms(3) by simp
  have "load16 m' (p + of_nat i) = load16 m (p + of_nat i)" if "i + 1 < 20" for i
    using b [of i] b [of "i + 1"] that by (simp add: load16_def ac_simps)
  note l = this [of 2] this [of 4] this [of 6] this [of 8] this [of 10] this [of 12] this [of 14] this [of 16] this [of 18]
  show ?thesis using assms(1) l b [of 0]
    by (simp add: interface_def data_port_def error_port_def sector_count_port_def lba_low_port_def lba_mid_port_def
        lba_hi_port_def device_port_def command_port_def control_port_def)
qed

subsection \<open>Properties\<close>


text \<open>A heap at \<open>0x1000\<close> whose first chunk holds an interface structure, and a machine with an empty drive that is busy for three
  reads of its status after each command.\<close>

definition demo_disk_ram :: memory where
  "demo_disk_ram = store32 0x1084 3960 (store32 0x1018 0x80000064 (store32 0x1000 0x1000
     (store16 0x102E 0x3F6 (store16 0x102C 0x1F7 (store16 0x102A 0x1F6 (store16 0x1028 0x1F5 (store16 0x1026 0x1F4 (store16 0x1024 0x1F3
     (store16 0x1022 0x1F2 (store16 0x1020 0x1F1 (store16 0x101E 0x1F0 ((\<lambda>_. 0)(0x101C := 1)))))))))))))"

definition demo_drive :: drive where
  "demo_drive = \<lparr>count_reg = 0, low_reg = 0, mid_reg = 0, high_reg = 0, device_reg = 0, mode = Idle, busy = 0, latency = 3,
     slave = False, sectors = \<lambda>_. replicate 256 0\<rparr>"

definition demo_disk :: pmem where
  "demo_disk = demo_empty\<lparr>ram := demo_disk_ram, io := [],
     dev8 := \<lambda>h p. if p = 0x1F7 then drive_status (foldr (drive_step 0x1F0) h demo_drive) else 0,
     dev16 := \<lambda>h p. if p = 0x1F0 then drive_word (foldr (drive_step 0x1F0) h demo_drive) else 0,
     kernel_mem := 0x800, kernel_heap_state := \<lparr>fblock = 0x1000, bcnt = 1, mem_in_use = 108, heap_size = 0x1000\<rparr>\<rparr>"

lemma demo_disk_heap: "heap_block demo_disk_ram 0x1000 [(True, 100), (False, 3960)]" "hb_next demo_disk_ram 0x1000 = 0"
  "has_room 0x1000 512 demo_disk_ram"
  by (simp_all add: heap_block_def has_room_def demo_disk_ram_def load32_def store32_def store16_def flag_word_def)

lemma demo_disk_interface: "interface demo_disk_ram 0x101C 1 0x1F0"
  by (simp add: demo_disk_ram_def interface_def data_port_def error_port_def sector_count_port_def lba_low_port_def lba_mid_port_def
        lba_hi_port_def device_port_def command_port_def control_port_def load16_def store32_def store16_def)

lemma demo_disk_facts:
  "attached 0x1F0 demo_drive demo_disk" "ready demo_drive" "slave demo_drive = False" "ram demo_disk = demo_disk_ram"
  "kernel_heap_state demo_disk = \<lparr>fblock = 0x1000, bcnt = 1, mem_in_use = 108, heap_size = 0x1000\<rparr>" "on_heap 0x101C 20 demo_disk"
proof -
  show "attached 0x1F0 demo_drive demo_disk" by (simp add: attached_def demo_disk_def)
  show "ready demo_drive" "slave demo_drive = False" by (simp_all add: demo_drive_def ready_def)
  show r: "ram demo_disk = demo_disk_ram" and
    k: "kernel_heap_state demo_disk = \<lparr>fblock = 0x1000, bcnt = 1, mem_in_use = 108, heap_size = 0x1000\<rparr>"
    by (simp_all add: demo_disk_def)
  have "kernel_mem demo_disk \<noteq> 0" by (simp add: demo_disk_def)
  then show "on_heap 0x101C 20 demo_disk"
    using demo_disk_heap(1,2) unfolding on_heap_def r k heap_ok_def heap_live_def
    by (intro conjI exI [of _ "bytes_at demo_disk_ram 0x101C 100"]) (auto intro!: exI [of _ "[(True, 100), (False, 3960)]"])
qed

lemma demo_disk_get: "\<exists>h m. heap_get 512 (kernel_heap_state demo_disk, ram demo_disk) = Some (0x1088, h, m)"
  using alloc_first_fit [OF demo_disk_heap(1) _ _ _, of "kernel_heap_state demo_disk" 512 116 _] demo_disk_heap(3)
  by (auto simp: heap_get_def demo_disk_facts(4,5) taken_def)


text \<open>\<open>newATA\<close> fills the structure in the memory \<open>malloc\<close> gave it with the port numbers of its base, and writes nothing else.\<close>

theorem newATA_interface:
  assumes "malloc 20 s = Some (p, t)"
  shows "\<exists>m. newATA mst base s = Some (p, t\<lparr>ram := m\<rparr>) \<and> interface m p mst base \<and> same_outside p 20 (ram t) m"
proof -
  obtain m where m: "newATA mst base s = Some (p, t\<lparr>ram := m\<rparr>)" and
    e: "m = store16 (p + 18) (base + 0x206) (store16 (p + 16) (base + 7) (store16 (p + 14) (base + 6) (store16 (p + 12) (base + 5)
      (store16 (p + 10) (base + 4) (store16 (p + 8) (base + 3) (store16 (p + 6) (base + 2) (store16 (p + 4) (base + 1)
      (store16 (p + 2) base ((ram t)(p := mst))))))))))"
    using assms by (simp add: newATA_def)
  have w: "load16 (store16 a v m) b = load16 m b" if "b - a \<noteq> 0" "b - a \<noteq> 1" "b - a \<noteq> - 1" for a b v m
    using that by (auto simp: load16_def store16_def algebra_simps eq_diff_eq)
  have i: "interface m p mst base"
    unfolding e interface_def data_port_def error_port_def sector_count_port_def lba_low_port_def lba_mid_port_def
        lba_hi_port_def device_port_def command_port_def control_port_def
    by (simp add: load16_store16 w) (simp add: store16_def add.assoc)
  have "same_outside p 20 (ram t) m"
  proof -
    have st: "same_outside p 20 m0 (store16 (p + of_nat k) v m1)" if "same_outside p 20 m0 m1" "k + 2 \<le> 20" for k v m0 m1
      using same_outside_trans [OF that(1) same_outside_mono [OF same_outside_store16 in_range_sub [OF _ that(2)]]] by simp
    have "same_outside p 20 (ram t) ((ram t)(p := mst))" by (rule same_outside_upd) simp_all
    from st [OF st [OF st [OF st [OF st [OF st [OF st [OF st [OF st [OF this, of 2], of 4], of 6], of 8], of 10], of 12], of 14], of 16], of 18]
    show ?thesis unfolding e by simp
  qed
  with m i show ?thesis by blast
qed

theorem newATA_interface_witness:
  "\<exists>s. newATA 1 0x1F0 demo_pmem = Some (0x100010, s) \<and> interface (ram s) 0x100010 1 0x1F0"
proof -
  obtain t where "malloc 20 demo_pmem = Some (0x100010, t)" using offset_malloc [of demo_pmem 20] demo_pmem_facts by auto
  from newATA_interface [OF this, of 1 "0x1F0"] show ?thesis by auto
qed

subsection \<open>Errors\<close>

text \<open>A command port that always reads the same value.\<close>

definition stuck :: "u16 \<Rightarrow> u8 \<Rightarrow> 'a machine_scheme \<Rightarrow> bool" where
  "stuck port v s \<longleftrightarrow> (\<forall>h. dev8 s h port = v)"

lemma read_status_stuck:
  assumes "stuck (command_port (ram s) p) c s"
  shows "read_status p s = (c, emit (In8 (command_port (ram s) p)) s)"
  using assms by (simp add: read_status_def read_port_def stuck_def)

lemma stuck_same: "same_but_io s t \<Longrightarrow> stuck port v t \<longleftrightarrow> stuck port v s"
  by (simp add: stuck_def same_but_ioD)

lemma five: "fold f [0..<5 :: nat] x = f 4 (f 3 (f 2 (f 1 (f 0 x))))"
  by (simp add: upt_rec numeral_eq_Suc)

lemma read_status_5_stuck:
  assumes "stuck (command_port (ram s) p) c s"
  shows "read_status_5 p st s = (c, s\<lparr>io := replicate 5 (In8 (command_port (ram s) p)) @ io s\<rparr>)"
proof -
  have "read_status p (s\<lparr>io := h\<rparr>) = (c, s\<lparr>io := In8 (command_port (ram s) p) # h\<rparr>)" for h
    using assms by (simp add: read_status_def read_port_def stuck_def emit_def)
  from this [of "io s"] this show ?thesis by (simp add: read_status_5_def five numeral_eq_Suc)
qed

text \<open>C39. With no drive behind the ports, where the bus floats and every read gives \<open>0xFF\<close>, \<open>ATA_identify\<close> reports failure,
  \<open>ATA_read28\<close> returns the null pointer, and \<open>ATA_write28\<close> returns 1 - but with interrupts still disabled.\<close>

theorem absent_disk:
  assumes "stuck (command_port (ram s) p) 0xFF s" and "sector \<le> 0x0FFFFFFF"
  shows "(\<exists>s'. ATA_identify p s = Some (1, s')) \<and> (\<exists>s'. ATA_read28 p sector s = Some (0, s'))
    \<and> (\<exists>s' h. ATA_write28 p sector buf s = Some (1, s') \<and> io s' = h @ Cli # io s \<and> Sti \<notin> set h)"
proof (intro conjI)
  have st: "stuck (command_port (ram t) p) 0xFF t" if "same_but_io s t" for t
    using assms(1) that by (simp add: stuck_same same_but_ioD)
  note sb = same_but_io_ports [OF same_but_io_refl]
  have i: "same_but_io s (write_port a x (write_port b y (write_port c z s)))" for a b c x y z
    by (intro same_but_io_ports same_but_io_refl)
  show "\<exists>s'. ATA_identify p s = Some (1, s')"
    using read_status_stuck [OF st [OF i]] by (simp add: ATA_identify_def Let_def)
  have sel: "same_but_io s (select_drive p sector s)" "same_but_io s (select_drive p sector (cli s))"
    by (simp_all add: select_drive_def same_but_io_ports same_but_io_refl)
  show "\<exists>s'. ATA_read28 p sector s = Some (0, s')"
    using read_status_5_stuck [OF st [OF sel(1)], of 0] by (simp add: ATA_read28_def Let_def)
  let ?t = "select_drive p sector (cli s)"
  have "ATA_write28 p sector buf s = Some (1, ?t\<lparr>io := replicate 5 (In8 (command_port (ram ?t) p)) @ io ?t\<rparr>)"
    using read_status_5_stuck [OF st [OF sel(2)], of 0] assms(2) by (simp add: ATA_write28_def Let_def not_less [symmetric])
  moreover obtain e where e: "io ?t = [e] @ Cli # io s" "e \<noteq> Sti" by (simp add: select_drive_def port_defs)
  ultimately show "\<exists>s' h. ATA_write28 p sector buf s = Some (1, s') \<and> io s' = h @ Cli # io s \<and> Sti \<notin> set h"
    by (intro exI [of _ "replicate 5 (In8 (command_port (ram ?t) p)) @ [e]"] exI conjI) (assumption, simp_all)
qed

theorem absent_disk_witness:
  "\<exists>s'. ATA_write28 0x101C 7 0x1000 (demo_disk\<lparr>dev8 := \<lambda>_ _. 0xFF\<rparr>) = Some (1, s') \<and> Sti \<notin> set (io s')"
  using absent_disk [of "demo_disk\<lparr>dev8 := \<lambda>_ _. 0xFF\<rparr>" "0x101C" 7 "0x1000"] by (auto simp: stuck_def demo_disk_def)

text \<open>The check of the error bits tests only bit 0, as \<open>0x01 || 0x20\<close> is 1: a drive that reports a device fault (bit 5) in
  every status, ready for data, still gets the sector's words, and \<open>ATA_write28\<close> returns 0 for success.\<close>

theorem write28_ignores_fault:
  assumes "stuck (command_port (ram s) p) 0x68 s" and "sector \<le> 0x0FFFFFFF"
  shows "\<exists>s'. ATA_write28 p sector buf s = Some (0, s') \<and> length (filter (\<lambda>e. \<exists>w. e = Out16 (data_port (ram s) p) w) (io s'))
    = 256 + length (filter (\<lambda>e. \<exists>w. e = Out16 (data_port (ram s) p) w) (io s))"
proof -
  let ?P = "\<lambda>e. \<exists>w. e = Out16 (data_port (ram s) p) w"
  let ?n = "\<lambda>t. length (filter ?P (io t))"
  have st: "stuck (command_port (ram t) p) 0x68 t" if "same_but_io s t" for t
    using assms(1) that by (simp add: stuck_same same_but_ioD)
  have loop: "same_but_io s (fold (write_word p buf) [0..<n] t) \<and> ?n (fold (write_word p buf) [0..<n] t) = n + ?n t" if "same_but_io s t" for n t
  proof (induction n)
    case (Suc n)
    define u where "u = fold (write_word p buf) [0..<n] t"
    have u: "same_but_io s u" "?n u = n + ?n t" using Suc by (simp_all add: u_def)
    have "same_but_io s (write_word p buf n u)" using same_but_io_ports(2) [OF u(1)] by (simp add: write_word_def)
    moreover have "?n (write_word p buf n u) = Suc (?n u)"
      using same_but_ioD(1) [OF u(1)] by (simp add: write_word_def port_write16_def emit_def)
    ultimately show ?case using u(2) by (simp add: u_def [symmetric])
  qed (use that in simp)
  define t0 where "t0 = select_drive p sector (cli s)"
  have t0: "same_but_io s t0" "?n t0 = ?n s"
    by (simp_all add: t0_def select_drive_def same_but_io_ports same_but_io_refl) (simp_all add: port_defs)
  define t1 where "t1 = t0\<lparr>io := replicate 5 (In8 (command_port (ram t0) p)) @ io t0\<rparr>"
  have r1: "read_status_5 p 0 t0 = (0x68, t1)" unfolding t1_def by (rule read_status_5_stuck [OF st [OF t0(1)]])
  have t1: "same_but_io s t1" "?n t1 = ?n s" using t0 by (auto simp: t1_def same_but_io_def)
  define t2 where "t2 = sector_command p sector 0x30 t1"
  have t2: "same_but_io s t2" "?n t2 = ?n s"
    using t1 by (auto simp: t2_def sector_command_def Let_def intro!: same_but_io_ports) (simp add: port_defs)
  have w2: "ATA_wait_data p 0x68 t2 = Some (0x68, t2)" by (subst ATA_wait_data.simps) simp
  define t3 where "t3 = fold (write_word p buf) [0..<256] t2"
  have t3: "same_but_io s t3" "?n t3 = 256 + ?n s" using loop [OF t2(1), of 256] t2(2) by (simp_all add: t3_def del: upt_conv_Cons)
  define t4 where "t4 = write_port (command_port (ram t3) p) 0xE7 t3"
  have t4: "same_but_io s t4" "?n t4 = 256 + ?n s" using t3 by (auto simp: t4_def intro!: same_but_io_ports) (simp add: port_defs)
  define t5 where "t5 = t4\<lparr>io := replicate 5 (In8 (command_port (ram t4) p)) @ io t4\<rparr>"
  have r5: "read_status_5 p 0x68 t4 = (0x68, t5)" unfolding t5_def by (rule read_status_5_stuck [OF st [OF t4(1)]])
  have w5: "ATA_wait p 0x68 t5 = Some (0x68, t5)" by (subst ATA_wait.simps) simp
  have "ATA_write28 p sector buf s = Some (0, sti t5)"
    using assms(2) r1 w2 r5 w5
    by (simp add: ATA_write28_def Let_def t0_def [symmetric] t2_def [symmetric] t3_def [symmetric] t4_def [symmetric] not_less [symmetric])
  moreover have "?n (sti t5) = 256 + ?n s" using t4(2) by (simp add: t5_def sti_def emit_def)
  ultimately show ?thesis by blast
qed

theorem write28_ignores_fault_witness:
  "\<exists>s'. ATA_write28 0x101C 7 0x1000 (demo_disk\<lparr>dev8 := \<lambda>_ _. 0x68\<rparr>) = Some (0, s')"
  using write28_ignores_fault [of "demo_disk\<lparr>dev8 := \<lambda>_ _. 0x68\<rparr>" "0x101C" 7 "0x1000"] by (auto simp: stuck_def)

end
