(* ===== verification/Kcall.thy ===== *)
theory Kcall
  imports FileSystem Interrupts
begin

text \<open>
  \<open>system/kernel_call.h\<close> and \<open>standard/owapi.h\<close>: the table of kernel functions programs can call by number, its dispatcher,
  and the wrappers programs call. A call ends in a \<open>kernel_result\<close>: the machine may be halted, or the call may not return.
\<close>

subsection \<open>The table\<close>

text \<open>The functions whose addresses are in the table.\<close>

datatype kernel_function =
    K_die | K_term_putchar | K_term_writestring | K_term_cls | K_kbd_get_string | K_today | K_get_mem | K_malloc
  | K_free | K_ls_initrd | K_cat_initrd | K_prompt | K_term_set_title | K_exec_initrd | K_kbd_get_char | K_get_ticks
  | K_read_initrd | K_draw | K_term_disable_scroll | K_term_enable_scroll | K_now | K_status_cls | K_sleep | K_kbd_current_char

definition CALLS :: u32 where "CALLS = 24"

definition syscalls :: "kernel_function list" where
  "syscalls =
     [K_die,
      K_term_putchar,
      K_term_writestring,
      K_term_cls,
      K_kbd_get_string,
      K_today,
      K_get_mem,
      K_malloc,
      K_free,
      K_ls_initrd,
      K_cat_initrd,
      K_prompt,
      K_term_set_title,
      K_exec_initrd,
      K_kbd_get_char,
      K_get_ticks,
      K_read_initrd,
      K_draw,
      K_term_disable_scroll,
      K_term_enable_scroll,
      K_now,
      K_status_cls,
      K_sleep,
      K_kbd_current_char]"

text \<open>
  What a called function leaves in the return register: nothing defined, a \<open>char\<close> (its low byte), a 32-bit value, or the
  address of the kernel's 64-bit tick counter. The functions have different types but are all called with three integers.
\<close>

datatype kernel_value = No_value | Char_value u8 | Word_value u32 | Ticks_address

text \<open>The interrupts still to come, which the waiting functions consume.\<close>

record kernel = ramdisk +
  interrupts_to_come :: "irq list"
  read_buffer :: u32
  master :: u32

type_synonym ('s, 'v) kcall = "u32 \<Rightarrow> u32 \<Rightarrow> u32 \<Rightarrow> u32 \<Rightarrow> 's \<Rightarrow> ('s, 'v) kernel_result"

text \<open>A loaded program is a function of its two arguments, as in \<open>exec_initrd\<close>.\<close>

type_synonym 's program = "u32 \<Rightarrow> u32 \<Rightarrow> 's \<Rightarrow> (u32 \<times> 's) option"

definition void :: "'s \<Rightarrow> ('s, kernel_value) kernel_result" where
  "void s = return No_value s"

definition word_result :: "(u32 \<times> 's) option \<Rightarrow> ('s, kernel_value) kernel_result" where
  "word_result r = kbind (lift_val r) (\<lambda>w. return (Word_value w))"

definition wait_for :: "('v \<Rightarrow> kernel_value) \<Rightarrow> ('v \<times> irq list \<times> 'a kernel_scheme) option \<Rightarrow> ('a kernel_scheme, kernel_value) kernel_result" where
  "wait_for val r = (case r of None \<Rightarrow> None | Some (v, is, s) \<Rightarrow> return (val v) (s\<lparr>interrupts_to_come := is\<rparr>))"

text \<open>The function at an address of the table called with three integers.\<close>

definition call_function :: "'a kernel_scheme program \<Rightarrow> u32 \<Rightarrow> kernel_function \<Rightarrow> u32 \<Rightarrow> u32 \<Rightarrow> u32 \<Rightarrow> 'a kernel_scheme
    \<Rightarrow> ('a kernel_scheme, kernel_value) kernel_result" where
  "call_function run stk f arg1 arg2 arg3 s =
     (case f of
        K_die \<Rightarrow> halt arg1 s
      | K_term_putchar \<Rightarrow> void (term_putchar (ucast arg1) s)
      | K_term_writestring \<Rightarrow> kbind (lift (term_writestring (Ptr arg1) s)) (\<lambda>_. void)
      | K_term_cls \<Rightarrow> void (term_cls s)
      | K_kbd_get_string \<Rightarrow> wait_for Word_value (kbd_get_string run_irq arg1 (interrupts_to_come s) s)
      | K_today \<Rightarrow> word_result (today s)
      | K_get_mem \<Rightarrow> kbind (lift (get_mem s)) (\<lambda>_. void)
      | K_malloc \<Rightarrow> word_result (malloc arg1 s)
      | K_free \<Rightarrow> kbind (lift (free stk arg1 s)) (\<lambda>_. void)
      | K_ls_initrd \<Rightarrow> kbind (lift (ls_initrd s)) (\<lambda>_. void)
      | K_cat_initrd \<Rightarrow> kbind (lift (cat_initrd stk arg1 s)) (\<lambda>_. void)
      | K_prompt \<Rightarrow> kbind (lift (prompt s)) (\<lambda>_. void)
      | K_term_set_title \<Rightarrow> kbind (lift (term_set_title (Ptr arg1) s)) (\<lambda>_. void)
      | K_exec_initrd \<Rightarrow> word_result (exec_initrd run arg1 arg2 arg3 s)
      | K_kbd_get_char \<Rightarrow> wait_for Char_value (kbd_get_char run_irq (interrupts_to_come s) s)
      | K_get_ticks \<Rightarrow> return Ticks_address s
      | K_read_initrd \<Rightarrow> word_result (read_initrd stk arg1 s)
      | K_draw \<Rightarrow> void (draw arg1 arg2 arg3 s)
      | K_term_disable_scroll \<Rightarrow> void (term_disable_scroll s)
      | K_term_enable_scroll \<Rightarrow> void (term_enable_scroll s)
      | K_now \<Rightarrow> (case now s of (w, s) \<Rightarrow> return (Word_value w) s)
      | K_status_cls \<Rightarrow> void (status_cls s)
      | K_sleep \<Rightarrow> wait_for (\<lambda>_. No_value)
          (map_option (\<lambda>(is, s). ((), is, s)) (sleep run_irq arg1 (interrupts_to_come s) s))
      | K_kbd_current_char \<Rightarrow> return (Char_value (kbd_current_char s)) s)"

definition kcall_handle :: "'a kernel_scheme program \<Rightarrow> u32 \<Rightarrow> ('a kernel_scheme, kernel_value) kcall" where
  "kcall_handle run stk call arg1 arg2 arg3 s =
     (if call \<ge> CALLS
      then kbind (lift (kprintf (text_line ''[Invalid syscall received: %u]'') [VaWord call] s)) (\<lambda>_. return (Word_value (- 1)))
      else call_function run stk (syscalls ! unat call) arg1 arg2 arg3 s)"

definition kernel_calls_init :: "u32 \<Rightarrow> 'a terminal_scheme \<Rightarrow> 'a terminal_scheme option" where
  "kernel_calls_init syscall s = do {
     s \<leftarrow> kprintf (text_line ''Syscall entrypoint: 0x%X'') [VaWord syscall] s;
     Some (irq_map_handler 0x99 syscall s) }"

subsection \<open>The wrappers of programs\<close>

definition CALL_DIE :: u32 where "CALL_DIE = 0"
definition CALL_PUTCHAR :: u32 where "CALL_PUTCHAR = 1"
definition CALL_WRITESTRING :: u32 where "CALL_WRITESTRING = 2"
definition CALL_CLS :: u32 where "CALL_CLS = 3"
definition CALL_KBD_GET_STRING :: u32 where "CALL_KBD_GET_STRING = 4"
definition CALL_PRINT_DATE :: u32 where "CALL_PRINT_DATE = 5"
definition CALL_MEM_INFO :: u32 where "CALL_MEM_INFO = 6"
definition CALL_MALLOC :: u32 where "CALL_MALLOC = 7"
definition CALL_FREE :: u32 where "CALL_FREE = 8"
definition CALL_LS_INITRD :: u32 where "CALL_LS_INITRD = 9"
definition CALL_CAT_INITRD :: u32 where "CALL_CAT_INITRD = 10"
definition CALL_PROMPT :: u32 where "CALL_PROMPT = 11"
definition CALL_TERM_SET_TITLE :: u32 where "CALL_TERM_SET_TITLE = 12"
definition CALL_EXEC_INITRD :: u32 where "CALL_EXEC_INITRD = 13"
definition CALL_GET_CHAR :: u32 where "CALL_GET_CHAR = 14"
definition CALL_GET_TICKS :: u32 where "CALL_GET_TICKS = 15"
definition CALL_READ_INITRD :: u32 where "CALL_READ_INITRD = 16"
definition CALL_DRAW :: u32 where "CALL_DRAW = 17"
definition CALL_DISABLE_SCROLL :: u32 where "CALL_DISABLE_SCROLL = 18"
definition CALL_ENABLE_SCROLL :: u32 where "CALL_ENABLE_SCROLL = 19"
definition CALL_NOW :: u32 where "CALL_NOW = 20"
definition CALL_STATUS_CLS :: u32 where "CALL_STATUS_CLS = 21"
definition CALL_SLEEP :: u32 where "CALL_SLEEP = 22"
definition CALL_KBD_CURRENT_CHAR :: u32 where "CALL_KBD_CURRENT_CHAR = 23"

text \<open>
  The code at \<open>CALL_BASE\<close> is an argument \<open>sys\<close> of the wrappers: the assembler entry, which passes its four arguments on to
  \<open>kcall_handle\<close>. A wrapper that returns a value reads the register; it has no result when the function called left nothing in it.
\<close>

definition owmice_call0 :: "('s, 'v) kcall \<Rightarrow> u32 \<Rightarrow> 's \<Rightarrow> ('s, 'v) kernel_result" where
  "owmice_call0 sys call = sys call 0 0 0"

definition owmice_call1 :: "('s, 'v) kcall \<Rightarrow> u32 \<Rightarrow> u32 \<Rightarrow> 's \<Rightarrow> ('s, 'v) kernel_result" where
  "owmice_call1 sys call arg1 = sys call arg1 0 0"

definition owmice_call2 :: "('s, 'v) kcall \<Rightarrow> u32 \<Rightarrow> u32 \<Rightarrow> u32 \<Rightarrow> 's \<Rightarrow> ('s, 'v) kernel_result" where
  "owmice_call2 sys call arg1 arg2 = sys call arg1 arg2 0"

definition owmice_call3 :: "('s, 'v) kcall \<Rightarrow> u32 \<Rightarrow> u32 \<Rightarrow> u32 \<Rightarrow> u32 \<Rightarrow> 's \<Rightarrow> ('s, 'v) kernel_result" where
  "owmice_call3 sys call arg1 arg2 arg3 = sys call arg1 arg2 arg3"

definition ignored :: "('s, kernel_value) kernel_result \<Rightarrow> ('s, unit) kernel_result" where
  "ignored r = kbind r (\<lambda>_. return ())"

definition as_word :: "('s, kernel_value) kernel_result \<Rightarrow> ('s, u32) kernel_result" where
  "as_word r = kbind r (\<lambda>v s. case v of Word_value w \<Rightarrow> return w s | _ \<Rightarrow> None)"

definition as_char :: "('s, kernel_value) kernel_result \<Rightarrow> ('s, u8) kernel_result" where
  "as_char r = kbind r (\<lambda>v s. case v of Char_value c \<Rightarrow> return c s | Word_value w \<Rightarrow> return (ucast w) s | _ \<Rightarrow> None)"

definition owmice_die :: "('s, kernel_value) kcall \<Rightarrow> u32 \<Rightarrow> 's \<Rightarrow> ('s, unit) kernel_result" where
  "owmice_die sys status s = ignored (owmice_call1 sys CALL_DIE status s)"

definition owmice_putchar :: "('s, kernel_value) kcall \<Rightarrow> u32 \<Rightarrow> 's \<Rightarrow> ('s, unit) kernel_result" where
  "owmice_putchar sys chr s = ignored (owmice_call1 sys CALL_PUTCHAR chr s)"

definition owmice_writestring :: "('s, kernel_value) kcall \<Rightarrow> u32 \<Rightarrow> 's \<Rightarrow> ('s, unit) kernel_result" where
  "owmice_writestring sys str_ptr s = ignored (owmice_call1 sys CALL_WRITESTRING str_ptr s)"

definition owmice_cls :: "('s, kernel_value) kcall \<Rightarrow> 's \<Rightarrow> ('s, unit) kernel_result" where
  "owmice_cls sys s = ignored (owmice_call0 sys CALL_CLS s)"

definition owmice_kbd_get_string :: "('s, kernel_value) kcall \<Rightarrow> u32 \<Rightarrow> 's \<Rightarrow> ('s, unit) kernel_result" where
  "owmice_kbd_get_string sys buf s = ignored (owmice_call1 sys CALL_KBD_GET_STRING buf s)"

definition owmice_print_date :: "('s, kernel_value) kcall \<Rightarrow> 's \<Rightarrow> ('s, unit) kernel_result" where
  "owmice_print_date sys s = ignored (owmice_call0 sys CALL_PRINT_DATE s)"

definition owmice_print_meminfo :: "('s, kernel_value) kcall \<Rightarrow> 's \<Rightarrow> ('s, unit) kernel_result" where
  "owmice_print_meminfo sys s = ignored (owmice_call0 sys CALL_MEM_INFO s)"

definition owmice_malloc :: "('s, kernel_value) kcall \<Rightarrow> u32 \<Rightarrow> 's \<Rightarrow> ('s, u32) kernel_result" where
  "owmice_malloc sys sz s = as_word (owmice_call1 sys CALL_MALLOC sz s)"

definition owmice_free :: "('s, kernel_value) kcall \<Rightarrow> u32 \<Rightarrow> 's \<Rightarrow> ('s, unit) kernel_result" where
  "owmice_free sys addr s = ignored (owmice_call1 sys CALL_FREE addr s)"

definition owmice_ls_initrd :: "('s, kernel_value) kcall \<Rightarrow> 's \<Rightarrow> ('s, unit) kernel_result" where
  "owmice_ls_initrd sys s = ignored (owmice_call0 sys CALL_LS_INITRD s)"

definition owmice_cat_initrd :: "('s, kernel_value) kcall \<Rightarrow> u32 \<Rightarrow> 's \<Rightarrow> ('s, unit) kernel_result" where
  "owmice_cat_initrd sys fname s = ignored (owmice_call1 sys CALL_CAT_INITRD fname s)"

definition owmice_prompt :: "('s, kernel_value) kcall \<Rightarrow> 's \<Rightarrow> ('s, unit) kernel_result" where
  "owmice_prompt sys s = ignored (owmice_call0 sys CALL_PROMPT s)"

definition owmice_set_title :: "('s, kernel_value) kcall \<Rightarrow> u32 \<Rightarrow> 's \<Rightarrow> ('s, unit) kernel_result" where
  "owmice_set_title sys str s = ignored (owmice_call1 sys CALL_TERM_SET_TITLE str s)"

definition owmice_exec_initrd :: "('s, kernel_value) kcall \<Rightarrow> u32 \<Rightarrow> u32 \<Rightarrow> u32 \<Rightarrow> 's \<Rightarrow> ('s, u32) kernel_result" where
  "owmice_exec_initrd sys fname arg1 arg2 s = as_word (owmice_call3 sys CALL_EXEC_INITRD fname arg1 arg2 s)"

definition owmice_get_char :: "('s, kernel_value) kcall \<Rightarrow> 's \<Rightarrow> ('s, u8) kernel_result" where
  "owmice_get_char sys s = as_char (owmice_call0 sys CALL_GET_CHAR s)"

definition owmice_get_ticks :: "('a kernel_scheme, kernel_value) kcall \<Rightarrow> 'a kernel_scheme \<Rightarrow> ('a kernel_scheme, u64) kernel_result" where
  "owmice_get_ticks sys s = kbind (owmice_call0 sys CALL_GET_TICKS s)
     (\<lambda>v s. case v of Ticks_address \<Rightarrow> return (get_ticks s) s | _ \<Rightarrow> None)"

definition owmice_read_initrd :: "('s, kernel_value) kcall \<Rightarrow> u32 \<Rightarrow> 's \<Rightarrow> ('s, u32) kernel_result" where
  "owmice_read_initrd sys fname s = as_word (owmice_call1 sys CALL_READ_INITRD fname s)"

definition owmice_draw :: "('s, kernel_value) kcall \<Rightarrow> u32 \<Rightarrow> u32 \<Rightarrow> u8 \<Rightarrow> 's \<Rightarrow> ('s, unit) kernel_result" where
  "owmice_draw sys x y color s = ignored (owmice_call3 sys CALL_DRAW x y (ucast color) s)"

definition owmice_disable_scroll :: "('s, kernel_value) kcall \<Rightarrow> 's \<Rightarrow> ('s, unit) kernel_result" where
  "owmice_disable_scroll sys s = ignored (owmice_call0 sys CALL_DISABLE_SCROLL s)"

definition owmice_enable_scroll :: "('s, kernel_value) kcall \<Rightarrow> 's \<Rightarrow> ('s, unit) kernel_result" where
  "owmice_enable_scroll sys s = ignored (owmice_call0 sys CALL_ENABLE_SCROLL s)"

definition owmice_now :: "('s, kernel_value) kcall \<Rightarrow> 's \<Rightarrow> ('s, u32) kernel_result" where
  "owmice_now sys s = as_word (owmice_call0 sys CALL_NOW s)"

definition owmice_status_cls :: "('s, kernel_value) kcall \<Rightarrow> 's \<Rightarrow> ('s, unit) kernel_result" where
  "owmice_status_cls sys s = ignored (owmice_call0 sys CALL_STATUS_CLS s)"

definition owmice_sleep :: "('s, kernel_value) kcall \<Rightarrow> u32 \<Rightarrow> 's \<Rightarrow> ('s, unit) kernel_result" where
  "owmice_sleep sys msec s = ignored (owmice_call1 sys CALL_SLEEP msec s)"

definition owmice_kbd_current_char :: "('s, kernel_value) kcall \<Rightarrow> 's \<Rightarrow> ('s, u8) kernel_result" where
  "owmice_kbd_current_char sys s = as_char (owmice_call0 sys CALL_KBD_CURRENT_CHAR s)"

subsection \<open>Facts\<close>

lemma nth_syscalls:
  "syscalls ! 0 = K_die" "syscalls ! 1 = K_term_putchar" "syscalls ! 2 = K_term_writestring" "syscalls ! 3 = K_term_cls"
  "syscalls ! 4 = K_kbd_get_string" "syscalls ! 5 = K_today" "syscalls ! 6 = K_get_mem" "syscalls ! 7 = K_malloc"
  "syscalls ! 8 = K_free" "syscalls ! 9 = K_ls_initrd" "syscalls ! 10 = K_cat_initrd" "syscalls ! 11 = K_prompt"
  "syscalls ! 12 = K_term_set_title" "syscalls ! 13 = K_exec_initrd" "syscalls ! 14 = K_kbd_get_char" "syscalls ! 15 = K_get_ticks"
  "syscalls ! 16 = K_read_initrd" "syscalls ! 17 = K_draw" "syscalls ! 18 = K_term_disable_scroll" "syscalls ! 19 = K_term_enable_scroll"
  "syscalls ! 20 = K_now" "syscalls ! 21 = K_status_cls" "syscalls ! 22 = K_sleep" "syscalls ! 23 = K_kbd_current_char"
  by (simp_all add: syscalls_def)

lemmas call_numbers = CALL_DIE_def CALL_PUTCHAR_def CALL_WRITESTRING_def CALL_CLS_def CALL_KBD_GET_STRING_def CALL_PRINT_DATE_def
  CALL_MEM_INFO_def CALL_MALLOC_def CALL_FREE_def CALL_LS_INITRD_def CALL_CAT_INITRD_def CALL_PROMPT_def CALL_TERM_SET_TITLE_def
  CALL_EXEC_INITRD_def CALL_GET_CHAR_def CALL_GET_TICKS_def CALL_READ_INITRD_def CALL_DRAW_def CALL_DISABLE_SCROLL_def
  CALL_ENABLE_SCROLL_def CALL_NOW_def CALL_STATUS_CLS_def CALL_SLEEP_def CALL_KBD_CURRENT_CHAR_def

lemmas owmice_calls = owmice_call0_def owmice_call1_def owmice_call2_def owmice_call3_def

lemma kbind_assoc: "kbind (kbind r f) g = kbind r (\<lambda>v s. kbind (f v s) g)"
  by (auto simp: kbind_def split: option.splits sum.splits)

lemma kbind_return [simp]: "kbind r (\<lambda>v. return v) = r"
  by (auto simp: kbind_def return_def split: option.splits sum.splits)

lemma kbind_unit [simp]: "kbind r (\<lambda>_. return ()) = r" for r :: "('s, unit) kernel_result"
  by (auto simp: kbind_def return_def split: option.splits sum.splits)

lemma kbind_word: "kbind (return v s) f = f v s"
  by simp

lemma ignored_simps [simp]: "ignored None = None" "ignored (void s) = return () s" "ignored (return v s) = return () s"
  "ignored (kbind (lift r) (\<lambda>_. void)) = lift r" "ignored (word_result q) = lift (map_option snd q)"
  by (auto simp: ignored_def void_def word_result_def kbind_def lift_def lift_val_def return_def split: option.splits)

lemma halt_cases: "halt x s = None \<or> (\<exists>t. halt x s = Some (Inl t))"
  by (cases "die (cpu_regs s) (cr3 s) x s") (auto simp: halt_def)

lemma ignored_halt [simp]: "ignored (halt x s) = halt x s"
  by (cases "die (cpu_regs s) (cr3 s) x s") (simp_all add: ignored_def halt_def)

lemma as_word_simps [simp]: "as_word (word_result q) = lift_val q" "as_word (return (Word_value w) s) = return w s"
  by (auto simp: as_word_def word_result_def kbind_def lift_val_def return_def split: option.splits)

lemma kcall_number:
  "n < 24 \<Longrightarrow> kcall_handle run stk (of_nat n) a b c s = call_function run stk (syscalls ! n) a b c s"
  by (simp add: kcall_handle_def CALLS_def word_le_nat_alt del: of_nat_numeral)

lemma call_by_number:
  "kcall_handle run stk CALL_DIE = call_function run stk K_die"
  "kcall_handle run stk CALL_PUTCHAR = call_function run stk K_term_putchar"
  "kcall_handle run stk CALL_WRITESTRING = call_function run stk K_term_writestring"
  "kcall_handle run stk CALL_CLS = call_function run stk K_term_cls"
  "kcall_handle run stk CALL_KBD_GET_STRING = call_function run stk K_kbd_get_string"
  "kcall_handle run stk CALL_PRINT_DATE = call_function run stk K_today"
  "kcall_handle run stk CALL_MEM_INFO = call_function run stk K_get_mem"
  "kcall_handle run stk CALL_MALLOC = call_function run stk K_malloc"
  "kcall_handle run stk CALL_FREE = call_function run stk K_free"
  "kcall_handle run stk CALL_LS_INITRD = call_function run stk K_ls_initrd"
  "kcall_handle run stk CALL_CAT_INITRD = call_function run stk K_cat_initrd"
  "kcall_handle run stk CALL_PROMPT = call_function run stk K_prompt"
  "kcall_handle run stk CALL_TERM_SET_TITLE = call_function run stk K_term_set_title"
  "kcall_handle run stk CALL_EXEC_INITRD = call_function run stk K_exec_initrd"
  "kcall_handle run stk CALL_GET_CHAR = call_function run stk K_kbd_get_char"
  "kcall_handle run stk CALL_GET_TICKS = call_function run stk K_get_ticks"
  "kcall_handle run stk CALL_READ_INITRD = call_function run stk K_read_initrd"
  "kcall_handle run stk CALL_DRAW = call_function run stk K_draw"
  "kcall_handle run stk CALL_DISABLE_SCROLL = call_function run stk K_term_disable_scroll"
  "kcall_handle run stk CALL_ENABLE_SCROLL = call_function run stk K_term_enable_scroll"
  "kcall_handle run stk CALL_NOW = call_function run stk K_now"
  "kcall_handle run stk CALL_STATUS_CLS = call_function run stk K_status_cls"
  "kcall_handle run stk CALL_SLEEP = call_function run stk K_sleep"
  "kcall_handle run stk CALL_KBD_CURRENT_CHAR = call_function run stk K_kbd_current_char"
  by (simp_all add: fun_eq_iff kcall_handle_def CALLS_def call_numbers syscalls_def word_le_nat_alt)

lemmas wrapper_defs = owmice_die_def owmice_putchar_def owmice_writestring_def owmice_cls_def owmice_kbd_get_string_def owmice_print_date_def
  owmice_print_meminfo_def owmice_malloc_def owmice_free_def owmice_ls_initrd_def owmice_cat_initrd_def owmice_prompt_def
  owmice_set_title_def owmice_exec_initrd_def owmice_get_char_def owmice_get_ticks_def owmice_read_initrd_def
  owmice_draw_def owmice_disable_scroll_def owmice_enable_scroll_def owmice_now_def owmice_status_cls_def owmice_sleep_def
  owmice_kbd_current_char_def

lemma wrapper_calls:
  "owmice_die (kcall_handle run stk) w s = halt w s"
  "owmice_putchar (kcall_handle run stk) w s = return () (term_putchar (ucast w) s)"
  "owmice_writestring (kcall_handle run stk) p s = lift (term_writestring (Ptr p) s)"
  "owmice_cls (kcall_handle run stk) s = return () (term_cls s)"
  "owmice_kbd_get_string (kcall_handle run stk) p s = (case kbd_get_string run_irq p (interrupts_to_come s) s of
      None \<Rightarrow> None | Some (_, is, t) \<Rightarrow> return () (t\<lparr>interrupts_to_come := is\<rparr>))"
  "owmice_print_date (kcall_handle run stk) s = lift (map_option snd (today s))"
  "owmice_print_meminfo (kcall_handle run stk) s = lift (get_mem s)"
  "owmice_malloc (kcall_handle run stk) w s = lift_val (malloc w s)"
  "owmice_free (kcall_handle run stk) p s = lift (free stk p s)"
  "owmice_ls_initrd (kcall_handle run stk) s = lift (ls_initrd s)"
  "owmice_cat_initrd (kcall_handle run stk) p s = lift (cat_initrd stk p s)"
  "owmice_prompt (kcall_handle run stk) s = lift (prompt s)"
  "owmice_set_title (kcall_handle run stk) p s = lift (term_set_title (Ptr p) s)"
  "owmice_exec_initrd (kcall_handle run stk) p w v s = lift_val (exec_initrd run p w v s)"
  "owmice_get_char (kcall_handle run stk) s = (case kbd_get_char run_irq (interrupts_to_come s) s of
      None \<Rightarrow> None | Some (c, is, t) \<Rightarrow> return c (t\<lparr>interrupts_to_come := is\<rparr>))"
  "owmice_get_ticks (kcall_handle run stk) s = return (kticks s) s"
  "owmice_read_initrd (kcall_handle run stk) p s = lift_val (read_initrd stk p s)"
  "owmice_draw (kcall_handle run stk) w v color s = return () (draw w v (ucast color) s)"
  "owmice_disable_scroll (kcall_handle run stk) s = return () (term_disable_scroll s)"
  "owmice_enable_scroll (kcall_handle run stk) s = return () (term_enable_scroll s)"
  "owmice_now (kcall_handle run stk) s = (case now s of (w, t) \<Rightarrow> return w t)"
  "owmice_status_cls (kcall_handle run stk) s = return () (status_cls s)"
  "owmice_sleep (kcall_handle run stk) w s = (case sleep run_irq w (interrupts_to_come s) s of
      None \<Rightarrow> None | Some (is, t) \<Rightarrow> return () (t\<lparr>interrupts_to_come := is\<rparr>))"
  "owmice_kbd_current_char (kcall_handle run stk) s = return (kbd_current_char s) s"
  by (simp_all add: wrapper_defs owmice_calls call_by_number call_function_def wait_for_def get_ticks_def as_char_def
      split: option.splits prod.splits)

subsection \<open>Properties\<close>

text \<open>C13. Through the dispatcher every wrapper of \<open>owapi.h\<close> is the kernel function it is named after: the numbers, the order
  of the table and the argument and result conventions fit together.\<close>

theorem wrappers_are_kernel_functions:
  "owmice_die (kcall_handle run stk) w s = halt w s
    \<and> owmice_putchar (kcall_handle run stk) w s = return () (term_putchar (ucast w) s)
    \<and> owmice_writestring (kcall_handle run stk) p s = lift (term_writestring (Ptr p) s)
    \<and> owmice_cls (kcall_handle run stk) s = return () (term_cls s)
    \<and> owmice_kbd_get_string (kcall_handle run stk) p s = (case kbd_get_string run_irq p (interrupts_to_come s) s of
      None \<Rightarrow> None | Some (_, is, t) \<Rightarrow> return () (t\<lparr>interrupts_to_come := is\<rparr>))
    \<and> owmice_print_date (kcall_handle run stk) s = lift (map_option snd (today s))
    \<and> owmice_print_meminfo (kcall_handle run stk) s = lift (get_mem s)
    \<and> owmice_malloc (kcall_handle run stk) w s = lift_val (malloc w s)
    \<and> owmice_free (kcall_handle run stk) p s = lift (free stk p s)
    \<and> owmice_ls_initrd (kcall_handle run stk) s = lift (ls_initrd s)
    \<and> owmice_cat_initrd (kcall_handle run stk) p s = lift (cat_initrd stk p s)
    \<and> owmice_prompt (kcall_handle run stk) s = lift (prompt s)
    \<and> owmice_set_title (kcall_handle run stk) p s = lift (term_set_title (Ptr p) s)
    \<and> owmice_exec_initrd (kcall_handle run stk) p w v s = lift_val (exec_initrd run p w v s)
    \<and> owmice_get_char (kcall_handle run stk) s = (case kbd_get_char run_irq (interrupts_to_come s) s of
      None \<Rightarrow> None | Some (c, is, t) \<Rightarrow> return c (t\<lparr>interrupts_to_come := is\<rparr>))
    \<and> owmice_get_ticks (kcall_handle run stk) s = return (kticks s) s
    \<and> owmice_read_initrd (kcall_handle run stk) p s = lift_val (read_initrd stk p s)
    \<and> owmice_draw (kcall_handle run stk) w v color s = return () (draw w v (ucast color) s)
    \<and> owmice_disable_scroll (kcall_handle run stk) s = return () (term_disable_scroll s)
    \<and> owmice_enable_scroll (kcall_handle run stk) s = return () (term_enable_scroll s)
    \<and> owmice_now (kcall_handle run stk) s = (case now s of (w, t) \<Rightarrow> return w t)
    \<and> owmice_status_cls (kcall_handle run stk) s = return () (status_cls s)
    \<and> owmice_sleep (kcall_handle run stk) w s = (case sleep run_irq w (interrupts_to_come s) s of
      None \<Rightarrow> None | Some (is, t) \<Rightarrow> return () (t\<lparr>interrupts_to_come := is\<rparr>))
    \<and> owmice_kbd_current_char (kcall_handle run stk) s = return (kbd_current_char s) s"
  by (simp only: wrapper_calls simp_thms)

text \<open>The declared result of each kernel function of the table.\<close>

fun result_of :: "kernel_function \<Rightarrow> kernel_value \<Rightarrow> bool" where
  "result_of f No_value \<longleftrightarrow> f \<in> {K_term_putchar, K_term_writestring, K_term_cls, K_get_mem, K_free, K_ls_initrd, K_cat_initrd, K_prompt,
     K_term_set_title, K_draw, K_term_disable_scroll, K_term_enable_scroll, K_status_cls, K_sleep}"
| "result_of f (Char_value c) \<longleftrightarrow> f \<in> {K_kbd_get_char, K_kbd_current_char}"
| "result_of f (Word_value w) \<longleftrightarrow> f \<in> {K_kbd_get_string, K_today, K_malloc, K_exec_initrd, K_read_initrd, K_now}"
| "result_of f Ticks_address \<longleftrightarrow> f = K_get_ticks"

lemma void_Inr: "void s = Some (Inr (v, t)) \<longleftrightarrow> v = No_value \<and> t = s"
  by (auto simp: void_def return_def)

lemma halt_Inr: "halt x s \<noteq> Some (Inr q)"
  by (auto simp: halt_def)

lemma word_result_Inr: "word_result r = Some (Inr (v, t)) \<Longrightarrow> \<exists>w. v = Word_value w"
  by (auto simp: word_result_def kbind_def lift_val_def return_def split: option.splits)

lemma wait_for_Inr: "wait_for val r = Some (Inr (v, t)) \<Longrightarrow> \<exists>x. v = val x"
  by (auto simp: wait_for_def return_def split: option.splits)

lemma lift_void_Inr: "kbind (lift r) (\<lambda>_. void) = Some (Inr (v, t)) \<Longrightarrow> v = No_value"
  by (auto simp: kbind_def lift_def void_def return_def split: option.splits)

text \<open>The state after booting from a ram disk, for the witnesses.\<close>

definition demo_kernel :: kernel where
  "demo_kernel = ramdisk.extend demo_boot \<lparr>interrupts_to_come = [], read_buffer = 0, master = 0\<rparr>"



text \<open>A number outside the table is refused with a message and the result -1: nothing but the terminal's state changes.\<close>

theorem invalid_call_rejected:
  assumes "call \<ge> 24"
  shows "kcall_handle run stk call a b c s = return (Word_value (- 1))
      (fold term_putchar (bytes ''[Invalid syscall received: '' @ num_chars 10 nums_decimal (unat call) @ text_line '']'') s)"
proof -
  have "render (text_line ''[Invalid syscall received: %u]'') (map plain_meaning [VaWord call])
      = Some (bytes ''[Invalid syscall received: '' @ num_chars 10 nums_decimal (unat call) @ text_line '']'')"
    by (simp add: bytes_def text_line_def)
  from kprintf_plain [OF this, of s] show ?thesis using assms by (simp add: kcall_handle_def CALLS_def)
qed

theorem invalid_call_rejected_witness:
  "kcall_handle (\<lambda>_ _ _. None) 0 24 1 2 3 demo_kernel = return (Word_value (- 1))
      (fold term_putchar (bytes ''[Invalid syscall received: '' @ num_chars 10 nums_decimal 24 @ text_line '']'') demo_kernel)"
  using invalid_call_rejected [of 24 "\<lambda>_ _ _. None" 0 1 2 3 demo_kernel] by simp

end
