(* ===== verification/Programs.thy ===== *)
theory Programs
  imports Kcall Tokens
begin

text \<open>
  \<open>programs\<close>: the shell \<open>owshell.c\<close> and the other C programs of the ram disk. They run on the kernel's memory and reach the
  kernel through the wrappers of \<open>owapi.h\<close> only, so the code at \<open>CALL_BASE\<close> is an argument \<open>sys\<close> of each of them. String literals
  and globals of a program are at addresses that are fields of its state or arguments.
\<close>

subsection \<open>Standard output of a program\<close>

text \<open>\<open>ft_putchar\<close> of \<open>stdio.h\<close>: a call that does not return leaves nothing to go on with, and the state stands still.\<close>

definition ft_putchar :: "('s, kernel_value) kcall \<Rightarrow> u8 \<Rightarrow> 's \<Rightarrow> 's" where
  "ft_putchar sys c s = (case owmice_putchar sys (scast c) s of Some (Inr (_, s)) \<Rightarrow> s | _ \<Rightarrow> s)"

definition user_printf :: "('a machine_scheme, kernel_value) kcall \<Rightarrow> u8 list \<Rightarrow> va list \<Rightarrow> 'a machine_scheme
    \<Rightarrow> ('a machine_scheme, unit) kernel_result" where
  "user_printf sys fmt args s = lift (map_option snd (printf (ft_putchar sys) fmt args s))"

text \<open>A string routine on the program's memory.\<close>

definition on_ram :: "(memory \<Rightarrow> memory option) \<Rightarrow> 'a machine_scheme \<Rightarrow> ('a machine_scheme, unit) kernel_result" where
  "on_ram f s = lift (map_option (\<lambda>m. s\<lparr>ram := m\<rparr>) (f (ram s)))"

subsection \<open>The shell\<close>

record owshell = kernel +
  bin_ext_str :: u32
  tbuf :: u32
  blank_str :: u32
  title_str :: u32

definition INPUT_BUFFER_SIZE :: u32 where "INPUT_BUFFER_SIZE = 129"
definition BIN_EXT :: u32 where "BIN_EXT = 4"

definition bin_file_exec :: "('a owshell_scheme, kernel_value) kcall \<Rightarrow> u32 \<Rightarrow> u32 \<Rightarrow> u32 \<Rightarrow> 'a owshell_scheme
    \<Rightarrow> ('a owshell_scheme, unit) kernel_result" where
  "bin_file_exec sys com arg1 arg2 s =
     kbind (lift_val (map_option (\<lambda>n. (n, s)) (strlen (ram s) com))) (\<lambda>clen s.
     kbind (owmice_malloc sys (clen + BIN_EXT + 1) s) (\<lambda>bin_name s.
     kbind (on_ram (strcpy bin_name com) s) (\<lambda>_ s.
     kbind (on_ram (strcat bin_name (bin_ext_str s)) s) (\<lambda>_ s.
     kbind (owmice_exec_initrd sys bin_name arg1 arg2 s) (\<lambda>_ s.
     owmice_free sys bin_name s)))))"

text \<open>The words before and after a blank: \<open>strtok\<close> leaves the rest of the line in \<open>com\<close>.\<close>

definition execute :: "('a owshell_scheme, kernel_value) kcall \<Rightarrow> u32 \<Rightarrow> 'a owshell_scheme \<Rightarrow> ('a owshell_scheme, unit) kernel_result" where
  "execute sys com s =
     kbind (on_ram (clearchar (tbuf s)) s) (\<lambda>_ s.
     kbind (lift_val (map_option (\<lambda>p. (p, s)) (strchr (ram s) com 32))) (\<lambda>p s.
     if p \<noteq> 0 then
       kbind (lift_val (map_option (\<lambda>(t, m). (t, s\<lparr>ram := m\<rparr>)) (strtok (tbuf s) com (blank_str s) (ram s)))) (\<lambda>t s.
       if t \<noteq> 0 then bin_file_exec sys (tbuf s) com 0 s else bin_file_exec sys com 0 0 s)
     else bin_file_exec sys com 0 0 s))"

text \<open>\<open>owshell_main\<close> up to its loop, the body of the loop, and the states at the head of the loop, which has no exit.\<close>

definition owshell_start :: "('a owshell_scheme, kernel_value) kcall \<Rightarrow> 'a owshell_scheme \<Rightarrow> ('a owshell_scheme, u32) kernel_result" where
  "owshell_start sys s =
     kbind (owmice_malloc sys INPUT_BUFFER_SIZE s) (\<lambda>cmd s.
     kbind (owmice_malloc sys INPUT_BUFFER_SIZE s) (\<lambda>p s.
     let s = s\<lparr>tbuf := p\<rparr> in
     kbind (owmice_set_title sys (title_str s) s) (\<lambda>_ s.
     kbind (user_printf sys ([10] @ text_line ''Owshell is alive!'') [] s) (\<lambda>_ s.
     kbind (owmice_print_date sys s) (\<lambda>_. return cmd)))))"

definition owshell_turn :: "('a owshell_scheme, kernel_value) kcall \<Rightarrow> u32 \<Rightarrow> 'a owshell_scheme \<Rightarrow> ('a owshell_scheme, unit) kernel_result" where
  "owshell_turn sys cmd s =
     kbind (owmice_prompt sys s) (\<lambda>_ s.
     kbind (owmice_kbd_get_string sys cmd s) (\<lambda>_ s.
     execute sys cmd s))"

inductive owshell_main :: "('a owshell_scheme, kernel_value) kcall \<Rightarrow> 'a owshell_scheme \<Rightarrow> u32 \<Rightarrow> 'a owshell_scheme \<Rightarrow> bool"
  for sys s0 where
  start: "owshell_start sys s0 = Some (Inr (cmd, s)) \<Longrightarrow> owshell_main sys s0 cmd s"
| turn: "owshell_main sys s0 cmd s \<Longrightarrow> owshell_turn sys cmd s = Some (Inr ((), t)) \<Longrightarrow> owshell_main sys s0 cmd t"

subsection \<open>The other programs\<close>

text \<open>\<open>main\<close> of \<open>cbin.c\<close>, \<open>getch.c\<close> and \<open>ticks.c\<close>; \<open>%u\<close> takes the low half of the 64-bit counter.\<close>

definition cbin_main :: "('a kernel_scheme, kernel_value) kcall \<Rightarrow> u32 \<Rightarrow> u32 \<Rightarrow> 'a kernel_scheme \<Rightarrow> ('a kernel_scheme, u32) kernel_result" where
  "cbin_main sys hello arg s =
     kbind (owmice_writestring sys hello s) (\<lambda>_ s.
     kbind (if arg = 0 then user_printf sys (text_line ''No arguments today? Lame!'') [] s
            else user_printf sys (text_line ''Here's your argument: 0x%X -> %s'') [VaWord arg, VaWord arg] s) (\<lambda>_.
     return 0))"

definition getch_main :: "('a kernel_scheme, kernel_value) kcall \<Rightarrow> 'a kernel_scheme \<Rightarrow> ('a kernel_scheme, u32) kernel_result" where
  "getch_main sys s =
     kbind (user_printf sys (text_line ''Press any key...'') [] s) (\<lambda>_ s.
     kbind (owmice_get_char sys s) (\<lambda>kb s.
     kbind (user_printf sys (text_line ''Pressed keychar: [%u | %c]'') [VaWord (scast kb), VaWord (scast kb)] s) (\<lambda>_.
     return 0)))"

definition ticks_main :: "('a kernel_scheme, kernel_value) kcall \<Rightarrow> 'a kernel_scheme \<Rightarrow> ('a kernel_scheme, u32) kernel_result" where
  "ticks_main sys s =
     kbind (owmice_get_ticks sys s) (\<lambda>t s.
     kbind (user_printf sys (bytes ''Ticks passed: %u'') [VaWord (ucast t)] s) (\<lambda>_.
     return 0xA55))"

text \<open>\<open>help.c\<close>: \<open>cmd\<close> is the array of the addresses of its three strings, the first of them the separator.\<close>

fun help_loop :: "('a kernel_scheme, kernel_value) kcall \<Rightarrow> u32 list \<Rightarrow> nat list \<Rightarrow> 'a kernel_scheme \<Rightarrow> ('a kernel_scheme, unit) kernel_result" where
  "help_loop sys cmd [] s = return () s"
| "help_loop sys cmd (i # is) s =
     kbind (owmice_writestring sys (cmd ! i) s) (\<lambda>_ s.
     kbind (if i \<noteq> length cmd - 1 then owmice_writestring sys (cmd ! 0) s else return () s) (\<lambda>_ s.
     help_loop sys cmd is s))"

definition help_main :: "('a kernel_scheme, kernel_value) kcall \<Rightarrow> u32 list \<Rightarrow> 'a kernel_scheme \<Rightarrow> ('a kernel_scheme, unit) kernel_result" where
  "help_main sys cmd s = help_loop sys cmd [1..<length cmd] s"

text \<open>\<open>drawtest.c\<close>: 25 frames of 90 by 30 cells in random colours. The generator's seed is the program's own.\<close>

fun draw_cells :: "('a kernel_scheme, kernel_value) kcall \<Rightarrow> (nat \<times> nat) list \<Rightarrow> u32 \<Rightarrow> 'a kernel_scheme \<Rightarrow> ('a kernel_scheme, u32) kernel_result" where
  "draw_cells sys [] next s = return next s"
| "draw_cells sys ((i, j) # todo) next s =
     (case rand_range 0 15 next of None \<Rightarrow> None | Some (color, next) \<Rightarrow>
      kbind (owmice_draw sys (of_nat i) (of_nat j) (ucast color) s) (\<lambda>_. draw_cells sys todo next))"

fun draw_frames :: "('a kernel_scheme, kernel_value) kcall \<Rightarrow> nat \<Rightarrow> u32 \<Rightarrow> 'a kernel_scheme \<Rightarrow> ('a kernel_scheme, u32) kernel_result" where
  "draw_frames sys 0 next s = return next s"
| "draw_frames sys (Suc n) next s =
     kbind (draw_cells sys (List.product [0..<90] [0..<30]) next s) (\<lambda>next s.
     kbind (owmice_sleep sys 100 s) (\<lambda>_. draw_frames sys n next))"

definition drawtest_main :: "('a kernel_scheme, kernel_value) kcall \<Rightarrow> 'a kernel_scheme \<Rightarrow> ('a kernel_scheme, u32) kernel_result" where
  "drawtest_main sys s =
     kbind (owmice_now sys s) (\<lambda>seed s.
     kbind (owmice_disable_scroll sys s) (\<lambda>_ s.
     kbind (owmice_cls sys s) (\<lambda>_ s.
     kbind (draw_frames sys 25 (srand seed 1) s) (\<lambda>_ s.
     kbind (user_printf sys (bytes ''Press any key to continue...'') [] s) (\<lambda>_ s.
     kbind (owmice_get_char sys s) (\<lambda>_ s.
     kbind (owmice_enable_scroll sys s) (\<lambda>_ s.
     kbind (owmice_cls sys s) (\<lambda>_ s.
     kbind (owmice_status_cls sys s) (\<lambda>_.
     return 0)))))))))"

text \<open>
  \<open>kbdmove.c\<close>: the loop reads \<open>kb\<close> before it is set, so its first value is an argument. Each round draws, moves or changes
  colour, and sleeps; the number of rounds it may run is bounded by \<open>fuel\<close>.
\<close>

definition kbdmove_step :: "u8 \<Rightarrow> u32 \<times> u32 \<times> u8 \<times> u32 \<Rightarrow> (u32 \<times> u32 \<times> u8 \<times> u32) option" where
  "kbdmove_step kb st =
     (let (x, y, color, next) = st
      in if kb = 11 then Some (x, y - 1, color, next)
         else if kb = 14 then Some (x, y + 1, color, next)
         else if kb = 12 then Some (x - 1, y, color, next)
         else if kb = 13 then Some (x + 1, y, color, next)
         else if kb = 32 then map_option (\<lambda>(c, next). (x, y, ucast c, next)) (rand_range 0 15 next)
         else Some (x, y, color, next))"

fun kbdmove_loop :: "nat \<Rightarrow> ('a kernel_scheme, kernel_value) kcall \<Rightarrow> u8 \<Rightarrow> u32 \<times> u32 \<times> u8 \<times> u32 \<Rightarrow> 'a kernel_scheme
    \<Rightarrow> ('a kernel_scheme, unit) kernel_result" where
  "kbdmove_loop 0 sys kb st s = (if kb \<noteq> 10 then None else return () s)"
| "kbdmove_loop (Suc fuel) sys kb st s =
     (if kb \<noteq> 10 then
        kbind (owmice_kbd_current_char sys s) (\<lambda>kb s.
        kbind (owmice_draw sys (fst st) (fst (snd st)) (fst (snd (snd st))) s) (\<lambda>_ s.
        case (if kb \<noteq> 0 then kbdmove_step kb st else Some st) of
          None \<Rightarrow> None
        | Some st \<Rightarrow> kbind (owmice_sleep sys 80 s) (\<lambda>_. kbdmove_loop fuel sys kb st)))
      else return () s)"

definition kbdmove_main :: "nat \<Rightarrow> ('a kernel_scheme, kernel_value) kcall \<Rightarrow> u8 \<Rightarrow> 'a kernel_scheme \<Rightarrow> ('a kernel_scheme, u32) kernel_result" where
  "kbdmove_main fuel sys kb s =
     kbind (owmice_now sys s) (\<lambda>seed s.
     case rand_range 0 15 (srand seed 1) of
       None \<Rightarrow> None
     | Some (c, next) \<Rightarrow>
         kbind (owmice_cls sys s) (\<lambda>_ s.
         kbind (user_printf sys (text_line ''<arrows> move'' @ text_line ''<enter> quit'' @ bytes ''<space> change color'') [] s) (\<lambda>_ s.
         kbind (owmice_sleep sys 1000 s) (\<lambda>_ s.
         kbind (kbdmove_loop fuel sys kb (10, 10, ucast c, next) s) (\<lambda>_ s.
         kbind (owmice_cls sys s) (\<lambda>_ s.
         kbind (owmice_status_cls sys s) (\<lambda>_.
         return 0)))))))"

end
