(* ===== verification/ProgramSpec.thy ===== *)
theory ProgramSpec
  imports Programs HeapUse
begin

text \<open>
  The programs on the kernel: \<open>sys\<close> is the dispatcher of \<open>Kcall\<close>. Output through the system call is the kernel's own, and the
  shell runs the file its command line names.
\<close>

subsection \<open>Output\<close>

lemma ft_putchar_kernel: "ft_putchar (kcall_handle run stk) c s = term_putchar c s"
proof -
  have "(ucast (scast c :: u32) :: u8) = c" by (rule bit_word_eqI) (auto simp: bit_simps)
  then show ?thesis by (simp add: ft_putchar_def wrapper_calls return_def)
qed


subsection \<open>Running a file\<close>

lemma bin_file_exec_runs:
  fixes s :: "'a owshell_scheme"
  assumes heap: "heap_block (ram s) hb cs" "fblock (kernel_heap_state s) = hb" "hb_next (ram s) hb = 0"
      "has_room hb (of_nat (length w + 5)) (ram s)" "first_fit (length w + 5) cs = Some (off, cs')" "kernel_mem s \<noteq> 0"
    and com: "cstring (ram s) com w" "(unat com, bs) \<in> set (contents (ram s) (unat hb + 20) cs)" "length w < length bs" "length w \<le> 128"
    and ext: "cstring (ram s) (bin_ext_str s) e" "length e = 4" "separate hb (unat (hb_size (ram s) hb)) (bin_ext_str s) 5"
  shows "\<exists>s1. bin_file_exec (kcall_handle run stk) com a1 a2 s =
      kbind (lift_val (exec_initrd run (of_nat (unat hb + 20 + off)) a1 a2 s1)) (\<lambda>_ s. lift (free stk (of_nat (unat hb + 20 + off)) s))
    \<and> cstring (ram s1) (of_nat (unat hb + 20 + off)) (w @ e)
    \<and> (\<forall>q ds. (q, ds) \<in> set (contents (ram s) (unat hb + 20) cs) \<longrightarrow> bytes_at (ram s1) (of_nat q) (length ds) = ds)"
proof -
  define n P p where "n = length w + 5" and "P = unat hb + 20 + off" and "p = (of_nat P :: u32)"
  have n32: "n < 4294967296" using com(4) by (simp add: n_def)
  from first_fit_get [OF heap(1-3) heap(4) [folded n_def] n32 heap(5) [folded n_def]] obtain h' m' where
    g: "heap_get n (kernel_heap_state s, ram s) = Some (P, h', m')" "heap_ok (kernel_heap_state s, ram s)"
      "k_heapLCABAlloc (of_nat n) (kernel_heap_state s, ram s) = Some (p, h', m')"
      "\<And>x. \<not> in_range hb (unat (hb_size (ram s) hb)) x \<Longrightarrow> m' x = ram s x"
      "P + n \<le> unat hb + unat (hb_size (ram s) hb)" "unat hb + unat (hb_size (ram s) hb) < 4294967296"
    unfolding P_def p_def by blast
  have live: "(q, ds) \<in> heap_live (kernel_heap_state s, ram s)" if "(q, ds) \<in> set (contents (ram s) (unat hb + 20) cs)" for q ds
    using that heap(1,2) by (auto simp: heap_live_def)
  note k = heap_grant [OF g(2,1) live]
  let ?len = "length w"
  have com': "cstring m' com w" by (rule cstring_bytes [OF com(1) _ com(3)]) (use k(3) [OF com(2)] in simp)
  have sepc: "separate p (Suc ?len) com (Suc ?len)"
    by (rule separate_le [OF k(4) [OF com(2), simplified, folded p_def]]) (use com(3) in \<open>simp_all add: n_def\<close>)
  have u: "unat p = P" using g(5,6) by (simp add: p_def)
  then have p0: "p \<noteq> 0" by (auto simp: P_def)
  define m2 where "m2 = write_bytes p (w @ [0]) m'"
  have cpy: "strcpy p com m' = Some m2" unfolding m2_def by (rule strcpy_cstring [OF com' sepc p0])
  have z: "0 \<notin> set w" using com(1) by (simp add: cstring_def)
  have w2: "cstring m2 p w" unfolding m2_def by (rule cstring_write_bytes) (use z com(4) in simp_all)
  have so2: "same_outside p n m' m2" unfolding m2_def
    by (rule same_outside_le [OF same_outside_write_bytes]) (use com(4) in \<open>simp_all add: n_def\<close>)
  have sepe: "separate p n (bin_ext_str s) 5"
  proof -
    have "separate (hb + of_nat (20 + off)) n (bin_ext_str s) 5"
      by (rule separate_sub [OF ext(3)]) (use g(5,6) in \<open>simp_all add: P_def\<close>)
    then show ?thesis by (simp add: p_def P_def ac_simps)
  qed
  have ext': "cstring m' (bin_ext_str s) e"
  proof (rule cstring_bytes [OF ext(1), of m' 5])
    show "bytes_at m' (bin_ext_str s) 5 = bytes_at (ram s) (bin_ext_str s) 5"
    proof (rule bytes_at_cong)
      fix i :: nat assume "i < 5"
      then have "in_range (bin_ext_str s) 5 (bin_ext_str s + of_nat i)" by simp
      then show "m' (bin_ext_str s + of_nat i) = ram s (bin_ext_str s + of_nat i)" using g(4) separateD2 [OF ext(3)] by blast
    qed
  qed (simp add: ext(2))
  have e2: "cstring m2 (bin_ext_str s) e" by (rule cstring_same_outside [OF ext' so2]) (use sepe ext(2) in simp)
  obtain m3 where m3: "strcat p (bin_ext_str s) m2 = Some m3" "cstring m3 p (w @ e)" "same_outside (p + of_nat ?len) (Suc (length e)) m2 m3"
    using strcat_cstring [OF w2 e2] sepe com(4) ext(2) by (auto simp: n_def add.commute)
  have so3: "same_outside p n m2 m3"
    by (rule same_outside_mono [OF m3(3)]) (erule in_range_sub, use com(4) ext(2) in \<open>simp_all add: n_def\<close>)
  define s1 where "s1 = s\<lparr>kernel_heap_state := h', ram := m3\<rparr>"
  have mal: "malloc (of_nat n) s = Some (p, s\<lparr>ram := m', kernel_heap_state := h'\<rparr>)"
    using heap(6) g(3) by (simp add: malloc_def heap_alloc_def)
  have cl: "(of_nat ?len :: u32) + BIN_EXT + 1 = of_nat n" by (simp add: BIN_EXT_def n_def)
  have "bin_file_exec (kcall_handle run stk) com a1 a2 s = kbind (lift_val (exec_initrd run p a1 a2 s1)) (\<lambda>_ s. lift (free stk p s))"
    by (simp add: bin_file_exec_def strlen_cstring [OF com(1)] wrapper_calls cl mal on_ram_def cpy m3(1) s1_def)
  moreover have "bytes_at (ram s1) (of_nat q) (length ds) = ds" if q: "(q, ds) \<in> set (contents (ram s) (unat hb + 20) cs)" for q ds
  proof -
    have "length ds \<le> 4294967296"
      using contents_bounds [OF _ q, of "unat hb + unat (hb_size (ram s) hb)"] heap(1) g(6) by (simp add: heap_block_def)
    then have "bytes_at m3 (of_nat q) (length ds) = bytes_at m' (of_nat q) (length ds)"
      by (rule bytes_at_same_outside [OF same_outside_trans [OF so2 so3] k(4) [OF q, folded p_def]])
    also have "\<dots> = bytes_at (ram s) (of_nat q) (length ds)" by (rule k(3) [OF q])
    also have "\<dots> = ds" using contents_bytes [OF q] by simp
    finally show ?thesis by (simp add: s1_def)
  qed
  ultimately show ?thesis using m3(2) unfolding p_def P_def by (intro exI [of _ s1]) (simp add: s1_def p_def P_def)
qed

text \<open>Taking the first word off the line: the loops before the file is run.\<close>

lemma split_line:
  assumes heap: "heap_block m hb cs"
    and line: "cstring m com (w @ 32 # rest)" "w \<noteq> []" "32 \<notin> set w" "length (w @ 32 # rest) \<le> 128"
    and chunks: "(unat com, bs) \<in> set (contents m (unat hb + 20) cs)" "129 \<le> length bs"
      "(unat t, ts) \<in> set (contents m (unat hb + 20) cs)" "129 \<le> length ts" "t \<noteq> com"
    and token: "cstring m t old" "\<And>i. length old \<le> i \<Longrightarrow> i \<le> 128 \<Longrightarrow> m (t + of_nat i) = 0" "length old \<le> 128"
    and blank: "cstring m b [32]" "separate hb (unat (hb_size m hb)) b 2"
  shows "\<exists>m1 q m2. clearchar t m = Some m1 \<and> strchr m1 com 32 = Some q \<and> q \<noteq> 0 \<and> strtok t com b m1 = Some (t, m2)
    \<and> cstring m2 t w \<and> cstring m2 com rest \<and> (\<forall>x. in_range t (length ts) x \<or> in_range com (length bs) x \<or> m2 x = m x)"
proof -
  let ?n = "length (w @ 32 # rest)"
  have apart: "separate t (length ts) com (length bs)"
    using chunks_apart [OF heap chunks(3,1)] chunks(5) by (simp add: word_unat_eq_iff)
  have tb: "separate t (length ts) b 2" "separate com (length bs) b 2"
    using chunk_apart_outside [OF heap chunks(3) blank(2)] chunk_apart_outside [OF heap chunks(1) blank(2)] by simp_all
  define m1 where "m1 = memset t 0 (of_nat (length old)) m"
  have u: "unat (of_nat (length old) :: u32) = length old" using token(3) by simp
  have cl: "clearchar t m = Some m1" using token(1) by (simp add: clearchar_cstring m1_def)
  have "same_outside t (length old) m m1" using same_outside_memset [of t "of_nat (length old)" m 0] unfolding m1_def u .
  then have so1: "same_outside t (length ts) m m1" by (rule same_outside_le) (use token(3) chunks(4) in simp)
  have zero: "m1 (t + of_nat i) = 0" if "i \<le> 128" for i
    using token(2) [of i] that u token(3) by (cases "i < length old") (simp_all add: m1_def memset_at in_range_def)
  have line1: "cstring m1 com (w @ 32 # rest)"
    by (rule cstring_same_outside [OF line(1) so1 separate_le [OF apart order_refl]]) (use line(4) chunks(2) in simp)
  have blank1: "cstring m1 b [32]"
    by (rule cstring_same_outside [OF blank(1) so1]) (use tb(1) in \<open>simp add: numeral_2_eq_2\<close>)
  have tw: "takeWhile (\<lambda>x. x \<noteq> 32) (w @ 32 # rest) = w" using line(3) by (induction w) auto
  have "unat com + length w < 4294967296" "28 \<le> unat com"
    using chunk_bounds [OF heap chunks(1)] chunks(2) line(4) by simp_all
  then have "unat (com + of_nat (length w)) \<noteq> 0" using line(4) by (simp add: unat32_add)
  then have q: "com + of_nat (length w) \<noteq> 0" by auto
  have chr: "strchr m1 com 32 = Some (com + of_nat (length w))" using strchr_cstring [OF line1, of 32] tw by simp
  have "\<exists>m2. strtok t com b m1 = Some (t, m2) \<and> cstring m2 t w \<and> cstring m2 com rest \<and>
    (\<forall>x. in_range t (Suc (length w)) x \<or> in_range com ?n x \<or> m2 x = m1 x)"
  proof (rule strtok_token [OF line1 blank1 line(2,3), where old = "[]"])
    show "cstring m1 t []" using zero [of 0] by simp
    show "m1 (t + of_nat i) = 0" if "i \<le> length w" for i using zero [of i] that line(4) by simp
    show "separate t (Suc (length w)) com (Suc ?n)" by (rule separate_le [OF apart]) (use line(4) chunks(2,4) in simp_all)
    show "separate t (Suc (length w)) b 2" by (rule separate_le [OF tb(1)]) (use line(4) chunks(4) in simp_all)
    show "separate com ?n b 2" by (rule separate_le [OF tb(2)]) (use line(4) chunks(2) in simp_all)
  qed (use line(4) in simp_all)
  then obtain m2 where m2: "strtok t com b m1 = Some (t, m2)" "cstring m2 t w" "cstring m2 com rest"
    "\<forall>x. in_range t (Suc (length w)) x \<or> in_range com ?n x \<or> m2 x = m1 x" by blast
  have "in_range t (length ts) x \<or> in_range com (length bs) x \<or> m2 x = m x" for x
  proof -
    have "in_range t (Suc (length w)) x \<Longrightarrow> in_range t (length ts) x" "in_range com ?n x \<Longrightarrow> in_range com (length bs) x"
      by (erule in_range_mono, use line(4) chunks(2,4) in simp)+
    then show ?thesis using m2(4) so1 unfolding same_outside_def by metis
  qed
  then show ?thesis using cl chr q m2(1-3) by blast
qed

text \<open>C7. The shell runs the file its command line names: for a line \<open>w\<close>, blank, \<open>rest\<close> the shell asks the kernel to execute the
  file named \<open>w\<close> with the extension, passes the address of the line, which now holds \<open>rest\<close>, as its argument, and
  frees the name afterwards - given that the line and the token buffer are chunks in use of the kernel heap, that the token
  buffer is blank beyond its old word, and that the heap has a chunk for the name.\<close>

theorem execute_runs_named_file:
  fixes s :: "'a owshell_scheme"
  assumes heap: "heap_block (ram s) hb cs" "fblock (kernel_heap_state s) = hb" "hb_next (ram s) hb = 0"
      "has_room hb (of_nat (length w + 5)) (ram s)" "first_fit (length w + 5) cs = Some (off, cs')" "kernel_mem s \<noteq> 0"
    and line: "cstring (ram s) com (w @ 32 # rest)" "w \<noteq> []" "32 \<notin> set w" "length (w @ 32 # rest) \<le> 128"
    and chunks: "(unat com, bs) \<in> set (contents (ram s) (unat hb + 20) cs)" "129 \<le> length bs"
      "(unat (tbuf s), ts) \<in> set (contents (ram s) (unat hb + 20) cs)" "129 \<le> length ts" "tbuf s \<noteq> com"
    and token: "cstring (ram s) (tbuf s) old" "\<And>i. length old \<le> i \<Longrightarrow> i \<le> 128 \<Longrightarrow> ram s (tbuf s + of_nat i) = 0" "length old \<le> 128"
    and texts: "cstring (ram s) (blank_str s) [32]" "separate hb (unat (hb_size (ram s) hb)) (blank_str s) 2"
      "cstring (ram s) (bin_ext_str s) e" "length e = 4" "separate hb (unat (hb_size (ram s) hb)) (bin_ext_str s) 5"
  shows "\<exists>p s1. execute (kcall_handle run stk) com s =
      kbind (lift_val (exec_initrd run p com 0 s1)) (\<lambda>_ s. lift (free stk p s))
    \<and> cstring (ram s1) p (w @ e) \<and> cstring (ram s1) com rest"
proof -
  from split_line [OF heap(1) line chunks token texts(1,2)] obtain m1 q m2 where
    m: "clearchar (tbuf s) (ram s) = Some m1" "strchr m1 com 32 = Some q" "q \<noteq> 0" "strtok (tbuf s) com (blank_str s) m1 = Some (tbuf s, m2)"
      "cstring m2 (tbuf s) w" "cstring m2 com rest"
      "\<forall>x. in_range (of_nat (unat (tbuf s))) (length ts) x \<or> in_range (of_nat (unat com)) (length bs) x \<or> m2 x = ram s x" by auto
  note h2 = heap_two_writes [OF heap(1) chunks(3,1) m(7)]
  define s2 where "s2 = s\<lparr>ram := m2\<rparr>"
  have mem: "(unat (tbuf s), bytes_at m2 (tbuf s) (length ts)) \<in> set (contents m2 (unat hb + 20) cs)"
    "(unat com, bytes_at m2 com (length bs)) \<in> set (contents m2 (unat hb + 20) cs)"
    using contents_mem [OF chunks(1)] contents_mem [OF chunks(3)] by fastforce+
  have "m2 x = ram s x" if "in_range (bin_ext_str s) 5 x" for x using h2(5) separateD2 [OF texts(5) that] by blast
  then have "bytes_at m2 (bin_ext_str s) 5 = bytes_at (ram s) (bin_ext_str s) 5" by (intro bytes_at_cong) simp
  then have ext2: "cstring (ram s2) (bin_ext_str s2) e" using cstring_bytes [OF texts(3)] texts(4) by (simp add: s2_def)
  have blk: "heap_block (ram s2) hb cs" "fblock (kernel_heap_state s2) = hb" "hb_next (ram s2) hb = 0"
    "has_room hb (of_nat (length w + 5)) (ram s2)" "kernel_mem s2 \<noteq> 0"
    using h2 heap by (simp_all add: s2_def has_room_def)
  have w2: "cstring (ram s2) (tbuf s) w" using m(5) by (simp add: s2_def)
  have t2: "(unat (tbuf s), bytes_at m2 (tbuf s) (length ts)) \<in> set (contents (ram s2) (unat hb + 20) cs)"
    "length w < length (bytes_at m2 (tbuf s) (length ts))" "length w \<le> 128"
    using mem(1) line(4) chunks(4) by (simp_all add: s2_def)
  have sep2: "separate hb (unat (hb_size (ram s2) hb)) (bin_ext_str s2) 5" using texts(5) h2(2) by (simp add: s2_def)
  from bin_file_exec_runs [OF blk(1-4) heap(5) blk(5) w2 t2 ext2 texts(4) sep2, of run stk com 0] obtain p s1 where
    r: "bin_file_exec (kcall_handle run stk) (tbuf s) com 0 s2 = kbind (lift_val (exec_initrd run p com 0 s1)) (\<lambda>_ s. lift (free stk p s))"
    "cstring (ram s1) p (w @ e)"
    "\<forall>q ds. (q, ds) \<in> set (contents (ram s2) (unat hb + 20) cs) \<longrightarrow> bytes_at (ram s1) (of_nat q) (length ds) = ds" by blast
  have "bytes_at (ram s1) com (length bs) = bytes_at m2 com (length bs)" using r(3) mem(2) by (fastforce simp: s2_def)
  then have "cstring (ram s1) com rest" by (rule cstring_bytes [OF m(6)]) (use line(4) chunks(2) in simp)
  moreover have "tbuf s \<noteq> 0" using chunk_bounds(1) [OF heap(1) chunks(3)] by auto
  then have "execute (kcall_handle run stk) com s = bin_file_exec (kcall_handle run stk) (tbuf s) com 0 s2"
    using m(1-4) by (simp add: execute_def on_ram_def s2_def)
  ultimately show ?thesis using r(1,2) by auto
qed

text \<open>A shell with its two buffers on the heap, for the witness: the line is \<open>ls x\<close>.\<close>

definition demo_shell_ram :: memory where
  "demo_shell_ram = store32 0x112A 3794 (store32 0x10A1 0x80000081 (store32 0x1018 0x80000081 (store32 0x1000 0x1000
     ((\<lambda>_. 0)(0x101C := 108, 0x101D := 115, 0x101E := 32, 0x101F := 120, 0x500 := 32, 0x510 := 46, 0x511 := 111, 0x512 := 119, 0x513 := 98)))))"

definition demo_shell :: owshell where
  "demo_shell = kernel.extend (demo_kernel\<lparr>ram := demo_shell_ram, kernel_mem := 0x800,
       kernel_heap_state := \<lparr>fblock = 0x1000, bcnt = 1, mem_in_use = 274, heap_size = 0x1000\<rparr>\<rparr>)
     \<lparr>bin_ext_str = 0x510, tbuf = 0x10A5, blank_str = 0x500, title_str = 0\<rparr>"

theorem execute_runs_named_file_witness:
  "\<exists>p s1. execute (kcall_handle (\<lambda>_ _ _. None) 0) 0x101C demo_shell =
      kbind (lift_val (exec_initrd (\<lambda>_ _ _. None) p 0x101C 0 s1)) (\<lambda>_ s. lift (free 0 p s))
    \<and> cstring (ram s1) p [108, 115, 46, 111, 119, 98] \<and> cstring (ram s1) 0x101C [120]"
proof -
  let ?cs = "[(True, 129), (True, 129), (False, 3794)]"
  have r: "ram demo_shell = demo_shell_ram" "kernel_mem demo_shell \<noteq> 0" "tbuf demo_shell = 0x10A5" "blank_str demo_shell = 0x500"
    "bin_ext_str demo_shell = 0x510" "fblock (kernel_heap_state demo_shell) = 0x1000"
    by (simp_all add: demo_shell_def kernel.defs)
  have h: "heap_block demo_shell_ram 0x1000 ?cs" "hb_next demo_shell_ram 0x1000 = 0" "has_room 0x1000 7 demo_shell_ram"
    "hb_size demo_shell_ram 0x1000 = 0x1000"
    by (simp_all add: heap_block_def has_room_def demo_shell_ram_def load32_def store32_def flag_word_def)
  have z: "demo_shell_ram x = 0" if x: "in_range 0x10A5 129 x" for x
  proof -
    have "\<not> in_range 0x112A 4 x" "\<not> in_range 0x10A1 4 x" "\<not> in_range 0x1018 4 x" "\<not> in_range 0x1000 4 x"
      by (rule separateD [OF _ x], simp add: separate_def)+
    moreover have "x \<notin> {0x101C, 0x101D, 0x101E, 0x101F, 0x500, 0x510, 0x511, 0x512, 0x513}"
      using x by (auto simp: in_range_def)
    ultimately show ?thesis by (simp add: demo_shell_ram_def store32_outside)
  qed
  have c: "(unat (0x101C :: u32), bytes_at demo_shell_ram 0x101C 129) \<in> set (contents demo_shell_ram (unat (0x1000 :: u32) + 20) ?cs)"
    "(unat (0x10A5 :: u32), bytes_at demo_shell_ram 0x10A5 129) \<in> set (contents demo_shell_ram (unat (0x1000 :: u32) + 20) ?cs)"
    by simp_all
  have l: "cstring demo_shell_ram 0x101C ([108, 115] @ 32 # [120])" "cstring demo_shell_ram 0x500 [32]"
    "cstring demo_shell_ram 0x510 [46, 111, 119, 98]" "cstring demo_shell_ram 0x10A5 []"
    using z [of "0x10A5"] by (simp_all add: cstring_Cons demo_shell_ram_def store32_def)
  have f: "first_fit (length [108, 115 :: u8] + 5) ?cs = Some (282, [(True, 129), (True, 129), (True, 7), (False, 3779)])"
    by (simp add: taken_def)
  have "\<exists>p s1. execute (kcall_handle (\<lambda>_ _ _. None) 0) 0x101C demo_shell =
      kbind (lift_val (exec_initrd (\<lambda>_ _ _. None) p 0x101C 0 s1)) (\<lambda>_ s. lift (free 0 p s))
    \<and> cstring (ram s1) p ([108, 115] @ [46, 111, 119, 98]) \<and> cstring (ram s1) 0x101C [120]"
    by (rule execute_runs_named_file [where s = demo_shell and w = "[108, 115]" and rest = "[120]" and e = "[46, 111, 119, 98]" and cs = ?cs and hb = "0x1000" and old = "[]" and bs = "bytes_at demo_shell_ram 0x101C 129"
        and ts = "bytes_at demo_shell_ram 0x10A5 129", unfolded r(1,3-6), OF h(1) refl h(2) _ f r(2) l(1) _ _ _ c(1) _ c(2) _ _ l(4) _ _ l(2) _ l(3)])
      (use h z in \<open>simp_all add: separate_def\<close>)
  then show ?thesis by simp
qed

end
