(* ===== verification/Boot.thy ===== *)
theory Boot
  imports Kcall Ata
begin

text \<open>
  \<open>kernel.c\<close>: the start of the kernel. The addresses the linker assigns are fields of a record; \<open>create_gdt\<close>, an assembler
  routine, and the program \<open>run\<close> that the last call executes are arguments.
\<close>

record kernel_image =
  k_entry :: u32
  end_addr :: u32
  exec_space :: u32
  syscall_entry :: u32
  idt_table :: u32
  pit_handler :: u32
  keyboard_handler :: u32
  autostart_fname :: u32

text \<open>\<open>test_disk\<close> returns before its write test, so the statements after that are unreachable.\<close>

definition test_disk :: "'a kernel_scheme \<Rightarrow> 'a kernel_scheme option" where
  "test_disk s = do {
     (p, s) \<leftarrow> newATA 1 0x1F0 s;
     let s = s\<lparr>master := p\<rparr>;
     (failed, s) \<leftarrow> ATA_identify (master s) s;
     if failed \<noteq> 0 then kprintf (text_line ''Can't access the hard disk.'') [] s
     else kprintf (text_line ''*Found master hard disk!'') [] s }"

text \<open>The reservation of the kernel's own memory: the difference of the two pointers counts 32-bit words.\<close>

definition reserve_kernel :: "kernel_image \<Rightarrow> 'a pmem_scheme \<Rightarrow> 'a pmem_scheme" where
  "reserve_kernel k s = mem_deinit_region (k_entry k) (signed_drop_bit 2 (end_addr k - k_entry k)) s"

text \<open>From the check of the boot loader to the mounted ram disk and the memory manager.\<close>

definition boot_memory :: "kernel_image \<Rightarrow> u32 \<Rightarrow> 'a kernel_scheme \<Rightarrow> 'a kernel_scheme option" where
  "boot_memory k mboot_ptr s = do {
     let initrd_location = load32 (ram s) (mbt_mods_addr (ram s) mboot_ptr);
     let initrd_end = load32 (ram s) (mbt_mods_addr (ram s) mboot_ptr + 4);
     let s = s\<lparr>kernel_size := end_addr k - k_entry k\<rparr>;
     let s = s\<lparr>mem_unused := initrd_end + 1\<rparr>;
     (root, s) \<leftarrow> initrd_init initrd_location s;
     let s = s\<lparr>fs_root := root\<rparr>;
     s \<leftarrow> pmem_init mboot_ptr s;
     let s = mem_deinit_region initrd_location (initrd_end - initrd_location) s;
     s \<leftarrow> kprintf (text_line ''Kernel: 0x%X 0x%X'') [VaWord (k_entry k), VaWord (end_addr k)] s;
     Some (reserve_kernel k s) }"

definition boot_devices :: "kernel_image \<Rightarrow> 'a kernel_scheme \<Rightarrow> 'a kernel_scheme option" where
  "boot_devices k s = do {
     s \<leftarrow> kernel_calls_init (syscall_entry k) s;
     s \<leftarrow> kbd_init (keyboard_handler k) s;
     let s = paging_init s;
     (p, s) \<leftarrow> malloc INITRD_BUFFER_SIZE s;
     let s = s\<lparr>read_buffer := p\<rparr>;
     s \<leftarrow> kprintf (text_line ''Exec space: 0x%X'') [VaWord (exec_space k)] s;
     s \<leftarrow> kprintf (text_line ''Kernel end: 0x%X'') [VaWord (end_addr k)] s;
     s \<leftarrow> timer_init (pit_handler k) 100 s;
     s \<leftarrow> cprint (Lit (bytes ''Ready!'')) 5 s;
     test_disk s }"

text \<open>The shell's name is the contents of the autostart file, without surrounding blanks.\<close>

definition name_shell :: "kernel_image \<Rightarrow> u32 \<Rightarrow> 'a kernel_scheme \<Rightarrow> 'a kernel_scheme option" where
  "name_shell k start_node s = do {
     s \<leftarrow> kprintf (text_line ''Reading %s...'') [VaWord (autostart_fname k)] s;
     (p, s) \<leftarrow> malloc 128 s;
     let s = s\<lparr>shell_fname := p\<rparr>;
     m \<leftarrow> clearchar (shell_fname s) (ram s);
     (_, s) \<leftarrow> read_fs call_read start_node 0 128 (shell_fname s) (s\<lparr>ram := m\<rparr>);
     (p, m) \<leftarrow> trim (shell_fname s) (ram s);
     let s = s\<lparr>ram := m, shell_fname := p\<rparr>;
     kprintf (text_line ''Loading %s...'') [VaWord (shell_fname s)] s }"

definition load_shell :: "'a kernel_scheme program \<Rightarrow> u32 \<Rightarrow> u32 \<Rightarrow> 'a kernel_scheme \<Rightarrow> 'a kernel_scheme option" where
  "load_shell run stk fsnode s = do {
     (buf, s) \<leftarrow> malloc INITRD_BUFFER_SIZE s;
     (sz, s) \<leftarrow> read_fs call_read fsnode 0 INITRD_BUFFER_SIZE buf s;
     s \<leftarrow> free stk buf s;
     let s = s\<lparr>shell_size := sz\<rparr>;
     (p, s) \<leftarrow> malloc (shell_size s) s;
     let s = s\<lparr>shell_buf := p\<rparr>;
     (_, s) \<leftarrow> exec_initrd run (shell_fname s) 0 0 s;
     Some s }"

definition start_shell :: "kernel_image \<Rightarrow> 'a kernel_scheme program \<Rightarrow> u32 \<Rightarrow> 'a kernel_scheme \<Rightarrow> ('a kernel_scheme, unit) kernel_result" where
  "start_shell k run stk s =
     kbind (lift_val (find_file (autostart_fname k) s)) (\<lambda>start_node s.
     if start_node = 0 then
       kbind (lift (kprintf (text_line ''%s must contain a valid name of the binary existing on the ramdisk'') [VaWord (autostart_fname k)] s))
         (\<lambda>_. halt 0)
     else
     kbind (lift (name_shell k start_node s)) (\<lambda>_ s.
     kbind (lift_val (find_file (shell_fname s) s)) (\<lambda>fsnode s.
     if fsnode = 0 then
       kbind (lift (kprintf (text_line ''%s doesn't exist.'') [VaWord (shell_fname s)] s)) (\<lambda>_. halt 0)
     else
     kbind (lift (load_shell run stk fsnode s)) (\<lambda>_. halt 0))))"

definition kmain :: "kernel_image \<Rightarrow> ('a kernel_scheme \<Rightarrow> 'a kernel_scheme) \<Rightarrow> 'a kernel_scheme program \<Rightarrow> u32 \<Rightarrow> u32 \<Rightarrow> u32
    \<Rightarrow> 'a kernel_scheme \<Rightarrow> ('a kernel_scheme, unit) kernel_result" where
  "kmain k create_gdt run stk magic addr s =
     (let s = create_gdt s;
          s = idt_init (idt_table k) s
      in kbind (lift (console_init s)) (\<lambda>_ s.
         kbind (verify_multiboot magic addr s) (\<lambda>mboot_ptr s.
         if \<not> mbt_mods_count (ram s) mboot_ptr > 0
         then map_option Inl (die_assertion (cpu_regs s) (cr3 s) 0xBADA55 (bytes ''kernel.c'') 65 s)
         else
         kbind (lift (boot_memory k mboot_ptr s)) (\<lambda>_ s.
         kbind (lift (boot_devices k s)) (\<lambda>_.
         start_shell k run stk)))))"

subsection \<open>Facts: where the kernel can stop\<close>

text \<open>A result that stops only with the processor halted, and one that never comes back.\<close>

definition halts_only :: "('a machine_scheme, 'v) kernel_result \<Rightarrow> bool" where
  "halts_only r \<longleftrightarrow> (\<forall>s. r = Some (Inl s) \<longrightarrow> hd (io s) = Hlt)"

definition never_returns :: "('a machine_scheme, 'v) kernel_result \<Rightarrow> bool" where
  "never_returns r \<longleftrightarrow> halts_only r \<and> (\<forall>x. r \<noteq> Some (Inr x))"

lemma die_halts: "die cpu c stat s = Some t \<Longrightarrow> hd (io t) = Hlt"
  by (auto simp: die_def Let_def wait_int_def emit_def bind_eq_Some_conv)

lemma kernel_result_cases: "(r = None \<Longrightarrow> P) \<Longrightarrow> (\<And>s. r = Some (Inl s) \<Longrightarrow> P) \<Longrightarrow> (\<And>v s. r = Some (Inr (v, s)) \<Longrightarrow> P) \<Longrightarrow> P"
  for r :: "('s, 'v) kernel_result"
  by (cases r) (auto elim: sumE)

lemma halt_never_returns: "never_returns (halt stat s)"
  by (auto simp: never_returns_def halts_only_def halt_def dest: die_halts)

lemma assertion_never_returns: "never_returns (map_option Inl (die_assertion cpu c stat file' line s))"
  by (auto simp: never_returns_def halts_only_def die_assertion_def bind_eq_Some_conv dest: die_halts)

lemma lift_halts_only: "halts_only (lift r)" "halts_only (lift_val q)"
  by (auto simp: halts_only_def lift_def lift_val_def)

lemma kbind_never_returns: "halts_only r \<Longrightarrow> (\<And>v s. never_returns (f v s)) \<Longrightarrow> never_returns (kbind r f)"
  by (auto simp: never_returns_def halts_only_def kbind_def split: option.splits sum.splits)

lemma never_returns_if: "never_returns a \<Longrightarrow> never_returns b \<Longrightarrow> never_returns (if c then a else b)"
  by simp

lemma verify_halts_only: "halts_only (verify_multiboot magic addr s)"
  using halt_never_returns by (auto simp: verify_multiboot_def lift_halts_only never_returns_def)

lemma start_shell_never_returns: "never_returns (start_shell k run stk s)"
  unfolding start_shell_def
  by (intro kbind_never_returns lift_halts_only halt_never_returns never_returns_if)

subsection \<open>Properties\<close>


text \<open>The kernel reserves only a quarter of its own memory: the difference of the two linker symbols is taken between pointers
  to 32-bit words. Exactly the blocks of the first quarter become used, and a block behind them stays free.\<close>

theorem reserve_kernel_quarter:
  assumes "unat (end_addr k - k_entry k) = 4 * n" and "n < 536870912"
  shows "used (reserve_kernel k s) = region_blocks (k_entry k div 4096) (n div 4096) \<union> used s"
proof -
  have "signed_drop_bit 2 (end_addr k - k_entry k) = of_nat n"
  proof -
    have "sint (end_addr k - k_entry k) = int (4 * n)" using assms by (subst sint32_small) simp_all
    then have "sint (signed_drop_bit 2 (end_addr k - k_entry k)) = int n"
      by (simp add: sint_signed_drop_bit_eq drop_bit_eq_div)
    then have "(of_int (sint (signed_drop_bit 2 (end_addr k - k_entry k))) :: u32) = of_int (int n)" by simp
    then show ?thesis by simp
  qed
  then show ?thesis using assms(2) by (simp add: reserve_kernel_def deinit_region_effect unat_div)
qed

definition demo_kernel_image :: kernel_image where
  "demo_kernel_image = \<lparr>k_entry = 0x100000, end_addr = 0x120000, exec_space = 0x100060, syscall_entry = 0x100040, idt_table = 0x110000,
     pit_handler = 0x108000, keyboard_handler = 0x108100, autostart_fname = 0x109000\<rparr>"

theorem reserve_kernel_quarter_witness:
  "used (reserve_kernel demo_kernel_image demo_pmem) = region_blocks 0x100 8 \<union> used demo_pmem"
  using reserve_kernel_quarter [of demo_kernel_image 32768 demo_pmem] by (simp add: demo_kernel_image_def)

text \<open>Without the magic number of a multiboot loader the kernel stops with its error code once the screen is set up, before it
  reads the loader's information.\<close>

theorem kmain_bad_magic:
  assumes "magic \<noteq> 0x2BADB002"
  shows "kmain k create_gdt run stk magic addr s
    = kbind (lift (console_init (idt_init (idt_table k) (create_gdt s)))) (\<lambda>_. halt STATUS_BAD_MULTIBOOT)"
proof -
  have "kbind (halt STATUS_BAD_MULTIBOOT t) f = halt STATUS_BAD_MULTIBOOT t"
    for t :: "'a kernel_scheme" and f :: "u32 \<Rightarrow> 'a kernel_scheme \<Rightarrow> ('a kernel_scheme, unit) kernel_result"
    by (cases "die (cpu_regs t) (cr3 t) STATUS_BAD_MULTIBOOT t") (simp_all add: halt_def)
  then show ?thesis using assms by (simp add: kmain_def Let_def verify_multiboot_def)
qed

theorem kmain_bad_magic_witness:
  "kmain demo_kernel_image (\<lambda>s. s) (\<lambda>_ _ _. None) 0 0 0 demo_kernel
    = kbind (lift (console_init (idt_init 0x110000 demo_kernel))) (\<lambda>_. halt STATUS_BAD_MULTIBOOT)"
  using kmain_bad_magic [of 0 demo_kernel_image "\<lambda>s. s" "\<lambda>_ _ _. None" 0 0 demo_kernel] by (simp add: demo_kernel_image_def)

end
