(* ===== verification/Exec.thy ===== *)
theory Exec
  imports FileSystem
begin

text \<open>
  Running a file (\<open>exec_initrd\<close> in \<open>io/initrd.h\<close>): every program runs at \<open>EXEC_ADDR\<close>, so the shell's image is put aside in
  \<open>shell_buf\<close> before another file is loaded there, and put back when it has returned.
\<close>

subsection \<open>Writing outside the disk\<close>

text \<open>A range of memory that no node, header, contents or name of the mounted disk lies in.\<close>

definition disk_apart :: "u32 \<Rightarrow> nat \<Rightarrow> disk_file list \<Rightarrow> 'a ramdisk_scheme \<Rightarrow> bool" where
  "disk_apart a n fs s \<longleftrightarrow> separate a n (mtp_text s) 4 \<and> separate a n (initrd_root s) 184 \<and>
     (\<forall>i < length fs. separate a n (node_at s (of_nat i)) 184 \<and> separate a n (node_at s (of_nat i)) (Suc (length (fst (fs ! i)))) \<and>
        separate a n (header_at s (of_nat i)) 76 \<and> separate a n (load32 (ram s) (header_at s (of_nat i) + 68)) (length (snd (fs ! i))))"

lemma mounted_disk_frame:
  assumes "mounted_disk fs s" and "same_outside a n (ram s) m" and "disk_apart a n fs s"
  shows "mounted_disk fs (s\<lparr>ram := m\<rparr>)"
    and "i < length fs \<Longrightarrow> load32 m (header_at s (of_nat i) + 68) = load32 (ram s) (header_at s (of_nat i) + 68)"
proof -
  note d = assms(3) [unfolded disk_apart_def]
  have hd68: "load32 m (header_at s (of_nat i) + 68) = load32 (ram s) (header_at s (of_nat i) + 68)" if "i < length fs" for i
    using load32_inside [OF assms(2), of "header_at s (of_nat i)" 76 68] d that by simp
  then show "i < length fs \<Longrightarrow> load32 m (header_at s (of_nat i) + 68) = load32 (ram s) (header_at s (of_nat i) + 68)" .
  have "file_at (of_nat i) (fs ! i) (s\<lparr>ram := m\<rparr>)" if "i < length fs" for i
  proof -
    have f: "file_at (of_nat i) (fs ! i) s" using assms(1) that by (simp add: mounted_disk_def holds_files_def)
    have "cstring m (node_at s (of_nat i)) (fst (fs ! i))"
      by (rule cstring_same_outside [OF _ assms(2)]) (use f d that in \<open>simp_all add: file_at_def\<close>)
    moreover have "load32 m (node_at s (of_nat i) + off) = load32 (ram s) (node_at s (of_nat i) + off)" if "unat off + 4 \<le> 184" for off
      using load32_inside [OF assms(2) _ that, of "node_at s (of_nat i)"] d \<open>i < length fs\<close> by simp
    moreover have "load32 m (header_at s (of_nat i) + 72) = load32 (ram s) (header_at s (of_nat i) + 72)"
      using load32_inside [OF assms(2), of "header_at s (of_nat i)" 76 72] d that by simp
    moreover have "bytes_at m (load32 (ram s) (header_at s (of_nat i) + 68)) (length (snd (fs ! i))) = snd (fs ! i)"
      using bytes_at_same_outside [OF assms(2), of "load32 (ram s) (header_at s (of_nat i) + 68)" "length (snd (fs ! i))"] f d that
      by (simp add: file_at_def)
    ultimately show ?thesis using f hd68 [OF that] by (simp add: file_at_def)
  qed
  moreover have "cstring m (mtp_text s) (bytes ''mtp'')"
    by (rule cstring_same_outside [OF _ assms(2)]) (use assms(1) d in \<open>simp_all add: mounted_disk_def bytes_def eval_nat_numeral\<close>)
  moreover have "load32 m (initrd_root s + off) = load32 (ram s) (initrd_root s + off)" if "unat off + 4 \<le> 184" for off
    using load32_inside [OF assms(2) _ that, of "initrd_root s"] d by simp
  ultimately show "mounted_disk fs (s\<lparr>ram := m\<rparr>)" using assms(1) by (simp add: mounted_disk_def holds_files_def)
qed

subsection \<open>Running a file other than the shell\<close>

text \<open>What \<open>exec_initrd\<close> needs of a file \<open>fs ! i\<close> with the name \<open>n\<close> and of the shell's buffer: the buffer is off the disk, the two names
  and the place of the loaded file, and so are the names off that place.\<close>

definition exec_ready :: "disk_file list \<Rightarrow> u32 \<Rightarrow> u8 list \<Rightarrow> u8 list \<Rightarrow> nat \<Rightarrow> 'a ramdisk_scheme \<Rightarrow> bool" where
  "exec_ready fs fname n sh i s \<longleftrightarrow>
     mounted_disk fs s \<and> fs_root s = initrd_root s \<and> initrd_read_ptr s \<noteq> 0 \<and> initrd_finddir_ptr s \<noteq> 0 \<and>
     cstring (ram s) fname n \<and> cstring (ram s) (shell_fname s) sh \<and> n \<noteq> sh \<and> n \<noteq> bytes ''mtp'' \<and>
     file_index fs n = Some i \<and> node_at s (of_nat i) \<noteq> 0 \<and> 0 < length (snd (fs ! i)) \<and> length (snd (fs ! i)) \<le> 1048576 \<and>
     (let b = shell_buf s; k = unat (shell_size s) in
      no_wrap b k \<and> no_wrap EXEC_ADDR k \<and> disk_apart b k fs s \<and> separate b k EXEC_ADDR (length (snd (fs ! i))) \<and>
      separate b k fname (Suc (length n)) \<and> separate b k (shell_fname s) (Suc (length sh))) \<and>
     (let k = length (snd (fs ! i)) in
      separate EXEC_ADDR k (load32 (ram s) (header_at s (of_nat i) + 68)) k \<and>
      separate EXEC_ADDR k fname (Suc (length n)) \<and> separate EXEC_ADDR k (shell_fname s) (Suc (length sh)))"

text \<open>What a program may not do to the shell: it leaves the buffer, the variables that describe it and the two names alone.\<close>

definition keeps_shell :: "u32 \<Rightarrow> u8 list \<Rightarrow> u8 list \<Rightarrow> 'a ramdisk_scheme \<Rightarrow> 'a ramdisk_scheme \<Rightarrow> bool" where
  "keeps_shell fname n sh t t' \<longleftrightarrow>
     shell_buf t' = shell_buf t \<and> shell_size t' = shell_size t \<and> shell_fname t' = shell_fname t \<and>
     bytes_at (ram t') (shell_buf t) (unat (shell_size t)) = bytes_at (ram t) (shell_buf t) (unat (shell_size t)) \<and>
     cstring (ram t') fname n \<and> cstring (ram t') (shell_fname t) sh"

lemma memmove_copies:
  assumes "no_wrap dst (unat sz)" and "no_wrap src (unat sz)"
  shows "bytes_at (memmove dst src sz m) dst (unat sz) = bytes_at m src (unat sz)" and "same_outside dst (unat sz) m (memmove dst src sz m)"
  by (rule nth_equalityI) (simp_all add: memmove_at [OF assms] same_outside_def order.strict_implies_order)

text \<open>The steps up to the call of the program: the shell is saved, the file found and loaded.\<close>

lemma exec_loads:
  assumes r: "exec_ready fs fname n sh i s"
  obtains m1 m2 where "streq (ram s) fname (shell_fname s) = Some False"
    and "m1 = memmove (shell_buf s) EXEC_ADDR (shell_size s) (ram s)"
    and "finddir_fs call_finddir (fs_root s) fname (s\<lparr>ram := m1\<rparr>) = Some (node_at s (of_nat i), s\<lparr>ram := m1\<rparr>)"
    and "read_fs call_read (node_at s (of_nat i)) 0 INITRD_BUFFER_SIZE EXEC_ADDR (s\<lparr>ram := m1\<rparr>) = Some (of_nat (length (snd (fs ! i))), s\<lparr>ram := m2\<rparr>)"
    and "bytes_at m2 EXEC_ADDR (length (snd (fs ! i))) = snd (fs ! i)" and "same_outside EXEC_ADDR (length (snd (fs ! i))) m1 m2"
    and "bytes_at m2 (shell_buf s) (unat (shell_size s)) = bytes_at (ram s) EXEC_ADDR (unat (shell_size s))"
    and "cstring m2 fname n" and "cstring m2 (shell_fname s) sh"
proof -
  let ?b = "shell_buf s" and ?k = "unat (shell_size s)" and ?c = "snd (fs ! i)" and ?h = "header_at s (of_nat i)"
  let ?m1 = "memmove ?b EXEC_ADDR (shell_size s) (ram s)"
  have w: "no_wrap ?b ?k" "no_wrap EXEC_ADDR ?k" and da: "disk_apart ?b ?k fs s" and se: "separate ?b ?k EXEC_ADDR (length ?c)"
    and i: "i < length fs" "length ?c \<le> 1048576" "?c \<noteq> []"
    using r file_index_Some [of fs n i] by (auto simp: exec_ready_def Let_def)
  note mm = memmove_copies [OF w, of "ram s"]
  have md: "mounted_disk fs (s\<lparr>ram := ?m1\<rparr>)" and h68: "load32 ?m1 (?h + 68) = load32 (ram s) (?h + 68)"
    using mounted_disk_frame [OF _ mm(2) da] i(1) r by (simp_all add: exec_ready_def)
  have cs: "cstring ?m1 fname n" "cstring ?m1 (shell_fname s) sh"
    using cstring_same_outside [OF _ mm(2)] r by (simp_all add: exec_ready_def Let_def)
  have ff: "finddir_fs call_finddir (fs_root s) fname (s\<lparr>ram := ?m1\<rparr>) = Some (node_at s (of_nat i), s\<lparr>ram := ?m1\<rparr>)"
    using find_file_mounted [OF md, of fname n] cs(1) r by (simp add: exec_ready_def)
  have rc: "read_count (length ?c) 0 1048576 = length ?c" using i by (simp add: read_count_def)
  have fa: "file_at (of_nat i) (fs ! i) (s\<lparr>ram := ?m1\<rparr>)" using md i(1) by (simp add: mounted_disk_def holds_files_def)
  obtain m2 where m2: "read_fs call_read (node_at s (of_nat i)) 0 INITRD_BUFFER_SIZE EXEC_ADDR (s\<lparr>ram := ?m1\<rparr>) = Some (of_nat (length ?c), s\<lparr>ram := m2\<rparr>)"
    "bytes_at m2 EXEC_ADDR (length ?c) = ?c" "same_outside EXEC_ADDR (length ?c) ?m1 m2"
    using read_file_at [OF fa, of 0 INITRD_BUFFER_SIZE EXEC_ADDR] r rc h68 by (auto simp: exec_ready_def Let_def INITRD_BUFFER_SIZE_def)
  have "bytes_at m2 ?b ?k = bytes_at ?m1 ?b ?k"
    by (rule bytes_at_same_outside [OF m2(3)]) (use se separate_sym in \<open>auto simp: order.strict_implies_order\<close>)
  moreover have "cstring m2 fname n" "cstring m2 (shell_fname s) sh"
    using cstring_same_outside [OF _ m2(3)] cs r by (simp_all add: exec_ready_def Let_def)
  moreover have "streq (ram s) fname (shell_fname s) = Some False"
    using streq_cstring r by (auto simp: exec_ready_def)
  ultimately show ?thesis using that [OF _ refl ff m2] mm(1) by simp
qed

text \<open>C8. Running a file other than the shell: the program is called with the contents of the file at \<open>EXEC_ADDR\<close>, and when it returns and has
  left the shell's buffer alone, the shell's image is back at \<open>EXEC_ADDR\<close>, nothing else is changed, and the program's result is the result.\<close>

theorem exec_runs_and_restores:
  assumes "exec_ready fs fname n sh i s"
  shows "\<exists>m. bytes_at m EXEC_ADDR (length (snd (fs ! i))) = snd (fs ! i) \<and> cstring m fname n \<and> cstring m (shell_fname s) sh \<and>
    (\<forall>ret t. run arg1 0 (s\<lparr>ram := m\<rparr>) = Some (ret, t) \<longrightarrow> keeps_shell fname n sh (s\<lparr>ram := m\<rparr>) t \<longrightarrow>
      (\<exists>m'. exec_initrd run fname arg1 arg2 s = Some (ret, t\<lparr>ram := m'\<rparr>) \<and>
        bytes_at m' EXEC_ADDR (unat (shell_size s)) = bytes_at (ram s) EXEC_ADDR (unat (shell_size s)) \<and>
        same_outside EXEC_ADDR (unat (shell_size s)) (ram t) m'))"
proof -
  obtain m1 m2 where e: "streq (ram s) fname (shell_fname s) = Some False"
    "m1 = memmove (shell_buf s) EXEC_ADDR (shell_size s) (ram s)"
    "finddir_fs call_finddir (fs_root s) fname (s\<lparr>ram := m1\<rparr>) = Some (node_at s (of_nat i), s\<lparr>ram := m1\<rparr>)"
    "read_fs call_read (node_at s (of_nat i)) 0 INITRD_BUFFER_SIZE EXEC_ADDR (s\<lparr>ram := m1\<rparr>) = Some (of_nat (length (snd (fs ! i))), s\<lparr>ram := m2\<rparr>)"
    "bytes_at m2 EXEC_ADDR (length (snd (fs ! i))) = snd (fs ! i)"
    "bytes_at m2 (shell_buf s) (unat (shell_size s)) = bytes_at (ram s) EXEC_ADDR (unat (shell_size s))"
    "cstring m2 fname n" "cstring m2 (shell_fname s) sh"
    by (rule exec_loads [OF assms]) blast
  have nz: "node_at s (of_nat i) \<noteq> 0" "(of_nat (length (snd (fs ! i))) :: u32) \<noteq> 0"
    and w: "no_wrap (shell_buf s) (unat (shell_size s))" "no_wrap EXEC_ADDR (unat (shell_size s))" and ne: "n \<noteq> sh"
    using assms of_nat32_eq_iff [of "length (snd (fs ! i))" 0] by (auto simp: exec_ready_def Let_def)
  have "\<exists>m'. exec_initrd run fname arg1 arg2 s = Some (ret, t\<lparr>ram := m'\<rparr>) \<and>
        bytes_at m' EXEC_ADDR (unat (shell_size s)) = bytes_at (ram s) EXEC_ADDR (unat (shell_size s)) \<and>
        same_outside EXEC_ADDR (unat (shell_size s)) (ram t) m'"
    if t: "run arg1 0 (s\<lparr>ram := m2\<rparr>) = Some (ret, t)" and k: "keeps_shell fname n sh (s\<lparr>ram := m2\<rparr>) t" for ret t
  proof -
    have "streq (ram t) fname (shell_fname t) = Some False" using k ne streq_cstring by (auto simp: keeps_shell_def)
    then have "exec_initrd run fname arg1 arg2 s = Some (ret, t\<lparr>ram := memmove EXEC_ADDR (shell_buf s) (shell_size s) (ram t)\<rparr>)"
      using e(1,3,4) t k nz by (simp add: exec_initrd_def e(2) [symmetric] keeps_shell_def)
    moreover note memmove_copies [OF w(2,1), of "ram t"]
    ultimately show ?thesis using k e(6)
      by (intro exI [of _ "memmove EXEC_ADDR (shell_buf s) (shell_size s) (ram t)"]) (simp add: keeps_shell_def)
  qed
  then show ?thesis using e(5,7,8) by blast
qed

text \<open>A name that is not on the disk: nothing is run, and the caller gets an error code. The shell has been saved by then.\<close>

lemma exec_missing:
  assumes "mounted_disk fs s" and "fs_root s = initrd_root s" and "initrd_finddir_ptr s \<noteq> 0"
    and "cstring (ram s) fname n" and "cstring (ram s) (shell_fname s) sh" and "n \<noteq> sh" and "n \<noteq> bytes ''mtp''" and "file_index fs n = None"
    and "no_wrap (shell_buf s) (unat (shell_size s))" and "no_wrap EXEC_ADDR (unat (shell_size s))"
    and "disk_apart (shell_buf s) (unat (shell_size s)) fs s" and "separate (shell_buf s) (unat (shell_size s)) fname (Suc (length n))"
  shows "exec_initrd run fname arg1 arg2 s = Some (0xDEADF113, s\<lparr>ram := memmove (shell_buf s) EXEC_ADDR (shell_size s) (ram s)\<rparr>)"
proof -
  let ?m = "memmove (shell_buf s) EXEC_ADDR (shell_size s) (ram s)"
  note mm = memmove_copies(2) [OF assms(9,10), of "ram s"]
  have md: "mounted_disk fs (s\<lparr>ram := ?m\<rparr>)" by (rule mounted_disk_frame(1) [OF assms(1) mm assms(11)])
  have "cstring ?m fname n" by (rule cstring_same_outside [OF assms(4) mm assms(12)])
  then have "finddir_fs call_finddir (fs_root s) fname (s\<lparr>ram := ?m\<rparr>) = Some (0, s\<lparr>ram := ?m\<rparr>)"
    using find_file_mounted [OF md, of fname n] assms(2,3,7,8) by simp
  then show ?thesis using streq_cstring [OF assms(4,5)] assms(6) by (simp add: exec_initrd_def)
qed

text \<open>A disk with the file \<open>a\<close>, and a shell of three bytes.\<close>

definition demo_exec_memory :: memory where
  "demo_exec_memory =
     store32 0x30008C 2 (store32 0x3000B0 0x100300 (store32 0x3000AC 0x100200 (store32 0x300290 0 (store32 0x30029C 0x100100
      (store32 0x200048 0x201304 (store32 0x20004C 3 (write_bytes 0x110010 (bytes ''mtp'' @ [0]) (write_bytes 0x110020 (bytes ''a'' @ [0])
      (write_bytes 0x110030 (bytes ''sh'' @ [0]) (write_bytes 0x300200 (bytes ''a'' @ [0]) (write_bytes 0x201304 [1, 2, 3]
      (write_bytes 0x100060 [7, 8, 9] (\<lambda>_. 0)))))))))))))"

definition demo_exec :: ramdisk where
  "demo_exec = demo_boot\<lparr>ram := demo_exec_memory, initrd_root := 0x300000, root_nodes := 0x300200, nroot_nodes := 1, file_headers := 0x200004,
     fs_root := 0x300000, shell_buf := 0x400000, shell_size := 3, shell_fname := 0x110030\<rparr>"

lemmas demo_exec_simps = demo_exec_def demo_boot_fields demo_files_def separate_lits

lemma demo_bytes: "length (bytes ''mtp'') = 3" "length (bytes ''a'') = 1" "length (bytes ''sh'') = 2"
  "0 \<notin> set (bytes ''mtp'')" "0 \<notin> set (bytes ''a'')" "0 \<notin> set (bytes ''sh'')"
  by (simp_all add: bytes_def)

lemma demo_exec_strings:
  "cstring demo_exec_memory 0x110010 (bytes ''mtp'')" "cstring demo_exec_memory 0x110020 (bytes ''a'')"
  "cstring demo_exec_memory 0x110030 (bytes ''sh'')" "cstring demo_exec_memory 0x300200 (bytes ''a'')"
  "bytes_at demo_exec_memory 0x201304 3 = [1, 2, 3]" "bytes_at demo_exec_memory 0x100060 3 = [7, 8, 9]"
  by (simp_all add: demo_exec_memory_def cstring_store32 cstring_write_other bytes_at_store32 bytes_at_write_other cstring_write_bytes
      separate_lits demo_bytes numeral_3_eq_3)
    (simp_all add: bytes_at_Suc)

lemma demo_exec_words:
  "load32 demo_exec_memory 0x30008C = 2" "load32 demo_exec_memory 0x3000B0 = 0x100300" "load32 demo_exec_memory 0x3000AC = 0x100200"
  "load32 demo_exec_memory 0x300290 = 0" "load32 demo_exec_memory 0x30029C = 0x100100" "load32 demo_exec_memory 0x200048 = 0x201304"
  "load32 demo_exec_memory 0x20004C = 3"
  by (simp_all add: demo_exec_memory_def load32_store32 load32_store32_other separate_lits)

lemma demo_exec_ready: "exec_ready demo_files 0x110020 (bytes ''a'') (bytes ''sh'') 0 demo_exec"
proof -
  have "initrd_readdir_ptr demo_exec = 0x100200"
    by (simp add: demo_exec_def demo_boot_def paging.defs pmem.defs)
  then have "mounted_disk demo_files demo_exec"
    using demo_exec_strings demo_exec_words
    by (simp add: mounted_disk_def holds_files_def file_at_def demo_exec_simps FS_DIRECTORY_def numeral_3_eq_3)
  moreover have "disk_apart 0x400000 3 demo_files demo_exec"
    using demo_exec_words by (simp add: disk_apart_def demo_exec_simps bytes_def separate_def)
  moreover have "file_index demo_files (bytes ''a'') = Some 0" by (simp add: file_index_def demo_files_def)
  ultimately show ?thesis using demo_exec_strings demo_exec_words
    by (simp add: exec_ready_def Let_def no_wrap_def EXEC_ADDR_def demo_exec_simps bytes_def separate_def)
qed

theorem exec_runs_and_restores_witness:
  "\<exists>m. exec_initrd (\<lambda>_ _ t. Some (42, t)) 0x110020 0 0 demo_exec = Some (42, demo_exec\<lparr>ram := m\<rparr>) \<and> bytes_at m EXEC_ADDR 3 = [7, 8, 9]"
proof -
  have sz: "unat (shell_size demo_exec) = 3" by (simp add: demo_exec_def)
  have b: "bytes_at (ram demo_exec) EXEC_ADDR 3 = [7, 8, 9]"
    using demo_exec_strings(6) by (simp add: demo_exec_def EXEC_ADDR_def)
  obtain m where m: "cstring m 0x110020 (bytes ''a'')" "cstring m (shell_fname demo_exec) (bytes ''sh'')"
    and k: "keeps_shell 0x110020 (bytes ''a'') (bytes ''sh'') (demo_exec\<lparr>ram := m\<rparr>) (demo_exec\<lparr>ram := m\<rparr>) \<longrightarrow>
      (\<exists>m'. exec_initrd (\<lambda>_ _ t. Some (42, t)) 0x110020 0 0 demo_exec = Some (42, demo_exec\<lparr>ram := m'\<rparr>) \<and> bytes_at m' EXEC_ADDR 3 = [7, 8, 9])"
    using exec_runs_and_restores [OF demo_exec_ready, of "\<lambda>_ _ t. Some (42, t)" 0 0] unfolding sz b by force
  then show ?thesis by (simp add: keeps_shell_def)
qed

end
