(* ===== verification/BootSpec.thy ===== *)
theory BootSpec
  imports Boot Exec HeapUse
begin

text \<open>
  The start of the shell (\<open>kernel.c\<close>) across its parts: the ram disk, the kernel heap, the string library and the terminal. The disk is kept
  while the screen and the heap are written, so the name read from the autostart file is the name that is looked up.
\<close>

subsection \<open>The mounted disk while other memory is written\<close>

text \<open>A mounted disk that lies apart from the ranges \<open>R\<close>.\<close>

definition guarded_disk :: "(u32 \<times> nat) list \<Rightarrow> disk_file list \<Rightarrow> 'a ramdisk_scheme \<Rightarrow> bool" where
  "guarded_disk R fs s \<longleftrightarrow> mounted_disk fs s \<and> fs_root s = initrd_root s \<and> initrd_read_ptr s \<noteq> 0 \<and> initrd_finddir_ptr s \<noteq> 0 \<and>
     (\<forall>i < length fs. node_at s (of_nat i) \<noteq> 0) \<and> (\<forall>(a, n) \<in> set R. disk_apart a n fs s)"

definition same_mount :: "'a ramdisk_scheme \<Rightarrow> 'a ramdisk_scheme \<Rightarrow> bool" where
  "same_mount s t \<longleftrightarrow> file_headers t = file_headers s \<and> root_nodes t = root_nodes s \<and> nroot_nodes t = nroot_nodes s \<and>
     initrd_root t = initrd_root s \<and> fs_root t = fs_root s \<and> mtp_text t = mtp_text s \<and> initrd_mtp t = initrd_mtp s \<and>
     initrd_read_ptr t = initrd_read_ptr s \<and> initrd_readdir_ptr t = initrd_readdir_ptr s \<and> initrd_finddir_ptr t = initrd_finddir_ptr s"

lemma guarded_disk_step:
  assumes "guarded_disk R fs s" and "(a, n) \<in> set R" and "same_outside a n (ram s) (ram t)" and "same_mount s t"
  shows "guarded_disk R fs t"
proof -
  note g = assms(1) [unfolded guarded_disk_def]
  have d: "disk_apart a n fs s" using g assms(2) by blast
  have m: "mounted_disk fs (s\<lparr>ram := ram t\<rparr>)"
    and h: "\<And>i. i < length fs \<Longrightarrow> load32 (ram t) (header_at s (of_nat i) + 68) = load32 (ram s) (header_at s (of_nat i) + 68)"
    using mounted_disk_frame [OF _ assms(3) d] g by blast+
  have "mounted_disk fs t" using m assms(4) by (simp add: mounted_disk_def holds_files_def file_at_def same_mount_def)
  moreover have "disk_apart b k fs t" if "(b, k) \<in> set R" for b k
    using g that h assms(4) by (fastforce simp: disk_apart_def same_mount_def)
  ultimately show ?thesis using g assms(4) by (auto simp: guarded_disk_def same_mount_def)
qed

lemma guarded_find:
  assumes "guarded_disk R fs s" and "cstring (ram s) p n" and "n \<noteq> bytes ''mtp''"
  shows "find_file p s = Some (case file_index fs n of Some i \<Rightarrow> node_at s (of_nat i) | None \<Rightarrow> 0, s)"
  using find_file_mounted [of fs s p n] assms by (simp add: guarded_disk_def)

lemma kprintf_string:
  assumes "term_ok s" and "cstring (ram s) p t" and "p \<noteq> 0" and "separate 0xB8000 5400 p (Suc (length t))" and "render fmt [Str t] = Some out"
  shows "kprintf fmt [VaWord p] s = Some (fold term_putchar out s)"
  using term_sink.printf_out [of s "[VaWord p]" "[Str t]" fmt out] assms by (simp add: kprintf_def)

lemma kprintf_string_quiet:
  assumes "term_ok s" and "cstring (ram s) p t" and "p \<noteq> 0" and "separate 0xB8000 5400 p (Suc (length t))" and "render fmt [Str t] \<noteq> None"
  shows "\<exists>s'. kprintf fmt [VaWord p] s = Some s' \<and> quiet s s'"
  using kprintf_string [OF assms(1-4)] assms(5) quiet_puts by blast

text \<open>A request served by the only block of the heap: the region keeps its bytes, and nothing outside the block is written.\<close>

lemma malloc_in_block:
  assumes "heap_block (ram s) hb cs" and "fblock (kernel_heap_state s) = hb" and "has_room hb (of_nat n) (ram s)" and "n < 4294967296"
    and "first_fit n cs = Some (off, cs')" and "kernel_mem s \<noteq> 0"
  obtains h m where "malloc (of_nat n) s = Some (of_nat (unat hb + 20 + off), s\<lparr>ram := m, kernel_heap_state := h\<rparr>)"
    and "same_outside hb (unat (hb_size (ram s) hb)) (ram s) m"
    and "bytes_at m (of_nat (unat hb + 20 + off)) n = bytes_at (ram s) (of_nat (unat hb + 20 + off)) n"
    and "20 + off + n \<le> unat (hb_size (ram s) hb)" and "unat hb + unat (hb_size (ram s) hb) < 4294967296"
proof -
  from first_fit_split [OF assms(5)] obtain pre c post where
    p: "cs = pre @ (False, c) # post" "n \<le> c" "off = total pre + 8" "first_fit n pre = None" by blast
  obtain q h m where t: "heap_take hb (of_nat (unat hb + 20 + total pre)) (of_nat n) (kernel_heap_state s, ram s) = (q, h, m)"
    by (metis prod_cases3)
  have a: "k_heapLCABAlloc (of_nat n) (kernel_heap_state s, ram s) = Some (q, h, m)"
    using alloc_take [OF assms(1) [unfolded p(1)] assms(2-4) p(4,2) refl] t by simp
  note r = heap_take_correct [OF assms(1) [unfolded p(1)] p(2) refl t]
  have e: "unat hb + 20 + total pre + 8 = unat hb + 20 + off" using p(3) by simp
  have q: "q = of_nat (unat hb + 20 + off)" using r(1) p(3) by (simp add: add.assoc)
  have c: "chain (ram s) (unat hb + 20) cs (unat hb + unat (hb_size (ram s) hb))" "unat hb + unat (hb_size (ram s) hb) < 4294967296"
    using assms(1) by (simp_all add: heap_block_def)
  have "20 + off + n \<le> unat (hb_size (ram s) hb)" using c(1) p by (auto simp: chain_append)
  moreover have "same_outside hb (unat (hb_size (ram s) hb)) (ram s) m"
    using alloc_outside [OF assms(1-5) a] by (auto simp: same_outside_def)
  moreover have "bytes_at m (of_nat (unat hb + 20 + off)) n = bytes_at (ram s) (of_nat (unat hb + 20 + off)) n"
    using r(4) unfolding e .
  moreover have "malloc (of_nat n) s = Some (of_nat (unat hb + 20 + off), s\<lparr>ram := m, kernel_heap_state := h\<rparr>)"
    using a q assms(6) by (simp add: malloc_def heap_alloc_def)
  ultimately show ?thesis using that c(2) by blast
qed

lemma heap_block_frame:
  assumes "heap_block m hb cs" and "same_outside a n m m'" and "separate a n hb (unat (hb_size m hb))"
  shows "heap_block m' hb cs" and "hb_size m' hb = hb_size m hb" and "has_room hb k m' = has_room hb k m"
proof -
  let ?S = "unat (hb_size m hb)"
  have c: "chain m (unat hb + 20) cs (unat hb + ?S)" "unat hb + ?S < 4294967296" "hb \<noteq> 0"
    using assms(1) by (simp_all add: heap_block_def)
  have S: "20 \<le> ?S" using chain_total [OF c(1)] by simp
  have "agree m m' (unat hb) (unat hb + ?S)"
    unfolding agree_def
  proof (intro allI impI)
    fix j assume j: "unat hb \<le> j \<and> j < unat hb + ?S"
    have "in_range hb ?S (hb + of_nat (j - unat hb))" using j by (intro in_range_offset) (auto intro: order.strict_implies_order)
    then have "in_range hb ?S (of_nat j)" using j by (simp add: of_nat_diff)
    then show "m' (of_nat j) = m (of_nat j)" using separateD2 [OF assms(3)] same_outsideD [OF assms(2)] by blast
  qed
  from agree_sub [OF this] have ch: "chain m' (unat hb + 20) cs (unat hb + ?S)" by (intro agree_chain [OF c(1)]) simp_all
  have l: "load32 m' (hb + i) = load32 m (hb + i)" if "unat i + 4 \<le> 20" for i
    using load32_inside [OF assms(2,3), of i] that S by (simp add: order.strict_implies_order)
  from l [of 0] l [of 4] have sz: "hb_size m' hb = hb_size m hb" and us: "hb_used m' hb = hb_used m hb" by simp_all
  with ch show "heap_block m' hb cs" "hb_size m' hb = hb_size m hb" "has_room hb k m' = has_room hb k m"
    using c(2,3) by (simp_all add: heap_block_def has_room_def sz us)
qed

subsection \<open>The name of the shell\<close>

lemma clearchar_empty: "m p = 0 \<Longrightarrow> clearchar p m = Some m"
proof -
  assume "m p = 0"
  then have "clearchar p m = Some (memset p 0 (of_nat (length ([] :: u8 list))) m)" by (intro clearchar_cstring) simp
  moreover have "memset p 0 0 m = m" by (rule ext) (simp add: memset_at)
  ultimately show ?thesis by simp
qed

text \<open>A text read into cleared memory is a C string.\<close>

lemma read_is_cstring:
  assumes "bytes_at m p n = replicate n 0" and "same_outside p (length t) m m'" and "bytes_at m' p (length t) = t"
    and "0 \<notin> set t" and "length t < n" and "n < 4294967296"
  shows "cstring m' p t"
proof (rule cstringI)
  show "m' (p + of_nat i) = t ! i" if "i < length t" for i using assms(3) that by (metis nth_bytes_at)
  have "m (p + of_nat (length t)) = 0" using assms(1,5) by (metis nth_bytes_at nth_replicate)
  moreover have "\<not> in_range p (length t) (p + of_nat (length t))" using assms(5,6) by (simp add: in_range_def)
  ultimately show "m' (p + of_nat (length t)) = 0" using assms(2) by (simp add: same_outside_def)
qed (use assms in simp_all)

text \<open>What the start of the shell relies on: the heap block \<open>hb\<close> can serve 128 bytes, and these are clear; the disk is off the heap and the
  screen, and the autostart file is the one with the index \<open>a\<close>.\<close>

definition shell_start :: "u32 \<Rightarrow> chunk list \<Rightarrow> nat \<Rightarrow> disk_file list \<Rightarrow> nat \<Rightarrow> u32 \<Rightarrow> u8 list \<Rightarrow> 'a kernel_scheme \<Rightarrow> bool" where
  "shell_start hb cs off fs a file_name n s \<longleftrightarrow>
     term_ok s \<and> kernel_mem s \<noteq> 0 \<and> fblock (kernel_heap_state s) = hb \<and> heap_block (ram s) hb cs \<and> has_room hb 128 (ram s) \<and>
     (\<exists>cs'. first_fit 128 cs = Some (off, cs')) \<and> separate 0xB8000 5400 hb (unat (hb_size (ram s) hb)) \<and>
     bytes_at (ram s) (of_nat (unat hb + 20 + off)) 128 = replicate 128 0 \<and>
     guarded_disk [(0xB8000, 5400), (hb, unat (hb_size (ram s) hb))] fs s \<and>
     cstring (ram s) file_name n \<and> file_name \<noteq> 0 \<and> separate 0xB8000 5400 file_name (Suc (length n)) \<and>
     n \<noteq> bytes ''mtp'' \<and> file_index fs n = Some a \<and> length (snd (fs ! a)) < 128 \<and> 0 \<notin> set (snd (fs ! a))"

lemma reading_renders: "render (text_line ''Reading %s...'') [Str t] \<noteq> None" "render (text_line ''Loading %s...'') [Str t] \<noteq> None"
  by (simp_all add: text_line_def bytes_def)

lemma name_shell_reads:
  fixes s :: "'a kernel_scheme"
  assumes st: "shell_start hb cs off fs a (autostart_fname k) n s"
    and tx: "snd (fs ! a) = ws1 @ name @ ws2" "name \<noteq> []" "\<not> isspace (hd name)" "\<not> isspace (last name)" "\<And>c. c \<in> set ws1 \<union> set ws2 \<Longrightarrow> isspace c"
  obtains t where "name_shell k (node_at s (of_nat a)) s = Some t" and "same_mount s t"
    and "guarded_disk [(0xB8000, 5400), (hb, unat (hb_size (ram s) hb))] fs t" and "cstring (ram t) (shell_fname t) name"
proof -
  let ?S = "unat (hb_size (ram s) hb)" and ?q = "unat hb + 20 + off" and ?R = "[(0xB8000, 5400), (hb, unat (hb_size (ram s) hb))]"
  let ?p = "of_nat ?q :: u32"
  have h: "term_ok s" "kernel_mem s \<noteq> 0" "fblock (kernel_heap_state s) = hb" "heap_block (ram s) hb cs" "has_room hb 128 (ram s)"
    "separate 0xB8000 5400 hb ?S" "bytes_at (ram s) ?p 128 = replicate 128 0" "guarded_disk ?R fs s"
    and au: "cstring (ram s) (autostart_fname k) n" "autostart_fname k \<noteq> 0" "separate 0xB8000 5400 (autostart_fname k) (Suc (length n))"
    and a: "a < length fs" "length (snd (fs ! a)) < 128" "0 \<notin> set (snd (fs ! a))"
    using st file_index_Some [of fs n a] by (simp_all add: shell_start_def)
  obtain cs' where ff: "first_fit 128 cs = Some (off, cs')" using st by (auto simp: shell_start_def)
  obtain s1 where s1: "kprintf (text_line ''Reading %s...'') [VaWord (autostart_fname k)] s = Some s1" "quiet s s1"
    using kprintf_string_quiet [OF h(1) au reading_renders(1)] by blast
  from quiet_update [OF s1(2)] obtain m1 io1 r1 c1 where e1: "s1 = s\<lparr>ram := m1, io := io1, term_row := r1, term_column := c1\<rparr>" by blast
  have o1: "same_outside 0xB8000 5400 (ram s) m1" and t1: "term_ok s1" using s1(2) h(1) e1 by (simp_all add: quiet_def)
  note fr = heap_block_frame [OF h(4) o1 h(6)]
  have S: "?S \<le> 4294967296" by (simp add: order.strict_implies_order)
  obtain h2 m2 where m2: "malloc 128 s1 = Some (?p, s1\<lparr>ram := m2, kernel_heap_state := h2\<rparr>)" "same_outside hb ?S m1 m2"
    "bytes_at m2 ?p 128 = bytes_at m1 ?p 128" and le: "20 + off + 128 \<le> ?S" "unat hb + ?S < 4294967296"
    using malloc_in_block [of s1 hb cs 128 off cs'] fr h(2,3,5) ff e1 by auto
  have p: "?p = hb + of_nat (20 + off)" by (simp add: add.assoc)
  have "separate 0xB8000 5400 ?p 128" unfolding p by (rule separate_inside [OF h(6) le(1) S])
  then have z: "bytes_at m2 ?p 128 = replicate 128 0" using bytes_at_same_outside [OF o1, of ?p 128] m2(3) h(7) by simp
  let ?s3 = "s1\<lparr>kernel_heap_state := h2, shell_fname := ?p, ram := m2\<rparr>" and ?t = "snd (fs ! a)"
  have g1: "guarded_disk ?R fs s1" by (rule guarded_disk_step [OF h(8)]) (use o1 e1 in \<open>auto simp: same_mount_def\<close>)
  have g3: "guarded_disk ?R fs ?s3" by (rule guarded_disk_step [OF g1, of hb ?S]) (use m2(2) e1 in \<open>auto simp: same_mount_def\<close>)
  have cl: "clearchar ?p m2 = Some m2"
  proof (rule clearchar_empty)
    show "m2 ?p = 0" using arg_cong [OF z, of "\<lambda>l. l ! 0"] by (simp del: of_nat_add)
  qed
  have fa: "file_at (of_nat a) (fs ! a) ?s3" using g3 a(1) by (simp add: guarded_disk_def mounted_disk_def holds_files_def)
  have rc: "read_count (length ?t) 0 128 = length ?t" using a(2) by (simp add: read_count_def)
  have "separate hb ?S (load32 (ram ?s3) (header_at ?s3 (of_nat a) + 68)) (length ?t)"
    using g3 a(1) by (simp add: guarded_disk_def disk_apart_def)
  then have "separate ?p (length ?t) (load32 (ram ?s3) (header_at ?s3 (of_nat a) + 68)) (length ?t)"
    unfolding p by (rule separate_sub) (use le(1) a(2) S in simp_all)
  then obtain m4 where m4: "read_fs call_read (node_at s (of_nat a)) 0 128 ?p ?s3 = Some (of_nat (length ?t), ?s3\<lparr>ram := m4\<rparr>)"
    "same_outside ?p (length ?t) m2 m4" "bytes_at m4 ?p (length ?t) = ?t"
    using read_file_at [OF fa, of 0 128 ?p] g3 rc e1 by (auto simp: guarded_disk_def)
  have c4: "cstring m4 ?p (ws1 @ name @ ws2)"
    using read_is_cstring [OF z m4(2,3)] a(2,3) tx(1) by simp
  let ?w = "?p + of_nat (length ws1)"
  obtain m5 where m5: "trim ?p m4 = Some (?w, m5)" "cstring m5 ?w name" "same_outside (?p + of_nat (length ws1 + length name)) 1 m4 m5"
    using trim_strips [OF c4 tx(2-5)] by blast
  have ln: "length ws1 + length name < 128" using a(2) tx(1) by simp
  have "same_outside hb ?S m2 m4" using m4(2) unfolding p by (rule same_outside_inside) (use le(1) a(2) S in simp_all)
  moreover have pw: "?p + of_nat (length ws1 + length name) = hb + of_nat (20 + off + (length ws1 + length name))" by (simp add: add.assoc)
  have "same_outside (hb + of_nat (20 + off + (length ws1 + length name))) 1 m4 m5" using m5(3) unfolding pw .
  then have "same_outside hb ?S m4 m5" by (rule same_outside_inside) (use le(1) ln S in simp_all)
  ultimately have o5: "same_outside hb ?S m2 m5" by (rule same_outside_trans)
  let ?s5 = "?s3\<lparr>ram := m5, shell_fname := ?w\<rparr>"
  have g5: "guarded_disk ?R fs ?s5" by (rule guarded_disk_step [OF g3, of hb ?S]) (use o5 in \<open>auto simp: same_mount_def\<close>)
  have w: "?w = hb + of_nat (20 + off + length ws1)" by (simp add: add.assoc)
  have sw: "separate 0xB8000 5400 ?w (Suc (length name))"
    unfolding w by (rule separate_inside [OF h(6) _ S]) (use le(1) ln in simp)
  have "?w = of_nat (?q + length ws1)" by simp
  then have w0: "?w \<noteq> 0" using of_nat32_eq_iff [of "?q + length ws1" 0] le ln by (simp del: of_nat_add)
  have t5: "term_ok ?s5" and c5: "cstring (ram ?s5) ?w name" using t1 m5(2) by (simp_all add: term_ok_def)
  obtain s6 where s6: "kprintf (text_line ''Loading %s...'') [VaWord ?w] ?s5 = Some s6" "quiet ?s5 s6"
    using kprintf_string_quiet [OF t5 c5 w0 sw reading_renders(2)] by blast
  from quiet_update [OF s6(2)] obtain m6 io6 r6 c6 where e6: "s6 = ?s5\<lparr>ram := m6, io := io6, term_row := r6, term_column := c6\<rparr>" by blast
  have o6: "same_outside 0xB8000 5400 m5 m6" using s6(2) t1 e6 by (simp add: quiet_def term_ok_def)
  have "name_shell k (node_at s (of_nat a)) s = Some s6"
    using s1(1) m2(1) cl m4(1) m5(1) s6(1) by (simp add: name_shell_def del: of_nat_add)
  moreover have "same_mount s s6" using e6 e1 by (simp add: same_mount_def)
  moreover have "guarded_disk ?R fs s6"
    by (rule guarded_disk_step [OF g5, of "0xB8000" 5400]) (use o6 e6 in \<open>auto simp: same_mount_def\<close>)
  moreover have "cstring (ram s6) (shell_fname s6) name" using cstring_same_outside [OF m5(2) o6 sw] e6 by simp
  ultimately show ?thesis using that by blast
qed


text \<open>A machine whose autostart file \<open>a\<close> names the shell \<open>b\<close>.\<close>

definition demo_start_memory :: memory where
  "demo_start_memory =
     store32 0x400000 1052 (store32 0x400004 20 (store32 0x400018 1024
      (store32 0x30008C 2 (store32 0x3000B0 0x100300 (store32 0x3000AC 0x100200 (store32 0x300290 0 (store32 0x30029C 0x100100
      (store32 0x300348 1 (store32 0x300354 0x100100 (store32 0x200048 0x201304 (store32 0x20004C 3 (store32 0x200094 0x201310 (store32 0x200098 1
      (write_bytes 0x110010 (bytes ''mtp'' @ [0]) (write_bytes 0x110020 (bytes ''a'' @ [0]) (write_bytes 0x300200 (bytes ''a'' @ [0])
      (write_bytes 0x3002B8 (bytes ''b'' @ [0]) (write_bytes 0x201304 [32, 98, 10] (write_bytes 0x201310 [1] (\<lambda>_. 0))))))))))))))))))))"

definition demo_start_files :: "disk_file list" where
  "demo_start_files = [(bytes ''a'', [32, 98, 10]), (bytes ''b'', [1])]"

definition demo_start :: kernel where
  "demo_start = demo_kernel\<lparr>ram := demo_start_memory, kernel_mem := 0x500000,
     kernel_heap_state := \<lparr>fblock = 0x400000, bcnt = 1, mem_in_use = 0, heap_size = 1052\<rparr>, initrd_root := 0x300000, root_nodes := 0x300200,
     nroot_nodes := 2, file_headers := 0x200004, fs_root := 0x300000, mtp_text := 0x110010, initrd_read_ptr := 0x100100,
     initrd_readdir_ptr := 0x100200, initrd_finddir_ptr := 0x100300\<rparr>"

lemma demo_start_words:
  "load32 demo_start_memory 0x400000 = 1052" "load32 demo_start_memory 0x400004 = 20" "load32 demo_start_memory 0x400018 = 1024"
  "load32 demo_start_memory 0x30008C = 2" "load32 demo_start_memory 0x3000B0 = 0x100300" "load32 demo_start_memory 0x3000AC = 0x100200"
  "load32 demo_start_memory 0x300290 = 0" "load32 demo_start_memory 0x30029C = 0x100100" "load32 demo_start_memory 0x300348 = 1"
  "load32 demo_start_memory 0x300354 = 0x100100" "load32 demo_start_memory 0x200048 = 0x201304" "load32 demo_start_memory 0x20004C = 3"
  "load32 demo_start_memory 0x200094 = 0x201310" "load32 demo_start_memory 0x200098 = 1"
  by (simp_all add: demo_start_memory_def load32_store32 load32_store32_other separate_lits)

lemma demo_start_strings:
  "cstring demo_start_memory 0x110010 (bytes ''mtp'')" "cstring demo_start_memory 0x110020 (bytes ''a'')"
  "cstring demo_start_memory 0x300200 (bytes ''a'')" "cstring demo_start_memory 0x3002B8 (bytes ''b'')"
  "bytes_at demo_start_memory 0x201304 3 = [32, 98, 10]" "bytes_at demo_start_memory 0x201310 1 = [1]"
  "bytes_at demo_start_memory 0x40001C 128 = replicate 128 0"
proof -
  have b: "length (bytes ''b'') = 1" "0 \<notin> set (bytes ''b'')" by (simp_all add: bytes_def)
  note d = demo_start_memory_def cstring_store32 cstring_write_other bytes_at_store32 bytes_at_write_other cstring_write_bytes separate_lits demo_bytes b
  show "cstring demo_start_memory 0x110010 (bytes ''mtp'')" "cstring demo_start_memory 0x110020 (bytes ''a'')"
    "cstring demo_start_memory 0x300200 (bytes ''a'')" "cstring demo_start_memory 0x3002B8 (bytes ''b'')" by (simp_all add: d)
  show "bytes_at demo_start_memory 0x201304 3 = [32, 98, 10]" "bytes_at demo_start_memory 0x201310 1 = [1]"
    by (simp_all add: d numeral_3_eq_3) (simp_all add: bytes_at_Suc)
  have "bytes_at demo_start_memory 0x40001C 128 = bytes_at (\<lambda>_. 0) 0x40001C 128"
    by (simp add: d del: write_bytes.simps)
  then show "bytes_at demo_start_memory 0x40001C 128 = replicate 128 0" unfolding bytes_at_blank .
qed

lemma demo_start_ok: "shell_start 0x400000 [(False, 1024)] 8 demo_start_files 0 0x110020 (bytes ''a'') demo_start"
proof -
  note f = demo_start_words demo_start_strings
  have t: "term_ok demo_start" using demo_boot_fields(4) by (simp add: demo_start_def demo_kernel_def ramdisk.defs term_ok_def)
  have less2: "(\<forall>i < Suc (Suc 0). P i) \<longleftrightarrow> P 0 \<and> P 1" for P :: "nat \<Rightarrow> bool" by (auto simp: less_Suc_eq)
  have "mounted_disk demo_start_files demo_start"
    using f by (simp add: mounted_disk_def holds_files_def file_at_def demo_start_def demo_start_files_def FS_DIRECTORY_def less2 numeral_3_eq_3)
  moreover have "disk_apart 0xB8000 5400 demo_start_files demo_start" "disk_apart 0x400000 1052 demo_start_files demo_start"
    using f by (simp_all add: disk_apart_def demo_start_def demo_start_files_def less2 bytes_def separate_def)
  ultimately have "guarded_disk [(0xB8000, 5400), (0x400000, 1052)] demo_start_files demo_start"
    by (simp add: guarded_disk_def demo_start_def demo_start_files_def less2)
  moreover have "heap_block demo_start_memory 0x400000 [(False, 1024)]"
    using f by (simp add: heap_block_def flag_word_def)
  moreover have "file_index demo_start_files (bytes ''a'') = Some 0" by (simp add: file_index_def demo_start_files_def upt_rec)
  ultimately show ?thesis using f t
    by (simp add: shell_start_def demo_start_def has_room_def taken_def demo_start_files_def bytes_def separate_def)
qed


end
