(* ===== verification/Tasks.thy ===== *)
theory Tasks
  imports HeapUse
begin

text \<open>
  \<open>system/task.h\<close>: cooperative tasks, a ring of structures of 64 bytes in memory through which \<open>task_yield\<close> goes round. The
  assembler body of \<open>task_switch\<close> is an argument \<open>switch\<close> of the operations: it takes the addresses of the two register sets and
  the state, and gives the state in which the code after the switch goes on.
\<close>

subsection \<open>State\<close>

text \<open>The kernel's own task is a structure at the address \<open>task_main\<close>.\<close>

record tasking = pmem +
  skip :: bool
  task_current :: u32
  task_last :: u32
  task_main :: u32
  lid :: u32

text \<open>The members of \<open>task_t\<close>; \<open>regs\<close> is at offset 8.\<close>

definition task_id :: "memory \<Rightarrow> u32 \<Rightarrow> u32" where "task_id m t = load32 m t"
definition sleeptime :: "memory \<Rightarrow> u32 \<Rightarrow> u32" where "sleeptime m t = load32 m (t + 4)"
definition entrypoint :: "memory \<Rightarrow> u32 \<Rightarrow> u32" where "entrypoint m t = load32 m (t + 52)"
definition task_next :: "memory \<Rightarrow> u32 \<Rightarrow> u32" where "task_next m t = load32 m (t + 56)"
definition task_prev :: "memory \<Rightarrow> u32 \<Rightarrow> u32" where "task_prev m t = load32 m (t + 60)"

text \<open>The offsets of the members of \<open>task_regs_t\<close> in the task structure.\<close>

abbreviation REG_EAX :: u32 where "REG_EAX \<equiv> 8"
abbreviation REG_EBX :: u32 where "REG_EBX \<equiv> 12"
abbreviation REG_ECX :: u32 where "REG_ECX \<equiv> 16"
abbreviation REG_EDX :: u32 where "REG_EDX \<equiv> 20"
abbreviation REG_ESI :: u32 where "REG_ESI \<equiv> 24"
abbreviation REG_EDI :: u32 where "REG_EDI \<equiv> 28"
abbreviation REG_ESP :: u32 where "REG_ESP \<equiv> 32"
abbreviation REG_EIP :: u32 where "REG_EIP \<equiv> 40"
abbreviation REG_EFLAGS :: u32 where "REG_EFLAGS \<equiv> 44"
abbreviation REG_CR3 :: u32 where "REG_CR3 \<equiv> 48"

definition put_field :: "u32 \<Rightarrow> u32 \<Rightarrow> u32 \<Rightarrow> 'a machine_scheme \<Rightarrow> 'a machine_scheme" where
  "put_field t off v s = s\<lparr>ram := store32 (t + off) v (ram s)\<rparr>"

subsection \<open>Operations\<close>

definition save_task_state :: "'a tasking_scheme \<Rightarrow> 'a tasking_scheme" where
  "save_task_state s =
     (let s = get_regs (cpu_regs s) s;
          t = task_current s;
          s = put_field t REG_EAX (eax (regdump s)) s;
          s = put_field t REG_EBX (ebx (regdump s)) s;
          s = put_field t REG_ECX (ecx (regdump s)) s;
          s = put_field t REG_EDX (edx (regdump s)) s;
          s = put_field t REG_ESI (esi (regdump s)) s;
          s = put_field t REG_EDI (edi (regdump s)) s
      in put_field t REG_ESP (esp (regdump s)) s)"

definition tasking_pause :: "(u32 \<Rightarrow> u32 \<Rightarrow> 'a tasking_scheme \<Rightarrow> 'a tasking_scheme option) \<Rightarrow> 'a tasking_scheme \<Rightarrow> 'a tasking_scheme option" where
  "tasking_pause switch s =
     (let s = s\<lparr>skip := True\<rparr>; s = save_task_state s
      in switch (task_current s + 8) (task_main s + 8) s)"

definition tasking_resume :: "'a tasking_scheme \<Rightarrow> 'a tasking_scheme" where
  "tasking_resume s = s\<lparr>skip := False\<rparr>"

definition task_yield :: "(u32 \<Rightarrow> u32 \<Rightarrow> 'a tasking_scheme \<Rightarrow> 'a tasking_scheme option) \<Rightarrow> 'a tasking_scheme \<Rightarrow> 'a tasking_scheme option" where
  "task_yield switch s =
     (if skip s then Some s
      else if task_next (ram s) (task_current s) = task_current s then Some s
      else
        let s = save_task_state s;
            prior = task_current s;
            s = s\<lparr>task_current := task_next (ram s) (task_current s)\<rparr>;
            s = (if sleeptime (ram s) (task_current s) > 0
                 then (put_field (task_current s) 4 (sleeptime (ram s) (task_current s) - 1) s)\<lparr>task_current := prior\<rparr>
                 else s)
        in switch (prior + 8) (task_current s + 8) s)"

text \<open>The part of \<open>task_spawn\<close> between pausing and resuming: the task is linked in behind the last one and its registers are set.\<close>

definition task_enter :: "u32 \<Rightarrow> u32 \<Rightarrow> u32 \<Rightarrow> 'a tasking_scheme \<Rightarrow> 'a tasking_scheme option" where
  "task_enter task main flags s = do {
     let s = s\<lparr>lid := lid s + 1\<rparr>;
     let s = put_field task 0 (lid s) s;
     let s = put_field (task_last s) 56 task s;
     let s = put_field task 60 (task_last s) s;
     let s = s\<lparr>task_last := task\<rparr>;
     s \<leftarrow> kprintf (text_line ''New task created (0x%X | PID: %u)'') [VaWord main, VaWord (task_id (ram s) task)] s;
     let s = put_field task REG_EAX 0 s;
     let s = put_field task REG_EBX 0 s;
     let s = put_field task REG_ECX 0 s;
     let s = put_field task REG_EDX 0 s;
     let s = put_field task REG_ESI 0 s;
     let s = put_field task REG_CR3 (load32 (ram s) (task_main s + REG_CR3)) s;
     let s = put_field task REG_EDI 0 s;
     let s = put_field task REG_EFLAGS flags s;
     let s = put_field task REG_EIP main s;
     let s = put_field task 52 (load32 (ram s) (task + REG_EIP)) s;
     (p, s) \<leftarrow> amalloc 0x1000 s;
     let s = put_field task REG_ESP p s;
     let s = put_field task 56 (task_main s) s;
     Some (put_field (task_main s) 60 task s) }"

definition task_spawn :: "(u32 \<Rightarrow> u32 \<Rightarrow> 'a tasking_scheme \<Rightarrow> 'a tasking_scheme option) \<Rightarrow> u32 \<Rightarrow> u32 \<Rightarrow> u32
    \<Rightarrow> 'a tasking_scheme \<Rightarrow> 'a tasking_scheme option" where
  "task_spawn switch task main flags s = do {
     s \<leftarrow> tasking_pause switch s;
     s \<leftarrow> task_enter task main flags s;
     task_yield switch (tasking_resume s) }"

definition task_sleep :: "u32 \<Rightarrow> u32 \<Rightarrow> 'a tasking_scheme \<Rightarrow> 'a tasking_scheme" where
  "task_sleep task ticks s = put_field task 4 ticks s"

definition task_self_sleep :: "u32 \<Rightarrow> 'a tasking_scheme \<Rightarrow> 'a tasking_scheme" where
  "task_self_sleep ticks s = task_sleep (task_current s) ticks s"

definition task_kill :: "(u32 \<Rightarrow> u32 \<Rightarrow> 'a tasking_scheme \<Rightarrow> 'a tasking_scheme option) \<Rightarrow> u32 \<Rightarrow> 'a tasking_scheme \<Rightarrow> 'a tasking_scheme option" where
  "task_kill switch task s = do {
     s \<leftarrow> tasking_pause switch s;
     let s = (if task = task_last s then s\<lparr>task_last := task_prev (ram s) task\<rparr> else s);
     let s = put_field (task_prev (ram s) task) 56 (task_next (ram s) task) s;
     let s = put_field (task_next (ram s) task) 60 (task_prev (ram s) task) s;
     let s = s\<lparr>task_current := task_main s\<rparr>;
     Some (tasking_resume s) }"

definition task_self_kill :: "(u32 \<Rightarrow> u32 \<Rightarrow> 'a tasking_scheme \<Rightarrow> 'a tasking_scheme option) \<Rightarrow> 'a tasking_scheme \<Rightarrow> 'a tasking_scheme option" where
  "task_self_kill switch s = do {
     s \<leftarrow> kprintf (text_line ''Task end request: PID %u'') [VaWord (task_id (ram s) (task_current s))] s;
     task_kill switch (task_current s) s }"

text \<open>The loops of \<open>task_kill_pid\<close> and \<open>task_list\<close> go round the ring until they are back at the kernel's task.\<close>

partial_function (option) kill_pid_loop :: "(u32 \<Rightarrow> u32 \<Rightarrow> 'a tasking_scheme \<Rightarrow> 'a tasking_scheme option) \<Rightarrow> u32 \<Rightarrow> bool \<Rightarrow> u32
    \<Rightarrow> 'a tasking_scheme \<Rightarrow> (bool \<times> 'a tasking_scheme) option" where
  "kill_pid_loop switch pid lst tmp s =
     (if lst \<or> tmp \<noteq> task_main s then
        if task_id (ram s) tmp = pid then do {
          s \<leftarrow> task_kill switch tmp s;
          s \<leftarrow> kprintf (text_line ''Task #%u killed!'') [VaWord pid] s;
          Some (True, s) }
        else kill_pid_loop switch pid False (task_next (ram s) tmp) s
      else Some (False, s))"

definition task_kill_pid :: "(u32 \<Rightarrow> u32 \<Rightarrow> 'a tasking_scheme \<Rightarrow> 'a tasking_scheme option) \<Rightarrow> u32
    \<Rightarrow> 'a tasking_scheme \<Rightarrow> (bool \<times> 'a tasking_scheme) option" where
  "task_kill_pid switch pid s = kill_pid_loop switch pid True (task_main s) s"

partial_function (option) task_list_loop :: "bool \<Rightarrow> u32 \<Rightarrow> 'a tasking_scheme \<Rightarrow> 'a tasking_scheme option" where
  "task_list_loop lst tmp s =
     (if lst \<or> tmp \<noteq> task_main s then do {
        s \<leftarrow> kprintf (text_line ''PID: %u | Entrypoint: 0x%X | Sleeptime: %u'')
          [VaWord (task_id (ram s) tmp), VaWord (entrypoint (ram s) tmp), VaWord (sleeptime (ram s) tmp)] s;
        task_list_loop False (task_next (ram s) tmp) s }
      else Some s)"

definition task_list :: "'a tasking_scheme \<Rightarrow> 'a tasking_scheme option" where
  "task_list s = do {
     s \<leftarrow> task_list_loop True (task_main s) s;
     Some (term_undo_nl s) }"

text \<open>\<open>kmain_addr\<close> is the address of \<open>kmain\<close>.\<close>

definition tasking_init :: "u32 \<Rightarrow> 'a tasking_scheme \<Rightarrow> 'a tasking_scheme option" where
  "tasking_init kmain_addr s = do {
     let t = task_main s;
     let s = put_field t REG_CR3 (cr3 s) s;
     s \<leftarrow> kprintf (text_line ''cr3: 0x%X'') [VaWord (load32 (ram s) (t + REG_CR3))] s;
     let s = put_field t REG_EFLAGS (eflags (cpu_regs s)) s;
     let s = get_regs (cpu_regs s) s;
     let s = put_field t 52 kmain_addr s;
     let s = put_field t REG_ESP (esp (regdump s)) s;
     let s = put_field t REG_EIP (eip (regdump s)) s;
     let s = put_field t REG_EAX (eax (regdump s)) s;
     let s = put_field t REG_EBX (ebx (regdump s)) s;
     let s = put_field t REG_ECX (ecx (regdump s)) s;
     let s = put_field t REG_EDX (edx (regdump s)) s;
     let s = put_field t REG_ESI (esi (regdump s)) s;
     let s = put_field t REG_EDI (edi (regdump s)) s;
     let s = put_field t 4 0 s;
     let s = s\<lparr>task_last := t\<rparr>;
     let s = put_field t 0 (lid s) s;
     let s = put_field t 56 t s;
     let s = s\<lparr>task_current := t\<rparr>;
     kprintf (text_line ''Tasking initialized!'' @ text_line ''Kernel thread (0x%X | PID: %u)'')
       [VaWord (load32 (ram s) (t + REG_EIP)), VaWord (task_id (ram s) t)] s }"

end
