(* ===== verification/TaskRing.thy ===== *)
theory TaskRing
  imports Tasks
begin

text \<open>
  The tasks as a list: the ring of structures is abstracted to the list of its addresses, starting at the kernel's task. Every
  operation keeps the ring; \<open>task_yield\<close> goes round it and leaves nobody out.
\<close>

subsection \<open>Members of task structures\<close>

lemma load_field_same: "separate a 4 b 4 \<Longrightarrow> load32 (store32 (t + a) v m) (t + b) = load32 m (t + b)"
  by (rule load32_store32_other) (simp add: separate_def)

lemma load_field_other:
  assumes "separate t 64 u 64" and "unat a \<le> 60" and "unat b \<le> 60"
  shows "load32 (store32 (t + a) v m) (u + b) = load32 m (u + b)"
proof (rule load32_store32_other)
  have "separate (t + of_nat (unat a)) 4 u 64" by (rule separate_sub [OF assms(1)]) (use assms(2) in simp_all)
  then have "separate u 64 (t + a) 4" by (simp add: separate_sym)
  then have "separate (u + of_nat (unat b)) 4 (t + a) 4" by (rule separate_sub) (use assms(3) in simp_all)
  then show "separate (t + a) 4 (u + b) 4" by (simp add: separate_sym)
qed

definition apart :: "u32 set \<Rightarrow> bool" where
  "apart T \<longleftrightarrow> (\<forall>t \<in> T. \<forall>u \<in> T. t \<noteq> u \<longrightarrow> separate t 64 u 64)"

lemma field_put:
  assumes "apart T" and "t \<in> T" and "u \<in> T" and "unat a \<le> 60" and "unat b \<le> 60" and "a = b \<or> separate a 4 b 4"
  shows "load32 (store32 (t + a) v m) (u + b) = (if u = t \<and> a = b then v else load32 m (u + b))"
proof (cases "u = t")
  case True
  then show ?thesis using assms(6) load_field_same [of a b t v m] by (auto simp: load32_store32)
next
  case False
  then have "separate t 64 u 64" using assms(1-3) by (auto simp: apart_def)
  then show ?thesis using load_field_other [OF _ assms(4,5)] False by simp
qed

lemmas field_put_0 = field_put [where b = 0, simplified] field_put [where a = 0, simplified] field_put [where a = 0 and b = 0, simplified]

subsection \<open>The ring\<close>

fun linked :: "memory \<Rightarrow> u32 list \<Rightarrow> bool" where
  "linked m (a # b # ts) \<longleftrightarrow> task_next m a = b \<and> task_prev m b = a \<and> linked m (b # ts)"
| "linked m ts \<longleftrightarrow> True"

definition task_ring :: "u32 list \<Rightarrow> 'a tasking_scheme \<Rightarrow> bool" where
  "task_ring ts s \<longleftrightarrow> ts \<noteq> [] \<and> hd ts = task_main s \<and> last ts = task_last s \<and> task_current s \<in> set ts \<and> distinct ts
     \<and> apart (set ts) \<and> linked (ram s) ts \<and> task_next (ram s) (task_last s) = task_main s"

lemma ring_members: "task_ring ts s \<Longrightarrow> task_last s \<in> set ts \<and> task_main s \<in> set ts"
  unfolding task_ring_def by (metis hd_in_set last_in_set)

lemma linked_append:
  "linked m (xs @ y # ys) \<longleftrightarrow> linked m xs \<and> linked m (y # ys) \<and> (xs \<noteq> [] \<longrightarrow> task_next m (last xs) = y \<and> task_prev m y = last xs)"
proof (induction m xs rule: linked.induct)
  case (1 m a b ts)
  then show ?case by auto
qed (auto simp: neq_Nil_conv)

lemma linked_cong:
  "linked m ts \<Longrightarrow> (\<And>t. t \<in> set ts \<Longrightarrow> task_next m' t = task_next m t \<and> task_prev m' t = task_prev m t) \<Longrightarrow> linked m' ts"
  by (induction m ts rule: linked.induct) auto

lemma linked_next: "linked m ts \<Longrightarrow> Suc i < length ts \<Longrightarrow> task_next m (ts ! i) = ts ! Suc i"
  by (induction m ts arbitrary: i rule: linked.induct) (auto simp: nth_Cons split: nat.splits)

lemma ring_next:
  assumes "task_ring ts s" and "i < length ts"
  shows "task_next (ram s) (ts ! i) = ts ! (Suc i mod length ts)"
proof (cases "Suc i < length ts")
  case False
  then have "i = length ts - 1" using assms(2) by simp
  then show ?thesis using assms by (auto simp: task_ring_def last_conv_nth simp flip: hd_conv_nth)
qed (use assms linked_next in \<open>auto simp: task_ring_def\<close>)

text \<open>What keeps a ring: the links of its tasks, and the variables.\<close>

definition same_tasks :: "u32 set \<Rightarrow> 'a tasking_scheme \<Rightarrow> 'a tasking_scheme \<Rightarrow> bool" where
  "same_tasks T s s' \<longleftrightarrow> task_current s' = task_current s \<and> task_last s' = task_last s \<and> task_main s' = task_main s \<and> lid s' = lid s \<and> (term_ok s \<longrightarrow> term_ok s')
     \<and> (\<forall>t \<in> T. \<forall>o' \<in> {0, 4, 52, 56, 60}. load32 (ram s') (t + o') = load32 (ram s) (t + o'))"

lemma same_tasks_refl: "same_tasks T s s" by (simp add: same_tasks_def)

lemma same_tasks_trans: "same_tasks T s s' \<Longrightarrow> same_tasks T s' s'' \<Longrightarrow> same_tasks T s s''"
  by (simp add: same_tasks_def)

lemma same_tasks_fields:
  assumes "same_tasks T s s'" and "t \<in> T"
  shows "task_next (ram s') t = task_next (ram s) t" "task_prev (ram s') t = task_prev (ram s) t"
    "task_id (ram s') t = task_id (ram s) t" "sleeptime (ram s') t = sleeptime (ram s) t" "entrypoint (ram s') t = entrypoint (ram s) t"
  using assms bspec [of T "\<lambda>t. \<forall>o' \<in> {0, 4, 52, 56, 60}. load32 (ram s') (t + o') = load32 (ram s) (t + o')" t]
  by (auto simp: same_tasks_def task_next_def task_prev_def task_id_def sleeptime_def entrypoint_def)

lemma same_tasks_ring: "same_tasks (set ts) s s' \<Longrightarrow> task_ring ts s \<Longrightarrow> task_ring ts s'"
  using linked_cong [of "ram s" ts "ram s'"] same_tasks_fields [of "set ts" s s'] last_in_set [of ts]
  unfolding task_ring_def by (auto simp: same_tasks_def)

text \<open>Register members are none of these.\<close>

definition reg_offsets :: "u32 set" where "reg_offsets = {8, 12, 16, 20, 24, 28, 32, 36, 40, 44, 48}"

lemma same_tasks_reg:
  assumes "same_tasks T s0 s" and "apart T" and "t \<in> T" and "a \<in> reg_offsets"
  shows "same_tasks T s0 (put_field t a v s)"
proof -
  have a: "unat a \<le> 60" "\<And>b. b \<in> {0, 4, 52, 56, 60} \<Longrightarrow> unat b \<le> 60 \<and> a \<noteq> b \<and> separate a 4 b 4"
    using assms(4) by (auto simp: reg_offsets_def separate_def)
  have "load32 (store32 (t + a) v m) (u + b) = load32 m (u + b)" if "u \<in> T" "b \<in> {0, 4, 52, 56, 60}" for u b m
    using field_put [OF assms(2,3) that(1) a(1), of b v m] a(2) [OF that(2)] by simp
  then show ?thesis using assms(1) unfolding same_tasks_def put_field_def by (simp add: term_ok_def)
qed

lemma same_tasks_save:
  assumes "apart T" and "task_current s \<in> T"
  shows "same_tasks T s (save_task_state s)"
proof -
  have r: "same_tasks T s (get_regs (cpu_regs s) s)" by (simp add: same_tasks_def get_regs_def term_ok_def)
  have c: "task_current (get_regs c s) = task_current s" for c by (simp add: get_regs_def)
  show ?thesis unfolding save_task_state_def Let_def
    by (intro same_tasks_reg r assms) (use assms c in \<open>simp_all add: reg_offsets_def\<close>)
qed

subsection \<open>Yielding\<close>

lemma ring_index [simp]: "Suc 0 < length ts \<Longrightarrow> k mod length ts < length ts"
  using mod_less_divisor [of "length ts" k] by linarith

lemma sleep_offset: "4 \<notin> reg_offsets" "0 \<notin> reg_offsets" by (simp_all add: reg_offsets_def)

lemma put_sleep:
  assumes "apart T" and "t \<in> T" and "u \<in> T"
  shows "sleeptime (ram (put_field t 4 v s)) u = (if u = t then v else sleeptime (ram s) u)"
    and "task_next (ram (put_field t 4 v s)) u = task_next (ram s) u" and "task_prev (ram (put_field t 4 v s)) u = task_prev (ram s) u"
    and "task_id (ram (put_field t 4 v s)) u = task_id (ram s) u"
  using assms field_put [OF assms, of 4] field_put [OF assms, of 4 0 v "ram s"]
  by (simp_all add: put_field_def sleeptime_def task_next_def task_prev_def task_id_def separate_def)

text \<open>Calling \<open>task_yield\<close> from the task at position \<open>i\<close>: the next task runs unless it sleeps, and then its sleep gets one
  shorter and the caller goes on.\<close>

definition turn :: "u32 list \<Rightarrow> nat \<Rightarrow> memory \<Rightarrow> nat" where
  "turn ts i m = (if sleeptime m (ts ! (Suc i mod length ts)) > 0 then i else Suc i mod length ts)"

lemma yield_step:
  assumes r: "task_ring ts s" and n: "1 < length ts" and i: "i < length ts" "task_current s = ts ! i" and u: "\<not> skip s"
  shows "\<exists>s'. task_yield switch s = switch (ts ! i + 8) (ts ! turn ts i (ram s) + 8) s' \<and> task_ring ts s' \<and> \<not> skip s'
    \<and> task_current s' = ts ! turn ts i (ram s)
    \<and> (\<forall>t \<in> set ts. sleeptime (ram s') t =
        (if t = ts ! (Suc i mod length ts) then sleeptime (ram s) t - (if sleeptime (ram s) t > 0 then 1 else 0) else sleeptime (ram s) t))"
proof -
  define nx where "nx = ts ! (Suc i mod length ts)"
  have d: "distinct ts" and ap: "apart (set ts)" and c: "task_current s \<in> set ts" using r by (simp_all add: task_ring_def)
  have mem: "nx \<in> set ts" "ts ! i \<in> set ts" using n i by (simp_all add: nx_def)
  have "Suc i mod length ts \<noteq> i" using n i by (cases "Suc i = length ts") simp_all
  then have ne: "nx \<noteq> ts ! i" unfolding nx_def using nth_eq_iff_index_eq [OF d, of "Suc i mod length ts" i] n i(1) by simp
  define s1 where "s1 = save_task_state s"
  have st: "same_tasks (set ts) s s1" unfolding s1_def by (rule same_tasks_save [OF ap c])
  note f = same_tasks_fields [OF st]
  have r1: "task_ring ts s1" by (rule same_tasks_ring [OF st r])
  have c1: "task_current s1 = ts ! i" "\<not> skip s1"
    using st i(2) u by (simp_all add: same_tasks_def) (simp add: s1_def save_task_state_def put_field_def get_regs_def Let_def)
  have nx: "task_next (ram s) (ts ! i) = nx" using ring_next [OF r i(1)] by (simp add: nx_def)
  then have nx1: "task_next (ram s1) (ts ! i) = nx" using f(1) [OF mem(2)] by simp
  let ?s2 = "if sleeptime (ram s) nx > 0 then (put_field nx 4 (sleeptime (ram s) nx - 1) (s1\<lparr>task_current := nx\<rparr>))\<lparr>task_current := ts ! i\<rparr>
             else s1\<lparr>task_current := nx\<rparr>"
  have "task_yield switch s = switch (ts ! i + 8) (task_current ?s2 + 8) ?s2"
    using u nx ne i(2) c1 nx1 f(4) [OF mem(1)] by (simp add: task_yield_def Let_def s1_def)
  moreover have "task_ring ts ?s2"
  proof (cases "sleeptime (ram s) nx > 0")
    case True
    let ?p = "put_field nx 4 (sleeptime (ram s) nx - 1) (s1\<lparr>task_current := nx\<rparr>)"
    have "linked (ram ?p) ts"
      by (rule linked_cong [of "ram s1"]) (use r1 in \<open>simp_all add: task_ring_def put_sleep [OF ap mem(1)]\<close>)
    moreover have "task_next (ram ?p) (task_last s1) = task_next (ram s1) (task_last s1)"
      using ring_members [OF r1] by (simp add: put_sleep [OF ap mem(1)])
    ultimately show ?thesis using r1 True mem by (simp add: task_ring_def) (simp add: put_field_def)
  qed (use r1 mem in \<open>simp add: task_ring_def\<close>)
  moreover have "\<not> skip ?s2" using c1(2) by (simp add: put_field_def)
  moreover have "task_current ?s2 = ts ! turn ts i (ram s)" by (simp add: turn_def flip: nx_def)
  moreover have "\<forall>t \<in> set ts. sleeptime (ram ?s2) t =
      (if t = nx then sleeptime (ram s) t - (if sleeptime (ram s) t > 0 then 1 else 0) else sleeptime (ram s) t)"
    using f(4) by (simp add: put_sleep [OF ap mem(1)])
  ultimately show ?thesis unfolding nx_def by (intro exI [of _ ?s2, unfolded nx_def]) (simp add: nx_def)
qed

text \<open>The switches of the model: the processor saves the registers of the task that gives it up and later comes back to it,
  and nothing else changes. The register set is at offset 8, of 44 bytes.\<close>

definition resumes :: "(u32 \<Rightarrow> u32 \<Rightarrow> 'a tasking_scheme \<Rightarrow> 'a tasking_scheme option) \<Rightarrow> bool" where
  "resumes switch \<longleftrightarrow> (\<forall>a b s. \<exists>m. switch a b s = Some (s\<lparr>ram := m\<rparr>) \<and> same_outside a 44 (ram s) m)"

lemma switch_regs:
  assumes "apart T" and "t \<in> T" and "same_outside (t + 8) 44 (ram s) m"
  shows "same_tasks T s (s\<lparr>ram := m\<rparr>)"
proof -
  have "load32 m (u + b) = load32 (ram s) (u + b)" if u: "u \<in> T" and b: "b \<in> {0, 4, 52, 56, 60}" for u b
  proof (rule load32_same_outside [OF assms(3)])
    show "separate (t + 8) 44 (u + b) 4"
    proof (cases "u = t")
      case True
      then show ?thesis using b by (auto simp: separate_def)
    next
      case False
      then have "separate t 64 u 64" using assms(1,2) u by (auto simp: apart_def)
      then have "separate (t + of_nat 8) 44 u 64" by (rule separate_sub) simp_all
      then have "separate u 64 (t + 8) 44" by (simp add: separate_sym)
      then have "separate (u + of_nat (unat b)) 4 (t + 8) 44" by (rule separate_sub) (use b in auto)
      then show ?thesis by (simp add: separate_sym)
    qed
  qed
  then show ?thesis by (simp add: same_tasks_def term_ok_def)
qed

lemma switch_resumes:
  assumes "resumes switch" and "apart T" and "t \<in> T"
  obtains s' where "switch (t + 8) b s = Some s'" and "same_tasks T s s'" and "skip s' = skip s"
    and "\<exists>m. s' = s\<lparr>ram := m\<rparr> \<and> same_outside (t + 8) 44 (ram s) m"
proof -
  obtain m where m: "switch (t + 8) b s = Some (s\<lparr>ram := m\<rparr>)" "same_outside (t + 8) 44 (ram s) m"
    using assms(1) unfolding resumes_def by blast
  then show ?thesis using that [of "s\<lparr>ram := m\<rparr>"] switch_regs [OF assms(2,3), of s m] by auto
qed

fun yields :: "(u32 \<Rightarrow> u32 \<Rightarrow> 'a tasking_scheme \<Rightarrow> 'a tasking_scheme option) \<Rightarrow> nat \<Rightarrow> 'a tasking_scheme \<Rightarrow> 'a tasking_scheme option" where
  "yields switch 0 s = Some s"
| "yields switch (Suc n) s = do { s \<leftarrow> task_yield switch s; yields switch n s }"

lemma yields_add: "yields switch (n + k) s = do { s \<leftarrow> yields switch n s; yields switch k s }"
  by (induction n arbitrary: s) (simp_all add: bind_assoc split: Option.bind_split)

text \<open>The system at a point where the task at position \<open>i\<close> has the processor.\<close>

definition running :: "u32 list \<Rightarrow> nat \<Rightarrow> (u32 \<Rightarrow> nat) \<Rightarrow> 'a tasking_scheme \<Rightarrow> bool" where
  "running ts i w s \<longleftrightarrow> task_ring ts s \<and> 1 < length ts \<and> i < length ts \<and> task_current s = ts ! i \<and> \<not> skip s
     \<and> (\<forall>t \<in> set ts. unat (sleeptime (ram s) t) = w t)"

lemma unat_pred: "unat (x - (if x > 0 then 1 else 0)) = unat x - 1" for x :: u32
  by (cases "x = 0") (simp_all add: unat_minus_one word_gt_0)

lemma yield_running:
  assumes "resumes switch" and "running ts i w s"
  defines "j \<equiv> Suc i mod length ts"
  shows "\<exists>s'. task_yield switch s = Some s' \<and> running ts (if w (ts ! j) > 0 then i else j) (w(ts ! j := w (ts ! j) - 1)) s'"
proof -
  have r: "task_ring ts s" "1 < length ts" "i < length ts" "task_current s = ts ! i" "\<not> skip s"
    and w: "\<And>t. t \<in> set ts \<Longrightarrow> unat (sleeptime (ram s) t) = w t" using assms(2) by (auto simp: running_def)
  have ap: "apart (set ts)" using r(1) by (simp add: task_ring_def)
  have j: "j < length ts" "ts ! j \<in> set ts" using r(2) by (simp_all add: j_def)
  have tn: "turn ts i (ram s) = (if w (ts ! j) > 0 then i else j)"
    using w [OF j(2)] by (simp add: turn_def word_less_nat_alt flip: j_def)
  obtain s1 where s1: "task_yield switch s = switch (ts ! i + 8) (ts ! turn ts i (ram s) + 8) s1" "task_ring ts s1" "\<not> skip s1"
    "task_current s1 = ts ! turn ts i (ram s)"
    "\<And>t. t \<in> set ts \<Longrightarrow> sleeptime (ram s1) t =
        (if t = ts ! j then sleeptime (ram s) t - (if sleeptime (ram s) t > 0 then 1 else 0) else sleeptime (ram s) t)"
    using yield_step [OF r(1-5), of switch] unfolding j_def by blast
  obtain s2 where s2: "switch (ts ! i + 8) (ts ! turn ts i (ram s) + 8) s1 = Some s2" "same_tasks (set ts) s1 s2" "skip s2 = skip s1"
    by (rule switch_resumes [OF assms(1) ap nth_mem [OF r(3)], of "ts ! turn ts i (ram s) + 8" s1]) blast
  have "unat (sleeptime (ram s2) t) = (w(ts ! j := w (ts ! j) - 1)) t" if t: "t \<in> set ts" for t
    using same_tasks_fields(4) [OF s2(2) t] s1(5) [OF t] w [OF t] unat_pred by (auto simp: word_gt_0)
  moreover have "task_current s2 = task_current s1" using s2(2) by (simp add: same_tasks_def)
  ultimately have "running ts (turn ts i (ram s)) (w(ts ! j := w (ts ! j) - 1)) s2"
    using same_tasks_ring [OF s2(2) s1(2)] s1(3,4) s2(3) r(2,3) j(1) tn by (auto simp: running_def)
  then show ?thesis using s1(1) s2(1) tn by auto
qed

text \<open>A sleeping neighbour is waited for.\<close>

lemma yields_to_next:
  assumes "resumes switch" and "running ts i w s"
  defines "j \<equiv> Suc i mod length ts"
  shows "\<exists>s'. yields switch (Suc (w (ts ! j))) s = Some s' \<and> running ts j (w(ts ! j := 0)) s'"
  using assms(2) unfolding j_def
proof (induction "w (ts ! (Suc i mod length ts))" arbitrary: w s)
  case 0
  then show ?case using yield_running [OF assms(1) 0(2)] by (auto simp flip: fun_upd_def)
next
  case (Suc k)
  let ?t = "ts ! (Suc i mod length ts)"
  have w: "w ?t = Suc k" using Suc(2) by simp
  obtain s1 where s1: "task_yield switch s = Some s1" "running ts i (w(?t := k)) s1"
    using yield_running [OF assms(1) Suc(3)] unfolding w by auto
  obtain s2 where s2: "yields switch (Suc k) s1 = Some s2" "running ts (Suc i mod length ts) (w(?t := 0)) s2"
    using Suc(1) [of "w(?t := k)" s1] s1(2) by (auto simp del: yields.simps)
  then show ?case unfolding w yields.simps(2) [of switch "Suc k"] using s1(1) by (simp del: yields.simps)
qed

text \<open>The tasks after one round of the ring, starting behind the one at \<open>i\<close>: the first \<open>d\<close> of them have had their turn, each after
  as many yields as it asked to sleep.\<close>

lemma yields_round:
  assumes "resumes switch" and "running ts i w s" and "d \<le> length ts"
  defines "R \<equiv> rotate (Suc i) ts"
  shows "\<exists>s'. yields switch (\<Sum>t\<leftarrow>take d R. Suc (w t)) s = Some s'
    \<and> running ts ((i + d) mod length ts) (\<lambda>t. if t \<in> set (take d R) then 0 else w t) s'"
  using assms(3)
proof (induction d)
  case 0
  then show ?case using assms(2) by (simp add: running_def)
next
  case (Suc d)
  let ?n = "length ts" and ?w = "\<lambda>t. if t \<in> set (take d R) then 0 else w t"
  have n: "Suc 0 < ?n" and d: "distinct ts" using assms(2) by (simp_all add: running_def task_ring_def)
  obtain s1 where s1: "yields switch (\<Sum>t\<leftarrow>take d R. Suc (w t)) s = Some s1" "running ts ((i + d) mod ?n) ?w s1"
    using Suc by auto
  have R: "distinct R" "length R = ?n" using d by (simp_all add: R_def)
  have nx: "R ! d = ts ! (Suc ((i + d) mod ?n) mod ?n)" "(i + Suc d) mod ?n = Suc ((i + d) mod ?n) mod ?n"
    using Suc(2) by (simp_all add: R_def nth_rotate mod_Suc_eq del: rotate_Suc)
  have new: "R ! d \<notin> set (take d R)" using R Suc(2) by (auto simp: in_set_conv_nth nth_eq_iff_index_eq)
  have tk: "take (Suc d) R = take d R @ [R ! d]" using Suc(2) R(2) by (simp add: take_Suc_conv_app_nth)
  obtain s2 where "yields switch (Suc (w (R ! d))) s1 = Some s2" "running ts ((i + Suc d) mod ?n) (?w(R ! d := 0)) s2"
    using yields_to_next [OF assms(1) s1(2)] new unfolding nx(2) nx(1) [symmetric] by auto
  moreover have "?w(R ! d := 0) = (\<lambda>t. if t \<in> set (take (Suc d) R) then 0 else w t)" by (auto simp: tk fun_eq_iff)
  ultimately show ?case using s1(1) yields_add [of switch "\<Sum>t\<leftarrow>take d R. Suc (w t)" "Suc (w (R ! d))" s]
    by (simp add: tk del: yields.simps)
qed


end
