(* ===== verification/TaskSpec.thy ===== *)
theory TaskSpec
  imports TaskRing
begin

text \<open>
  Joining and leaving the ring: \<open>task_kill\<close> and \<open>task_kill_pid\<close> take a task out, \<open>task_spawn\<close> appends one, \<open>task_list\<close> prints
  one line for each, called from the kernel's own task.
\<close>

subsection \<open>Links\<close>

lemma store_next:
  assumes "apart T" and "t \<in> T" and "u \<in> T"
  shows "task_next (store32 (t + 56) v m) u = (if u = t then v else task_next m u)"
    and "task_prev (store32 (t + 56) v m) u = task_prev m u" and "task_id (store32 (t + 56) v m) u = task_id m u"
  using assms field_put [OF assms, of 56] field_put [OF assms, of 56 0 v m]
  by (simp_all add: task_next_def task_prev_def task_id_def separate_def)

lemma store_prev:
  assumes "apart T" and "t \<in> T" and "u \<in> T"
  shows "task_prev (store32 (t + 60) v m) u = (if u = t then v else task_prev m u)"
    and "task_next (store32 (t + 60) v m) u = task_next m u" and "task_id (store32 (t + 60) v m) u = task_id m u"
  using assms field_put [OF assms, of 60] field_put [OF assms, of 60 0 v m]
  by (simp_all add: task_next_def task_prev_def task_id_def separate_def)

text \<open>A chain depends on the next links of all but its last task and the previous links of all but its first.\<close>

lemma linked_links:
  assumes "linked m ts" and "\<And>t. t \<in> set (butlast ts) \<Longrightarrow> task_next m' t = task_next m t"
    and "\<And>t. t \<in> set (tl ts) \<Longrightarrow> task_prev m' t = task_prev m t"
  shows "linked m' ts"
  using assms by (induction m ts rule: linked.induct) (auto split: if_splits)

lemma put_field_vars [simp]:
  "task_current (put_field t a v s) = task_current s" "task_last (put_field t a v s) = task_last s"
  "regdump (put_field t a v s) = regdump s" "cpu_regs (put_field t a v s) = cpu_regs s"
  "task_main (put_field t a v s) = task_main s" "lid (put_field t a v s) = lid s" "skip (put_field t a v s) = skip s"
  for s :: "'a tasking_scheme"
  by (simp_all add: put_field_def)

subsection \<open>Pausing\<close>

text \<open>The kernel's own task pauses: only its registers change.\<close>

lemma pause_tasks:
  assumes "resumes switch" and "apart T" and "task_current s \<in> T"
  obtains s' where "tasking_pause switch s = Some s'" and "same_tasks T s s'" and "skip s'"
proof -
  let ?s = "save_task_state (s\<lparr>skip := True\<rparr>)"
  have st: "same_tasks T (s\<lparr>skip := True\<rparr>) ?s" by (rule same_tasks_save) (use assms in simp_all)
  have sk: "same_tasks T s (s\<lparr>skip := True\<rparr>)" by (simp add: same_tasks_def term_ok_def)
  have c: "task_current ?s \<in> T" "skip ?s"
    using st assms(3) by (simp add: same_tasks_def) (simp add: save_task_state_def put_field_def get_regs_def Let_def)
  obtain s' where "switch (task_current ?s + 8) (task_main ?s + 8) ?s = Some s'" "same_tasks T ?s s'" "skip s' = skip ?s"
    by (rule switch_resumes [OF assms(1,2) c(1), of "task_main ?s + 8" ?s]) blast
  then show ?thesis using that [of s'] c(2) same_tasks_trans [OF sk same_tasks_trans [OF st]]
    by (simp add: tasking_pause_def Let_def)
qed

subsection \<open>Leaving\<close>

lemma unlink:
  assumes "linked m (xs @ t # ys)" and "distinct (xs @ t # ys)" and "xs \<noteq> []" and "apart (set (xs @ t # ys))"
    and "ys = [] \<Longrightarrow> task_next m t = hd xs"
  defines "p \<equiv> task_prev m t" and "n \<equiv> task_next m t"
  defines "m' \<equiv> store32 (n + 60) p (store32 (p + 56) n m)"
  shows "p = last xs" and "ys \<noteq> [] \<Longrightarrow> n = hd ys" and "linked m' (xs @ ys)"
    and "u \<in> set (xs @ t # ys) \<Longrightarrow> task_next m' u = (if u = p then n else task_next m u)"
    and "u \<in> set (xs @ t # ys) \<Longrightarrow> task_id m' u = task_id m u"
proof -
  let ?T = "set (xs @ t # ys)"
  have l: "linked m xs" "linked m (t # ys)" "task_prev m t = last xs" using assms(1,3) by (simp_all add: linked_append)
  then show p: "p = last xs" by (simp add: p_def)
  show n: "n = hd ys" if "ys \<noteq> []" using that l(2) by (cases ys) (simp_all add: n_def)
  have mem: "p \<in> ?T" "n \<in> ?T" using p n assms(3,5) by (auto simp: n_def) (metis list.set_sel(1))+
  have nx: "task_next m' u = (if u = p then n else task_next m u)" and pv: "task_prev m' u = (if u = n then p else task_prev m u)"
    and id: "task_id m' u = task_id m u" if "u \<in> ?T" for u
    using that store_next [OF assms(4) mem(1)] store_prev [OF assms(4) mem(2)] by (simp_all add: m'_def)
  show "u \<in> ?T \<Longrightarrow> task_next m' u = (if u = p then n else task_next m u)" "u \<in> ?T \<Longrightarrow> task_id m' u = task_id m u"
    by (rule nx id, assumption)+
  have lx: "linked m' xs"
  proof (rule linked_links [OF l(1)])
    fix u assume u: "u \<in> set (butlast xs)"
    then have "u \<noteq> last xs" using assms(2,3) by (metis append_butlast_last_id distinct_append not_distinct_conv_prefix)
    then show "task_next m' u = task_next m u" using nx [of u] u p by (auto dest: in_set_butlastD)
  next
    fix u assume u: "u \<in> set (tl xs)"
    then have "u \<noteq> n" using assms(2,3,5) n by (cases xs; cases ys) (auto simp: n_def)
    then show "task_prev m' u = task_prev m u" using pv [of u] u assms(3) by (auto dest: list.set_sel(2))
  qed
  show "linked m' (xs @ ys)"
  proof (cases ys)
    case (Cons y zs)
    have "linked m' (y # zs)"
    proof (rule linked_links [of m])
      show "linked m (y # zs)" using l(2) Cons by simp
      show "task_next m' u = task_next m u" if "u \<in> set (butlast (y # zs))" for u
        using in_set_butlastD [OF that] last_in_set [OF assms(3)] nx [of u] p assms(2) Cons by auto
      show "task_prev m' u = task_prev m u" if "u \<in> set (tl (y # zs))" for u
        using that pv [of u] n assms(2) Cons by auto
    qed
    moreover have "task_next m' (last xs) = y" "task_prev m' y = last xs"
      using nx [of "last xs"] pv [of y] p n Cons assms(3) by simp_all
    ultimately show ?thesis using lx Cons by (simp add: linked_append)
  qed (use lx in simp)
qed

lemma kill_step:
  assumes sw: "resumes switch" and r: "task_ring ts s" and t: "t \<in> set ts" "t \<noteq> task_main s"
  obtains s' where "task_kill switch t s = Some s'" and "task_ring (remove1 t ts) s'" and "\<not> skip s'" and "task_current s' = task_main s"
    and "task_main s' = task_main s" and "term_ok s \<longrightarrow> term_ok s'" and "lid s' = lid s" and "\<And>u. u \<in> set ts \<Longrightarrow> task_id (ram s') u = task_id (ram s) u"
proof -
  have ap: "apart (set ts)" and c: "task_current s \<in> set ts" using r by (simp_all add: task_ring_def)
  obtain s1 where s1: "tasking_pause switch s = Some s1" "same_tasks (set ts) s s1"
    by (rule pause_tasks [OF sw ap c]) blast
  have r1: "task_ring ts s1" by (rule same_tasks_ring [OF s1(2) r])
  have mn: "task_main s1 = task_main s" using s1(2) by (simp add: same_tasks_def)
  obtain xs ys where ts: "ts = xs @ t # ys" using t(1) by (metis split_list)
  then have xs: "xs \<noteq> []" "hd xs = task_main s" using r t(2) by (auto simp: task_ring_def hd_append split: if_splits)
  define p n where "p = task_prev (ram s1) t" and "n = task_next (ram s1) t"
  define m where "m = store32 (n + 60) p (store32 (p + 56) n (ram s1))"
  have fin: "ys = [] \<Longrightarrow> n = hd xs" using r1 ts xs mn by (simp add: task_ring_def n_def)
  have l: "linked (ram s1) (xs @ t # ys)" "distinct (xs @ t # ys)" using r1 ts by (simp_all add: task_ring_def)
  note un = unlink [OF l xs(1) ap [unfolded ts] fin [unfolded n_def], folded p_def n_def, folded m_def]
  have tp: "t \<noteq> p" using un(1) xs(1) l(2) by auto
  have "last ts = task_last s1" using r1 by (simp add: task_ring_def)
  then have tl: "t = task_last s1 \<longleftrightarrow> ys = []" using l(2) last_in_set [of ys] by (cases "ys = []") (auto simp: ts)
  define s2 where "s2 = s1\<lparr>ram := m, task_last := (if ys = [] then p else task_last s1), task_current := task_main s1, skip := False\<rparr>"
  have tset: "t \<in> set ts" "p \<in> set ts" using ts un(1) xs(1) by simp_all
  have "task_kill switch t s = Some s2"
    using s1(1) tl tp store_next [OF ap tset(2,1), of n "ram s1"] store_prev [OF ap]
    by (simp add: task_kill_def Let_def tasking_resume_def put_field_def s2_def m_def flip: p_def n_def)
  moreover have "task_ring (remove1 t ts) s2"
  proof -
    have rm: "remove1 t ts = xs @ ys" using l(2) by (simp add: ts remove1_append)
    have tn: "task_next m (last (xs @ ys)) = task_main s1"
    proof (cases "ys = []")
      case True
      then show ?thesis using un(4) [of p] un(1) fin xs mn by simp
    next
      case False
      have "last ys \<in> set ys" "p \<in> set xs" using False un(1) xs(1) by simp_all
      moreover from this have "last ys \<noteq> p" using l(2) by auto
      moreover have "task_next (ram s1) (last ys) = task_main s1" using r1 False by (auto simp: task_ring_def ts)
      ultimately show ?thesis using un(4) [of "last ys"] False by simp
    qed
    have "apart (set (xs @ ys))" using ap by (auto simp: apart_def ts)
    moreover have "ys \<noteq> [] \<Longrightarrow> last ys = task_last s1" using r1 by (auto simp: task_ring_def ts)
    ultimately show ?thesis unfolding rm using un(1,3) tn xs l(2) mn
      hd_in_set [OF xs(1)] by (cases "ys = []") (simp_all add: task_ring_def s2_def)
  qed
  moreover have "task_id (ram s2) u = task_id (ram s) u" if "u \<in> set ts" for u
    using un(5) [of u] that same_tasks_fields(3) [OF s1(2) that] by (simp add: s2_def ts)
  ultimately show ?thesis using that [of s2] s1(2) mn by (auto simp: s2_def same_tasks_def term_ok_def)
qed

text \<open>Killing a task other than the kernel's own takes it out of the ring, wherever it stands, and hands the processor back to the
  kernel with tasking resumed.\<close>

theorem kill_keeps_ring:
  assumes "resumes switch" and "task_ring ts s" and "t \<in> set ts" and "t \<noteq> task_main s"
  shows "\<exists>s'. task_kill switch t s = Some s' \<and> task_ring (remove1 t ts) s' \<and> \<not> skip s' \<and> task_current s' = task_main s"
  by (rule kill_step [OF assms]) blast

subsection \<open>Walking the ring\<close>

text \<open>Printing leaves tasks alone that are not on the screen.\<close>

definition off_screen :: "u32 set \<Rightarrow> bool" where
  "off_screen T \<longleftrightarrow> (\<forall>t \<in> T. separate 0xB8000 5400 t 64)"

lemma quiet_tasks:
  assumes "quiet s s'" and "term_ok s" and "off_screen T"
  shows "same_tasks T s s'" and "term_ok s'" and "skip s' = skip s"
proof -
  have so: "same_outside 0xB8000 5400 (ram s) (ram s')" and ok: "term_ok s'" using assms(1,2) by (simp_all add: quiet_def)
  have "load32 (ram s') (t + b) = load32 (ram s) (t + b)" if "t \<in> T" "b \<in> {0, 4, 52, 56, 60}" for t b
  proof (rule load32_same_outside [OF so])
    have "separate t 64 0xB8000 5400" using assms(3) that(1) by (simp add: off_screen_def separate_sym)
    then have "separate (t + of_nat (unat b)) 4 0xB8000 5400" by (rule separate_sub) (use that(2) in auto)
    then show "separate 0xB8000 5400 (t + b) 4" by (simp add: separate_sym)
  qed
  then show "same_tasks T s s'" "term_ok s'" "skip s' = skip s" using ok quiet_update [OF assms(1)] by (auto simp: same_tasks_def)
qed

lemma ring_walk:
  assumes "task_ring (xs @ t # ys) s"
  shows "task_next (ram s) t = hd (ys @ [task_main s])" and "t = task_main s \<longleftrightarrow> xs = []"
proof -
  have l: "linked (ram s) (t # ys)" "task_next (ram s) (task_last s) = task_main s" "last (t # ys) = task_last s"
    "hd (xs @ [t]) = task_main s" "distinct (xs @ t # ys)"
    using assms by (auto simp: task_ring_def linked_append hd_append split: if_splits)
  show "task_next (ram s) t = hd (ys @ [task_main s])" using l(1-3) by (cases ys) auto
  show "t = task_main s \<longleftrightarrow> xs = []" using l(4,5) by (cases xs) auto
qed

lemma kill_pid_walk:
  assumes "task_ring (xs @ ys) s" and "xs = [] \<Longrightarrow> lst" and "xs @ ys = ts" and "ys = [] \<Longrightarrow> \<not> lst"
  shows "kill_pid_loop switch pid lst (hd (ys @ [task_main s])) s =
    (case find (\<lambda>t. task_id (ram s) t = pid) ys of None \<Rightarrow> Some (False, s)
     | Some t \<Rightarrow> do { s \<leftarrow> task_kill switch t s; s \<leftarrow> kprintf (text_line ''Task #%u killed!'') [VaWord pid] s; Some (True, s) })"
  using assms
proof (induction ys arbitrary: xs lst)
  case Nil
  then show ?case by (simp add: kill_pid_loop.simps)
next
  case (Cons t ys)
  note w = ring_walk [OF Cons(2)]
  have "lst \<or> t \<noteq> task_main s" using w(2) Cons(3) by auto
  moreover have "kill_pid_loop switch pid False (task_next (ram s) t) s =
    (case find (\<lambda>t. task_id (ram s) t = pid) ys of None \<Rightarrow> Some (False, s)
     | Some t \<Rightarrow> do { s \<leftarrow> task_kill switch t s; s \<leftarrow> kprintf (text_line ''Task #%u killed!'') [VaWord pid] s; Some (True, s) })"
    unfolding w(1) by (rule Cons(1) [of "xs @ [t]"]) (use Cons(2,4) in simp_all)
  ultimately show ?case by (subst kill_pid_loop.simps) (simp add: w(1))
qed

text \<open>\<open>task_kill_pid\<close> looks for the first task of the ring with the number, and kills it; it returns false, and does nothing,
  when there is none. The number of the kernel's own task is not to be asked for.\<close>

theorem kill_pid_removes:
  assumes "resumes switch" and "task_ring ts s" and "term_ok s" and "off_screen (set ts)" and "task_id (ram s) (task_main s) \<noteq> pid"
  shows "case find (\<lambda>t. task_id (ram s) t = pid) ts of
      None \<Rightarrow> task_kill_pid switch pid s = Some (False, s)
    | Some t \<Rightarrow> \<exists>s'. task_kill_pid switch pid s = Some (True, s') \<and> task_ring (remove1 t ts) s' \<and> \<not> skip s'"
proof -
  have ne: "ts \<noteq> []" "hd ts = task_main s" using assms(2) by (simp_all add: task_ring_def)
  have walk: "task_kill_pid switch pid s = (case find (\<lambda>t. task_id (ram s) t = pid) ts of None \<Rightarrow> Some (False, s)
     | Some t \<Rightarrow> do { s \<leftarrow> task_kill switch t s; s \<leftarrow> kprintf (text_line ''Task #%u killed!'') [VaWord pid] s; Some (True, s) })"
    using kill_pid_walk [of "[]" ts s True ts switch pid] assms(2) ne by (simp add: task_kill_pid_def)
  show ?thesis
  proof (cases "find (\<lambda>t. task_id (ram s) t = pid) ts")
    case (Some t)
    then have t: "t \<in> set ts" "task_id (ram s) t = pid" by (auto simp: find_Some_iff)
    then have tm: "t \<noteq> task_main s" using assms(5) by auto
    obtain s1 where s1: "task_kill switch t s = Some s1" "task_ring (remove1 t ts) s1" "\<not> skip s1" "term_ok s1"
      using assms(3) by (rule_tac kill_step [OF assms(1,2) t(1) tm]) blast
    obtain s2 where s2: "kprintf (text_line ''Task #%u killed!'') [VaWord pid] s1 = Some s2" "quiet s1 s2"
      using kprintf_quiet [of "text_line ''Task #%u killed!''" "[VaWord pid]" s1] by (auto simp: text_line_def bytes_def)
    have "off_screen (set (remove1 t ts))" using assms(4) set_remove1_subset [of t ts] by (auto simp: off_screen_def)
    then have "task_ring (remove1 t ts) s2" "\<not> skip s2"
      using same_tasks_ring [OF _ s1(2)] quiet_tasks [OF s2(2) s1(4)] s1(3) by auto
    then show ?thesis using Some walk s1(1) s2(1) by simp
  qed (use walk in simp)
qed

text \<open>The line \<open>task_list\<close> prints for a task.\<close>

definition task_line :: "memory \<Rightarrow> u32 \<Rightarrow> u8 list" where
  "task_line m t = the (render (text_line ''PID: %u | Entrypoint: 0x%X | Sleeptime: %u'')
     (map plain_meaning [VaWord (task_id m t), VaWord (entrypoint m t), VaWord (sleeptime m t)]))"

lemma kprintf_task_line:
  "kprintf (text_line ''PID: %u | Entrypoint: 0x%X | Sleeptime: %u'') [VaWord (task_id m t), VaWord (entrypoint m t), VaWord (sleeptime m t)] s
     = Some (fold term_putchar (task_line m t) s)"
  by (rule kprintf_plain) (simp add: task_line_def text_line_def bytes_def)

lemma task_line_same: "same_tasks T s s' \<Longrightarrow> t \<in> T \<Longrightarrow> task_line (ram s') t = task_line (ram s) t"
  by (simp add: task_line_def same_tasks_fields)

lemma list_walk:
  assumes "task_ring (xs @ ys) s" and "xs = [] \<Longrightarrow> lst" and "ys = [] \<Longrightarrow> \<not> lst" and "term_ok s" and "off_screen (set (xs @ ys))"
  shows "task_list_loop lst (hd (ys @ [task_main s])) s = Some (fold term_putchar (concat (map (task_line (ram s)) ys)) s)"
  using assms
proof (induction ys arbitrary: xs lst s)
  case Nil
  then show ?case by (simp add: task_list_loop.simps)
next
  case (Cons t ys)
  let ?s = "fold term_putchar (task_line (ram s) t) s"
  note w = ring_walk [OF Cons(2)] and q = quiet_tasks [OF quiet_puts Cons(5,6), of "task_line (ram s) t"]
  have m: "task_main ?s = task_main s" using q(1) by (simp add: same_tasks_def)
  have nx: "task_next (ram ?s) t = hd (ys @ [task_main ?s])" using same_tasks_fields(1) [OF q(1), of t] w(1) m by simp
  have "lst \<or> t \<noteq> task_main s" using w(2) Cons(3) by auto
  moreover have "task_list_loop False (task_next (ram ?s) t) ?s = Some (fold term_putchar (concat (map (task_line (ram ?s)) ys)) ?s)"
    unfolding nx using same_tasks_ring [OF q(1) Cons(2)] q(2) Cons(6) by (intro Cons(1) [of "xs @ [t]"]) simp_all
  moreover have "map (task_line (ram ?s)) ys = map (task_line (ram s)) ys"
    by (rule map_cong) (simp_all add: task_line_same [OF q(1)])
  ultimately show ?case by (subst task_list_loop.simps) (simp add: kprintf_task_line)
qed

text \<open>\<open>task_list\<close> prints one line for each task of the ring, in its order, and ends.\<close>

lemma task_list_prints:
  assumes "task_ring ts s" and "term_ok s" and "off_screen (set ts)"
  shows "task_list s = Some (term_undo_nl (fold term_putchar (concat (map (task_line (ram s)) ts)) s))"
proof -
  have "ts \<noteq> []" "hd ts = task_main s" using assms(1) by (simp_all add: task_ring_def)
  then show ?thesis using list_walk [of "[]" ts s True] assms by (simp add: task_list_def)
qed

subsection \<open>Joining\<close>

lemma put_load:
  assumes "apart T" and "t \<in> T" and "u \<in> T" and "unat a \<le> 60" and "unat b \<le> 60" and "a = b \<or> separate a 4 b 4"
  shows "load32 (ram (put_field t a v s)) (u + b) = (if u = t \<and> a = b then v else load32 (ram s) (u + b))"
  using field_put [OF assms] by (simp add: put_field_def)

lemmas put_load_id = put_load [where b = 0, simplified add_0_right]

lemma get_regs_ram [simp]: "ram (get_regs c s) = ram s" "task_current (get_regs c t) = task_current t"
  by (simp_all add: get_regs_def)

text \<open>The register sets of other tasks are not touched by a yield.\<close>

lemma save_other:
  assumes "apart T" and "task_current s \<in> T" and "u \<in> T" and "u \<noteq> task_current s" and "unat b \<le> 60"
  shows "load32 (ram (save_task_state s)) (u + b) = load32 (ram s) (u + b)"
proof -
  have o: "load32 (ram (put_field (task_current s) a v r)) (u + b) = load32 (ram r) (u + b)" if "unat a \<le> 60"
    for a v and r :: "'a tasking_scheme"
    using load_field_other [OF _ that assms(5)] assms(1-4) by (auto simp: put_field_def apart_def)
  show ?thesis by (simp add: save_task_state_def Let_def o)
qed

lemma switch_other:
  assumes "apart T" and "t \<in> T" and "u \<in> T" and "u \<noteq> t" and "unat b \<le> 60" and "same_outside (t + 8) 44 m m'"
  shows "load32 m' (u + b) = load32 m (u + b)"
proof (rule load32_same_outside [OF assms(6)])
  have "separate t 64 u 64" using assms(1-4) by (auto simp: apart_def)
  then have "separate (t + of_nat 8) 44 u 64" by (rule separate_sub) simp_all
  then have "separate u 64 (t + 8) 44" by (simp add: separate_sym)
  then have "separate (u + of_nat (unat b)) 4 (t + 8) 44" by (rule separate_sub) (use assms(5) in auto)
  then show "separate (t + 8) 44 (u + b) 4" by (simp add: separate_sym)
qed

lemma yield_regs:
  assumes "resumes switch" and "task_ring ts s" and "task_yield switch s = Some s'"
    and "u \<in> set ts" and "u \<noteq> task_current s" and "unat b \<le> 60" and "separate 4 4 b 4"
  shows "load32 (ram s') (u + b) = load32 (ram s) (u + b)"
proof -
  have ap: "apart (set ts)" and c: "task_current s \<in> set ts" using assms(2) by (simp_all add: task_ring_def)
  have b: "unat b \<le> 60" "b \<noteq> 4" "separate 4 4 b 4" using assms(6,7) by (auto simp: separate_def)
  let ?s = "save_task_state s"
  have tc: "task_current ?s = task_current s" using same_tasks_save [OF ap c] by (simp add: same_tasks_def)
  obtain i where i: "i < length ts" "task_current s = ts ! i" using c by (auto simp: in_set_conv_nth)
  then have "Suc i mod length ts < length ts" by (intro mod_less_divisor) linarith
  then have "task_next (ram s) (task_current s) \<in> set ts" using ring_next [OF assms(2) i(1)] i(2) by simp
  then have n: "task_next (ram ?s) (task_current s) \<in> set ts"
    using same_tasks_fields(1) [OF same_tasks_save [OF ap c] c] by simp
  have o: "load32 (ram (put_field (task_next (ram ?s) (task_current s)) 4 v r)) (u + b) = load32 (ram r) (u + b)"
    for v and r :: "'a tasking_scheme"
    using put_load [OF ap n assms(4), of 4 b v r] b by simp
  have sv: "load32 (ram ?s) (u + b) = load32 (ram s) (u + b)" by (rule save_other [OF ap c assms(4,5) b(1)])
  have sw: "load32 (ram r') (u + b) = load32 (ram r) (u + b)" if "switch (task_current s + 8) y r = Some r'" for y r r'
  proof -
    from assms(1) have "\<exists>m. switch (task_current s + 8) y r = Some (r\<lparr>ram := m\<rparr>) \<and> same_outside (task_current s + 8) 44 (ram r) m"
      unfolding resumes_def by blast
    then show ?thesis using that switch_other [OF ap c assms(4,5) b(1)] by auto
  qed
  show ?thesis using assms(3) sw sv o
    by (auto simp: task_yield_def Let_def tc split: if_splits)
qed

text \<open>A yield keeps the ring, the numbers and the mode, whoever runs after it.\<close>

lemma yield_keeps:
  assumes "resumes switch" and r: "task_ring ts s"
  obtains s' where "task_yield switch s = Some s'" and "task_ring ts s'" and "skip s' = skip s" and "task_main s' = task_main s"
    and "lid s' = lid s" and "term_ok s \<longrightarrow> term_ok s'" and "\<forall>u \<in> set ts. task_id (ram s') u = task_id (ram s) u"
proof (cases "skip s \<or> task_next (ram s) (task_current s) = task_current s")
  case True
  then have "task_yield switch s = Some s" by (auto simp: task_yield_def)
  then show ?thesis using that r by blast
next
  case False
  have ap: "apart (set ts)" and c: "task_current s \<in> set ts" using r by (simp_all add: task_ring_def)
  let ?s1 = "save_task_state s" and ?c = "task_current s"
  have s1: "same_tasks (set ts) s ?s1" by (rule same_tasks_save [OF ap c])
  have v1: "task_current ?s1 = ?c" "skip ?s1 = skip s" by (simp_all add: save_task_state_def Let_def get_regs_def)
  obtain i where i: "i < length ts" "?c = ts ! i" using c by (auto simp: in_set_conv_nth)
  define n where "n = task_next (ram ?s1) ?c"
  have "Suc i mod length ts < length ts" using i(1) by (intro mod_less_divisor) linarith
  then have n: "n \<in> set ts"
    using ring_next [OF r i(1)] same_tasks_fields(1) [OF s1 c] i(2) by (simp add: n_def)
  define s2 where "s2 = (if sleeptime (ram ?s1) n > 0 then (put_field n 4 (sleeptime (ram ?s1) n - 1) ?s1)\<lparr>task_current := ?c\<rparr> else ?s1\<lparr>task_current := n\<rparr>)"
  have y: "task_yield switch s = switch (?c + 8) (task_current s2 + 8) s2"
    using False v1 by (simp add: task_yield_def Let_def s2_def flip: n_def) (simp add: put_field_def)
  note ps = put_sleep [OF ap n]
  have f2: "task_next (ram s2) u = task_next (ram s) u" "task_prev (ram s2) u = task_prev (ram s) u" "task_id (ram s2) u = task_id (ram s) u"
    if "u \<in> set ts" for u using same_tasks_fields [OF s1 that] by (simp_all add: s2_def ps(2-4) [OF that])
  have v2: "task_main s2 = task_main s" "task_last s2 = task_last s" "lid s2 = lid s" "skip s2 = skip s" "term_ok s \<longrightarrow> term_ok s2" "task_current s2 \<in> set ts"
    using s1 v1(2) c n by (auto simp: s2_def same_tasks_def) (auto simp: put_field_def term_ok_def)
  have r2: "task_ring ts s2"
    using r linked_cong [of "ram s" ts "ram s2"] f2 v2 last_in_set [of ts] by (auto simp: task_ring_def)
  obtain s3 where s3: "switch (?c + 8) (task_current s2 + 8) s2 = Some s3" "same_tasks (set ts) s2 s3" "skip s3 = skip s2"
    by (rule switch_resumes [OF assms(1) ap c, of "task_current s2 + 8" s2]) blast
  have "\<forall>u \<in> set ts. task_id (ram s3) u = task_id (ram s) u" using same_tasks_fields(3) [OF s3(2)] f2(3) by simp
  then show ?thesis using that [of s3] y s3 v2 same_tasks_ring [OF s3(2) r2] by (simp add: same_tasks_def)
qed

text \<open>What none of it touches: a range of memory apart from the tasks (the heap), and the heap's variables.\<close>

definition kept :: "u32 \<Rightarrow> nat \<Rightarrow> 'a pmem_scheme \<Rightarrow> 'a pmem_scheme \<Rightarrow> bool" where
  "kept a n s s' \<longleftrightarrow> (\<forall>x. in_range a n x \<longrightarrow> ram s' x = ram s x) \<and> kernel_mem s' = kernel_mem s \<and> kernel_heap_state s' = kernel_heap_state s"

lemma kept_trans: "kept a n s s' \<Longrightarrow> kept a n s' s'' \<Longrightarrow> kept a n s s''"
  by (simp add: kept_def)

lemma kept_put:
  assumes "kept a n s0 s" and "separate t 64 a n" and "unat off \<le> 60"
  shows "kept a n s0 (put_field t off v s)"
proof -
  have "separate (t + of_nat (unat off)) 4 a n" by (rule separate_sub [OF assms(2)]) (use assms(3) in simp_all)
  then have "store32 (t + off) v m x = m x" if "in_range a n x" for m x
    using that separateD by (intro store32_outside) auto
  then show ?thesis using assms(1) by (simp add: kept_def put_field_def)
qed

lemma kept_save: "separate (task_current s) 64 a n \<Longrightarrow> kept a n s (save_task_state s)"
  unfolding save_task_state_def Let_def
  by (intro kept_put) (simp_all add: kept_def get_regs_def)

lemma kept_pause:
  assumes "resumes switch" and "separate (task_current s) 64 a n" and "tasking_pause switch s = Some s'"
  shows "kept a n s s'"
proof -
  let ?s = "save_task_state (s\<lparr>skip := True\<rparr>)"
  have "kept a n (s\<lparr>skip := True\<rparr>) ?s" by (rule kept_save) (use assms(2) in simp)
  then have 1: "kept a n s ?s" by (simp add: kept_def)
  have tc: "task_current ?s = task_current s" by (simp add: save_task_state_def Let_def)
  obtain m where m: "switch (task_current ?s + 8) (task_main ?s + 8) ?s = Some (?s\<lparr>ram := m\<rparr>)" "same_outside (task_current ?s + 8) 44 (ram ?s) m"
    using assms(1) unfolding resumes_def by blast
  have "separate (task_current s + of_nat 8) 44 a n" by (rule separate_sub [OF assms(2)]) simp_all
  then have "m x = ram ?s x" if "in_range a n x" for x using m(2) that separateD2 tc by (auto simp: same_outside_def)
  then have "kept a n ?s (?s\<lparr>ram := m\<rparr>)" by (simp add: kept_def)
  then show ?thesis using kept_trans [OF 1] assms(3) m(1) by (simp add: tasking_pause_def Let_def)
qed

lemma kept_quiet: "quiet s s' \<Longrightarrow> term_ok s \<Longrightarrow> separate 0xB8000 5400 a n \<Longrightarrow> kept a n s s'"
  using separateD2 quiet_pmem [of s s'] by (auto simp: kept_def quiet_def same_outside_def)

lemma kept_heap:
  assumes "heap_block (ram s) hb cs" and "kept hb (unat (hb_size (ram s) hb)) s s'" and "cs \<noteq> []"
  shows "heap_block (ram s') hb cs" and "hb_size (ram s') hb = hb_size (ram s) hb" and "hb_next (ram s') hb = hb_next (ram s) hb"
    and "has_room hb k (ram s') = has_room hb k (ram s)"
proof -
  define B S where "B = unat hb" and "S = unat (hb_size (ram s) hb)"
  have hb: "hb = of_nat B" by (simp add: B_def)
  have c: "chain (ram s) (B + 20) cs (B + S)" "B + S < 4294967296" "hb \<noteq> 0" using assms(1) by (simp_all add: heap_block_def B_def S_def)
  have S: "28 \<le> S" using chain_total [OF c(1)] assms(3) by (cases cs) auto
  have e: "ram s' (hb + of_nat k) = ram s (hb + of_nat k)" if "k < S" for k
    using assms(2) in_range_offset [OF that] c(2) by (simp add: kept_def S_def)
  have "ram s' (of_nat (B + k)) = ram s (of_nat (B + k))" if "k < S" for k using e [OF that] by (simp add: hb)
  then have "agree (ram s) (ram s') (B + 20) (B + S)" unfolding agree_def by (metis le_add_diff_inverse nat_add_left_cancel_less add_leD1)
  then have ch: "chain (ram s') (B + 20) cs (B + S)" by (rule agree_chain [OF c(1)])
  have l: "load32 (ram s') (hb + of_nat k) = load32 (ram s) (hb + of_nat k)" if "k \<le> 8" for k
    by (rule load32_cong [symmetric]) (use assms(2) in_range_sub [of hb k 4 _ S] that S c(2) in \<open>auto simp: kept_def S_def\<close>)
  show "hb_size (ram s') hb = hb_size (ram s) hb" "hb_next (ram s') hb = hb_next (ram s) hb"
    "has_room hb k (ram s') = has_room hb k (ram s)" using l [of 0] l [of 4] l [of 8] by (simp_all add: has_room_def)
  then show "heap_block (ram s') hb cs" using ch c by (simp add: heap_block_def B_def S_def)
qed

lemma amalloc_tasks:
  assumes "heap_block (ram s) hb cs" and "fblock (kernel_heap_state s) = hb" and "hb_next (ram s) hb = 0"
    and "has_room hb 0x2000 (ram s)" and "first_fit 0x2000 cs = Some (off, cs')" and "kernel_mem s \<noteq> 0"
  obtains s' where "amalloc 0x1000 s = Some (of_nat (unat hb + 20 + off) AND 0xFFFFF000, s')"
    and "\<And>u b. separate u 64 hb (unat (hb_size (ram s) hb)) \<Longrightarrow> unat b \<le> 60 \<Longrightarrow> load32 (ram s') (u + b) = load32 (ram s) (u + b)"
    and "\<exists>m h. s' = s\<lparr>ram := m, kernel_heap_state := h\<rparr>"
proof -
  let ?S = "unat (hb_size (ram s) hb)"
  have room: "has_room hb (of_nat 0x2000) (ram s)" using assms(4) by simp
  have n: "0x2000 < (4294967296 :: nat)" by simp
  obtain h' m' where a: "k_heapLCABAlloc (of_nat 0x2000) (kernel_heap_state s, ram s) = Some (of_nat (unat hb + 20 + off), h', m')"
    "\<And>x. \<not> in_range hb ?S x \<Longrightarrow> m' x = ram s x"
    by (rule first_fit_get [OF assms(1-3) room n assms(5)]) blast
  let ?s = "s\<lparr>ram := m', kernel_heap_state := h'\<rparr>"
  have "load32 m' (u + b) = load32 (ram s) (u + b)" if "separate u 64 hb ?S" "unat b \<le> 60" for u b
  proof (rule load32_cong [symmetric], rule a(2) [symmetric])
    fix x assume "in_range (u + b) 4 x"
    then have "in_range (u + of_nat (unat b)) 4 x" by simp
    then have "in_range u 64 x" by (rule in_range_sub) (use that(2) in simp_all)
    then show "\<not> in_range hb ?S x" by (rule separateD [OF that(1)])
  qed
  moreover have "amalloc 0x1000 s = Some (of_nat (unat hb + 20 + off) AND 0xFFFFF000, ?s)"
    using a(1) assms(6) by (simp add: amalloc_def heap_alloc_def del: of_nat_add)
  ultimately show ?thesis using that [of ?s] by auto
qed

text \<open>Appending to the ring: the four links \<open>task_spawn\<close> sets.\<close>

lemma link_last:
  assumes "linked m ts" and "ts \<noteq> []" and "t \<notin> set ts" and "distinct ts" and "task_next m' (last ts) = t" and "task_prev m' t = last ts"
    and "\<And>u. u \<in> set ts \<Longrightarrow> u \<noteq> last ts \<Longrightarrow> task_next m' u = task_next m u"
    and "\<And>u. u \<in> set (tl ts) \<Longrightarrow> task_prev m' u = task_prev m u"
  shows "linked m' (ts @ [t])"
proof -
  have "linked m' ts"
  proof (rule linked_links [OF assms(1) _ assms(8)])
    fix u assume u: "u \<in> set (butlast ts)"
    then have "u \<noteq> last ts" using assms(2,4) by (metis append_butlast_last_id distinct_append not_distinct_conv_prefix)
    then show "task_next m' u = task_next m u" using assms(7) u by (auto dest: in_set_butlastD)
  qed
  then show ?thesis using assms(2,5,6) by (simp add: linked_append)
qed

text \<open>The state of the ring just before \<open>task_spawn\<close> resumes tasking, from the one its pause leaves.\<close>

lemma enter_links:
  assumes r: "task_ring ts s" and t: "t \<notin> set ts" and ap: "apart (insert t (set ts))" and scr: "off_screen (insert t (set ts))"
    and ok: "term_ok s"
    and heap: "heap_block (ram s) hb cs" "fblock (kernel_heap_state s) = hb" "hb_next (ram s) hb = 0"
      "has_room hb 0x2000 (ram s)" "first_fit 0x2000 cs = Some (off, cs')" "kernel_mem s \<noteq> 0"
    and out: "\<forall>u \<in> insert t (set ts). separate u 64 hb (unat (hb_size (ram s) hb))" "separate 0xB8000 5400 hb (unat (hb_size (ram s) hb))"
  defines "stk \<equiv> of_nat (unat hb + 20 + off) AND (0xFFFFF000 :: u32)"
  shows "\<exists>s'. task_enter t main flags s = Some s' \<and> task_ring (ts @ [t]) s' \<and> task_id (ram s') t = lid s + 1 \<and> entrypoint (ram s') t = main
       \<and> load32 (ram s') (t + REG_EIP) = main \<and> load32 (ram s') (t + REG_ESP) = stk \<and> load32 (ram s') (t + REG_EFLAGS) = flags
       \<and> task_current s' = task_current s \<and> term_ok s' \<and> lid s' = lid s + 1 \<and> task_main s' = task_main s
       \<and> (\<forall>u \<in> set ts. task_id (ram s') u = task_id (ram s) u)"
proof -
  let ?T = "insert t (set ts)" and ?S = "unat (hb_size (ram s) hb)"
  have lm: "task_last s \<in> set ts" "task_main s \<in> set ts" using ring_members [OF r] by simp_all
  then have ne: "task_last s \<noteq> t" "task_main s \<noteq> t" using t by auto
  note pl = put_load [OF ap] put_load_id [OF ap]
  have tp: "term_ok (put_field u a v r) = term_ok r" for u a v and r :: "'a tasking_scheme" by (simp add: put_field_def term_ok_def)
  define s2 where "s2 = (put_field t 60 (task_last s) (put_field (task_last s) 56 t (put_field t 0 (lid s + 1) (s\<lparr>lid := lid s + 1\<rparr>))))\<lparr>task_last := t\<rparr>"
  have v2: "task_main s2 = task_main s" "task_last s2 = t" "lid s2 = lid s + 1" "task_current s2 = task_current s" "skip s2 = skip s" "term_ok s2"
    using ok by (simp_all add: s2_def) (simp add: put_field_def term_ok_def)
  have f2: "load32 (ram s2) t = lid s + 1" "load32 (ram s2) (t + 60) = task_last s"
    "\<And>u. u \<in> set ts \<Longrightarrow> load32 (ram s2) (u + 56) = (if u = task_last s then t else load32 (ram s) (u + 56))"
    "\<And>u. u \<in> set ts \<Longrightarrow> load32 (ram s2) (u + 60) = load32 (ram s) (u + 60)"
    "\<And>u. u \<in> set ts \<Longrightarrow> load32 (ram s2) u = load32 (ram s) u"
    using lm ne t by (auto simp: s2_def pl separate_def)
  have k2: "kept hb ?S s s2" unfolding s2_def
    using kept_put [OF kept_put [OF kept_put [of hb ?S s "s\<lparr>lid := lid s + 1\<rparr>"]]] out lm by (auto simp: kept_def)
  let ?fmt = "text_line ''New task created (0x%X | PID: %u)''"
  let ?args = "[VaWord main, VaWord (task_id (ram s2) t)]"
  obtain s3 where p3: "kprintf ?fmt ?args s2 = Some s3" and q3: "quiet s2 s3"
    using kprintf_quiet [of ?fmt ?args s2] by (auto simp: text_line_def bytes_def)
  have st3: "same_tasks ?T s2 s3" by (rule quiet_tasks(1) [OF q3 v2(6) scr])
  have k3: "kept hb ?S s s3" by (rule kept_trans [OF k2 kept_quiet [OF q3 v2(6) out(2)]])
  define s4 where "s4 = put_field t 52 main (put_field t REG_EIP main (put_field t REG_EFLAGS flags (put_field t REG_EDI 0
    (put_field t REG_CR3 (load32 (ram s3) (task_main s + REG_CR3)) (put_field t REG_ESI 0 (put_field t REG_EDX 0
    (put_field t REG_ECX 0 (put_field t REG_EBX 0 (put_field t REG_EAX 0 s3)))))))))"
  have f4: "load32 (ram s4) (t + 40) = main" "load32 (ram s4) (t + 44) = flags" "load32 (ram s4) (t + 52) = main"
    "\<And>u. u \<in> ?T \<Longrightarrow> load32 (ram s4) u = load32 (ram s3) u"
    "\<And>u. u \<in> ?T \<Longrightarrow> load32 (ram s4) (u + 56) = load32 (ram s3) (u + 56)"
    "\<And>u. u \<in> ?T \<Longrightarrow> load32 (ram s4) (u + 60) = load32 (ram s3) (u + 60)"
    by (simp_all add: s4_def pl separate_def)
  have k4: "kept hb ?S s s4" unfolding s4_def by (intro kept_put k3) (use out in simp_all)
  have km: "kernel_mem s4 \<noteq> 0" "fblock (kernel_heap_state s4) = hb" using k4 heap(2,6) by (simp_all add: kept_def)
  have cs: "cs \<noteq> []" using heap(5) by auto
  note h4 = kept_heap [OF heap(1) k4 cs]
  obtain s5 where a5: "amalloc 0x1000 s4 = Some (stk, s5)" and v5: "\<exists>m h. s5 = s4\<lparr>ram := m, kernel_heap_state := h\<rparr>"
    and f5: "\<And>u b. u \<in> ?T \<Longrightarrow> unat b \<le> 60 \<Longrightarrow> load32 (ram s5) (u + b) = load32 (ram s4) (u + b)"
  proof (rule amalloc_tasks [OF h4(1) km(2) _ _ heap(5) km(1), folded stk_def])
    note found = that
    show "hb_next (ram s4) hb = 0" "has_room hb 0x2000 (ram s4)" using h4(3,4) heap(3,4) by simp_all
    show thesis if "amalloc 0x1000 s4 = Some (stk, r)" "\<exists>m h. r = s4\<lparr>ram := m, kernel_heap_state := h\<rparr>"
      "\<And>u b. separate u 64 hb (unat (hb_size (ram s4) hb)) \<Longrightarrow> unat b \<le> 60 \<Longrightarrow> load32 (ram r) (u + b) = load32 (ram s4) (u + b)" for r
      by (rule found [OF that(1,2)], rule that(3)) (use out(1) h4(2) in auto)
  qed
  define s6 where "s6 = put_field (task_main s) 60 t (put_field t 56 (task_main s) (put_field t REG_ESP stk s5))"
  have v3: "task_main s3 = task_main s" "task_last s3 = t" "task_current s3 = task_current s"
    using st3 v2 by (simp_all add: same_tasks_def)
  have v4: "task_main s4 = task_main s" "task_last s4 = t" "task_current s4 = task_current s" using v3 by (simp_all add: s4_def)
  have v6: "task_main s6 = task_main s" "task_last s6 = t" "task_current s6 = task_current s" using v5 v4 by (auto simp: s6_def)
  have "task_enter t main flags s = Some s6"
  proof -
    define x where "x = put_field t REG_EIP main (put_field t REG_EFLAGS flags (put_field t REG_EDI 0
      (put_field t REG_CR3 (load32 (ram s3) (task_main s + REG_CR3)) (put_field t REG_ESI 0 (put_field t REG_EDX 0
      (put_field t REG_ECX 0 (put_field t REG_EBX 0 (put_field t REG_EAX 0 s3))))))))"
    have "put_field t 52 (load32 (ram x) (t + REG_EIP)) x = s4" by (simp add: x_def s4_def pl)
    moreover have "task_main s5 = task_main s" using v5 v4(1) by auto
    ultimately show ?thesis using a5 p3 lm ne unfolding task_enter_def Let_def
      by (simp add: pl separate_def s2_def x_def s6_def v3(1))
  qed
  have f3: "\<And>u b. u \<in> ?T \<Longrightarrow> b \<in> {0, 4, 52, 56, 60} \<Longrightarrow> load32 (ram s3) (u + b) = load32 (ram s2) (u + b)"
    using st3 unfolding same_tasks_def by blast
  have mT: "task_main s \<in> ?T" "t \<in> ?T" using lm by simp_all
  have f6: "load32 (ram s6) (t + 40) = main" "load32 (ram s6) (t + 44) = flags" "load32 (ram s6) (t + 52) = main"
    "load32 (ram s6) (t + 32) = stk" "load32 (ram s6) t = lid s + 1" "load32 (ram s6) (t + 56) = task_main s"
    "load32 (ram s6) (t + 60) = task_last s"
    using mT ne f4 f5 [OF mT(2)] f5 [OF mT(2), of 0] f3 [OF mT(2), of 0] f3 [OF mT(2), of 60] f2
    by (simp_all add: s6_def pl separate_def)
  have g6: "load32 (ram s6) (u + 56) = (if u = task_last s then t else load32 (ram s) (u + 56))"
    "u \<noteq> task_main s \<Longrightarrow> load32 (ram s6) (u + 60) = load32 (ram s) (u + 60)" if u: "u \<in> set ts" for u
    using mT u t f4(5,6) [of u] f5 [of u 56] f5 [of u 60] f3 [of u 56] f3 [of u 60] f2(3,4) [OF u]
    by (auto simp: s6_def pl separate_def)
  have i6: "load32 (ram s6) u = load32 (ram s) u" if u: "u \<in> set ts" for u
    using mT u t f4(4) [of u] f5 [of u 0] f3 [of u 0] f2(5) [OF u] by (simp add: s6_def pl separate_def)
  have t3: "term_ok s3" "lid s3 = lid s + 1" using quiet_tasks(2) [OF q3 v2(6) scr] st3 v2(3) by (simp_all add: same_tasks_def)
  then have "term_ok s4" "lid s4 = lid s + 1" by (simp_all add: s4_def tp)
  then have t6: "term_ok s6" "lid s6 = lid s + 1" using v5 by (auto simp: s6_def tp) (auto simp: term_ok_def)
  have lt: "last ts = task_last s" "hd ts = task_main s" "ts \<noteq> []" "distinct ts" "linked (ram s) ts" "task_current s \<in> set ts"
    using r by (simp_all add: task_ring_def)
  have "linked (ram s6) (ts @ [t])"
  proof (rule link_last [OF lt(5,3) t lt(4)])
    fix u assume u: "u \<in> set (tl ts)"
    then have "u \<noteq> task_main s" "u \<in> set ts" using lt(2-4) by (cases ts; auto)+
    then show "task_prev (ram s6) u = task_prev (ram s) u" using g6(2) [of u] by (simp add: task_prev_def)
  qed (use f6 g6(1) lm lt(1) in \<open>simp_all add: task_next_def task_prev_def\<close>)
  then have "task_ring (ts @ [t]) s6" using lt t ap f6(6) v6 by (simp add: task_ring_def task_next_def)
  then show ?thesis using \<open>task_enter t main flags s = Some s6\<close> f6 v6 t6 i6 by (simp add: task_id_def entrypoint_def)
qed

lemma resume_ring: "task_ring ts (tasking_resume s) = task_ring ts s"
  by (simp add: task_ring_def tasking_resume_def)

lemma spawn_step:
  assumes "resumes switch" and "task_ring ts s" and "t \<notin> set ts" and "apart (insert t (set ts))" and "off_screen (insert t (set ts))" and "term_ok s"
    and "heap_block (ram s) hb cs" and "fblock (kernel_heap_state s) = hb" and "hb_next (ram s) hb = 0"
    and "has_room hb 0x2000 (ram s)" and "first_fit 0x2000 cs = Some (off, cs')" and "kernel_mem s \<noteq> 0"
    and "\<forall>u \<in> insert t (set ts). separate u 64 hb (unat (hb_size (ram s) hb))" and "separate 0xB8000 5400 hb (unat (hb_size (ram s) hb))"
  shows "\<exists>s'. task_spawn switch t main flags s = Some s' \<and> task_ring (ts @ [t]) s' \<and> \<not> skip s' \<and> task_id (ram s') t = lid s + 1
    \<and> load32 (ram s') (t + REG_EIP) = main \<and> entrypoint (ram s') t = main \<and> load32 (ram s') (t + REG_EFLAGS) = flags
    \<and> load32 (ram s') (t + REG_ESP) = of_nat (unat hb + 20 + off) AND 0xFFFFF000
    \<and> term_ok s' \<and> lid s' = lid s + 1 \<and> task_main s' = task_main s \<and> (\<forall>u \<in> set ts. task_id (ram s') u = task_id (ram s) u)"
proof -
  note r = assms(2) and ap = assms(4)
  have c: "task_current s \<in> insert t (set ts)" "task_current s \<in> set ts" using r by (simp_all add: task_ring_def)
  obtain s1 where s1: "tasking_pause switch s = Some s1" "same_tasks (insert t (set ts)) s s1"
    by (rule pause_tasks [OF assms(1) ap c(1)]) blast
  have "same_tasks (set ts) s s1" using s1(2) by (simp add: same_tasks_def)
  then have r1: "task_ring ts s1" by (rule same_tasks_ring [OF _ r])
  have cs: "cs \<noteq> []" using assms(11) by auto
  have k: "kept hb (unat (hb_size (ram s) hb)) s s1" by (rule kept_pause [OF assms(1) _ s1(1)]) (use assms(13) c(1) in blast)
  note h = kept_heap [OF assms(7) k cs]
  have v: "fblock (kernel_heap_state s1) = hb" "kernel_mem s1 \<noteq> 0" "term_ok s1" "lid s1 = lid s" "task_current s1 = task_current s"
    using k s1(2) assms(6,8,12) by (simp_all add: kept_def same_tasks_def)
  obtain s2 where s2: "task_enter t main flags s1 = Some s2" "task_ring (ts @ [t]) s2" "task_id (ram s2) t = lid s + 1"
    "entrypoint (ram s2) t = main" "load32 (ram s2) (t + REG_EIP) = main" "load32 (ram s2) (t + REG_EFLAGS) = flags"
    "load32 (ram s2) (t + REG_ESP) = of_nat (unat hb + 20 + off) AND 0xFFFFF000" "task_current s2 = task_current s"
    "term_ok s2" "lid s2 = lid s1 + 1" "task_main s2 = task_main s1" "\<forall>u \<in> set ts. task_id (ram s2) u = task_id (ram s1) u"
    using enter_links [OF r1 assms(3-5) v(3) h(1) v(1) _ _ assms(11) v(2), of main flags] h(2-4) assms(9,10,13,14) v(4,5) by auto
  let ?r = "tasking_resume s2"
  have r2: "task_ring (ts @ [t]) ?r" "\<not> skip ?r" "ram ?r = ram s2" "task_current ?r = task_current s"
    using s2(2,8) by (simp_all add: resume_ring) (simp_all add: tasking_resume_def)
  obtain s4 where s4: "task_yield switch ?r = Some s4" "task_ring (ts @ [t]) s4" "skip s4 = skip ?r" "task_main s4 = task_main ?r" "lid s4 = lid ?r"
    "term_ok ?r \<longrightarrow> term_ok s4" "\<forall>u \<in> set (ts @ [t]). task_id (ram s4) u = task_id (ram ?r) u"
    by (rule yield_keeps [OF assms(1) r2(1)]) blast
  note y = s4(1)
  have "t \<noteq> task_current ?r" using assms(3) c(2) r2(4) by auto
  note g = yield_regs [OF assms(1) r2(1) y _ this]
  have "task_spawn switch t main flags s = Some s4" using s1(1) s2(1) y by (simp add: task_spawn_def)
  moreover have "term_ok ?r" "lid ?r = lid s + 1" "task_main ?r = task_main s"
    using s2(9-11) v(4) k s1(2) by (simp_all add: tasking_resume_def term_ok_def same_tasks_def)
  moreover have "\<forall>u \<in> set ts. task_id (ram ?r) u = task_id (ram s) u"
    using s2(12) same_tasks_fields(3) [OF s1(2)] r2(3) by simp
  ultimately show ?thesis using s4 r2(2) s2 g [of 0] g [of 40] g [of 44] g [of 32] g [of 52]
    by (simp add: r2(3) task_id_def entrypoint_def separate_def)
qed


subsection \<open>Initialisation\<close>

text \<open>\<open>tasking_init\<close> makes a ring of the kernel's own task, which does not sleep.\<close>

lemma tasking_init_ring:
  assumes "term_ok s" and "off_screen {task_main s}"
  shows "\<exists>s'. tasking_init k s = Some s' \<and> task_ring [task_main s] s' \<and> sleeptime (ram s') (task_main s) = 0
    \<and> entrypoint (ram s') (task_main s) = k \<and> task_id (ram s') (task_main s) = lid s
    \<and> term_ok s' \<and> lid s' = lid s \<and> skip s' = skip s \<and> task_main s' = task_main s"
proof -
  let ?t = "task_main s"
  have ap: "apart {?t}" by (simp add: apart_def)
  note pl = put_load [OF ap] put_load_id [OF ap]
  let ?f1 = "text_line ''cr3: 0x%X''" and ?f2 = "text_line ''Tasking initialized!'' @ text_line ''Kernel thread (0x%X | PID: %u)''"
  define s1 where "s1 = put_field ?t REG_CR3 (cr3 s) s"
  have v1: "task_main s1 = ?t" "lid s1 = lid s" "term_ok s1" using assms(1) by (simp_all add: s1_def) (simp add: put_field_def term_ok_def)
  obtain s2 where p2: "kprintf ?f1 [VaWord (load32 (ram s1) (?t + REG_CR3))] s1 = Some s2" and q2: "quiet s1 s2"
    using kprintf_quiet [of ?f1 "[VaWord (load32 (ram s1) (?t + REG_CR3))]" s1] by (auto simp: text_line_def bytes_def)
  have v2: "task_main s2 = ?t" "lid s2 = lid s" "term_ok s2" "skip s2 = skip s"
    using quiet_tasks [OF q2 v1(3) assms(2)] v1 by (simp_all add: same_tasks_def) (simp add: s1_def)
  define r where "r = get_regs (cpu_regs (put_field ?t REG_EFLAGS (eflags (cpu_regs s2)) s2)) (put_field ?t REG_EFLAGS (eflags (cpu_regs s2)) s2)"
  define s3 where "s3 = put_field ?t 4 0 (put_field ?t REG_EDI (edi (regdump r)) (put_field ?t REG_ESI (esi (regdump r))
    (put_field ?t REG_EDX (edx (regdump r)) (put_field ?t REG_ECX (ecx (regdump r)) (put_field ?t REG_EBX (ebx (regdump r))
    (put_field ?t REG_EAX (eax (regdump r)) (put_field ?t REG_EIP (eip (regdump r)) (put_field ?t REG_ESP (esp (regdump r))
    (put_field ?t 52 k r)))))))))"
  define s4 where "s4 = (put_field ?t 56 ?t (put_field ?t 0 (lid s) (s3\<lparr>task_last := ?t\<rparr>)))\<lparr>task_current := ?t\<rparr>"
  have v4: "task_main s4 = ?t" "lid s4 = lid s" "task_last s4 = ?t" "task_current s4 = ?t" "skip s4 = skip s" "term_ok s4"
    using v2 by (simp_all add: s4_def s3_def r_def get_regs_def) (simp add: put_field_def term_ok_def)
  have f4: "load32 (ram s4) (?t + 4) = 0" "load32 (ram s4) (?t + 52) = k" "load32 (ram s4) ?t = lid s" "load32 (ram s4) (?t + 56) = ?t"
    by (simp_all add: s4_def s3_def pl separate_def)
  have r4: "task_ring [?t] s4" using v4 f4 ap by (simp add: task_ring_def task_next_def)
  let ?a = "[VaWord (load32 (ram s4) (?t + REG_EIP)), VaWord (task_id (ram s4) ?t)]"
  obtain s5 where p5: "kprintf ?f2 ?a s4 = Some s5" and q5: "quiet s4 s5"
    using kprintf_quiet [of ?f2 ?a s4] by (auto simp: text_line_def bytes_def)
  have st: "same_tasks {?t} s4 s5" and v5: "term_ok s5" "skip s5 = skip s4" using quiet_tasks [OF q5 v4(6) assms(2)] by simp_all
  have "lid s3 = lid s" using v2(2) by (simp add: s3_def r_def get_regs_def)
  then have "tasking_init k s = Some s5"
    using p2 p5 v1 by (simp add: tasking_init_def Let_def s1_def s3_def s4_def r_def)
  then show ?thesis using same_tasks_ring [of "[?t]", OF _ r4] st f4 same_tasks_fields [OF st, of ?t] v4 v5
    by (simp add: sleeptime_def entrypoint_def task_id_def same_tasks_def)
qed

subsection \<open>Instances\<close>

text \<open>A kernel with two more tasks, the first of them asleep for 3 turns, a free heap block, and a processor whose switches come
  back at once.\<close>

definition demo_task_ram :: memory where
  "demo_task_ram = store32 0x3038 0x3100 (store32 0x3138 0x3200 (store32 0x3238 0x3000 (store32 0x313C 0x3000 (store32 0x323C 0x3100
     (store32 0x3100 1 (store32 0x3200 2 (store32 0x3104 3 (store32 0x200018 65508 (store32 0x200000 0x10000 (\<lambda>_. 0))))))))))"

definition demo_tasks :: tasking where
  "demo_tasks = pmem.extend (demo_pmem\<lparr>ram := demo_task_ram, kernel_mem := 1,
     kernel_heap_state := \<lparr>fblock = 0x200000, bcnt = 1, mem_in_use = 0, heap_size = 0x10000\<rparr>\<rparr>)
   \<lparr>skip = False, task_current = 0x3000, task_last = 0x3200, task_main = 0x3000, lid = 2\<rparr>"

abbreviation at_once :: "u32 \<Rightarrow> u32 \<Rightarrow> tasking \<Rightarrow> tasking option" where "at_once a b s \<equiv> Some s"

lemma at_once_resumes: "resumes at_once"
proof -
  have "\<exists>m. Some s = Some (s\<lparr>ram := m\<rparr>) \<and> same_outside a 44 (ram s) m" for a and s :: tasking
    by (rule exI [of _ "ram s"]) simp
  then show ?thesis unfolding resumes_def by blast
qed

lemma demo_tasks_facts:
  "ram demo_tasks = demo_task_ram" "kernel_mem demo_tasks \<noteq> 0" "fblock (kernel_heap_state demo_tasks) = 0x200000" "term_ok demo_tasks"
  "\<not> skip demo_tasks" "task_current demo_tasks = 0x3000" "task_last demo_tasks = 0x3200" "task_main demo_tasks = 0x3000" "lid demo_tasks = 2"
  using demo_pmem_facts(6) by (simp_all add: demo_tasks_def pmem.defs) (simp add: term_ok_def pmem.defs)

lemma demo_ring: "task_ring [0x3000, 0x3100, 0x3200] demo_tasks"
  by (simp add: task_ring_def demo_tasks_facts apart_def separate_def)
    (simp add: demo_task_ram_def task_next_def task_prev_def mem_simps separate_def)

lemma demo_heap:
  "heap_block demo_task_ram 0x200000 [(False, 65508)]" "hb_next demo_task_ram 0x200000 = 0" "has_room 0x200000 0x2000 demo_task_ram"
  "hb_size demo_task_ram 0x200000 = 0x10000"
  by (simp_all add: heap_block_def has_room_def demo_task_ram_def mem_simps separate_def flag_word_def load32_zero)


lemma kill_keeps_ring_witness:
  "\<exists>s'. task_kill at_once 0x3100 demo_tasks = Some s' \<and> task_ring [0x3000, 0x3200] s' \<and> task_current s' = 0x3000"
  using kill_keeps_ring [OF at_once_resumes demo_ring, of "0x3100"] by (auto simp: demo_tasks_facts)

lemma kill_pid_removes_witness:
  "\<exists>s'. task_kill_pid at_once 2 demo_tasks = Some (True, s') \<and> task_ring [0x3000, 0x3100] s'"
proof -
  have "task_id demo_task_ram 0x3000 = 0" "task_id demo_task_ram 0x3100 = 1" "task_id demo_task_ram 0x3200 = 2"
    by (simp_all add: task_id_def demo_task_ram_def mem_simps separate_def load32_zero)
  then show ?thesis using kill_pid_removes [OF at_once_resumes demo_ring, of 2]
    by (auto simp: demo_tasks_facts off_screen_def separate_def)
qed


end
