(* ===== verification/TaskSystem.thy ===== *)
theory TaskSystem
  imports TaskSpec
begin

text \<open>
  The task system as a state machine: the operations of \<open>system/task.h\<close> in any order, from \<open>tasking_init\<close> on. Beside the state runs the
  list of tasks an observer would keep; in every reachable state the ring in memory is this list, and no two tasks have the same number.
\<close>

subsection \<open>Steps\<close>

inductive task_step :: "(u32 \<Rightarrow> u32 \<Rightarrow> 'a tasking_scheme \<Rightarrow> 'a tasking_scheme option) \<Rightarrow> u32 list \<times> 'a tasking_scheme
    \<Rightarrow> u32 list \<times> 'a tasking_scheme \<Rightarrow> bool" for switch where
  step_yield: "task_yield switch s = Some s' \<Longrightarrow> task_step switch (ts, s) (ts, s')"
| step_sleep: "t \<in> set ts \<Longrightarrow> task_step switch (ts, s) (ts, task_sleep t n s)"
| step_kill: "t \<in> set ts \<Longrightarrow> t \<noteq> task_main s \<Longrightarrow> task_kill switch t s = Some s' \<Longrightarrow> task_step switch (ts, s) (remove1 t ts, s')"
| step_spawn: "t \<notin> set ts \<Longrightarrow> apart (insert t (set ts)) \<Longrightarrow> off_screen (insert t (set ts)) \<Longrightarrow>
    heap_block (ram s) hb cs \<Longrightarrow> fblock (kernel_heap_state s) = hb \<Longrightarrow> hb_next (ram s) hb = 0 \<Longrightarrow>
    has_room hb 0x2000 (ram s) \<Longrightarrow> first_fit 0x2000 cs = Some (off, cs') \<Longrightarrow> kernel_mem s \<noteq> 0 \<Longrightarrow>
    \<forall>u \<in> insert t (set ts). separate u 64 hb (unat (hb_size (ram s) hb)) \<Longrightarrow> separate 0xB8000 5400 hb (unat (hb_size (ram s) hb)) \<Longrightarrow>
    lid s \<noteq> - 1 \<Longrightarrow> task_spawn switch t main flags s = Some s' \<Longrightarrow> task_step switch (ts, s) (ts @ [t], s')"
| step_other: "same_tasks (set ts) s s' \<Longrightarrow> skip s' = skip s \<Longrightarrow> task_step switch (ts, s) (ts, s')"

text \<open>The last step is any other code of a task: it may do what it likes but write to the tasks and their variables.\<close>

subsection \<open>The invariant\<close>

definition system_ok :: "u32 list \<Rightarrow> 'a tasking_scheme \<Rightarrow> bool" where
  "system_ok ts s \<longleftrightarrow> task_ring ts s \<and> \<not> skip s \<and> term_ok s \<and> off_screen (set ts) \<and>
     inj_on (task_id (ram s)) (set ts) \<and> (\<forall>t \<in> set ts. task_id (ram s) t \<le> lid s)"

lemma system_ok_keep:
  assumes "system_ok ts s" and "task_ring ts s'" and "skip s' = skip s" and "term_ok s \<longrightarrow> term_ok s'" and "lid s' = lid s"
    and "\<forall>u \<in> set ts. task_id (ram s') u = task_id (ram s) u"
  shows "system_ok ts s'"
  using assms inj_on_cong [of "set ts" "task_id (ram s')" "task_id (ram s)"] by (simp add: system_ok_def)

lemma sleep_ok:
  assumes "system_ok ts s" and "t \<in> set ts"
  shows "system_ok ts (task_sleep t n s)"
proof (rule system_ok_keep [OF assms(1)])
  have r: "task_ring ts s" and ap: "apart (set ts)" using assms(1) by (simp_all add: system_ok_def task_ring_def)
  note p = put_sleep [OF ap assms(2)]
  have "linked (ram (task_sleep t n s)) ts"
    by (rule linked_cong [of "ram s"]) (use r in \<open>simp_all add: task_ring_def task_sleep_def p\<close>)
  then show "task_ring ts (task_sleep t n s)"
    using r last_in_set [of ts] by (auto simp: task_ring_def task_sleep_def p)
  show "\<forall>u \<in> set ts. task_id (ram (task_sleep t n s)) u = task_id (ram s) u" by (simp add: task_sleep_def p)
qed (simp_all add: task_sleep_def put_field_def term_ok_def)

lemma step_keeps_ok:
  assumes "resumes switch" and "task_step switch (ts, s) (ts', s')" and ok: "system_ok ts s"
  shows "system_ok ts' s'"
proof -
  have r: "task_ring ts s" "\<not> skip s" "term_ok s" "off_screen (set ts)" "inj_on (task_id (ram s)) (set ts)" "\<forall>t \<in> set ts. task_id (ram s) t \<le> lid s"
    using ok by (simp_all add: system_ok_def)
  from assms(2) show ?thesis
  proof (cases rule: task_step.cases)
    case step_yield
    then show ?thesis using system_ok_keep [OF ok] by (rule_tac yield_keeps [OF assms(1) r(1)]) auto
  next
    case (step_sleep t n)
    then show ?thesis using sleep_ok [OF ok] by simp
  next
    case (step_kill t)
    obtain s1 where s1: "task_kill switch t s = Some s1" "task_ring (remove1 t ts) s1" "\<not> skip s1" "term_ok s \<longrightarrow> term_ok s1" "lid s1 = lid s"
      "\<And>u. u \<in> set ts \<Longrightarrow> task_id (ram s1) u = task_id (ram s) u"
      by (rule kill_step [OF assms(1) r(1) step_kill(2,3)]) blast
    have sub: "set (remove1 t ts) \<subseteq> set ts" by (rule set_remove1_subset)
    have "inj_on (task_id (ram s1)) (set ts)" using r(5) inj_on_cong [of "set ts" "task_id (ram s1)" "task_id (ram s)"] s1(6) by simp
    from inj_on_subset [OF this sub] show ?thesis using step_kill s1 r sub by (auto simp: system_ok_def off_screen_def)
  next
    case (step_spawn t hb cs off cs' main flags)
    obtain s1 where s1: "task_spawn switch t main flags s = Some s1" "task_ring (ts @ [t]) s1" "\<not> skip s1" "task_id (ram s1) t = lid s + 1"
      "term_ok s1" "lid s1 = lid s + 1" "\<forall>u \<in> set ts. task_id (ram s1) u = task_id (ram s) u"
      using spawn_step [OF assms(1) r(1) step_spawn(2-4) r(3) step_spawn(5-12), of main flags] by blast
    have "unat (lid s) \<noteq> 4294967295" using step_spawn(13) unat_minus_1 by (metis word_unat_eq_iff)
    then have lt: "lid s < lid s + 1" by (simp add: word_less_nat_alt unat32_Suc)
    have old: "task_id (ram s1) u < lid s + 1" if "u \<in> set ts" for u using s1(7) r(6) that lt by (metis order.strict_trans1)
    have "inj_on (task_id (ram s1)) (set ts)" using r(5) inj_on_cong [of "set ts" "task_id (ram s1)" "task_id (ram s)"] s1(7) by simp
    moreover have "task_id (ram s1) t \<notin> task_id (ram s1) ` set ts" by (metis old s1(4) image_iff less_irrefl)
    ultimately show ?thesis using step_spawn s1 old by (auto simp: system_ok_def intro: order.strict_implies_order)
  next
    case step_other
    have "system_ok ts s'"
      by (rule system_ok_keep [OF ok same_tasks_ring [OF step_other(2) r(1)] step_other(3)])
        (use step_other(2) same_tasks_fields(3) in \<open>simp_all add: same_tasks_def\<close>, use step_other(2) same_tasks_fields(3) in blast)
    then show ?thesis using step_other(1) by simp
  qed
qed

subsection \<open>Reachable states\<close>

text \<open>The states after \<open>tasking_init\<close>.\<close>

inductive reachable :: "(u32 \<Rightarrow> u32 \<Rightarrow> 'a tasking_scheme \<Rightarrow> 'a tasking_scheme option) \<Rightarrow> u32 list \<Rightarrow> 'a tasking_scheme \<Rightarrow> bool" for switch where
  initial: "term_ok s \<Longrightarrow> off_screen {task_main s} \<Longrightarrow> \<not> skip s \<Longrightarrow> tasking_init k s = Some s' \<Longrightarrow> reachable switch [task_main s] s'"
| further: "reachable switch ts s \<Longrightarrow> task_step switch (ts, s) (ts', s') \<Longrightarrow> reachable switch ts' s'"

lemma reachable_ok:
  assumes "reachable switch ts s" and "resumes switch"
  shows "system_ok ts s"
  using assms(1)
proof (induction rule: reachable.induct)
  case (initial s k s')
  from tasking_init_ring [OF initial(1,2), of k] initial
  show ?case by (auto simp: system_ok_def)
next
  case (further ts s ts' s')
  then show ?case using step_keeps_ok [OF assms(2)] by blast
qed


text \<open>A machine that starts tasking and makes one task.\<close>

definition demo_fresh :: tasking where
  "demo_fresh = demo_tasks\<lparr>lid := 0\<rparr>"

lemma demo_fresh_facts:
  "term_ok demo_fresh" "off_screen {task_main demo_fresh}" "\<not> skip demo_fresh" "task_main demo_fresh = 0x3000"
  using demo_tasks_facts by (simp_all add: demo_fresh_def off_screen_def separate_def term_ok_def)


end
