(* ===== verification/Processor.thy ===== *)
theory Processor
  imports System
begin

text \<open>
  The processor as the inline assembler of \<open>system/task.h\<close> and \<open>mem/paging.h\<close> sees it: the instructions it uses, over the registers and the
  memory. The kernel is compiled with \<open>-O1\<close>, so its functions keep no frame pointer: the stack holds the return address and the
  arguments when the assembler begins, and the compiler's \<open>ret\<close> follows it.
\<close>

subsection \<open>Instructions\<close>

datatype gpr = EAX | EBX | ECX | EDX | ESI | EDI | EBP | ESP

fun gpr_get :: "gpr \<Rightarrow> registers \<Rightarrow> u32" where
  "gpr_get EAX r = eax r"
| "gpr_get EBX r = ebx r"
| "gpr_get ECX r = ecx r"
| "gpr_get EDX r = edx r"
| "gpr_get ESI r = esi r"
| "gpr_get EDI r = edi r"
| "gpr_get EBP r = ebp r"
| "gpr_get ESP r = esp r"

fun gpr_put :: "gpr \<Rightarrow> u32 \<Rightarrow> registers \<Rightarrow> registers" where
  "gpr_put EAX v r = r\<lparr>eax := v\<rparr>"
| "gpr_put EBX v r = r\<lparr>ebx := v\<rparr>"
| "gpr_put ECX v r = r\<lparr>ecx := v\<rparr>"
| "gpr_put EDX v r = r\<lparr>edx := v\<rparr>"
| "gpr_put ESI v r = r\<lparr>esi := v\<rparr>"
| "gpr_put EDI v r = r\<lparr>edi := v\<rparr>"
| "gpr_put EBP v r = r\<lparr>ebp := v\<rparr>"
| "gpr_put ESP v r = r\<lparr>esp := v\<rparr>"

record processor =
  cpu :: registers
  control :: u32
  page_dir :: u32
  mem :: memory

text \<open>\<open>control\<close> is \<open>cr0\<close> and \<open>page_dir\<close> is \<open>cr3\<close>. The six flags an addition sets, and the five an OR does (it leaves the sixth undefined: here, alone).\<close>

definition flag :: "nat \<Rightarrow> bool \<Rightarrow> u32 \<Rightarrow> u32" where
  "flag n b w = (if b then set_bit n w else unset_bit n w)"

definition add_flags :: "u32 \<Rightarrow> u32 \<Rightarrow> u32 \<Rightarrow> u32" where
  "add_flags a b w =
     (let r = a + b in
      flag 0 (r < a) (flag 2 (even (length (List.filter (bit r) [0..<8]))) (flag 4 (bit (a XOR b XOR r) 4)
       (flag 6 (r = 0) (flag 7 (bit r 31) (flag 11 (bit ((a XOR r) AND (b XOR r)) 31) w))))))"

definition or_flags :: "u32 \<Rightarrow> u32 \<Rightarrow> u32" where
  "or_flags r w = flag 0 False (flag 2 (even (length (List.filter (bit r) [0..<8]))) (flag 6 (r = 0) (flag 7 (bit r 31) (flag 11 False w))))"

text \<open>\<open>Load k b d\<close> is \<open>mov k(b), d\<close> and \<open>Store d k b\<close> is \<open>mov d, k(b)\<close>; \<open>XchgTop\<close> exchanges a register with the word the stack
  pointer points at.\<close>

datatype insn = Pusha | Pushf | Popf | Push gpr | Pop gpr | Load u32 gpr gpr | Store gpr u32 gpr | AddImm u32 gpr | XchgTop gpr
  | FromCr3 gpr | ToCr3 gpr | Mov gpr gpr | OrImm u32 gpr | FromCr0 gpr | ToCr0 gpr

definition push_word :: "u32 \<Rightarrow> processor \<Rightarrow> processor" where
  "push_word v p = p\<lparr>cpu := (cpu p)\<lparr>esp := esp (cpu p) - 4\<rparr>, mem := store32 (esp (cpu p) - 4) v (mem p)\<rparr>"

definition pop_word :: "processor \<Rightarrow> u32 \<times> processor" where
  "pop_word p = (load32 (mem p) (esp (cpu p)), p\<lparr>cpu := (cpu p)\<lparr>esp := esp (cpu p) + 4\<rparr>\<rparr>)"

definition in_reg :: "gpr \<Rightarrow> processor \<Rightarrow> u32" where "in_reg d p = gpr_get d (cpu p)"
definition set_reg :: "gpr \<Rightarrow> u32 \<Rightarrow> processor \<Rightarrow> processor" where "set_reg d v p = p\<lparr>cpu := gpr_put d v (cpu p)\<rparr>"

fun exec_insn :: "insn \<Rightarrow> processor \<Rightarrow> processor" where
  "exec_insn Pusha p =
     (let r = cpu p in fold push_word [eax r, ecx r, edx r, ebx r, esp r, ebp r, esi r, edi r] p)"
| "exec_insn Pushf p = push_word (eflags (cpu p)) p"
| "exec_insn Popf p = (case pop_word p of (v, p) \<Rightarrow> p\<lparr>cpu := (cpu p)\<lparr>eflags := v\<rparr>\<rparr>)"
| "exec_insn (Push d) p = push_word (in_reg d p) p"
| "exec_insn (Pop d) p = (case pop_word p of (v, p) \<Rightarrow> set_reg d v p)"
| "exec_insn (Load k b d) p = set_reg d (load32 (mem p) (in_reg b p + k)) p"
| "exec_insn (Store d k b) p = p\<lparr>mem := store32 (in_reg b p + k) (in_reg d p) (mem p)\<rparr>"
| "exec_insn (AddImm v d) p =
     set_reg d (in_reg d p + v) (p\<lparr>cpu := (cpu p)\<lparr>eflags := add_flags (in_reg d p) v (eflags (cpu p))\<rparr>\<rparr>)"
| "exec_insn (XchgTop d) p =
     set_reg d (load32 (mem p) (esp (cpu p))) (p\<lparr>mem := store32 (esp (cpu p)) (in_reg d p) (mem p)\<rparr>)"
| "exec_insn (FromCr3 d) p = set_reg d (page_dir p) p"
| "exec_insn (ToCr3 d) p = p\<lparr>page_dir := in_reg d p\<rparr>"
| "exec_insn (Mov b d) p = set_reg d (in_reg b p) p"
| "exec_insn (OrImm v d) p =
     set_reg d (in_reg d p OR v) (p\<lparr>cpu := (cpu p)\<lparr>eflags := or_flags (in_reg d p OR v) (eflags (cpu p))\<rparr>\<rparr>)"
| "exec_insn (FromCr0 d) p = set_reg d (control p) p"
| "exec_insn (ToCr0 d) p = p\<lparr>control := in_reg d p\<rparr>"

text \<open>The return of the function.\<close>

definition ret_insn :: "processor \<Rightarrow> processor" where
  "ret_insn p = (case pop_word p of (v, p) \<Rightarrow> p\<lparr>cpu := (cpu p)\<lparr>eip := v\<rparr>\<rparr>)"

text \<open>The eleven registers of a task, as the processor holds them.\<close>

definition held_set :: "processor \<Rightarrow> u32 list" where
  "held_set p = (let r = cpu p in
     [eax r, ebx r, ecx r, edx r, esi r, edi r, esp r, ebp r, eip r, eflags r, page_dir p])"

lemma separate_stack:
  "separate (e - a) n (e - b) k = separate b n a k"
  "separate (e - a) n e k = separate 0 n a k"
  "separate (e - a) n (e + b) k = separate 0 n (a + b) k"
  "separate (e - a) n (b + e) k = separate 0 n (a + b) k"
  "separate (e + a) n (e + b) k = separate a n b k"
  "separate e n (e + b) k = separate 0 n b k"
  "separate (e + b) n e k = separate b n 0 k"
  by (simp_all add: separate_def algebra_simps)

lemmas step_simps = push_word_def pop_word_def in_reg_def set_reg_def

subsection \<open>Enabling paging\<close>

definition paging_enable :: "processor \<Rightarrow> processor" where
  "paging_enable p =
     ret_insn (fold exec_insn [Push EBP, Mov ESP EBP, FromCr0 EAX, OrImm 0x80000000 EAX, ToCr0 EAX, Mov EBP ESP, Pop EBP] p)"

text \<open>\<open>paging_enable\<close> sets the paging bit of the control register and returns with every register but \<open>eax\<close> as it was.\<close>

lemma paging_enable_effect:
  fixes p :: processor
  defines "q \<equiv> paging_enable p" and "r \<equiv> ret_insn p"
  shows "control q = control p OR 0x80000000" and "eax (cpu q) = control p OR 0x80000000"
    and "ebx (cpu q) = ebx (cpu r)" and "ecx (cpu q) = ecx (cpu r)" and "edx (cpu q) = edx (cpu r)" and "esi (cpu q) = esi (cpu r)"
    and "edi (cpu q) = edi (cpu r)" and "ebp (cpu q) = ebp (cpu r)" and "esp (cpu q) = esp (cpu r)" and "eip (cpu q) = eip (cpu r)"
    and "page_dir q = page_dir p" and "same_outside (esp (cpu p) - 4) 4 (mem p) (mem q)"
  by (simp_all add: q_def r_def paging_enable_def ret_insn_def step_simps load32_store32 load32_store32_other separate_stack separate_lits
      same_outside_store32)

subsection \<open>Loading a page directory\<close>

definition pagedir_load_body :: "processor \<Rightarrow> processor" where
  "pagedir_load_body p =
     ret_insn (fold exec_insn [Push EBP, Mov ESP EBP, Load 8 ESP EAX, ToCr3 EAX, Mov EBP ESP, Pop EBP] p)"

text \<open>The body of \<open>pagedir_load\<close> loads the argument above the return address, which is how \<open>Paging\<close> takes the call.\<close>

lemma pagedir_load_effect:
  fixes p :: processor
  defines "q \<equiv> pagedir_load_body p" and "r \<equiv> ret_insn p"
  shows "page_dir q = load32 (mem p) (esp (cpu p) + 4)" and "control q = control p"
    and "ebp (cpu q) = ebp (cpu r)" and "esp (cpu q) = esp (cpu r)" and "eip (cpu q) = eip (cpu r)"
    and "same_outside (esp (cpu p) - 4) 4 (mem p) (mem q)"
  by (simp_all add: q_def r_def pagedir_load_body_def ret_insn_def step_simps load32_store32 load32_store32_other separate_stack separate_lits
      same_outside_store32 add.commute [of "esp (cpu p)" 4])

end
