(* ===== verification/TaskSwitch.thy ===== *)
theory TaskSwitch
  imports TaskRing Processor
begin

text \<open>
  The body of \<open>task_switch\<close> (\<open>system/task.h\<close>): the instructions of its inline assembler.
  The function keeps no frame pointer (the kernel is compiled with \<open>-O1\<close>), so when its body begins the stack holds the return address and the
  two arguments, and the body ends in the \<open>ret\<close> of the compiler.
\<close>

subsection \<open>The body\<close>

definition switch_frame :: "insn list" where
  "switch_frame = [Pusha, Pushf, FromCr3 EAX, Push EAX]"

definition switch_save :: "insn list" where
  "switch_save =
    [Load 44 ESP EAX,
     Store EBX 4 EAX, Store ECX 8 EAX, Store EDX 12 EAX, Store ESI 16 EAX, Store EDI 20 EAX,
     Load 36 ESP EBX, Load 40 ESP ECX, Load 20 ESP EDX, AddImm 4 EDX, Load 16 ESP ESI, Load 4 ESP EDI,
     Store EBX 0 EAX, Store EDX 24 EAX, Store ESI 28 EAX, Store ECX 32 EAX, Store EDI 36 EAX,
     Pop EBX, Store EBX 40 EAX, Push EBX]"

definition switch_load :: "insn list" where
  "switch_load =
    [Load 48 ESP EAX,
     Load 4 EAX EBX, Load 8 EAX ECX, Load 12 EAX EDX, Load 16 EAX ESI, Load 20 EAX EDI, Load 28 EAX EBP,
     Push EAX, Load 36 EAX EAX, Push EAX, Popf, Pop EAX,
     Load 24 EAX ESP,
     Push EAX, Load 40 EAX EAX, ToCr3 EAX, Pop EAX,
     Push EAX, Load 32 EAX EAX, XchgTop EAX, Load 0 EAX EAX]"

definition task_switch :: "processor \<Rightarrow> processor" where
  "task_switch p = ret_insn (fold exec_insn (switch_frame @ switch_save @ switch_load) p)"

subsection \<open>What a switch does\<close>

text \<open>The register set stored at an address, as a list in the order of \<open>task_regs_t\<close>.\<close>

definition reg_set :: "memory \<Rightarrow> u32 \<Rightarrow> u32 list" where
  "reg_set m a = map (\<lambda>i. load32 m (a + 4 * of_nat i)) [0..<11]"

lemma reg_set_simps: "reg_set m a = [load32 m a, load32 m (a + 4), load32 m (a + 8), load32 m (a + 12), load32 m (a + 16), load32 m (a + 20),
    load32 m (a + 24), load32 m (a + 28), load32 m (a + 32), load32 m (a + 36), load32 m (a + 40)]"
  by (simp add: reg_set_def upt_rec)

text \<open>The frame: eight registers, the flags and the page directory below the return address.\<close>

lemma frame_effect:
  fixes p :: processor
  defines "e \<equiv> esp (cpu p)"
  obtains m where "fold exec_insn switch_frame p = p\<lparr>cpu := (cpu p)\<lparr>eax := page_dir p, esp := e - 40\<rparr>, mem := m\<rparr>"
    and "same_outside (e - 40) 40 (mem p) m"
    and "load32 m (e - 4) = eax (cpu p)" "load32 m (e - 20) = e" "load32 m (e - 24) = ebp (cpu p)"
    "load32 m (e - 36) = eflags (cpu p)" "load32 m (e - 40) = page_dir p"
proof -
  let ?m = "store32 (e - 40) (page_dir p) (store32 (e - 36) (eflags (cpu p)) (store32 (e - 32) (edi (cpu p))
    (store32 (e - 28) (esi (cpu p)) (store32 (e - 24) (ebp (cpu p)) (store32 (e - 20) e (store32 (e - 16) (ebx (cpu p))
    (store32 (e - 12) (edx (cpu p)) (store32 (e - 8) (ecx (cpu p)) (store32 (e - 4) (eax (cpu p)) (mem p))))))))))"
  have "fold exec_insn switch_frame p = p\<lparr>cpu := (cpu p)\<lparr>eax := page_dir p, esp := e - 40\<rparr>, mem := ?m\<rparr>"
    by (simp add: switch_frame_def step_simps Let_def e_def)
  moreover have "same_outside (e - 40) 40 (mem p) ?m"
    by (intro store32_within same_outside_refl) simp_all
  moreover have "load32 ?m (e - 4) = eax (cpu p)" "load32 ?m (e - 20) = e" "load32 ?m (e - 24) = ebp (cpu p)"
    "load32 ?m (e - 36) = eflags (cpu p)" "load32 ?m (e - 40) = page_dir p"
    by (simp_all add: load32_store32_other load32_store32 separate_stack separate_lits)
  ultimately show ?thesis using that by blast
qed

text \<open>A word of the stack and a member of a register set that lie apart.\<close>

lemma separate_member:
  assumes "separate k n f 44" and "unat i + 4 \<le> n" and "unat j + 4 \<le> 44" and "n \<le> 4294967296"
  shows "separate (k + i) 4 (f + j) 4" and "separate (f + j) 4 (k + i) 4"
proof -
  have "separate (k + of_nat (unat i)) 4 f 44" by (rule separate_sub [OF assms(1,2,4)])
  then have "separate f 44 (k + i) 4" by (simp add: separate_sym)
  then have "separate (f + of_nat (unat j)) 4 (k + i) 4" by (rule separate_sub) (use assms(3) in simp_all)
  then show "separate (f + j) 4 (k + i) 4" "separate (k + i) 4 (f + j) 4" by (simp_all add: separate_sym)
qed

lemmas separate_members = separate_member [where j = 0, simplified] separate_member [where i = 0, simplified]
  separate_member [where i = 0 and j = 0, simplified] separate_member

text \<open>Saving: the eleven registers of the caller, as they will be when the function returns.\<close>

lemma save_effect:
  fixes q :: processor
  defines "k \<equiv> esp (cpu q)" and "f \<equiv> load32 (mem q) (esp (cpu q) + 44)"
  assumes "separate k 52 f 44"
  obtains r m where "fold exec_insn switch_save q = q\<lparr>cpu := r, mem := m\<rparr>" and "esp r = k"
    and "reg_set m f = [load32 (mem q) (k + 36), ebx (cpu q), ecx (cpu q), edx (cpu q), esi (cpu q), edi (cpu q),
      load32 (mem q) (k + 20) + 4, load32 (mem q) (k + 16), load32 (mem q) (k + 40), load32 (mem q) (k + 4), load32 (mem q) k]"
    and "\<And>x. \<not> in_range f 44 x \<Longrightarrow> \<not> in_range k 4 x \<Longrightarrow> m x = mem q x"
proof -
  note sep = separate_members [OF assms(3)]
  let ?l = "\<lambda>i. load32 (mem q) (k + i)"
  let ?m1 = "store32 (f + 20) (edi (cpu q)) (store32 (f + 16) (esi (cpu q)) (store32 (f + 12) (edx (cpu q))
    (store32 (f + 8) (ecx (cpu q)) (store32 (f + 4) (ebx (cpu q)) (mem q)))))"
  let ?m2 = "store32 (f + 36) (?l 4) (store32 (f + 32) (?l 40) (store32 (f + 28) (?l 16) (store32 (f + 24) (?l 20 + 4) (store32 f (?l 36) ?m1))))"
  let ?m = "store32 k (load32 (mem q) k) (store32 (f + 40) (load32 (mem q) k) ?m2)"
  have m1: "load32 ?m1 (k + i) = ?l i" if "unat i + 4 \<le> 52" for i
    using that by (simp add: load32_store32_other sep)
  have m2: "load32 ?m2 k = load32 (mem q) k"
    by (simp add: load32_store32_other sep)
  let ?r = "(cpu q)\<lparr>eax := f, ebx := load32 (mem q) k, ecx := ?l 40, edx := ?l 20 + 4, esi := ?l 16, edi := ?l 4,
    eflags := add_flags (?l 20) 4 (eflags (cpu q)), esp := k\<rparr>"
  have "fold exec_insn switch_save q = q\<lparr>cpu := ?r, mem := ?m\<rparr>"
    using m1 m2 by (simp add: switch_save_def step_simps k_def f_def)
  moreover have "esp ?r = k" by simp
  moreover have "reg_set ?m f = [?l 36, ebx (cpu q), ecx (cpu q), edx (cpu q), esi (cpu q), edi (cpu q), ?l 20 + 4, ?l 16, ?l 40, ?l 4, load32 (mem q) k]"
    by (simp add: reg_set_simps load32_store32_other load32_store32 sep separate_stack separate_lits)
  moreover have "?m x = mem q x" if "\<not> in_range f 44 x" "\<not> in_range k 4 x" for x
  proof -
    have "same_outside f 44 (mem q) (store32 (f + 40) (load32 (mem q) k) ?m2)" by (intro store32_within same_outside_refl) simp_all
    then show ?thesis using that by (simp add: store32_outside same_outsideD)
  qed
  ultimately show ?thesis using that by blast
qed

text \<open>Loading: the processor ends with the register set of the other task and goes on where its \<open>eip\<close> says.\<close>

lemma load_effect:
  fixes q :: processor
  defines "k \<equiv> esp (cpu q)" and "t \<equiv> load32 (mem q) (esp (cpu q) + 48)"
  defines "n \<equiv> load32 (mem q) (t + 24)"
  assumes "separate (k - 8) 8 t 44" and "separate (n - 4) 4 t 44"
  obtains p where "ret_insn (fold exec_insn switch_load q) = p" and "held_set p = reg_set (mem q) t"
    and "\<And>x. \<not> in_range (k - 8) 8 x \<Longrightarrow> \<not> in_range (n - 4) 4 x \<Longrightarrow> mem p x = mem q x"
proof -
  let ?l = "\<lambda>i. load32 (mem q) (t + i)"
  let ?m1 = "store32 (k - 8) (?l 36) (store32 (k - 4) t (mem q))"
  let ?m2 = "store32 (n - 4) t ?m1"
  let ?m = "store32 (n - 4) (?l 32) (store32 (n - 4) t ?m2)"
  let ?p = "q\<lparr>cpu := (cpu q)\<lparr>eax := load32 (mem q) t, ebx := ?l 4, ecx := ?l 8, edx := ?l 12, esi := ?l 16, edi := ?l 20, ebp := ?l 28,
    esp := n, eip := ?l 32, eflags := ?l 36\<rparr>, page_dir := ?l 40, mem := ?m\<rparr>"
  have k4: "separate (k - 4) 4 (t + j) 4" "separate (k - 4) 4 t 4" "separate (k - 8) 4 (t + j) 4" "separate (k - 8) 4 t 4"
    "separate (n - 4) 4 (t + j) 4" "separate (n - 4) 4 t 4" if "unat j + 4 \<le> 44" for j
    using separate_member(1) [OF assms(4), of 4 j] separate_member(1) [OF assms(4), of 4 0] separate_member(1) [OF assms(4), of 0 j] separate_member(1) [OF assms(4), of 0 0]
      separate_member(1) [OF assms(5), of 0 j] separate_member(1) [OF assms(5), of 0 0] that
    by (simp_all add: diff_add_eq)
  have t36: "load32 (store32 (k - 4) t (mem q)) (t + 36) = ?l 36"
    by (simp add: load32_store32_other k4)
  have m1: "load32 ?m1 (t + j) = ?l j" "load32 ?m1 t = load32 (mem q) t" if "unat j + 4 \<le> 44" for j
    using k4 [OF that] by (simp_all add: load32_store32_other)
  have pops: "load32 ?m1 (k - 8) = ?l 36" "load32 ?m1 (k - 4) = t"
    by (simp_all add: load32_store32 load32_store32_other separate_stack separate_lits)
  have m2: "load32 ?m2 (t + j) = ?l j" "load32 ?m2 t = load32 (mem q) t" if "unat j + 4 \<le> 44" for j
    using k4 [OF that] m1 [OF that] by (simp_all add: load32_store32_other)
  have m3: "load32 ?m (t + j) = ?l j" "load32 ?m t = load32 (mem q) t" "load32 (store32 (n - 4) t ?m2) (t + j) = ?l j" if "unat j + 4 \<le> 44" for j
    using k4 [OF that] m2 [OF that] by (simp_all add: load32_store32_other)
  have top: "load32 ?m2 (n - 4) = t" "load32 (store32 (n - 4) t ?m2) (n - 4) = t" "load32 ?m (n - 4) = ?l 32"
    by (simp_all add: load32_store32)
  have "ret_insn (fold exec_insn switch_load q) = ?p"
    using t36 m1(1) m1(2) [of 0] m2(1) m2(2) [of 0] m3(1,3) m3(2) [of 0] pops top by (simp add: switch_load_def ret_insn_def step_simps k_def t_def n_def)
  moreover have "held_set ?p = reg_set (mem q) t"
    by (simp add: held_set_def reg_set_simps n_def)
  moreover have "mem ?p x = mem q x" if "\<not> in_range (k - 8) 8 x" "\<not> in_range (n - 4) 4 x" for x
  proof -
    have "same_outside (k - 8) 8 (mem q) ?m1" by (intro store32_within same_outside_refl) simp_all
    then show ?thesis using that by (simp add: store32_outside same_outsideD)
  qed
  ultimately show ?thesis using that by blast
qed

text \<open>A call of \<open>task_switch\<close>: the arguments are above the return address, the register sets are off the stack in use, and a different
  task has four bytes below its own stack pointer, for the address it goes on at.\<close>

definition switch_call :: "u32 \<Rightarrow> u32 \<Rightarrow> processor \<Rightarrow> bool" where
  "switch_call from_regs to_regs p \<longleftrightarrow>
     (let e = esp (cpu p); n = load32 (mem p) (to_regs + 24) in
      load32 (mem p) (e + 4) = from_regs \<and> load32 (mem p) (e + 8) = to_regs
      \<and> separate (e - 48) 60 from_regs 44 \<and> separate (e - 48) 60 to_regs 44
      \<and> (to_regs = from_regs \<or> separate from_regs 44 to_regs 44 \<and> separate (n - 4) 4 from_regs 44 \<and> separate (n - 4) 4 to_regs 44))"

lemma reg_set_cong:
  assumes "\<And>x. in_range a 44 x \<Longrightarrow> m' x = m x"
  shows "reg_set m' a = reg_set m a"
proof -
  have "load32 m' (a + 4 * of_nat i) = load32 m (a + 4 * of_nat i)" if "i < 11" for i
  proof (rule load32_cong)
    fix x assume "in_range (a + 4 * of_nat i) 4 x"
    then have "in_range a 44 x" using in_range_sub [of a "4 * i" 4 x 44] that by simp
    then show "m' x = m x" by (rule assms)
  qed
  then show ?thesis by (simp add: reg_set_def)
qed

lemma switch_body:
  fixes p :: processor
  assumes "switch_call f t p"
  obtains p' where "task_switch p = p'" and "reg_set (mem p') f = held_set (ret_insn p)"
    and "held_set p' = (if t = f then held_set (ret_insn p) else reg_set (mem p) t)"
    and "\<And>x. \<not> in_range f 44 x \<Longrightarrow> \<not> in_range (esp (cpu p) - 48) 52 x \<Longrightarrow> t = f \<or> \<not> in_range (load32 (mem p) (t + 24) - 4) 4 x \<Longrightarrow> mem p' x = mem p x"
proof -
  define e where "e = esp (cpu p)"
  have args: "load32 (mem p) (e + 4) = f" "load32 (mem p) (e + 8) = t" and sf: "separate (e - 48) 60 f 44" and st: "separate (e - 48) 60 t 44"
    and ft: "t \<noteq> f \<Longrightarrow> separate f 44 t 44 \<and> separate (load32 (mem p) (t + 24) - 4) 4 f 44 \<and> separate (load32 (mem p) (t + 24) - 4) 4 t 44"
    using assms by (auto simp: switch_call_def Let_def e_def)
  obtain m1 where m1: "fold exec_insn switch_frame p = p\<lparr>cpu := (cpu p)\<lparr>eax := page_dir p, esp := e - 40\<rparr>, mem := m1\<rparr>"
    and o1: "same_outside (e - 40) 40 (mem p) m1"
    and l1: "load32 m1 (e - 4) = eax (cpu p)" "load32 m1 (e - 20) = e" "load32 m1 (e - 24) = ebp (cpu p)"
      "load32 m1 (e - 36) = eflags (cpu p)" "load32 m1 (e - 40) = page_dir p"
    unfolding e_def by (rule frame_effect)
  have up: "load32 m1 (e + 4) = f" "load32 m1 (e + 8) = t" "load32 m1 e = load32 (mem p) e"
    using args by (simp_all add: load32_same_outside [OF o1] separate_stack separate_lits)
  then have up': "load32 m1 (4 + e) = f" "load32 m1 (8 + e) = t" by (simp_all add: add.commute)
  let ?q = "p\<lparr>cpu := (cpu p)\<lparr>eax := page_dir p, esp := e - 40\<rparr>, mem := m1\<rparr>"
  have "separate (e - 48 + of_nat 8) 52 f 44" by (rule separate_sub [OF sf]) simp_all
  then have "separate (e - 40) 52 f 44" by simp
  then obtain r m2 where m2: "fold exec_insn switch_save ?q = ?q\<lparr>cpu := r, mem := m2\<rparr>" "esp r = e - 40"
    and s2: "reg_set m2 f = held_set (ret_insn p)"
    and o2: "\<And>x. \<not> in_range f 44 x \<Longrightarrow> \<not> in_range (e - 40) 4 x \<Longrightarrow> m2 x = m1 x"
    using save_effect [of ?q] l1 up up' by (simp add: held_set_def ret_insn_def pop_word_def Let_def flip: e_def) blast
  have o12: "m2 x = mem p x" if "\<not> in_range f 44 x" "\<not> in_range (e - 48) 48 x" for x
  proof -
    have "\<not> in_range (e - 40) 40 x" using that(2) in_range_sub [of "e - 48" 8 40 x 48] by auto
    then show ?thesis using that(1) o2 [of x] same_outsideD [OF o1] in_range_mono [of "e - 40" 4 x 40] by auto
  qed
  have "load32 m2 (e + 8) = t"
  proof -
    have "separate (e - 48 + of_nat 56) 4 f 44" by (rule separate_sub [OF sf]) simp_all
    then have "separate (e + 8) 4 f 44" by (simp add: add.commute)
    moreover have "separate (e + 8) 4 (e - 48) 48" by (simp add: separate_def)
    ultimately have "load32 m2 (e + 8) = load32 (mem p) (e + 8)" by (intro load32_cong o12) (auto dest: separateD)
    then show ?thesis by (simp add: args)
  qed
  have set_t: "reg_set m2 t = (if t = f then held_set (ret_insn p) else reg_set (mem p) t)"
  proof (cases "t = f")
    case False
    then have "separate f 44 t 44" using ft by blast
    moreover have "separate (e - 48) 48 t 44" using st by (rule separate_le) simp_all
    ultimately have "reg_set m2 t = reg_set (mem p) t" by (intro reg_set_cong o12) (auto dest: separateD)
    then show ?thesis using False by simp
  qed (simp add: s2)
  define n where "n = load32 m2 (t + 24)"
  have n: "n = (if t = f then e + 4 else load32 (mem p) (t + 24))"
    using set_t by (auto simp: n_def reg_set_simps held_set_def ret_insn_def pop_word_def Let_def e_def split: if_splits)
  have sn: "separate (n - 4) 4 t 44" "separate (n - 4) 4 f 44"
  proof -
    have "separate (e - 48 + of_nat 48) 4 t 44" by (rule separate_sub [OF st]) simp_all
    then show "separate (n - 4) 4 t 44" "separate (n - 4) 4 f 44" using ft n by (cases "t = f"; simp)+
  qed
  let ?q2 = "?q\<lparr>cpu := r, mem := m2\<rparr>"
  have "separate (e - 48) 8 t 44" using st by (rule separate_le) simp_all
  then obtain p' where p': "ret_insn (fold exec_insn switch_load ?q2) = p'" "held_set p' = reg_set m2 t"
    and o3: "\<And>x. \<not> in_range (e - 48) 8 x \<Longrightarrow> \<not> in_range (n - 4) 4 x \<Longrightarrow> mem p' x = m2 x"
    using load_effect [of ?q2] m2(2) sn(1) \<open>load32 m2 (e + 8) = t\<close> by (simp add: n_def add.commute) blast
  have "separate (e - 48) 8 f 44" using sf by (rule separate_le) simp_all
  then have "reg_set (mem p') f = reg_set m2 f" using sn(2) by (intro reg_set_cong o3) (auto dest: separateD)
  moreover have "task_switch p = p'" using p'(1) m1 m2(1) by (simp add: task_switch_def)
  moreover have "mem p' x = mem p x" if "\<not> in_range f 44 x" "\<not> in_range (esp (cpu p) - 48) 52 x"
    "t = f \<or> \<not> in_range (load32 (mem p) (t + 24) - 4) 4 x" for x
  proof -
    have i: "\<not> in_range (e - 48) 48 x" "\<not> in_range (e - 48) 8 x" "\<not> in_range e 4 x"
      using that(2) in_range_sub [of "e - 48" 48 4 x 52] by (auto simp: e_def intro: in_range_mono)
    then have "\<not> in_range (n - 4) 4 x" using that(3) n by (auto split: if_splits)
    then show ?thesis using o3 i(2) o12 i(1) that(1) by simp
  qed
  ultimately show ?thesis using that p'(2) s2 set_t by simp
qed

text \<open>C20. \<open>task_switch\<close> exchanges register sets: the caller's registers, as its call will return with them, are stored in the set of the task that
  gives the processor up, and the processor goes on with the set of the other task, or returns at once when that is the same task. Memory changes
  only in the stored set and on the two stacks below what is in use there.\<close>

theorem switch_exchanges:
  assumes "switch_call f t p"
  shows "reg_set (mem (task_switch p)) f = held_set (ret_insn p)
    \<and> held_set (task_switch p) = (if t = f then held_set (ret_insn p) else reg_set (mem p) t)
    \<and> (\<forall>x. \<not> in_range f 44 x \<longrightarrow> \<not> in_range (esp (cpu p) - 48) 52 x \<longrightarrow> t = f \<or> \<not> in_range (load32 (mem p) (t + 24) - 4) 4 x
        \<longrightarrow> mem (task_switch p) x = mem p x)"
  using switch_body [OF assms] by metis

text \<open>C19. A task that calls \<open>task_switch\<close> and whose register set is left alone gets control back, when some other task later switches to it, exactly as
  from a function call: at its return address, with every register, its flags and its page directory as they were.\<close>

theorem context_switch_roundtrip:
  assumes "switch_call a b p" and "switch_call c a q" and "c \<noteq> a" and "reg_set (mem q) a = reg_set (mem (task_switch p)) a"
  shows "held_set (task_switch q) = held_set (ret_insn p)"
  using switch_body [OF assms(1)] switch_body [OF assms(2)] assms(3,4) by metis

definition demo_processor :: "u32 \<Rightarrow> u32 \<Rightarrow> u32 \<Rightarrow> memory \<Rightarrow> processor" where
  "demo_processor e f t m =
     \<lparr>cpu = \<lparr>ds_reg = 16, edi = 1, esi = 2, ebp = 3, esp = e, ebx = 4, edx = 5, ecx = 6, eax = 7, int_no = 0, err_code = 0, eip = 0, cs_reg = 8,
        eflags = 0x202, useresp = 0, ss_reg = 16\<rparr>,
      control = 0x11, page_dir = 0, mem = store32 e 0x100123 (store32 (e + 4) f (store32 (e + 8) t m))\<rparr>"

definition demo_caller :: processor where
  "demo_caller = demo_processor 0x8000 0x9000 0xA000 (store32 0xA018 0x7010 (\<lambda>_. 0))"

lemmas demo_simps = demo_caller_def demo_processor_def load32_store32 load32_store32_other load32_zero separate_lits

lemma demo_caller_calls: "switch_call 0x9000 0xA000 demo_caller"
  by (simp add: switch_call_def demo_simps)

theorem switch_exchanges_witness:
  "held_set (task_switch demo_caller) = [0, 0, 0, 0, 0, 0, 0x7010, 0, 0, 0, 0]"
  using switch_exchanges [OF demo_caller_calls] by (simp add: reg_set_simps demo_simps)

text \<open>The other task, whose stack pointer is \<open>0x7010\<close> when it gets the processor, calls back from deeper in its stack.\<close>

definition demo_callee :: processor where
  "demo_callee = demo_processor 0x7000 0xA000 0x9000 (mem (task_switch demo_caller))"

lemma demo_saved: "reg_set (mem (task_switch demo_caller)) 0x9000 = [7, 4, 6, 5, 2, 1, 0x8004, 3, 0x100123, 0x202, 0]"
  by (rule switch_body [OF demo_caller_calls]) (simp add: held_set_def ret_insn_def pop_word_def demo_simps)

theorem context_switch_roundtrip_witness:
  "held_set (task_switch demo_callee) = held_set (ret_insn demo_caller)"
proof (rule context_switch_roundtrip [of "0x9000" "0xA000" _ "0xA000"])
  show "reg_set (mem demo_callee) 0x9000 = reg_set (mem (task_switch demo_caller)) 0x9000"
    by (simp add: demo_callee_def demo_processor_def reg_set_simps load32_store32_other separate_lits)
  show "switch_call 0xA000 0x9000 demo_callee"
    using demo_saved by (simp add: switch_call_def demo_callee_def demo_processor_def reg_set_simps load32_store32 load32_store32_other separate_lits)
qed (use demo_caller_calls in simp_all)

end
