(* ===== verification/Spec2Isabelle.thy ===== *)
theory Spec2Isabelle
  imports FileSystem KernelHeap PageMap Tokens Font Printf Cmos Interrupts Typing AtaDrive ProgramSpec BootSpec TaskSystem TaskSwitch
begin

text \<open>
  Owmice is a 32-bit operating system in one address space: a boot loader starts \<open>kmain\<close>, which sets up interrupts, terminal,
  memory and a ram disk, and runs a shell from the ram disk; the shell and the other programs reach the kernel through a table
  of 24 calls. This library models the C code of the repository and proves what its components promise.

  \<^bold>\<open>Machine.\<close> Memory is one function from 32-bit addresses to bytes (\<open>memory\<close>, theory \<open>Prelude\<close>): the kernel runs without
  paging, so structures, strings, bitmaps, heap headers, page tables, the screen and the ram disk all live in it at the
  offsets an i386 compiler gives them, are read and written by \<open>load32\<close>, \<open>store32\<close> and \<open>write_bytes\<close>, and may alias.
  Scalars that nothing takes the address of are fields of the state record. Ports are a log of the accesses made (\<open>io\<close>, newest first)
  over a device that answers as a function of that log. The state grows by one record extension per component, in the
  order of the includes: \<open>machine\<close>, \<open>idt\<close>, \<open>terminal\<close>, \<open>system\<close>, \<open>timer\<close>, \<open>cmos\<close>, \<open>keyboard\<close>, \<open>pmem\<close>, \<open>paging\<close>, \<open>ramdisk\<close>, \<open>kernel\<close>,
  \<open>owshell\<close>; operations are polymorphic in the fields that later components add.
  \<open>None\<close> is a run that does not return (an endless loop or a wait for interrupts that do not come, a division fault, a
  format without its argument); a \<open>kernel_result\<close> adds \<open>Inl\<close> for a run that ended in \<open>die\<close> with the processor halted.

  \<^bold>\<open>Theories, and the code under \<open>src\<close> they model.\<close>
  \<^item> \<open>Prelude\<close>: words, address ranges (\<open>in_range\<close>, \<open>separate\<close>, \<open>same_outside\<close>), loads and stores, C strings (\<open>cstring\<close>).
  \<^item> \<open>MemOps\<close>, \<open>Strings\<close>, \<open>Tokens\<close>, \<open>Printf\<close>: \<open>standard/stdio.h\<close> and \<open>standard/strings.h\<close>. Copying with overlap, comparison, \<open>itoa\<close> and
    \<open>atoi\<close> with their round trip, \<open>strtok\<close> on a command line, and \<open>printf\<close> against \<open>render\<close>, a function from a format and the
    meanings of its arguments to characters; the locale \<open>char_sink\<close> is what \<open>printf\<close> needs of its output, interpreted on the terminal.
  \<^item> \<open>Ports\<close>, \<open>Interrupts\<close>: \<open>io/idt.h\<close>, gates, controllers and the two handlers installed; the locale \<open>interrupts\<close> (theory
    \<open>System\<close>) is what a waiting loop relies on, interpreted on the kernel's handlers.
  \<^item> \<open>Vga\<close>, \<open>VgaMode\<close>, \<open>Font\<close>, \<open>Terminal\<close>, \<open>Screen\<close>: \<open>screen/vga.h\<close> and \<open>screen/terminal.h\<close>. \<open>VgaMode\<close> gives the adapter's register
    files as a function of the port log and shows that the kernel's register table ends there and means 30 rows of 90 characters;
    \<open>Font\<close> holds the bitmaps and shows that loading one puts every glyph where the adapter reads it. \<open>Screen\<close> states the terminal as a table of cells with a
    cursor, which \<open>term_putchar\<close> refines, and that printing stays inside the screen and off the status bar.
  \<^item> \<open>System\<close>, \<open>Cmos\<close>, \<open>Keyboard\<close>, \<open>Typing\<close>: \<open>system/system.h\<close>, \<open>io/timer.h\<close>, \<open>io/cmos.h\<close>, \<open>io/keyboard.h\<close>. \<open>sleep\<close> returns after
    the right number of ticks, \<open>now\<close> is Unix time, the keyboard handler refines a line editor on scan codes, and a
    program waiting for a line gets what was typed, however timer interrupts come in between.
  \<^item> \<open>Heap\<close>, \<open>HeapFree\<close>, \<open>KernelHeap\<close>, \<open>HeapUse\<close>: \<open>mem/heap.h\<close>. Blocks of chunks in memory are abstracted to lists of chunks;
    allocation is first fit on the list and freeing marks and merges. The locale \<open>allocator\<close> is what callers of \<open>malloc\<close>
    rely on (regions large enough, apart, kept until freed), interpreted on the heap; \<open>HeapUse\<close> is how its clients use it.
  \<^item> \<open>Pmem\<close>, \<open>Blocks\<close>, \<open>MemSpec\<close>: \<open>mem/mem.h\<close>, \<open>standard/bitmap.h\<close> and the fields of \<open>misc/multiboot.h\<close> the kernel reads. The bitmap
    is abstracted to the set of used blocks; the locale \<open>block_allocator\<close> is interpreted on it.
  \<^item> \<open>Paging\<close>, \<open>PageWalk\<close>, \<open>PageMap\<close>: \<open>mem/paging.h\<close>. \<open>PageWalk\<close> states the processor's translation of an address; \<open>map_page\<close>,
    \<open>map_pages\<close> and \<open>free_page\<close> change it for the pages they name and for no other.
  \<^item> \<open>Initrd\<close>, \<open>Ramdisk\<close>, \<open>Mount\<close>, \<open>Image\<close>, \<open>Packer\<close>, \<open>FileSystem\<close>, \<open>Exec\<close>: \<open>io/vfs.h\<close>, \<open>io/initrd.h\<close> and \<open>utils/put_to_ramdisk.c\<close>. Mounting
    an image gives nodes that the locale \<open>file_store\<close> describes as a list of named files; what the packer wrote is found by name
    and read back. \<open>Exec\<close> is the running of a file: it is called with its contents in place, and the shell it displaced is put back.
  \<^item> \<open>Ata\<close>, \<open>AtaDrive\<close>: \<open>io/ATA.h\<close> and, as the device behind its ports, a drive that follows the documented PIO protocol; a
    written sector is read back.
  \<^item> \<open>Kcall\<close>: \<open>system/kernel_call.h\<close> and \<open>standard/owapi.h\<close>; each wrapper has the effect of its kernel function, with a result of the type
    the wrapper reads.
  \<^item> \<open>Programs\<close>, \<open>ProgramSpec\<close>: \<open>programs/owshell.c\<close> and the other C programs over the call interface as an argument; the shell
    runs the file a command line names and hands it the rest of the line.
  \<^item> \<open>Boot\<close>, \<open>BootSpec\<close>: \<open>kernel.c\<close>; \<open>kmain\<close> does not return, and the shell it starts is the file that \<open>autostart.dat\<close> names
    (\<open>BootSpec\<close> composes terminal, heap, ram disk and string library; it needs the memory for the name to be clear, as the code does).
  \<^item> \<open>Tasks\<close>, \<open>TaskRing\<close>, \<open>TaskSpec\<close>, \<open>TaskSystem\<close>, \<open>Processor\<close>, \<open>TaskSwitch\<close>: \<open>system/task.h\<close>, cooperative tasks (not yet included by \<open>kernel.c\<close>). The structures are abstracted
    to the list of their addresses; every operation keeps the ring, and yielding starves no task. \<open>TaskSystem\<close> makes them the steps of a state machine whose reachable states are consistent.
    \<open>TaskSwitch\<close> runs the instructions of \<open>task_switch\<close> on the machine of \<open>Processor\<close>: a task gets the processor back as from a
    function call. \<open>Processor\<close> also runs \<open>paging_enable\<close> and \<open>pagedir_load\<close> of \<open>mem/paging.h\<close>.

  \<^bold>\<open>Loops.\<close> Loops over a counter are folds or structural recursion over the indices. Loops that scan memory or walk the heap
  are \<open>partial_function (option)\<close>, and the theorems about them prove that they return. Waiting loops recurse on the list of the
  interrupts still to come; \<open>kbdmove_loop\<close>, which runs as long as the user plays, counts the rounds it may take with fuel. No
  theorem bounds an input by fuel.

  \<^bold>\<open>Arguments of the model.\<close> What runs outside the C code is an argument of the definitions that use it: a loaded program
  (\<open>run\<close>), the assembler routine \<open>create_gdt\<close>, the switch of tasks as the
  code around it sees it (\<open>switch\<close>; the theorems on the ring assume that the processor comes back having stored only the registers of the task
  that gave it up; \<open>TaskSwitch\<close> shows what the instructions store, and that a task which switches to itself comes back at once), the registers the processor holds (\<open>cpu_regs\<close>), addresses the linker chooses, and the address \<open>stk\<close> of
  a local variable that \<open>k_heapLCABFree\<close> mistakes for a header.

  \<^bold>\<open>Not modelled.\<close> The assembler files, inline assembler other than \<open>task_switch\<close>, \<open>paging_enable\<close> and \<open>pagedir_load\<close>, except by its effect on registers, ports and
  flags; code that cannot be reached (\<open>paging_init\<close> and \<open>test_disk\<close> after their first return); undefined behaviour of C beyond wrapping and stray
  addresses, which are modelled as the machine executes them; concurrency, as interrupts only take effect where the code waits for them.
\<close>

end
